(* ===== verification/Prelude.thy ===== *)
theory Prelude
  imports Main "HOL-Library.Word" "HOL-Library.Char_ord" "HOL-Library.List_Lexorder"
begin

text \<open>
  Shared vocabulary of the development: bytes and machine integers, the result and poll
  types the Rust code returns, the integer operations of the standard library it relies
  on, transition systems with their reachable states, and the interfaces (locales) that
  several components provide: an inductive invariant, a cell that keeps the first value
  written to it, and a flag that is never cleared.
\<close>

section \<open>Automation collections\<close>

named_theorems path_simps \<open>equations of the path model\<close>
named_theorems inv_intros \<open>introduction rules for component invariants\<close>

section \<open>Machine types\<close>

type_synonym byte = "8 word"
type_synonym u32 = "32 word"
type_synonym u64 = "64 word"

text \<open>\<open>usize\<close> is kept as a natural number; where the code subtracts with an atomic
  \<open>fetch_sub\<close> the wrap-around of a 64-bit target is written out.\<close>

type_synonym usize = nat

definition usize_max :: nat where
  "usize_max = 2 ^ 64 - 1"

definition u64_max :: nat where
  "u64_max = 2 ^ 64 - 1"

definition u16_max :: nat where
  "u16_max = 65535"

definition fetch_sub :: "usize \<Rightarrow> usize \<Rightarrow> usize" where
  "fetch_sub old n = (if n \<le> old then old - n else old + 2 ^ 64 - n)"

lemma fetch_sub_le [simp]: "n \<le> old \<Longrightarrow> fetch_sub old n = old - n"
  by (simp add: fetch_sub_def)

definition u64_saturating_add :: "nat \<Rightarrow> nat \<Rightarrow> nat" where
  "u64_saturating_add a b = min (a + b) u64_max"

definition u64_checked_add :: "nat \<Rightarrow> nat \<Rightarrow> nat option" where
  "u64_checked_add a b = (if a + b \<le> u64_max then Some (a + b) else None)"

text \<open>\<open>u64::try_from\<close> of a wider signed value.\<close>

definition u64_try_from :: "int \<Rightarrow> nat option" where
  "u64_try_from i = (if 0 \<le> i \<and> i \<le> int u64_max then Some (nat i) else None)"

lemma u64_try_from_SomeD: "u64_try_from i = Some n \<Longrightarrow> int n = i \<and> n \<le> u64_max"
  by (auto simp: u64_try_from_def split: if_splits)

section \<open>Results and polls\<close>

text \<open>A Rust \<open>Result\<close> is a sum with the error on the left.\<close>

type_synonym ('e, 'a) res = "'e + 'a"

datatype 'a poll = Ready 'a | Pending

fun bind_res :: "'e + 'a \<Rightarrow> ('a \<Rightarrow> 'e + 'b) \<Rightarrow> 'e + 'b" where
  "bind_res (Inl e) k = Inl e"
| "bind_res (Inr a) k = k a"

fun map_err :: "('e \<Rightarrow> 'f) \<Rightarrow> 'e + 'a \<Rightarrow> 'f + 'a" where
  "map_err f (Inl e) = Inl (f e)"
| "map_err f (Inr a) = Inr a"

fun map_ok :: "('a \<Rightarrow> 'b) \<Rightarrow> 'e + 'a \<Rightarrow> 'e + 'b" where
  "map_ok f (Inl e) = Inl e"
| "map_ok f (Inr a) = Inr (f a)"

fun is_ok :: "'e + 'a \<Rightarrow> bool" where
  "is_ok (Inl e) = False"
| "is_ok (Inr a) = True"

lemma bind_res_Inr_iff: "bind_res r k = Inr b \<longleftrightarrow> (\<exists>a. r = Inr a \<and> k a = Inr b)"
  by (cases r) auto

lemma bind_res_Inl_iff:
  "bind_res r k = Inl e \<longleftrightarrow> r = Inl e \<or> (\<exists>a. r = Inr a \<and> k a = Inl e)"
  by (cases r) auto

lemma map_err_Inr_iff [simp]: "map_err f r = Inr a \<longleftrightarrow> r = Inr a"
  by (cases r) auto

lemma map_err_Inl_iff: "map_err f r = Inl e \<longleftrightarrow> (\<exists>e'. r = Inl e' \<and> e = f e')"
  by (cases r) auto

lemma map_ok_Inr_iff: "map_ok f r = Inr b \<longleftrightarrow> (\<exists>a. r = Inr a \<and> b = f a)"
  by (cases r) auto

lemma map_ok_Inl_iff [simp]: "map_ok f r = Inl e \<longleftrightarrow> r = Inl e"
  by (cases r) auto

lemmas res_iffs = bind_res_Inr_iff bind_res_Inl_iff map_err_Inl_iff map_ok_Inr_iff

text \<open>Fallible operations on a state: the state survives an error as the operation left it.\<close>

fun bind_st :: "('e + 'a) \<times> 's \<Rightarrow> ('a \<Rightarrow> 's \<Rightarrow> ('e + 'b) \<times> 's) \<Rightarrow> ('e + 'b) \<times> 's" where
  "bind_st (Inl e, s) k = (Inl e, s)"
| "bind_st (Inr a, s) k = k a s"

definition map_err_st :: "('e \<Rightarrow> 'g) \<Rightarrow> ('e + 'a) \<times> 's \<Rightarrow> ('g + 'a) \<times> 's" where
  "map_err_st f r = (map_err f (fst r), snd r)"

lemma map_err_st_simps [simp]:
  "map_err_st f (Inl e, s) = (Inl (f e), s)" "map_err_st f (Inr a, s) = (Inr a, s)"
  "snd (map_err_st f r) = snd r" "fst (map_err_st f r) = map_err f (fst r)"
  by (simp_all add: map_err_st_def)

lemma bind_st_split:
  "bind_st r k = (case fst r of Inl e \<Rightarrow> (Inl e, snd r) | Inr a \<Rightarrow> k a (snd r))"
  by (cases r; cases "fst r") auto

lemma bind_st_Inr:
  "bind_st r k = (Inr b, s2) \<longleftrightarrow> (\<exists>a s1. r = (Inr a, s1) \<and> k a s1 = (Inr b, s2))"
  by (cases r; cases "fst r") auto

lemma map_err_st_Inr: "map_err_st g r = (Inr a, s) \<longleftrightarrow> r = (Inr a, s)"
  by (cases r; cases "fst r") auto

text \<open>A property of the state that no part of a sequence breaks.\<close>

lemma bind_st_keeps: "P (snd r) \<Longrightarrow> (\<And>a s. P s \<Longrightarrow> P (snd (k a s))) \<Longrightarrow> P (snd (bind_st r k))"
  by (auto simp: bind_st_split split: sum.split)

text \<open>Collecting the results of a fallible iterator, stopping at the first error.\<close>

fun collect_res :: "('e + 'a) list \<Rightarrow> 'e + 'a list" where
  "collect_res [] = Inr []"
| "collect_res (r # rs) = bind_res r (\<lambda>a. map_ok (Cons a) (collect_res rs))"

section \<open>Text and bytes\<close>

text \<open>A Rust \<open>String\<close> is a HOL string whose characters are the bytes of its UTF-8
  encoding.\<close>

definition byte_of_char :: "char \<Rightarrow> byte" where
  "byte_of_char c = of_nat (of_char c)"

definition char_of_byte :: "byte \<Rightarrow> char" where
  "char_of_byte b = char_of (unat b)"

definition bytes_of :: "string \<Rightarrow> byte list" where
  "bytes_of s = map byte_of_char s"

definition text_of :: "byte list \<Rightarrow> string" where
  "text_of bs = map char_of_byte bs"

lemma byte_of_char_of_byte [simp]: "byte_of_char (char_of_byte b) = b"
proof -
  have "unat b mod 256 = unat b"
    using unsigned_less [of b, where ?'a = nat] by simp
  then show ?thesis by (simp add: byte_of_char_def char_of_byte_def)
qed

lemma char_of_byte_of_char [simp]: "char_of_byte (byte_of_char c) = c"
proof -
  have "unat (of_nat (of_char c) :: byte) = of_char c"
    by (simp add: unsigned_of_nat take_bit_eq_mod del: of_nat_of_char)
  then show ?thesis by (simp add: byte_of_char_def char_of_byte_def del: of_nat_of_char)
qed

lemma bytes_of_text_of [simp]: "bytes_of (text_of bs) = bs"
  by (simp add: bytes_of_def text_of_def comp_def map_idI)

lemma text_of_bytes_of [simp]: "text_of (bytes_of s) = s"
  by (simp add: bytes_of_def text_of_def comp_def map_idI)

lemma bytes_of_inject [simp]: "bytes_of s = bytes_of t \<longleftrightarrow> s = t"
  by (metis text_of_bytes_of)

lemma length_bytes_of [simp]: "length (bytes_of s) = length s"
  by (simp add: bytes_of_def)

text \<open>Decimal rendering of a natural number, as \<open>format!\<close> and \<open>to_string\<close> produce it.\<close>

fun nat_digits :: "nat \<Rightarrow> string" where
  "nat_digits n = (if n < 10 then [char_of (48 + n)]
                   else nat_digits (n div 10) @ [char_of (48 + n mod 10)])"

declare nat_digits.simps [simp del]

definition int_digits :: "int \<Rightarrow> string" where
  "int_digits i = (if i < 0 then ''-'' @ nat_digits (nat (- i)) else nat_digits (nat i))"

section \<open>Transition systems\<close>

inductive reachable :: "('s \<Rightarrow> bool) \<Rightarrow> ('s \<Rightarrow> 's \<Rightarrow> bool) \<Rightarrow> 's \<Rightarrow> bool"
  for init :: "'s \<Rightarrow> bool" and step :: "'s \<Rightarrow> 's \<Rightarrow> bool" where
  reach_init: "init s \<Longrightarrow> reachable init step s"
| reach_step: "reachable init step s \<Longrightarrow> step s t \<Longrightarrow> reachable init step t"

text \<open>Runs of a deterministic operation over a list of inputs.\<close>

lemma fold_invariant_list:
  "P s \<Longrightarrow> (\<And>x t. x \<in> set xs \<Longrightarrow> P t \<Longrightarrow> P (f x t)) \<Longrightarrow> P (fold f xs s)"
  by (induction xs arbitrary: s) auto

section \<open>Interfaces shared by several components\<close>

text \<open>A state machine with an invariant every step keeps.\<close>

locale inductive_invariant =
  fixes init :: "'s \<Rightarrow> bool"
    and step :: "'s \<Rightarrow> 's \<Rightarrow> bool"
    and inv :: "'s \<Rightarrow> bool"
  assumes inv_start: "init s \<Longrightarrow> inv s"
    and inv_step: "inv s \<Longrightarrow> step s t \<Longrightarrow> inv t"
begin

lemma reachable_inv: "reachable init step s \<Longrightarrow> inv s"
  by (induction rule: reachable.induct) (auto intro: inv_start inv_step)

lemma steps_inv: "step\<^sup>*\<^sup>* s t \<Longrightarrow> inv s \<Longrightarrow> inv t"
  by (induction rule: rtranclp_induct) (auto intro: inv_step)

end

text \<open>A cell that keeps the first value stored in it, whatever is stored later.\<close>

locale first_write_wins =
  fixes get :: "'s \<Rightarrow> 'v option"
    and put :: "'v \<Rightarrow> 's \<Rightarrow> 's"
  assumes put_empty: "get s = None \<Longrightarrow> get (put v s) = Some v"
    and put_full: "get s = Some w \<Longrightarrow> get (put v s) = Some w"
begin

lemma get_put: "get (put v s) = (case get s of None \<Rightarrow> Some v | Some w \<Rightarrow> Some w)"
  by (cases "get s") (auto simp: put_empty put_full)

lemma get_fold_full: "get s = Some w \<Longrightarrow> get (fold put vs s) = Some w"
  by (induction vs arbitrary: s) (auto simp: put_full)

lemma get_fold: "get s = None \<Longrightarrow> get (fold put vs s) = (case vs of [] \<Rightarrow> None | v # _ \<Rightarrow> Some v)"
  by (cases vs) (auto simp: put_empty get_fold_full)

lemma get_fold_cong: "get s = get t \<Longrightarrow> get (fold put vs s) = get (fold put vs t)"
  by (cases "get t") (simp_all add: get_fold get_fold_full)

end

text \<open>A flag that, once set, no operation of the component clears.\<close>

locale sticky_flag =
  fixes flag :: "'s \<Rightarrow> bool"
    and ops :: "('s \<Rightarrow> 's) set"
  assumes sticky: "f \<in> ops \<Longrightarrow> flag s \<Longrightarrow> flag (f s)"
begin

lemma flag_run: "set fs \<subseteq> ops \<Longrightarrow> flag s \<Longrightarrow> flag (fold (\<lambda>f. f) fs s)"
  by (induction fs arbitrary: s) (auto simp: sticky)

end

end
