(* ===== verification/Utf8.thy ===== *)
theory Utf8
  imports Prelude
begin

text \<open>
  The part of Rust's text handling the SDK relies on: UTF-8 validation
  (\<open>String::from_utf8\<close>), lossy decoding (\<open>String::from_utf8_lossy\<close>, which replaces each
  maximal ill-formed part by U+FFFD) and \<open>str::trim\<close>. Text stays the list of its bytes,
  cut into the byte groups of its characters where a function works on characters.
\<close>

definition byte_at :: "byte list \<Rightarrow> nat \<Rightarrow> nat" where
  "byte_at bs i = (if i < length bs then unat (bs ! i) else 0)"

definition continuation :: "nat \<Rightarrow> bool" where
  "continuation b \<longleftrightarrow> 128 \<le> b \<and> b \<le> 191"

text \<open>Whether the second byte of a three or four byte sequence is allowed after its first.\<close>

definition second_of_three :: "nat \<Rightarrow> nat \<Rightarrow> bool" where
  "second_of_three b c \<longleftrightarrow>
     (b = 224 \<and> 160 \<le> c \<and> c \<le> 191) \<or>
     (225 \<le> b \<and> b \<le> 236 \<and> continuation c) \<or>
     (b = 237 \<and> 128 \<le> c \<and> c \<le> 159) \<or>
     (238 \<le> b \<and> b \<le> 239 \<and> continuation c)"

definition second_of_four :: "nat \<Rightarrow> nat \<Rightarrow> bool" where
  "second_of_four b c \<longleftrightarrow>
     (b = 240 \<and> 144 \<le> c \<and> c \<le> 191) \<or>
     (241 \<le> b \<and> b \<le> 243 \<and> continuation c) \<or>
     (b = 244 \<and> 128 \<le> c \<and> c \<le> 143)"

text \<open>The first group of a non-empty byte string: whether it is a well-formed character,
  and how many bytes it (or the ill-formed part) takes.\<close>

definition utf8_next :: "byte list \<Rightarrow> bool \<times> nat" where
  "utf8_next bs = (let b = byte_at bs 0 in
     if b < 128 then (True, 1)
     else if 194 \<le> b \<and> b \<le> 223 then
       (if continuation (byte_at bs 1) then (True, 2) else (False, 1))
     else if 224 \<le> b \<and> b \<le> 239 then
       (if \<not> second_of_three b (byte_at bs 1) then (False, 1)
        else if continuation (byte_at bs 2) then (True, 3) else (False, 2))
     else if 240 \<le> b \<and> b \<le> 244 then
       (if \<not> second_of_four b (byte_at bs 1) then (False, 1)
        else if \<not> continuation (byte_at bs 2) then (False, 2)
        else if continuation (byte_at bs 3) then (True, 4) else (False, 3))
     else (False, 1))"

lemma utf8_next_pos: "0 < snd (utf8_next bs)" "snd (utf8_next bs) \<le> 4"
  by (auto simp: utf8_next_def Let_def)

function utf8_groups :: "byte list \<Rightarrow> (bool \<times> byte list) list" where
  "utf8_groups bs = (if bs = [] then []
     else (fst (utf8_next bs), take (snd (utf8_next bs)) bs)
          # utf8_groups (drop (snd (utf8_next bs)) bs))"
  by pat_completeness auto
termination
  by (relation "measure length") (auto simp: utf8_next_pos)

declare utf8_groups.simps [simp del]

definition utf8_valid :: "byte list \<Rightarrow> bool" where
  "utf8_valid bs \<longleftrightarrow> list_all fst (utf8_groups bs)"

text \<open>U+FFFD, and the horizontal ellipsis U+2026 of the error messages.\<close>

definition replacement :: "byte list" where
  "replacement = [239, 191, 189]"

definition ellipsis :: "byte list" where
  "ellipsis = [226, 128, 166]"

definition from_utf8_lossy :: "byte list \<Rightarrow> byte list" where
  "from_utf8_lossy bs =
     concat (map (\<lambda>(ok, g). if ok then g else replacement) (utf8_groups bs))"

text \<open>The Unicode \<open>White_Space\<close> characters, as byte groups.\<close>

definition white_space :: "byte list \<Rightarrow> bool" where
  "white_space g \<longleftrightarrow> g \<in> set
     ([[9], [10], [11], [12], [13], [32], [194, 133], [194, 160], [225, 154, 128],
       [226, 128, 168], [226, 128, 169], [226, 128, 175], [226, 129, 159], [227, 128, 128]]
      @ [[226, 128, 128], [226, 128, 129], [226, 128, 130], [226, 128, 131], [226, 128, 132],
         [226, 128, 133], [226, 128, 134], [226, 128, 135], [226, 128, 136], [226, 128, 137],
         [226, 128, 138]])"

definition trim_text :: "byte list \<Rightarrow> byte list" where
  "trim_text bs =
     (let gs = map snd (utf8_groups bs);
          left = dropWhile white_space gs
      in concat (rev (dropWhile white_space (rev left))))"

section \<open>Groups partition the input\<close>

lemma utf8_groups_Nil [simp]: "utf8_groups [] = []"
  by (simp add: utf8_groups.simps)

lemma concat_utf8_groups: "concat (map snd (utf8_groups bs)) = bs"
proof (induction bs rule: utf8_groups.induct)
  case (1 bs)
  then show ?case
    by (cases "bs = []") (simp_all add: utf8_groups.simps [of bs])
qed

text \<open>On well-formed text lossy decoding is the identity.\<close>

lemma from_utf8_lossy_valid: "utf8_valid bs \<Longrightarrow> from_utf8_lossy bs = bs"
proof -
  assume "utf8_valid bs"
  then have "map (\<lambda>(ok, g). if ok then g else replacement) (utf8_groups bs)
      = map snd (utf8_groups bs)"
    by (intro map_cong) (auto simp: utf8_valid_def list_all_iff)
  then show ?thesis
    by (simp only: from_utf8_lossy_def concat_utf8_groups)
qed

lemma utf8_groups_nonempty: "(ok, g) \<in> set (utf8_groups bs) \<Longrightarrow> 0 < length g"
proof (induction bs rule: utf8_groups.induct)
  case (1 bs)
  show ?case
  proof (cases "bs = []")
    case True
    with 1 show ?thesis by (simp add: utf8_groups.simps [of bs])
  next
    case False
    with "1.prems" have "g = take (snd (utf8_next bs)) bs
        \<or> (ok, g) \<in> set (utf8_groups (drop (snd (utf8_next bs)) bs))"
      by (subst (asm) utf8_groups.simps) auto
    with False show ?thesis
      using utf8_next_pos(1) [of bs] "1.IH" by auto
  qed
qed

text \<open>Replacement can lengthen the text, but to no more than three bytes per input byte.\<close>

lemma sum_group_lengths:
  "(\<And>g. g \<in> set gs \<Longrightarrow> 0 < length (snd g)) \<Longrightarrow>
   length (concat (map (\<lambda>(ok, g). if ok then g else replacement) gs))
     \<le> 3 * length (concat (map snd gs))"
proof (induction gs)
  case (Cons g gs)
  have "0 < length (snd g)" using Cons.prems by simp
  moreover have "length replacement = 3" by (simp add: replacement_def)
  ultimately have "length (case g of (ok, x) \<Rightarrow> if ok then x else replacement) \<le> 3 * length (snd g)"
    by (cases g) (auto simp: Suc_le_eq)
  moreover have "length (concat (map (\<lambda>(ok, g). if ok then g else replacement) gs))
      \<le> 3 * length (concat (map snd gs))"
    using Cons by simp
  ultimately show ?case by simp
qed simp

lemma length_from_utf8_lossy: "length (from_utf8_lossy bs) \<le> 3 * length bs"
proof -
  have "length (from_utf8_lossy bs) \<le> 3 * length (concat (map snd (utf8_groups bs)))"
    unfolding from_utf8_lossy_def
    by (rule sum_group_lengths) (auto dest: utf8_groups_nonempty)
  then show ?thesis by (simp add: concat_utf8_groups)
qed

lemma length_concat_dropWhile: "length (concat (dropWhile P xs)) \<le> length (concat xs)"
  by (induction xs) auto

lemma length_trim_text: "length (trim_text bs) \<le> length bs"
proof -
  have rev: "length (concat (rev ys)) = length (concat ys)" for ys :: "byte list list"
    by (induction ys) auto
  let ?gs = "map snd (utf8_groups bs)"
  have "length (trim_text bs) \<le> length (concat (rev (dropWhile white_space ?gs)))"
    using length_concat_dropWhile [of white_space "rev (dropWhile white_space ?gs)"]
    by (simp only: trim_text_def Let_def rev)
  also have "\<dots> \<le> length (concat ?gs)"
    using length_concat_dropWhile [of white_space ?gs] by (simp only: rev)
  finally show ?thesis by (simp only: concat_utf8_groups)
qed

end
