(* ===== verification/Errors.thy ===== *)
theory Errors
  imports Utf8
begin

text \<open>
  Outcomes and errors (rust/src/error.rs and the result types at the end of
  rust/src/command.rs): why a process stopped, the captured output, the checked-result
  operations of an output, the SDK's error type with its machine-readable codes, and the
  provider errors of rust/src/provider_fs.rs with the maps between them and the errors of
  the virtual filesystem.
\<close>

section \<open>Exit reasons and captured output\<close>

datatype exit_reason = Exited | Terminated | TimedOut

fun as_str :: "exit_reason \<Rightarrow> string" where
  "as_str Exited = ''exited''"
| "as_str Terminated = ''terminated''"
| "as_str TimedOut = ''timeout''"

type_synonym exit_status = int

definition status_success :: "exit_status \<Rightarrow> bool" where
  "status_success code \<longleftrightarrow> code = 0"

record captured_output =
  co_bytes :: "byte list"
  co_truncated :: bool

definition from_parts :: "byte list \<Rightarrow> bool \<Rightarrow> captured_output" where
  "from_parts bs t = \<lparr>co_bytes = bs, co_truncated = t\<rparr>"

record process_output =
  out_status :: exit_status
  out_reason :: exit_reason
  out_stdout :: captured_output
  out_stderr :: captured_output

definition output_ok :: "process_output \<Rightarrow> bool" where
  "output_ok out \<longleftrightarrow> out_reason out = Exited \<and> status_success (out_status out)"

section \<open>Provider errors and virtual filesystem errors\<close>

datatype fs_error =
    NotFound | AlreadyExists | PermissionDenied | InvalidInput string
  | NotDirectory | NotFile | DirectoryNotEmpty | Unsupported | IoFailed string

text \<open>The virtual filesystem's error type: the variants the SDK names, and the others.\<close>

datatype vfs_error =
    V_EntryNotFound | V_AlreadyExists | V_PermissionDenied | V_BaseNotDirectory | V_NotAFile
  | V_DirectoryNotEmpty | V_InvalidInput | V_Unsupported | V_IOError | V_Lock | V_Other nat

text \<open>\<open>show\<close> is the \<open>Display\<close> text of the virtual filesystem's errors.\<close>

fun map_virtual_error :: "(vfs_error \<Rightarrow> string) \<Rightarrow> vfs_error \<Rightarrow> fs_error" where
  "map_virtual_error show V_EntryNotFound = NotFound"
| "map_virtual_error show V_AlreadyExists = AlreadyExists"
| "map_virtual_error show V_PermissionDenied = PermissionDenied"
| "map_virtual_error show V_BaseNotDirectory = NotDirectory"
| "map_virtual_error show V_NotAFile = NotFile"
| "map_virtual_error show V_DirectoryNotEmpty = DirectoryNotEmpty"
| "map_virtual_error show V_InvalidInput = InvalidInput (show V_InvalidInput)"
| "map_virtual_error show V_Unsupported = Unsupported"
| "map_virtual_error show e = IoFailed (show e)"

fun map_provider_error :: "fs_error \<Rightarrow> vfs_error" where
  "map_provider_error NotFound = V_EntryNotFound"
| "map_provider_error AlreadyExists = V_AlreadyExists"
| "map_provider_error PermissionDenied = V_PermissionDenied"
| "map_provider_error (InvalidInput m) = V_InvalidInput"
| "map_provider_error NotDirectory = V_BaseNotDirectory"
| "map_provider_error NotFile = V_NotAFile"
| "map_provider_error DirectoryNotEmpty = V_DirectoryNotEmpty"
| "map_provider_error Unsupported = V_Unsupported"
| "map_provider_error (IoFailed m) = V_IOError"

fun fs_error_text :: "fs_error \<Rightarrow> string" where
  "fs_error_text NotFound = ''entry not found''"
| "fs_error_text AlreadyExists = ''entry already exists''"
| "fs_error_text PermissionDenied = ''permission denied''"
| "fs_error_text (InvalidInput m) = ''invalid path or option: '' @ m"
| "fs_error_text NotDirectory = ''expected a directory''"
| "fs_error_text NotFile = ''expected a file''"
| "fs_error_text DirectoryNotEmpty = ''directory is not empty''"
| "fs_error_text Unsupported = ''operation is unsupported''"
| "fs_error_text (IoFailed m) = ''filesystem I/O failed: '' @ m"

section \<open>The SDK error type\<close>

text \<open>The kinds of \<open>std::io::Error\<close> the code creates or inspects.\<close>

datatype io_kind = BrokenPipe | IoPermissionDenied | IoInvalidInput | IoInvalidData | WriteZero
  | OtherKind nat

datatype io_error = Io_Error (io_error_kind: io_kind) string

datatype sdk_error =
    Cancelled
  | ClientClosed
  | SandboxClosed
  | InvalidArgument string
  | InvalidPackageSource string string
  | PackageLoad string string
  | PackageNotInstalled string
  | PackageHasNoEntrypoint string
  | CommandNotFound string
  | CommandAmbiguous string "string list"
  | CapabilityUnavailable string
  | InvalidGuestPath string string
  | FileSystemError string string string
  | Timeout string
  | Execution string
  | TaskError string
  | InternalState string
  | ExternalFileSystem fs_error
  | SdkIo io_error
  | ProcessExit process_output
  | Utf8Error "byte list"
  | Initialization string

fun process_exit_code :: "process_output \<Rightarrow> string" where
  "process_exit_code out = (case out_reason out of
     Exited \<Rightarrow> ''PROCESS_EXITED''
   | Terminated \<Rightarrow> ''PROCESS_TERMINATED''
   | TimedOut \<Rightarrow> ''TIMEOUT'')"

fun error_code :: "sdk_error \<Rightarrow> string" where
  "error_code Cancelled = ''CANCELLED''"
| "error_code ClientClosed = ''CLIENT_CLOSED''"
| "error_code SandboxClosed = ''SANDBOX_CLOSED''"
| "error_code (InvalidArgument m) = ''INVALID_ARGUMENT''"
| "error_code (InvalidPackageSource p m) = ''INVALID_PACKAGE_SOURCE''"
| "error_code (PackageLoad p m) = ''PACKAGE_LOAD_FAILED''"
| "error_code (PackageNotInstalled p) = ''PACKAGE_NOT_INSTALLED''"
| "error_code (PackageHasNoEntrypoint p) = ''PACKAGE_HAS_NO_ENTRYPOINT''"
| "error_code (CommandNotFound c) = ''COMMAND_NOT_FOUND''"
| "error_code (CommandAmbiguous c ps) = ''COMMAND_AMBIGUOUS''"
| "error_code (CapabilityUnavailable c) = ''CAPABILITY_UNAVAILABLE''"
| "error_code (InvalidGuestPath p m) = ''INVALID_PATH''"
| "error_code (FileSystemError op p m) = ''FILESYSTEM_ERROR''"
| "error_code (ExternalFileSystem e) = ''FILESYSTEM_ERROR''"
| "error_code (Timeout op) = ''TIMEOUT''"
| "error_code (ProcessExit out) = process_exit_code out"
| "error_code (Utf8Error bs) = ''INVALID_UTF8''"
| "error_code (Execution m) = ''EXECUTION_ERROR''"
| "error_code (TaskError m) = ''TASK_ERROR''"
| "error_code (InternalState m) = ''INTERNAL_ERROR''"
| "error_code (SdkIo e) = ''IO_ERROR''"
| "error_code (Initialization m) = ''INITIALIZATION_ERROR''"

section \<open>Checked results\<close>

definition captured_text :: "captured_output \<Rightarrow> sdk_error + string" where
  "captured_text c = (if utf8_valid (co_bytes c) then Inr (text_of (co_bytes c))
                      else Inl (Utf8Error (co_bytes c)))"

definition output_check :: "process_output \<Rightarrow> sdk_error + process_output" where
  "output_check out = (if output_ok out then Inr out else Inl (ProcessExit out))"

definition output_text :: "process_output \<Rightarrow> sdk_error + string" where
  "output_text out = (if \<not> output_ok out then Inl (ProcessExit out)
                      else captured_text (out_stdout out))"

section \<open>The message of an unsuccessful exit\<close>

definition stderr_excerpt_bytes :: nat where
  "stderr_excerpt_bytes = 512"

definition describe_base :: "process_output \<Rightarrow> byte list" where
  "describe_base out = bytes_of (case out_reason out of
     Exited \<Rightarrow> ''process exited unsuccessfully with status '' @ int_digits (out_status out)
   | Terminated \<Rightarrow> ''process was terminated before completing''
   | TimedOut \<Rightarrow> ''process timed out'')"

definition describe :: "process_output \<Rightarrow> byte list" where
  "describe out = (let base = describe_base out;
      stderr = co_bytes (out_stderr out);
      start = length stderr - stderr_excerpt_bytes;
      excerpt = trim_text (from_utf8_lossy (drop start stderr))
    in if excerpt = [] then base
       else base @ bytes_of [char_of (10::nat)] @ bytes_of ''stderr: ''
              @ (if 0 < start then ellipsis else []) @ excerpt)"

section \<open>Lemmas\<close>

lemma map_virtual_provider_error:
  "map_provider_error (map_virtual_error show e) \<in> {e, V_IOError}"
  by (cases e) auto

lemma map_provider_virtual_error:
  "(case fe of IoFailed m \<Rightarrow> False | InvalidInput m \<Rightarrow> False | _ \<Rightarrow> True) \<Longrightarrow>
   map_virtual_error show (map_provider_error fe) = fe"
  by (cases fe) auto

lemma length_excerpt:
  "length (trim_text (from_utf8_lossy (drop (length bs - stderr_excerpt_bytes) bs))) \<le> 1536"
proof -
  let ?tail = "drop (length bs - stderr_excerpt_bytes) bs"
  have "length ?tail \<le> 512" by (simp add: stderr_excerpt_bytes_def)
  then have "length (from_utf8_lossy ?tail) \<le> 1536"
    using length_from_utf8_lossy [of ?tail] by linarith
  then show ?thesis
    using length_trim_text [of "from_utf8_lossy ?tail"] by linarith
qed

lemma length_describe: "length (describe out) \<le> length (describe_base out) + 1548"
proof -
  define excerpt where "excerpt = trim_text (from_utf8_lossy
    (drop (length (co_bytes (out_stderr out)) - stderr_excerpt_bytes) (co_bytes (out_stderr out))))"
  have "length excerpt \<le> 1536"
    unfolding excerpt_def by (rule length_excerpt)
  then show ?thesis
    unfolding describe_def Let_def excerpt_def [symmetric]
    by (simp add: ellipsis_def)
qed

text \<open>\<open>Display\<close> of the SDK's errors; \<open>dbg\<close> is the \<open>Debug\<close> text of a list of names.\<close>

fun error_text :: "(string list \<Rightarrow> string) \<Rightarrow> sdk_error \<Rightarrow> string" where
  "error_text dbg Cancelled = ''package load was cancelled''"
| "error_text dbg ClientClosed = ''the Wasmer client is shut down''"
| "error_text dbg SandboxClosed = ''the sandbox is closed''"
| "error_text dbg (InvalidArgument m) = ''invalid argument: '' @ m"
| "error_text dbg (InvalidPackageSource p m) = ''invalid package source `'' @ p @ ''`: '' @ m"
| "error_text dbg (PackageLoad p m) = ''unable to load package `'' @ p @ ''`: '' @ m"
| "error_text dbg (PackageNotInstalled p) = ''package `'' @ p @ ''` is not installed in this sandbox''"
| "error_text dbg (PackageHasNoEntrypoint p) = ''package `'' @ p @ ''` has no unambiguous entrypoint''"
| "error_text dbg (CommandNotFound c) = ''command `'' @ c @ ''` was not found in the installed packages''"
| "error_text dbg (CommandAmbiguous c ps) = ''command `'' @ c @ ''` is ambiguous; it is provided by '' @ dbg ps"
| "error_text dbg (CapabilityUnavailable c) = ''capability `'' @ c @ ''` is unavailable on this target''"
| "error_text dbg (InvalidGuestPath p m) = ''invalid guest path `'' @ p @ ''`: '' @ m"
| "error_text dbg (FileSystemError oper p m) = ''filesystem operation `'' @ oper @ ''` failed for `'' @ p @ ''`: '' @ m"
| "error_text dbg (Timeout oper) = ''timed out waiting for '' @ oper"
| "error_text dbg (Execution m) = ''command execution failed: '' @ m"
| "error_text dbg (TaskError m) = ''command task failed: '' @ m"
| "error_text dbg (InternalState m) = ''internal SDK state is unavailable: '' @ m"
| "error_text dbg (ExternalFileSystem e) = fs_error_text e"
| "error_text dbg (SdkIo e) = ''stream I/O failed''"
| "error_text dbg (ProcessExit out) = text_of (describe out)"
| "error_text dbg (Utf8Error bs) = ''captured output is not valid UTF-8''"
| "error_text dbg (Initialization m) = ''unable to initialize the SDK: '' @ m"

end
