(* ===== verification/Capture.thy ===== *)
theory Capture
  imports Errors
begin

text \<open>
  Bounded retention of a process stream (rust/src/capture.rs): the shared
  \<open>CaptureHandle\<close>, which keeps the first bytes up to its limit and records whether any
  were dropped, and the \<open>CaptureFile\<close> a guest writes to when a stream is captured without
  a live reader. The handle is shared by clones in the code; here it is the state the
  operations pass along, with the file's cursor beside it.
\<close>

section \<open>The retention interface\<close>

text \<open>What a bounded retention buffer promises the streams that feed it.\<close>

locale bounded_retention =
  fixes retain :: "'b list \<Rightarrow> 's \<Rightarrow> 's"
    and kept :: "'s \<Rightarrow> 'b list"
    and lost :: "'s \<Rightarrow> bool"
    and limit :: "'s \<Rightarrow> nat"
  assumes kept_retain: "kept (retain bs s) = kept s @ take (limit s - length (kept s)) bs"
    and lost_retain: "lost (retain bs s) \<longleftrightarrow> lost s \<or> limit s - length (kept s) < length bs"
    and limit_retain: "limit (retain bs s) = limit s"
begin

lemma limit_run: "limit (fold retain bss s) = limit s"
  by (induction bss arbitrary: s) (simp_all add: limit_retain)

lemma length_kept_run:
  "length (kept s) \<le> limit s \<Longrightarrow> length (kept (fold retain bss s)) \<le> limit s"
proof (induction bss arbitrary: s)
  case (Cons bs bss)
  have "length (kept (retain bs s)) \<le> limit (retain bs s)"
    using Cons.prems by (auto simp: kept_retain limit_retain)
  from Cons.IH [OF this] show ?case by (simp add: limit_retain)
qed simp

text \<open>A run of writes keeps exactly a prefix of everything written.\<close>

lemma kept_run:
  "length (kept s) \<le> limit s \<Longrightarrow> kept (fold retain bss s) = take (limit s) (kept s @ concat bss)"
proof (induction bss arbitrary: s)
  case (Cons bs bss)
  have kept: "kept (retain bs s) = take (limit s) (kept s @ bs)"
    using Cons.prems by (simp add: kept_retain)
  then have "length (kept (retain bs s)) \<le> limit (retain bs s)"
    by (simp add: limit_retain)
  from Cons.IH [OF this] have "kept (fold retain (bs # bss) s)
      = take (limit s) (take (limit s) (kept s @ bs) @ concat bss)"
    by (simp only: limit_retain kept fold_simps)
  also have "\<dots> = take (limit s) (kept s @ concat (bs # bss))"
    by (cases "limit s \<le> length (kept s @ bs)") (auto simp: min_def)
  finally show ?case .
qed simp

lemma lost_run:
  "length (kept s) \<le> limit s \<Longrightarrow>
   lost (fold retain bss s) \<longleftrightarrow> lost s \<or> limit s < length (kept s) + length (concat bss)"
proof (induction bss arbitrary: s)
  case (Cons bs bss)
  have "length (kept (retain bs s)) \<le> limit (retain bs s)"
    using Cons.prems by (auto simp: kept_retain limit_retain)
  then show ?case
    using Cons.IH [of "retain bs s"] Cons.prems
    by (auto simp: kept_retain lost_retain limit_retain min_def split: if_splits)
qed simp

end

section \<open>CaptureHandle\<close>

record capture =
  cap_bytes :: "byte list"
  cap_truncated :: bool
  cap_limit :: usize

definition capture_new :: "usize \<Rightarrow> capture" where
  "capture_new limit = \<lparr>cap_bytes = [], cap_truncated = False, cap_limit = limit\<rparr>"

definition capture_snapshot :: "capture \<Rightarrow> byte list \<times> bool" where
  "capture_snapshot h = (cap_bytes h, cap_truncated h)"

definition retain_bytes :: "byte list \<Rightarrow> capture \<Rightarrow> capture" where
  "retain_bytes bs h =
     (let available = cap_limit h - length (cap_bytes h);
          amount = min available (length bs);
          h1 = h\<lparr>cap_bytes := cap_bytes h @ take amount bs\<rparr>
      in if amount < length bs then h1\<lparr>cap_truncated := True\<rparr> else h1)"

interpretation handle: bounded_retention retain_bytes cap_bytes cap_truncated cap_limit
  by unfold_locales (auto simp: retain_bytes_def Let_def min_def)

section \<open>CaptureFile\<close>

datatype seek_from = SeekStart nat | SeekEnd int | SeekCurrent int

record capture_file =
  cf_handle :: capture
  cf_cursor :: nat

definition capture_file_new :: "capture \<Rightarrow> capture_file" where
  "capture_file_new h = \<lparr>cf_handle = h, cf_cursor = 0\<rparr>"

definition capture_poll_write :: "capture_file \<Rightarrow> byte list \<Rightarrow> (io_error + nat) poll \<times> capture_file" where
  "capture_poll_write f buf =
     (Ready (Inr (length buf)), f\<lparr>cf_handle := retain_bytes buf (cf_handle f)\<rparr>)"

definition capture_poll_write_vectored ::
    "capture_file \<Rightarrow> byte list list \<Rightarrow> (io_error + nat) poll \<times> capture_file" where
  "capture_poll_write_vectored f bufs =
     (Ready (Inr (sum_list (map length bufs))),
      f\<lparr>cf_handle := fold retain_bytes bufs (cf_handle f)\<rparr>)"

text \<open>Reading hands over at most \<open>remaining\<close> bytes from the cursor on.\<close>

definition capture_poll_read :: "capture_file \<Rightarrow> nat \<Rightarrow> byte list \<times> capture_file" where
  "capture_poll_read f remaining =
     (let bs = cap_bytes (cf_handle f); start = cf_cursor f
      in if start < length bs then
           (let amount = min remaining (length bs - start)
            in (take amount (drop start bs), f\<lparr>cf_cursor := cf_cursor f + amount\<rparr>))
         else ([], f))"

definition invalid_capture_seek :: io_error where
  "invalid_capture_seek = Io_Error IoInvalidInput ''invalid capture seek''"

definition capture_start_seek :: "capture_file \<Rightarrow> seek_from \<Rightarrow> (io_error + unit) \<times> capture_file" where
  "capture_start_seek f position =
     (let len = int (length (cap_bytes (cf_handle f)));
          next = (case position of
              SeekStart offset \<Rightarrow> int offset
            | SeekEnd offset \<Rightarrow> len + offset
            | SeekCurrent offset \<Rightarrow> int (cf_cursor f) + offset)
      in if next < 0 \<or> next > int u64_max then (Inl invalid_capture_seek, f)
         else (case u64_try_from next of
                 None \<Rightarrow> (Inl invalid_capture_seek, f)
               | Some c \<Rightarrow> (Inr (), f\<lparr>cf_cursor := c\<rparr>)))"

definition capture_poll_complete :: "capture_file \<Rightarrow> nat" where
  "capture_poll_complete f = cf_cursor f"

definition capture_size :: "capture_file \<Rightarrow> nat" where
  "capture_size f = length (cap_bytes (cf_handle f))"

definition capture_set_len :: "capture_file \<Rightarrow> nat \<Rightarrow> (vfs_error + unit) \<times> capture_file" where
  "capture_set_len f new_size =
     (if new_size > usize_max then (Inl V_InvalidInput, f)
      else if new_size > cap_limit (cf_handle f) then (Inl V_InvalidInput, f)
      else (Inr (),
        f\<lparr>cf_handle := (cf_handle f)\<lparr>cap_bytes :=
            take new_size (cap_bytes (cf_handle f))
            @ replicate (new_size - length (cap_bytes (cf_handle f))) 0\<rparr>\<rparr>))"

definition capture_poll_read_ready :: "capture_file \<Rightarrow> (io_error + nat) poll" where
  "capture_poll_read_ready f =
     Ready (Inr (length (cap_bytes (cf_handle f)) - cf_cursor f))"

definition capture_poll_write_ready :: "capture_file \<Rightarrow> (io_error + nat) poll" where
  "capture_poll_write_ready f = Ready (Inr 8192)"

section \<open>Operations of a guest on a capture file\<close>

datatype capture_op =
    CWrite "byte list" | CWriteVectored "byte list list" | CRead nat | CSeek seek_from | CSetLen nat

fun capture_apply :: "capture_op \<Rightarrow> capture_file \<Rightarrow> capture_file" where
  "capture_apply (CWrite bs) f = snd (capture_poll_write f bs)"
| "capture_apply (CWriteVectored bss) f = snd (capture_poll_write_vectored f bss)"
| "capture_apply (CRead n) f = snd (capture_poll_read f n)"
| "capture_apply (CSeek p) f = snd (capture_start_seek f p)"
| "capture_apply (CSetLen n) f = snd (capture_set_len f n)"

definition capture_inv :: "capture_file \<Rightarrow> bool" where
  "capture_inv f \<longleftrightarrow> length (cap_bytes (cf_handle f)) \<le> cap_limit (cf_handle f)
     \<and> cf_cursor f \<le> u64_max \<and> cap_limit (cf_handle f) \<le> usize_max"

lemma length_retain_bytes:
  "length (cap_bytes h) \<le> cap_limit h \<Longrightarrow> length (cap_bytes (retain_bytes bs h)) \<le> cap_limit h"
  using handle.length_kept_run [of h "[bs]"] by simp

lemma capture_apply_limit [simp]:
  "cap_limit (cf_handle (capture_apply oper f)) = cap_limit (cf_handle f)"
  by (cases oper)
    (auto simp: capture_poll_write_def capture_poll_write_vectored_def capture_poll_read_def
      capture_start_seek_def capture_set_len_def Let_def handle.limit_retain handle.limit_run
      split: seek_from.splits option.splits)

lemma capture_apply_inv: "capture_inv f \<Longrightarrow> capture_inv (capture_apply oper f)"
proof (cases oper)
  case (CRead n)
  then show "capture_inv f \<Longrightarrow> ?thesis"
    by (auto simp: capture_inv_def capture_poll_read_def Let_def usize_max_def u64_max_def min_def)
next
  case (CSeek p)
  then show "capture_inv f \<Longrightarrow> ?thesis"
    by (auto simp: capture_inv_def capture_start_seek_def Let_def
        split: option.splits dest: u64_try_from_SomeD)
qed (auto simp: capture_inv_def capture_poll_write_def capture_poll_write_vectored_def
    capture_set_len_def handle.limit_retain handle.limit_run length_retain_bytes
    handle.length_kept_run)

lemma capture_run_inv: "capture_inv f \<Longrightarrow> capture_inv (fold capture_apply ops f)"
  by (induction ops arbitrary: f) (simp_all add: capture_apply_inv)

lemma capture_writes_handle:
  "cf_handle (fold capture_apply (map CWrite ws) f) = fold retain_bytes ws (cf_handle f)"
  by (induction ws arbitrary: f) (simp_all add: capture_poll_write_def)

section \<open>Properties\<close>

text \<open>Captured output is exactly a prefix of what the guest wrote. After any sequence of
  writes to a fresh capture of \<open>limit\<close> bytes, the snapshot holds the first \<open>limit\<close> bytes of
  everything written, in order, and reports truncation exactly when more was written.\<close>

theorem capture_keeps_prefix:
  "capture_snapshot (cf_handle (fold capture_apply (map CWrite ws) (capture_file_new (capture_new limit))))
     = (take limit (concat ws), limit < length (concat ws))"
  using handle.kept_run [of "capture_new limit" ws] handle.lost_run [of "capture_new limit" ws]
  by (simp add: capture_writes_handle capture_snapshot_def capture_file_new_def capture_new_def)

text \<open>No sequence of reads, writes, seeks and truncations makes a capture exceed its limit
  or its cursor leave the unsigned 64-bit range.\<close>

theorem capture_bounded:
  assumes "limit \<le> usize_max"
  shows "capture_inv (fold capture_apply ops (capture_file_new (capture_new limit)))
    \<and> cap_limit (cf_handle (fold capture_apply ops (capture_file_new (capture_new limit)))) = limit"
proof
  show "capture_inv (fold capture_apply ops (capture_file_new (capture_new limit)))"
    using assms by (intro capture_run_inv) (simp add: capture_inv_def capture_file_new_def capture_new_def)
  have "cap_limit (cf_handle (fold capture_apply ops f)) = cap_limit (cf_handle f)" for f
    by (induction ops arbitrary: f) simp_all
  then show "cap_limit (cf_handle (fold capture_apply ops (capture_file_new (capture_new limit)))) = limit"
    by (simp add: capture_file_new_def capture_new_def)
qed

theorem capture_bounded_witness:
  "capture_inv (fold capture_apply [CWrite [1, 2, 3], CSeek (SeekEnd (-1)), CSetLen 1, CWrite [7]]
      (capture_file_new (capture_new 2)))
   \<and> cap_limit (cf_handle (fold capture_apply [CWrite [1, 2, 3], CSeek (SeekEnd (-1)), CSetLen 1, CWrite [7]]
      (capture_file_new (capture_new 2)))) = 2"
  by (rule capture_bounded) (simp add: usize_max_def)

end
