(* ===== verification/Pipe.thy ===== *)
theory Pipe
  imports Capture
begin

text \<open>
  The byte-bounded pipe of rust/src/stream.rs, at the granularity of its shared-memory
  accesses. A pipe has one reader, any number of writers (the guest's stream and its taps)
  and any number of closers, each a thread \<open>t\<close> below a bound; every atomic load, swap,
  compare-exchange, queue or channel operation is one step of \<open>exec\<close>, and the threads
  interleave freely (sequentially consistent interleaving). A poll is a call that runs
  from \<open>start\<close> to \<open>Done\<close> (ready) or \<open>Parked\<close> (pending).

  The unbounded channel and the segment queue are third-party code: parameters
  \<open>C\<close> and \<open>Q\<close> with their documented first-in first-out behaviour as hypotheses. A waker
  is seen through \<open>signalled t\<close>: false from \<open>register\<close> on, true from the next \<open>wake\<close> on.
  \<open>sent\<close> and \<open>received\<close> are history variables: the bytes accepted from writers and the
  bytes copied to the reader's buffer.
\<close>

section \<open>Third-party parts as parameters\<close>

datatype pipe_message = Data "byte list" | CloseMsg

datatype recv_result = RecvMsg pipe_message | RecvNone | RecvPending

record 'c chan_ops =
  ch_send :: "pipe_message \<Rightarrow> 'c \<Rightarrow> bool \<times> 'c"
  ch_recv :: "'c \<Rightarrow> recv_result \<times> 'c"
  ch_close :: "'c \<Rightarrow> 'c"

record 'q queue_ops =
  q_push :: "nat \<Rightarrow> 'q \<Rightarrow> 'q"
  q_pop :: "'q \<Rightarrow> nat option \<times> 'q"
  q_len :: "'q \<Rightarrow> nat"

text \<open>Documented behaviour of the channel: messages arrive in the order sent, sending fails
  exactly after the receiver closed, and a receive on an empty channel says whether more
  can come.\<close>

definition fifo_channel :: "'c chan_ops \<Rightarrow> ('c \<Rightarrow> pipe_message list) \<Rightarrow> ('c \<Rightarrow> bool) \<Rightarrow> bool" where
  "fifo_channel C msgs rx_closed \<longleftrightarrow>
     (\<forall>m c. fst (ch_send C m c) = (\<not> rx_closed c)
        \<and> msgs (snd (ch_send C m c)) = (if rx_closed c then msgs c else msgs c @ [m])
        \<and> rx_closed (snd (ch_send C m c)) = rx_closed c)
   \<and> (\<forall>c. (case msgs c of
             m # ms \<Rightarrow> fst (ch_recv C c) = RecvMsg m \<and> msgs (snd (ch_recv C c)) = ms
           | [] \<Rightarrow> fst (ch_recv C c) \<in> {RecvNone, RecvPending} \<and> msgs (snd (ch_recv C c)) = [])
        \<and> rx_closed (snd (ch_recv C c)) = rx_closed c)
   \<and> (\<forall>c. rx_closed (ch_close C c) \<and> msgs (ch_close C c) = msgs c)"

definition fifo_queue :: "'q queue_ops \<Rightarrow> ('q \<Rightarrow> nat list) \<Rightarrow> bool" where
  "fifo_queue Q items \<longleftrightarrow>
     (\<forall>w q. items (q_push Q w q) = items q @ [w])
   \<and> (\<forall>q. q_len Q q = length (items q))
   \<and> (\<forall>q. case items q of
            [] \<Rightarrow> fst (q_pop Q q) = None \<and> items (snd (q_pop Q q)) = []
          | w # ws \<Rightarrow> fst (q_pop Q q) = Some w \<and> items (snd (q_pop Q q)) = ws)"

section \<open>State\<close>

text \<open>\<open>wake_writers\<close>: read the queue length, then pop that many waiters, clearing and waking
  each.\<close>

datatype drain = DLen | DPop nat | DClear nat nat | DWake nat nat

text \<open>Program points. In the capacity check \<open>k\<close> is the data of the write that asked, or
  \<open>None\<close> for a bare readiness poll; after a drain \<open>Some rem\<close> returns to the reader's loop.\<close>

datatype pc =
    Idle | Done "io_error + nat" | Parked
  | CapCheck "byte list option" | CapLoad "byte list option" | CapRegister "byte list option"
  | CapQueue "byte list option" | CapPush "byte list option" | CapRecheck "byte list option"
  | CapReload "byte list option"
  | WrLoad "byte list" nat | WrCas "byte list" nat nat | WrClosed "byte list" nat
  | WrSend "byte list" nat | WrUndo nat
  | ClSwap bool | ClSend
  | RdLoop nat nat | RdSub nat nat nat | RdyRecv
  | DrClose | DrStore
  | Draining drain "(nat \<times> nat) option"

record ('c, 'q) pipe =
  buffered :: usize
  capacity :: usize
  closed :: bool
  writers :: 'q
  channel :: 'c
  queued :: "nat \<Rightarrow> bool"
  signalled :: "nat \<Rightarrow> bool"
  active :: "nat \<Rightarrow> bool"
  owns_lifetime :: "nat \<Rightarrow> bool"
  pending :: "byte list option"
  offset :: nat
  eof :: bool
  pcs :: "nat \<Rightarrow> pc"
  sent :: "byte list"
  received :: "byte list"

definition max_pipe_chunk_bytes :: nat where
  "max_pipe_chunk_bytes = 64 * 1024"

text \<open>\<open>bounded_pipe\<close>: thread 1 is the writer that owns the pipe's lifetime. \<open>tap\<close> makes another
  writer that does not.\<close>

definition bounded_pipe :: "'c \<Rightarrow> 'q \<Rightarrow> usize \<Rightarrow> ('c, 'q) pipe" where
  "bounded_pipe c0 q0 cap = \<lparr>buffered = 0, capacity = max cap 1, closed = False, writers = q0,
     channel = c0, queued = (\<lambda>_. False), signalled = (\<lambda>_. False), active = (\<lambda>t. t = 1),
     owns_lifetime = (\<lambda>t. t = 1), pending = None, offset = 0, eof = False, pcs = (\<lambda>_. Idle),
     sent = [], received = []\<rparr>"

definition goto :: "nat \<Rightarrow> pc \<Rightarrow> ('c, 'q) pipe \<Rightarrow> ('c, 'q) pipe" where
  "goto t p s = s\<lparr>pcs := (pcs s)(t := p)\<rparr>"

definition tap :: "nat \<Rightarrow> nat \<Rightarrow> ('c, 'q) pipe \<Rightarrow> ('c, 'q) pipe" where
  "tap w t s = s\<lparr>active := (active s)(t := active s w),
     owns_lifetime := (owns_lifetime s)(t := False), queued := (queued s)(t := False)\<rparr>"

definition broken_pipe :: io_error where
  "broken_pipe = Io_Error BrokenPipe ''''"

section \<open>Steps\<close>

text \<open>The capacity check (\<open>PipeWriter::poll_capacity\<close>), one shared access per step.\<close>

definition cap_ready :: "nat \<Rightarrow> byte list option \<Rightarrow> nat \<Rightarrow> ('c, 'q) pipe \<Rightarrow> ('c, 'q) pipe" where
  "cap_ready t k available s = (case k of
       None \<Rightarrow> goto t (Done (Inr available)) s
     | Some bs \<Rightarrow> goto t (WrLoad bs available) s)"

fun cap_step :: "'q queue_ops \<Rightarrow> nat \<Rightarrow> pc \<Rightarrow> ('c, 'q) pipe \<Rightarrow> ('c, 'q) pipe" where
  "cap_step Q t (CapCheck k) s =
     (if \<not> active s t \<or> closed s then goto t (Done (Inl broken_pipe)) s else goto t (CapLoad k) s)"
| "cap_step Q t (CapLoad k) s =
     (if buffered s < capacity s then cap_ready t k (capacity s - buffered s) s
      else goto t (CapRegister k) s)"
| "cap_step Q t (CapRegister k) s = goto t (CapQueue k) (s\<lparr>signalled := (signalled s)(t := False)\<rparr>)"
| "cap_step Q t (CapQueue k) s =
     (let s1 = s\<lparr>queued := (queued s)(t := True)\<rparr>
      in if queued s t then goto t (CapRecheck k) s1 else goto t (CapPush k) s1)"
| "cap_step Q t (CapPush k) s = goto t (CapRecheck k) (s\<lparr>writers := q_push Q t (writers s)\<rparr>)"
| "cap_step Q t (CapRecheck k) s =
     (if closed s then goto t (Done (Inl broken_pipe)) s else goto t (CapReload k) s)"
| "cap_step Q t (CapReload k) s =
     (if buffered s < capacity s then cap_ready t k (capacity s - buffered s) s
      else goto t Parked s)"
| "cap_step Q t _ s = s"

text \<open>The rest of \<open>PipeWriter::poll_write\<close>: the second load, the weak compare-exchange
  (\<open>spurious\<close> lets it fail for no reason), the closed check, the send, the undo.\<close>

fun write_step :: "'c chan_ops \<Rightarrow> bool \<Rightarrow> nat \<Rightarrow> pc \<Rightarrow> ('c, 'q) pipe \<Rightarrow> ('c, 'q) pipe" where
  "write_step C spurious t (WrLoad bs available) s =
     (let written = min (min (length bs) available) max_pipe_chunk_bytes
      in if buffered s \<ge> capacity s then goto t (CapCheck (Some bs)) s
         else goto t (WrCas bs (min written (capacity s - buffered s)) (buffered s)) s)"
| "write_step C spurious t (WrCas bs written old) s =
     (if spurious \<or> buffered s \<noteq> old then goto t (CapCheck (Some bs)) s
      else goto t (WrClosed bs written) (s\<lparr>buffered := old + written\<rparr>))"
| "write_step C spurious t (WrClosed bs written) s =
     (if closed s then goto t (WrUndo written) s else goto t (WrSend bs written) s)"
| "write_step C spurious t (WrSend bs written) s =
     (case ch_send C (Data (take written bs)) (channel s) of
        (ok, c) \<Rightarrow>
          if ok then goto t (Done (Inr written)) (s\<lparr>channel := c, sent := sent s @ take written bs\<rparr>)
          else goto t (WrUndo written) (s\<lparr>channel := c\<rparr>))"
| "write_step C spurious t (WrUndo written) s =
     goto t (Done (Inl broken_pipe)) (s\<lparr>buffered := fetch_sub (buffered s) written\<rparr>)"
| "write_step C spurious t _ s = s"

text \<open>\<open>PipeState::wake_writers\<close>.\<close>

definition drain_done :: "nat \<Rightarrow> (nat \<times> nat) option \<Rightarrow> ('c, 'q) pipe \<Rightarrow> ('c, 'q) pipe" where
  "drain_done t k s = (case k of
       None \<Rightarrow> goto t (Done (Inr 0)) s
     | Some (remaining, got) \<Rightarrow>
         if remaining = 0 then goto t (Done (Inr got)) s else goto t (RdLoop remaining got) s)"

fun drain_step :: "'q queue_ops \<Rightarrow> nat \<Rightarrow> pc \<Rightarrow> ('c, 'q) pipe \<Rightarrow> ('c, 'q) pipe" where
  "drain_step Q t (Draining DLen k) s = goto t (Draining (DPop (q_len Q (writers s))) k) s"
| "drain_step Q t (Draining (DPop 0) k) s = drain_done t k s"
| "drain_step Q t (Draining (DPop (Suc n)) k) s =
     (case q_pop Q (writers s) of
        (None, q) \<Rightarrow> goto t (Draining (DPop n) k) (s\<lparr>writers := q\<rparr>)
      | (Some w, q) \<Rightarrow> goto t (Draining (DClear w n) k) (s\<lparr>writers := q\<rparr>))"
| "drain_step Q t (Draining (DClear w n) k) s =
     goto t (Draining (DWake w n) k) (s\<lparr>queued := (queued s)(w := False)\<rparr>)"
| "drain_step Q t (Draining (DWake w n) k) s =
     goto t (Draining (DPop n) k) (s\<lparr>signalled := (signalled s)(w := True)\<rparr>)"
| "drain_step Q t _ s = s"

text \<open>\<open>PipeReader::poll_read\<close> (\<open>RdLoop remaining got\<close>: space left in the buffer and bytes already
  put into it by this call), \<open>poll_read_ready\<close> and the reader's drop.\<close>

definition hand_over :: "nat \<Rightarrow> nat \<Rightarrow> nat \<Rightarrow> byte list \<Rightarrow> ('c, 'q) pipe \<Rightarrow> ('c, 'q) pipe" where
  "hand_over t remaining got p s =
     (let available = drop (offset s) p;
          read = min (length available) remaining;
          off = offset s + read
      in goto t (RdSub read (remaining - read) (got + read))
           (s\<lparr>received := received s @ take read available,
              pending := (if off < length p then Some p else None),
              offset := (if off < length p then off else 0)\<rparr>))"

fun read_step :: "'c chan_ops \<Rightarrow> nat \<Rightarrow> pc \<Rightarrow> ('c, 'q) pipe \<Rightarrow> ('c, 'q) pipe" where
  "read_step C t (RdLoop remaining got) s =
     (case pending s of
        Some p \<Rightarrow> hand_over t remaining got p s
      | None \<Rightarrow>
          (case ch_recv C (channel s) of
             (RecvMsg (Data bs), c) \<Rightarrow> goto t (RdLoop remaining got) (s\<lparr>channel := c, pending := Some bs\<rparr>)
           | (RecvMsg CloseMsg, c) \<Rightarrow> goto t (Done (Inr got)) (s\<lparr>channel := c, eof := True\<rparr>)
           | (RecvNone, c) \<Rightarrow> goto t (Done (Inr got)) (s\<lparr>channel := c, eof := True\<rparr>)
           | (RecvPending, c) \<Rightarrow>
               goto t (if 0 < got then Done (Inr got) else Parked) (s\<lparr>channel := c\<rparr>)))"
| "read_step C t (RdSub read remaining got) s =
     goto t (Draining DLen (Some (remaining, got))) (s\<lparr>buffered := fetch_sub (buffered s) read\<rparr>)"
| "read_step C t RdyRecv s =
     (case pending s of
        Some p \<Rightarrow> goto t (Done (Inr (length p - offset s))) s
      | None \<Rightarrow>
        if eof s then goto t (Done (Inr 0)) s
        else (case ch_recv C (channel s) of
             (RecvMsg (Data bs), c) \<Rightarrow>
               if bs = [] then goto t RdyRecv (s\<lparr>channel := c\<rparr>)
               else goto t (Done (Inr (length bs))) (s\<lparr>channel := c, pending := Some bs, offset := 0\<rparr>)
           | (RecvMsg CloseMsg, c) \<Rightarrow> goto t (Done (Inr 0)) (s\<lparr>channel := c, eof := True\<rparr>)
           | (RecvNone, c) \<Rightarrow> goto t (Done (Inr 0)) (s\<lparr>channel := c, eof := True\<rparr>)
           | (RecvPending, c) \<Rightarrow> goto t Parked (s\<lparr>channel := c\<rparr>)))"
| "read_step C t DrClose s = goto t DrStore (s\<lparr>channel := ch_close C (channel s)\<rparr>)"
| "read_step C t DrStore s = goto t (Draining DLen None) (s\<lparr>closed := True\<rparr>)"
| "read_step C t _ s = s"

text \<open>Closing: \<open>PipeCloser::close\<close> (\<open>ClSwap False\<close>) and \<open>PipeWriter::close\<close> (\<open>ClSwap True\<close>, which
  also deactivates the writer).\<close>

fun close_step :: "'c chan_ops \<Rightarrow> nat \<Rightarrow> pc \<Rightarrow> ('c, 'q) pipe \<Rightarrow> ('c, 'q) pipe" where
  "close_step C t (ClSwap writer) s =
     (let s1 = (if writer then s\<lparr>active := (active s)(t := False)\<rparr> else s)
      in if writer \<and> \<not> (active s t \<and> owns_lifetime s t) then goto t (Done (Inr 0)) s1
         else if closed s then goto t (Done (Inr 0)) s1
         else goto t ClSend (s1\<lparr>closed := True\<rparr>))"
| "close_step C t ClSend s =
     goto t (Draining DLen None) (s\<lparr>channel := snd (ch_send C CloseMsg (channel s))\<rparr>)"
| "close_step C t _ s = s"

text \<open>One step of thread \<open>t\<close>.\<close>

definition exec :: "'c chan_ops \<Rightarrow> 'q queue_ops \<Rightarrow> bool \<Rightarrow> nat \<Rightarrow> ('c, 'q) pipe \<Rightarrow> ('c, 'q) pipe" where
  "exec C Q spurious t s =
     (let p = pcs s t in
      case p of
        Idle \<Rightarrow> s | Done r \<Rightarrow> s | Parked \<Rightarrow> s
      | CapCheck k \<Rightarrow> cap_step Q t p s | CapLoad k \<Rightarrow> cap_step Q t p s
      | CapRegister k \<Rightarrow> cap_step Q t p s | CapQueue k \<Rightarrow> cap_step Q t p s
      | CapPush k \<Rightarrow> cap_step Q t p s | CapRecheck k \<Rightarrow> cap_step Q t p s
      | CapReload k \<Rightarrow> cap_step Q t p s
      | WrLoad bs a \<Rightarrow> write_step C spurious t p s | WrCas bs w b \<Rightarrow> write_step C spurious t p s
      | WrClosed bs w \<Rightarrow> write_step C spurious t p s | WrSend bs w \<Rightarrow> write_step C spurious t p s
      | WrUndo w \<Rightarrow> write_step C spurious t p s
      | ClSwap w \<Rightarrow> close_step C t p s | ClSend \<Rightarrow> close_step C t p s
      | RdLoop r g \<Rightarrow> read_step C t p s | RdSub n r g \<Rightarrow> read_step C t p s
      | RdyRecv \<Rightarrow> read_step C t p s | DrClose \<Rightarrow> read_step C t p s | DrStore \<Rightarrow> read_step C t p s
      | Draining d k \<Rightarrow> drain_step Q t p s)"

text \<open>Which routine the next step of a thread belongs to.\<close>

lemma exec_cases:
  obtains (idle) "exec C Q spurious t s = s"
    | (reserve) "exec C Q spurious t s = cap_step Q t (pcs s t) s"
    | (writing) "exec C Q spurious t s = write_step C spurious t (pcs s t) s"
    | (closing) "exec C Q spurious t s = close_step C t (pcs s t) s"
    | (reading) "exec C Q spurious t s = read_step C t (pcs s t) s"
    | (draining) d k where "pcs s t = Draining d k" "exec C Q spurious t s = drain_step Q t (Draining d k) s"
  by (cases "pcs s t"; simp only: exec_def Let_def pc.case)

section \<open>Calls\<close>

text \<open>The entry of each operation, up to its first shared access. The reader is thread 0; the
  writers and closers are the others.\<close>

datatype pipe_call =
    PollWrite "byte list" | PollWriteReady | PollFlush | Shutdown | CloserClose
  | PollRead nat | PollReadReady | DropReader

fun start :: "nat \<Rightarrow> pipe_call \<Rightarrow> ('c, 'q) pipe \<Rightarrow> ('c, 'q) pipe" where
  "start t (PollWrite bs) s =
     (if bs = [] then goto t (Done (Inr 0)) s else goto t (CapCheck (Some bs)) s)"
| "start t PollWriteReady s = goto t (CapCheck None) s"
| "start t PollFlush s = goto t (Done (Inr 0)) s"
| "start t Shutdown s = goto t (ClSwap True) s"
| "start t CloserClose s = goto t (ClSwap False) s"
| "start t (PollRead n) s =
     (if n = 0 \<or> eof s then goto t (Done (Inr 0)) s else goto t (RdLoop n 0) s)"
| "start t PollReadReady s = goto t RdyRecv s"
| "start t DropReader s = goto t DrClose s"

fun reader_call :: "pipe_call \<Rightarrow> bool" where
  "reader_call (PollRead n) = True"
| "reader_call PollReadReady = True"
| "reader_call DropReader = True"
| "reader_call _ = False"

fun resting :: "pc \<Rightarrow> bool" where
  "resting Idle = True"
| "resting (Done r) = True"
| "resting Parked = True"
| "resting _ = False"

text \<open>The system: any thread below \<open>N\<close> makes a step, starts a call it may make, or taps a writer
  (creating writer \<open>t\<close>, which has not run yet).\<close>

inductive pipe_step :: "'c chan_ops \<Rightarrow> 'q queue_ops \<Rightarrow> nat \<Rightarrow> ('c, 'q) pipe \<Rightarrow> ('c, 'q) pipe \<Rightarrow> bool"
  for C Q N where
  ps_exec: "t < N \<Longrightarrow> pipe_step C Q N s (exec C Q spurious t s)"
| ps_call: "t < N \<Longrightarrow> resting (pcs s t) \<Longrightarrow> reader_call c = (t = 0) \<Longrightarrow>
    pipe_step C Q N s (start t c s)"
| ps_tap: "t < N \<Longrightarrow> t \<noteq> 0 \<Longrightarrow> pcs s t = Idle \<Longrightarrow> \<not> active s t \<Longrightarrow> \<not> queued s t \<Longrightarrow>
    pipe_step C Q N s (tap w t s)"

end
