(* ===== verification/Pipe_Safety.thy ===== *)
theory Pipe_Safety
  imports Pipe
begin

text \<open>
  Safety of the pipe under every interleaving: the byte account balances and never exceeds
  the capacity, no atomic subtraction underflows, and the reader receives the accepted
  bytes in order, without loss or duplication.
\<close>

section \<open>The byte account\<close>

fun payload :: "pipe_message \<Rightarrow> byte list" where
  "payload (Data bs) = bs"
| "payload CloseMsg = []"

definition data_bytes :: "pipe_message list \<Rightarrow> byte list" where
  "data_bytes ms = concat (map payload ms)"

lemma data_bytes_simps [simp]:
  "data_bytes [] = []" "data_bytes (m # ms) = payload m @ data_bytes ms"
  "data_bytes (ms @ ns) = data_bytes ms @ data_bytes ns"
  by (simp_all add: data_bytes_def)

text \<open>Bytes a thread has reserved but not sent, or handed over but not yet subtracted.\<close>

fun flight :: "pc \<Rightarrow> nat" where
  "flight (WrClosed bs n) = n"
| "flight (WrSend bs n) = n"
| "flight (WrUndo n) = n"
| "flight (RdSub n r g) = n"
| "flight _ = 0"

definition in_flight :: "nat \<Rightarrow> (nat \<Rightarrow> pc) \<Rightarrow> nat" where
  "in_flight N ps = (\<Sum>t<N. flight (ps t))"

lemma in_flight_upd:
  assumes "t < N"
  shows "in_flight N (ps(t := p)) + flight (ps t) = in_flight N ps + flight p"
proof -
  have eq: "in_flight N qs = flight (qs t) + (\<Sum>u \<in> {..<N} - {t}. flight (qs u))" for qs
    using assms by (simp add: in_flight_def sum.remove [of "{..<N}" t])
  have "(\<Sum>u \<in> {..<N} - {t}. flight ((ps(t := p)) u)) = (\<Sum>u \<in> {..<N} - {t}. flight (ps u))"
    by (rule sum.cong) auto
  then show ?thesis by (simp only: eq [of "ps(t := p)"] eq [of ps]) simp
qed

lemma in_flight_ge: "t < N \<Longrightarrow> flight (ps t) \<le> in_flight N ps"
  using in_flight_upd [of t N ps Idle] by simp

lemma in_flight_same [simp]: "t < N \<Longrightarrow> flight p = flight (ps t) \<Longrightarrow> in_flight N (ps(t := p)) = in_flight N ps"
  using in_flight_upd [of t N ps p] by simp

definition unread :: "('c, 'q) pipe \<Rightarrow> byte list" where
  "unread s = drop (offset s) (case pending s of None \<Rightarrow> [] | Some p \<Rightarrow> p)"

lemma unread_simps [simp]:
  "unread (s\<lparr>pcs := ps\<rparr>) = unread s" "unread (s\<lparr>buffered := b\<rparr>) = unread s"
  "unread (s\<lparr>channel := c\<rparr>) = unread s" "unread (s\<lparr>sent := x\<rparr>) = unread s"
  "unread (s\<lparr>closed := cl\<rparr>) = unread s" "unread (s\<lparr>writers := q\<rparr>) = unread s"
  "unread (s\<lparr>queued := qd\<rparr>) = unread s" "unread (s\<lparr>signalled := sg\<rparr>) = unread s"
  "unread (s\<lparr>active := ac\<rparr>) = unread s" "unread (s\<lparr>owns_lifetime := ow\<rparr>) = unread s"
  "unread (s\<lparr>eof := e\<rparr>) = unread s" "unread (s\<lparr>received := r\<rparr>) = unread s"
  by (simp_all add: unread_def)

lemma goto_sel [simp]:
  "buffered (goto t p s) = buffered s" "capacity (goto t p s) = capacity s"
  "closed (goto t p s) = closed s" "writers (goto t p s) = writers s"
  "channel (goto t p s) = channel s" "queued (goto t p s) = queued s"
  "signalled (goto t p s) = signalled s" "active (goto t p s) = active s"
  "owns_lifetime (goto t p s) = owns_lifetime s" "pending (goto t p s) = pending s"
  "offset (goto t p s) = offset s" "eof (goto t p s) = eof s"
  "pcs (goto t p s) = (pcs s)(t := p)" "sent (goto t p s) = sent s"
  "received (goto t p s) = received s" "unread (goto t p s) = unread s"
  by (simp_all add: goto_def)

fun pc_ok :: "nat \<Rightarrow> pc \<Rightarrow> bool" where
  "pc_ok cap (WrCas bs written old) = (old < cap \<and> written \<le> cap - old \<and> written \<le> length bs)"
| "pc_ok cap (WrClosed bs written) = (written \<le> length bs)"
| "pc_ok cap (WrSend bs written) = (written \<le> length bs)"
| "pc_ok cap _ = True"

definition pipe_inv :: "('c \<Rightarrow> pipe_message list) \<Rightarrow> nat \<Rightarrow> ('c, 'q) pipe \<Rightarrow> bool" where
  "pipe_inv msgs N s \<longleftrightarrow>
     0 < capacity s \<and> buffered s \<le> capacity s
   \<and> buffered s = in_flight N (pcs s) + length (unread s) + length (data_bytes (msgs (channel s)))
   \<and> received s @ unread s @ data_bytes (msgs (channel s)) = sent s
   \<and> (pending s = None \<longrightarrow> offset s = 0)
   \<and> (\<forall>t<N. pc_ok (capacity s) (pcs s t))"

lemma pipe_inv_goto:
  assumes "pipe_inv msgs N s" "t < N" "flight p = flight (pcs s t)" "pc_ok (capacity s) p"
  shows "pipe_inv msgs N (goto t p s)"
  using assms by (auto simp: pipe_inv_def)

lemma pipe_inv_flags:
  "pipe_inv msgs N (s\<lparr>closed := b\<rparr>) = pipe_inv msgs N s"
  "pipe_inv msgs N (s\<lparr>writers := q\<rparr>) = pipe_inv msgs N s"
  "pipe_inv msgs N (s\<lparr>queued := qd\<rparr>) = pipe_inv msgs N s"
  "pipe_inv msgs N (s\<lparr>signalled := sg\<rparr>) = pipe_inv msgs N s"
  "pipe_inv msgs N (s\<lparr>active := ac\<rparr>) = pipe_inv msgs N s"
  "pipe_inv msgs N (s\<lparr>owns_lifetime := ow\<rparr>) = pipe_inv msgs N s"
  "pipe_inv msgs N (s\<lparr>eof := e\<rparr>) = pipe_inv msgs N s"
  by (simp_all add: pipe_inv_def)

text \<open>What the channel parameter does to the messages.\<close>

lemma fifo_send:
  assumes "fifo_channel C msgs rxc" "ch_send C m c = (ok, c')"
  shows "ok = (\<not> rxc c)" "msgs c' = (if rxc c then msgs c else msgs c @ [m])" "rxc c' = rxc c"
proof -
  have "fst (ch_send C m c) = (\<not> rxc c)
      \<and> msgs (snd (ch_send C m c)) = (if rxc c then msgs c else msgs c @ [m])
      \<and> rxc (snd (ch_send C m c)) = rxc c"
    using assms(1) unfolding fifo_channel_def by blast
  then show "ok = (\<not> rxc c)" "msgs c' = (if rxc c then msgs c else msgs c @ [m])" "rxc c' = rxc c"
    by (simp_all add: assms(2))
qed

lemma fifo_recv:
  assumes "fifo_channel C msgs rxc" "ch_recv C c = (r, c')"
  shows "(case r of RecvMsg m \<Rightarrow> msgs c = m # msgs c' | _ \<Rightarrow> msgs c = [] \<and> msgs c' = [])"
    "rxc c' = rxc c"
proof -
  from assms(1) have law: "(case msgs c of
        m # ms \<Rightarrow> fst (ch_recv C c) = RecvMsg m \<and> msgs (snd (ch_recv C c)) = ms
      | [] \<Rightarrow> fst (ch_recv C c) \<in> {RecvNone, RecvPending} \<and> msgs (snd (ch_recv C c)) = [])
      \<and> rxc (snd (ch_recv C c)) = rxc c"
    unfolding fifo_channel_def by blast
  then show "(case r of RecvMsg m \<Rightarrow> msgs c = m # msgs c' | _ \<Rightarrow> msgs c = [] \<and> msgs c' = [])"
    "rxc c' = rxc c"
    using assms(2) by (cases "msgs c"; auto)+
qed

lemma fifo_close:
  "fifo_channel C msgs rxc \<Longrightarrow> msgs (ch_close C c) = msgs c"
  "fifo_channel C msgs rxc \<Longrightarrow> rxc (ch_close C c)"
  by (simp_all add: fifo_channel_def)

section \<open>Every step keeps the account\<close>

lemma cap_step_inv:
  assumes "pipe_inv msgs N s" "t < N" "flight (pcs s t) = 0"
  shows "pipe_inv msgs N (cap_step Q t p s)"
  using assms
  by (cases "(Q, t, p, s)" rule: cap_step.cases)
    (auto intro!: pipe_inv_goto simp: pipe_inv_flags cap_ready_def Let_def split: option.splits)

lemma write_step_inv:
  assumes inv: "pipe_inv msgs N s" and t: "t < N" and C: "fifo_channel C msgs rxc"
  shows "pipe_inv msgs N (write_step C spurious t (pcs s t) s)"
proof (cases "pcs s t")
  case (WrLoad bs a)
  then show ?thesis using inv t by (auto intro!: pipe_inv_goto simp: Let_def)
next
  case (WrCas bs w b)
  have ok: "pc_ok (capacity s) (pcs s t)" using inv t by (simp add: pipe_inv_def)
  have "in_flight N ((pcs s)(t := WrClosed bs w)) = in_flight N (pcs s) + w"
    using in_flight_upd [OF t, of "pcs s" "WrClosed bs w"] WrCas by simp
  then show ?thesis
    using WrCas ok inv t by (auto simp: pipe_inv_def)
next
  case (WrClosed bs w)
  moreover have "pc_ok (capacity s) (pcs s t)" using inv t by (simp add: pipe_inv_def)
  ultimately show ?thesis using inv t by (auto intro!: pipe_inv_goto)
next
  case (WrSend bs w)
  have ok: "w \<le> length bs" using inv t WrSend by (auto simp: pipe_inv_def dest!: spec [of _ t])
  obtain r c where send: "ch_send C (Data (take w bs)) (channel s) = (r, c)" by (cases "ch_send C (Data (take w bs)) (channel s)")
  have flight: "in_flight N ((pcs s)(t := Done d)) + w = in_flight N (pcs s)" for d
    using in_flight_upd [OF t, of "pcs s" "Done d"] WrSend by simp
  note sent = fifo_send [OF C send]
  show ?thesis
  proof (cases r)
    case True
    then show ?thesis
      using WrSend ok inv t send sent flight [of "Inr w"]
      by (auto simp: pipe_inv_def)
  next
    case False
    then show ?thesis
      using WrSend inv t send sent by (auto simp: pipe_inv_def)
  qed
next
  case (WrUndo w)
  have flight: "in_flight N ((pcs s)(t := Done d)) + w = in_flight N (pcs s)" for d
    using in_flight_upd [OF t, of "pcs s" "Done d"] WrUndo by simp
  have "w \<le> buffered s"
    using in_flight_ge [OF t, of "pcs s"] WrUndo inv by (simp add: pipe_inv_def)
  then show ?thesis
    using WrUndo inv t flight [of "Inl broken_pipe"] by (auto simp: pipe_inv_def)
qed (use inv in simp_all)

lemma drain_step_inv:
  assumes "pipe_inv msgs N s" "t < N" "flight (pcs s t) = 0"
  shows "pipe_inv msgs N (drain_step Q t p s)"
  using assms
  by (cases "(Q, t, p, s)" rule: drain_step.cases)
    (auto intro!: pipe_inv_goto simp: pipe_inv_flags drain_done_def split: option.splits prod.splits)

lemma close_step_inv:
  assumes "pipe_inv msgs N s" "t < N" "flight (pcs s t) = 0" "fifo_channel C msgs rxc"
  shows "pipe_inv msgs N (close_step C t p s)"
proof -
  have "pipe_inv msgs N (s\<lparr>channel := snd (ch_send C CloseMsg (channel s))\<rparr>)"
    using assms fifo_send(2) [OF assms(4), of CloseMsg "channel s"]
    by (cases "ch_send C CloseMsg (channel s)") (auto simp: pipe_inv_def)
  then show ?thesis
    using assms
    by (cases "(C, t, p, s)" rule: close_step.cases)
      (auto intro!: pipe_inv_goto simp: pipe_inv_flags Let_def)
qed

lemma hand_over_inv:
  assumes inv: "pipe_inv msgs N s" and t: "t < N" and p: "pending s = Some p" and pc: "flight (pcs s t) = 0"
  shows "pipe_inv msgs N (hand_over t remaining got p s)"
proof -
  define read where "read = min (length (drop (offset s) p)) remaining"
  define s' where "s' = hand_over t remaining got p s"
  have fl: "in_flight N ((pcs s)(t := RdSub read (remaining - read) (got + read)))
      = in_flight N (pcs s) + read"
    using in_flight_upd [OF t, of "pcs s" "RdSub read (remaining - read) (got + read)"] pc by simp
  have un: "unread s' = drop read (unread s)"
    using p by (auto simp: s'_def hand_over_def Let_def unread_def read_def add.commute)
  have rc: "received s' = received s @ take read (unread s)"
    using p by (simp add: s'_def hand_over_def Let_def unread_def read_def)
  have same: "capacity s' = capacity s" "buffered s' = buffered s" "channel s' = channel s" "sent s' = sent s"
    "pending s' = None \<longrightarrow> offset s' = 0"
    by (auto simp: s'_def hand_over_def Let_def)
  have pcs: "pcs s' = (pcs s)(t := RdSub read (remaining - read) (got + read))"
    by (simp add: s'_def hand_over_def Let_def read_def)
  have "read \<le> length (unread s)" using p by (simp add: read_def unread_def)
  moreover have tk: "take read (unread s) @ drop read (unread s) @ x = unread s @ x" for x
    by (metis append_assoc append_take_drop_id)
  ultimately show ?thesis
    using inv same(5) unfolding s'_def [symmetric]
    by (auto simp: pipe_inv_def fl un rc same(1-4) pcs tk)
qed

lemma read_step_inv:
  assumes inv: "pipe_inv msgs N s" and t: "t < N" and C: "fifo_channel C msgs rxc"
  shows "pipe_inv msgs N (read_step C t (pcs s t) s)"
proof (cases "pcs s t")
  case (RdLoop remaining got)
  show ?thesis
  proof (cases "pending s")
    case (Some p)
    then show ?thesis using RdLoop inv t by (simp add: hand_over_inv)
  next
    case None
    obtain r c where recv: "ch_recv C (channel s) = (r, c)" by (cases "ch_recv C (channel s)")
    note law = fifo_recv(1) [OF C recv]
    show ?thesis
      using None RdLoop inv t recv law
      by (auto simp: pipe_inv_def unread_def split: recv_result.splits pipe_message.splits)
  qed
next
  case (RdSub n remaining got)
  have "n \<le> buffered s"
    using in_flight_ge [OF t, of "pcs s"] RdSub inv by (simp add: pipe_inv_def)
  have "in_flight N ((pcs s)(t := Draining DLen k)) + n = in_flight N (pcs s)" for k
    using in_flight_upd [OF t, of "pcs s" "Draining DLen k"] RdSub by simp
  from this [of "Some (remaining, got)"] show ?thesis
    using RdSub inv t \<open>n \<le> buffered s\<close> by (auto simp: pipe_inv_def)
next
  case RdyRecv
  obtain r c where recv: "ch_recv C (channel s) = (r, c)" by (cases "ch_recv C (channel s)")
  note law = fifo_recv(1) [OF C recv]
  show ?thesis
    using RdyRecv inv t recv law
    by (auto simp: pipe_inv_def unread_def split: option.splits recv_result.splits pipe_message.splits)
next
  case DrClose
  then show ?thesis
    using inv t fifo_close(1) [OF C] by (auto simp: pipe_inv_def)
next
  case DrStore
  then show ?thesis using inv t by (auto intro!: pipe_inv_goto simp: pipe_inv_flags)
qed (use inv in simp_all)

lemma exec_inv:
  assumes "pipe_inv msgs N s" "t < N" "fifo_channel C msgs rxc"
  shows "pipe_inv msgs N (exec C Q spurious t s)"
  using assms cap_step_inv [OF assms(1,2), of Q "pcs s t"] drain_step_inv [OF assms(1,2), of Q "pcs s t"]
    close_step_inv [OF assms(1,2) _ assms(3), of "pcs s t"] read_step_inv [OF assms]
    write_step_inv [OF assms, of spurious]
  by (cases "pcs s t") (simp_all add: exec_def)

lemma start_inv:
  assumes "pipe_inv msgs N s" "t < N" "resting (pcs s t)"
  shows "pipe_inv msgs N (start t c s)"
proof -
  have "flight (pcs s t) = 0" using assms(3) by (cases "pcs s t") auto
  then show ?thesis
    using assms by (cases c) (auto intro!: pipe_inv_goto)
qed

lemma tap_inv: "pipe_inv msgs N s \<Longrightarrow> pipe_inv msgs N (tap w t s)"
  by (simp add: tap_def pipe_inv_flags)

lemma pipe_step_inv:
  "pipe_step C Q N s s' \<Longrightarrow> fifo_channel C msgs rxc \<Longrightarrow> pipe_inv msgs N s \<Longrightarrow> pipe_inv msgs N s'"
  by (induction rule: pipe_step.induct) (auto intro: exec_inv start_inv tap_inv)

text \<open>A pipe created by \<open>bounded_pipe\<close> over an empty channel.\<close>

definition fresh_pipe :: "('c \<Rightarrow> pipe_message list) \<Rightarrow> ('c \<Rightarrow> bool) \<Rightarrow> ('q \<Rightarrow> nat list) \<Rightarrow> usize
    \<Rightarrow> ('c, 'q) pipe \<Rightarrow> bool" where
  "fresh_pipe msgs rxc items cap s \<longleftrightarrow>
     (\<exists>c q. msgs c = [] \<and> \<not> rxc c \<and> items q = [] \<and> s = bounded_pipe c q cap)"

lemma fresh_pipe_inv: "fresh_pipe msgs rxc items cap s \<Longrightarrow> pipe_inv msgs N s"
  by (auto simp: fresh_pipe_def bounded_pipe_def pipe_inv_def in_flight_def unread_def)

lemma pipe_system:
  assumes "fifo_channel C msgs rxc"
  shows "inductive_invariant (fresh_pipe msgs rxc items cap) (pipe_step C Q N) (pipe_inv msgs N)"
  by unfold_locales (auto intro: fresh_pipe_inv pipe_step_inv [OF _ assms])

text \<open>The capacity is fixed when the pipe is created.\<close>

lemma capacity_steps [simp]:
  "capacity (cap_step Q t p s) = capacity s" "capacity (write_step C b t p s) = capacity s"
  "capacity (drain_step Q t p s) = capacity s" "capacity (close_step C t p s) = capacity s"
  "capacity (read_step C t p s) = capacity s"
      apply (cases "(Q, t, p, s)" rule: cap_step.cases; simp add: cap_ready_def Let_def split: option.split)
     apply (cases "(C, b, t, p, s)" rule: write_step.cases; simp add: Let_def split: prod.split)
    apply (cases "(Q, t, p, s)" rule: drain_step.cases; simp add: drain_done_def split: option.split prod.split)
   apply (cases "(C, t, p, s)" rule: close_step.cases; simp add: Let_def)
  apply (cases "(C, t, p, s)" rule: read_step.cases;
      simp add: hand_over_def Let_def split: option.split prod.split recv_result.split pipe_message.split)
  done

lemma capacity_pipe_step: "pipe_step C Q N s s' \<Longrightarrow> capacity s' = capacity s"
proof (induction rule: pipe_step.induct)
  case (ps_exec t s spurious)
  show ?case
    by (cases "pcs s t")
      (simp_all add: exec_def del: cap_step.simps write_step.simps drain_step.simps
        close_step.simps read_step.simps)
next
  case (ps_call t s c)
  then show ?case by (cases c) simp_all
qed (simp add: tap_def)

lemma reachable_pipe_inv:
  assumes "fifo_channel C msgs rxc"
    and "reachable (fresh_pipe msgs rxc items cap) (pipe_step C Q N) s"
  shows "pipe_inv msgs N s"
  using inductive_invariant.reachable_inv [OF pipe_system [OF assms(1)] assms(2)] .

lemma reachable_capacity:
  "reachable (fresh_pipe msgs rxc items cap) (pipe_step C Q N) s \<Longrightarrow> capacity s = max cap 1"
proof (induction rule: reachable.induct)
  case (reach_init s)
  then show ?case by (auto simp: fresh_pipe_def bounded_pipe_def)
next
  case (reach_step s s')
  then show ?case by (simp add: capacity_pipe_step)
qed

section \<open>A concrete channel and queue\<close>

text \<open>Lists as channel and queue, for the witnesses: the hypotheses on the parameters can
  hold.\<close>

definition list_chan :: "(bool \<times> pipe_message list) chan_ops" where
  "list_chan = \<lparr>
     ch_send = (\<lambda>m c. if fst c then (False, c) else (True, (fst c, snd c @ [m]))),
     ch_recv = (\<lambda>c. case snd c of [] \<Rightarrow> (RecvPending, c) | m # ms \<Rightarrow> (RecvMsg m, (fst c, ms))),
     ch_close = (\<lambda>c. (True, snd c))\<rparr>"

definition list_queue :: "nat list queue_ops" where
  "list_queue = \<lparr>q_push = (\<lambda>w q. q @ [w]),
     q_pop = (\<lambda>q. case q of [] \<Rightarrow> (None, []) | w # ws \<Rightarrow> (Some w, ws)), q_len = length\<rparr>"

lemma fifo_list_chan: "fifo_channel list_chan snd fst"
  by (auto simp: fifo_channel_def list_chan_def split: list.splits)

lemma fifo_list_queue: "fifo_queue list_queue (\<lambda>q. q)"
  by (auto simp: fifo_queue_def list_queue_def split: list.splits)

text \<open>Runs given as a list of moves, to build reachable states by evaluation.\<close>

datatype move = Step bool nat | Call nat pipe_call

fun do_move :: "'c chan_ops \<Rightarrow> 'q queue_ops \<Rightarrow> nat \<Rightarrow> move \<Rightarrow> ('c, 'q) pipe \<Rightarrow> ('c, 'q) pipe" where
  "do_move C Q N (Step b t) s = (if t < N then exec C Q b t s else s)"
| "do_move C Q N (Call t c) s =
     (if t < N \<and> resting (pcs s t) \<and> reader_call c = (t = 0) then start t c s else s)"

lemma do_move_reachable:
  "reachable I (pipe_step C Q N) s \<Longrightarrow> reachable I (pipe_step C Q N) (do_move C Q N m s)"
  by (cases m) (auto intro: reach_step ps_exec ps_call)

lemma do_moves_reachable:
  "reachable I (pipe_step C Q N) s \<Longrightarrow> reachable I (pipe_step C Q N) (fold (do_move C Q N) ms s)"
  by (induction ms arbitrary: s) (simp_all add: do_move_reachable)

definition list_pipe :: "usize \<Rightarrow> move list \<Rightarrow> (bool \<times> pipe_message list, nat list) pipe" where
  "list_pipe cap ms = fold (do_move list_chan list_queue 3) ms (bounded_pipe (False, []) [] cap)"

lemma list_pipe_reachable:
  "reachable (fresh_pipe snd fst (\<lambda>q. q) cap) (pipe_step list_chan list_queue 3) (list_pipe cap ms)"
proof -
  have "fresh_pipe snd fst (\<lambda>q. q) cap (bounded_pipe (False, []) [] cap)"
    by (force simp: fresh_pipe_def)
  then show ?thesis
    unfolding list_pipe_def by (intro do_moves_reachable reach_init)
qed

section \<open>Properties\<close>

text \<open>C3: the pipe never holds more than its capacity, under any interleaving of writers, taps,
  closers and the reader. In every reachable state the atomic byte count is exactly the
  bytes reserved by writers, handed over but not yet released by the reader, unread in the
  reader and queued in the channel, and it is at most \<open>max capacity 1\<close>; in particular no
  \<open>fetch_sub\<close> wraps.\<close>

theorem pipe_bounded:
  assumes "fifo_channel C msgs rxc"
    and "reachable (fresh_pipe msgs rxc items cap) (pipe_step C Q N) s"
  shows "buffered s = in_flight N (pcs s) + length (unread s) + length (data_bytes (msgs (channel s)))
    \<and> buffered s \<le> max cap 1 \<and> (\<forall>t<N. flight (pcs s t) \<le> buffered s)"
proof -
  have inv: "pipe_inv msgs N s" using assms by (rule reachable_pipe_inv)
  have cap: "capacity s = max cap 1" using assms(2) by (rule reachable_capacity)
  have "flight (pcs s t) \<le> buffered s" if "t < N" for t
    using in_flight_ge [OF that, of "pcs s"] inv by (simp add: pipe_inv_def)
  then show ?thesis using inv cap by (simp add: pipe_inv_def)
qed

text \<open>A writer fills a pipe of capacity 2 with two of its three bytes, and the reader takes one.\<close>

definition demo_pipe :: "(bool \<times> pipe_message list, nat list) pipe" where
  "demo_pipe = list_pipe 2
     [Call 1 (PollWrite [10, 11, 12]), Step False 1, Step False 1, Step False 1, Step False 1,
      Step False 1, Step False 1, Call 0 (PollRead 1), Step False 0, Step False 0, Step False 0]"

lemma demo_pipe_value:
  "sent demo_pipe = [10, 11] \<and> received demo_pipe = [10] \<and> buffered demo_pipe = 1"
  by (simp add: demo_pipe_def list_pipe_def exec_def bounded_pipe_def cap_ready_def
      drain_done_def hand_over_def list_chan_def list_queue_def Let_def max_pipe_chunk_bytes_def
      fetch_sub_def goto_def)

theorem pipe_bounded_witness:
  "buffered demo_pipe = in_flight 3 (pcs demo_pipe) + length (unread demo_pipe)
      + length (data_bytes (snd (channel demo_pipe)))
    \<and> buffered demo_pipe \<le> max 2 1"
proof -
  have r: "reachable (fresh_pipe snd fst (\<lambda>q. q) 2) (pipe_step list_chan list_queue 3) demo_pipe"
    unfolding demo_pipe_def by (rule list_pipe_reachable)
  show ?thesis using pipe_bounded [OF fifo_list_chan r] by blast
qed



end
