(* ===== verification/Pipe_Wakeup.thy ===== *)
theory Pipe_Wakeup
  imports Pipe_Safety
begin

text \<open>
  No lost wake-ups in the pipe. A writer that polls a full pipe registers its waker, queues
  itself unless it is queued, and checks again; the reader and the closers drain the queue
  after they make room or close the pipe. The invariant below follows a registered writer
  through the queue and the drains, under every interleaving.
\<close>

section \<open>Where a waiting writer is\<close>

text \<open>Thread \<open>u\<close> has taken \<open>w\<close> out of the queue and still has to wake it (and, in \<open>clearing\<close>,
  to clear its queued flag).\<close>

fun clearing :: "pc \<Rightarrow> nat \<Rightarrow> bool" where
  "clearing (Draining (DClear v n) k) w = (v = w)"
| "clearing _ w = False"

fun holds :: "pc \<Rightarrow> nat \<Rightarrow> bool" where
  "holds (Draining (DClear v n) k) w = (v = w)"
| "holds (Draining (DWake v n) k) w = (v = w)"
| "holds _ w = False"

text \<open>The drain at this program point will wake \<open>w\<close>, given the queue.\<close>

fun wakes :: "nat list \<Rightarrow> pc \<Rightarrow> nat \<Rightarrow> bool" where
  "wakes q (Draining DLen k) w = (w \<in> set q)"
| "wakes q (Draining (DPop n) k) w = (w \<in> set (take n q))"
| "wakes q (Draining (DClear v n) k) w = (v = w \<or> w \<in> set (take n q))"
| "wakes q (Draining (DWake v n) k) w = (v = w \<or> w \<in> set (take n q))"
| "wakes q _ w = False"

fun registered :: "pc \<Rightarrow> bool" where
  "registered (CapRecheck k) = True"
| "registered (CapReload k) = True"
| "registered Parked = True"
| "registered _ = False"

fun late :: "pc \<Rightarrow> bool" where
  "late (CapReload k) = True"
| "late Parked = True"
| "late _ = False"

text \<open>Reader code runs on thread 0 only, writer code on the others.\<close>

fun role_ok :: "nat \<Rightarrow> pc \<Rightarrow> bool" where
  "role_ok t (RdLoop r g) = (t = 0)"
| "role_ok t (RdSub n r g) = (t = 0)"
| "role_ok t RdyRecv = (t = 0)"
| "role_ok t DrClose = (t = 0)"
| "role_ok t DrStore = (t = 0)"
| "role_ok t (Draining d (Some k)) = (t = 0)"
| "role_ok t _ = True"

fun undoing :: "pc \<Rightarrow> bool" where
  "undoing (WrUndo n) = True"
| "undoing _ = False"

fun pushing :: "pc \<Rightarrow> bool" where
  "pushing (CapPush k) = True"
| "pushing _ = False"

fun draining :: "pc \<Rightarrow> bool" where
  "draining (Draining d k) = True"
| "draining _ = False"

lemma holds_wakes: "holds p w \<Longrightarrow> wakes q p w"
  by (cases "(p, w)" rule: holds.cases) auto

lemma clearing_holds: "clearing p w \<Longrightarrow> holds p w"
  by (cases "(p, w)" rule: clearing.cases) auto

lemma not_draining:
  "\<not> draining p \<Longrightarrow> \<not> clearing p w" "\<not> draining p \<Longrightarrow> \<not> holds p w" "\<not> draining p \<Longrightarrow> \<not> wakes q p w"
  by (cases p; simp)+

lemma late_registered: "late p \<Longrightarrow> registered p"
  by (cases p) auto

definition some_thread :: "nat \<Rightarrow> (nat \<Rightarrow> pc) \<Rightarrow> (pc \<Rightarrow> bool) \<Rightarrow> bool" where
  "some_thread N ps P \<longleftrightarrow> (\<exists>u<N. P (ps u))"

lemma some_thread_keep: "some_thread N ps P \<Longrightarrow> (P (ps t) \<Longrightarrow> P p) \<Longrightarrow> some_thread N (ps(t := p)) P"
  unfolding some_thread_def by (metis fun_upd_apply)

lemma some_thread_here: "t < N \<Longrightarrow> P p \<Longrightarrow> some_thread N (ps(t := p)) P"
  by (auto simp: some_thread_def)

lemma some_thread_mono: "some_thread N ps P \<Longrightarrow> (\<And>u. u < N \<Longrightarrow> P (ps u) \<Longrightarrow> Q (ps u)) \<Longrightarrow> some_thread N ps Q"
  by (auto simp: some_thread_def)

text \<open>The clauses of the invariant. A queued writer is in the queue, about to be pushed, or held
  by a drain that has not cleared its flag.\<close>

definition inv_control :: "('c \<Rightarrow> bool) \<Rightarrow> nat \<Rightarrow> ('c, 'q) pipe \<Rightarrow> bool" where
  "inv_control rxc N s \<longleftrightarrow>
     (\<forall>t<N. role_ok t (pcs s t) \<and> (undoing (pcs s t) \<longrightarrow> closed s \<or> rxc (channel s)))
   \<and> (rxc (channel s) \<longrightarrow> closed s \<or> pcs s 0 = DrStore)"

definition inv_queued :: "('q \<Rightarrow> nat list) \<Rightarrow> nat \<Rightarrow> ('c, 'q) pipe \<Rightarrow> bool" where
  "inv_queued items N s \<longleftrightarrow> (\<forall>w<N. queued s w \<longrightarrow>
     w \<in> set (items (writers s)) \<or> pushing (pcs s w) \<or> some_thread N (pcs s) (\<lambda>p. clearing p w))"

text \<open>A registered writer that has not been woken is queued or held.\<close>

definition inv_registered :: "('q \<Rightarrow> nat list) \<Rightarrow> nat \<Rightarrow> ('c, 'q) pipe \<Rightarrow> bool" where
  "inv_registered items N s \<longleftrightarrow> (\<forall>w<N. w \<noteq> 0 \<longrightarrow> registered (pcs s w) \<longrightarrow> \<not> signalled s w \<longrightarrow>
     w \<in> set (items (writers s)) \<or> some_thread N (pcs s) (\<lambda>p. holds p w))"

text \<open>While the pipe is open and has room, a waiting writer is about to be woken.\<close>

definition inv_room :: "('q \<Rightarrow> nat list) \<Rightarrow> ('c \<Rightarrow> bool) \<Rightarrow> nat \<Rightarrow> ('c, 'q) pipe \<Rightarrow> bool" where
  "inv_room items rxc N s \<longleftrightarrow>
     (buffered s < capacity s \<longrightarrow> \<not> closed s \<longrightarrow> \<not> rxc (channel s) \<longrightarrow>
       (\<forall>w<N. w \<noteq> 0 \<longrightarrow> pcs s w = Parked \<longrightarrow> \<not> signalled s w \<longrightarrow>
          some_thread N (pcs s) (\<lambda>p. wakes (items (writers s)) p w)))"

text \<open>Once the pipe is closed, a waiting writer is about to be woken.\<close>

definition inv_closed :: "('q \<Rightarrow> nat list) \<Rightarrow> nat \<Rightarrow> ('c, 'q) pipe \<Rightarrow> bool" where
  "inv_closed items N s \<longleftrightarrow>
     (closed s \<longrightarrow> (\<forall>w<N. w \<noteq> 0 \<longrightarrow> late (pcs s w) \<longrightarrow> \<not> signalled s w \<longrightarrow>
        some_thread N (pcs s) (\<lambda>p. p = ClSend \<or> wakes (items (writers s)) p w)))"

definition wake_inv :: "('q \<Rightarrow> nat list) \<Rightarrow> ('c \<Rightarrow> bool) \<Rightarrow> nat \<Rightarrow> ('c, 'q) pipe \<Rightarrow> bool" where
  "wake_inv items rxc N s \<longleftrightarrow> inv_control rxc N s \<and> inv_queued items N s
     \<and> inv_registered items N s \<and> inv_room items rxc N s \<and> inv_closed items N s"

lemmas wake_clauses = inv_control_def inv_queued_def inv_registered_def inv_room_def inv_closed_def

section \<open>Steps\<close>

text \<open>A step of a thread that is not draining: the clauses about the other threads survive
  when the queue only grows, and the thread itself must earn its registration.\<close>

lemma wake_inv_move:
  assumes inv: "wake_inv items rxc N s" and t: "t < N"
    and old: "\<not> draining (pcs s t)" "pcs s t \<noteq> ClSend" "pcs s t \<noteq> DrStore"
    and new: "pcs s' = (pcs s)(t := p)" "role_ok t p" "undoing p \<Longrightarrow> closed s \<or> rxc (channel s)"
    and reg: "t \<noteq> 0 \<Longrightarrow> registered p \<Longrightarrow> \<not> signalled s' t \<Longrightarrow>
        t \<in> set (items (writers s')) \<or> some_thread N (pcs s) (\<lambda>p. holds p t)"
    and late: "t \<noteq> 0 \<Longrightarrow> late p \<Longrightarrow> closed s \<Longrightarrow> late (pcs s t) \<and> signalled s' t = signalled s t"
    and parked: "t \<noteq> 0 \<Longrightarrow> p = Parked \<Longrightarrow> \<not> buffered s' < capacity s"
    and qd: "queued s' t \<Longrightarrow> t \<in> set (items (writers s')) \<or> pushing p
        \<or> some_thread N (pcs s) (\<lambda>p. clearing p t)"
    and others: "\<And>w. w \<noteq> t \<Longrightarrow> queued s' w = queued s w" "\<And>w. w \<noteq> t \<Longrightarrow> signalled s' w = signalled s w"
    and items: "\<And>p w. wakes (items (writers s)) p w \<Longrightarrow> wakes (items (writers s')) p w"
      "\<And>w. w \<in> set (items (writers s)) \<Longrightarrow> w \<in> set (items (writers s'))"
    and same: "closed s' = closed s" "rxc (channel s') = rxc (channel s)" "capacity s' = capacity s"
      "buffered s \<le> buffered s'"
  shows "wake_inv items rxc N s'"
proof -
  note [simp] = new(1) same(1-3) and nd = not_draining [OF old(1)]
  have keep: "some_thread N (pcs s') P" if "some_thread N (pcs s) P" "\<not> P (pcs s t)" for P
    using that by (simp, intro some_thread_keep) auto
  have "inv_control rxc N s'"
    using inv t old new by (auto simp: wake_inv_def inv_control_def)
  moreover have "inv_queued items N s'"
    unfolding inv_queued_def
  proof (intro allI impI)
    fix w assume w: "w < N" "queued s' w"
    show "w \<in> set (items (writers s')) \<or> pushing (pcs s' w) \<or> some_thread N (pcs s') (\<lambda>p. clearing p w)"
    proof (cases "w = t")
      case True
      then show ?thesis using w qd keep nd(1) by auto
    next
      case False
      then have "w \<in> set (items (writers s)) \<or> pushing (pcs s w) \<or> some_thread N (pcs s) (\<lambda>p. clearing p w)"
        using inv w others(1) by (simp add: wake_inv_def inv_queued_def)
      then show ?thesis using False items(2) keep nd(1) by auto
    qed
  qed
  moreover have "inv_registered items N s'"
    unfolding inv_registered_def
  proof (intro allI impI)
    fix w assume w: "w < N" "w \<noteq> 0" "registered (pcs s' w)" "\<not> signalled s' w"
    show "w \<in> set (items (writers s')) \<or> some_thread N (pcs s') (\<lambda>p. holds p w)"
    proof (cases "w = t")
      case True
      then show ?thesis using w reg keep nd(2) by auto
    next
      case False
      then have "w \<in> set (items (writers s)) \<or> some_thread N (pcs s) (\<lambda>p. holds p w)"
        using inv w others(2) by (simp add: wake_inv_def inv_registered_def)
      then show ?thesis using items(2) keep nd(2) by auto
    qed
  qed
  moreover have "inv_room items rxc N s'"
    unfolding inv_room_def
  proof (intro allI impI)
    fix w assume w: "buffered s' < capacity s'" "\<not> closed s'" "\<not> rxc (channel s')"
      "w < N" "w \<noteq> 0" "pcs s' w = Parked" "\<not> signalled s' w"
    then have "w \<noteq> t" using parked by auto
    then have "some_thread N (pcs s) (\<lambda>p. wakes (items (writers s)) p w)"
      using inv w others(2) same(4) by (simp add: wake_inv_def inv_room_def)
    then have "some_thread N (pcs s') (\<lambda>p. wakes (items (writers s)) p w)"
      by (rule keep) (rule nd(3))
    then show "some_thread N (pcs s') (\<lambda>p. wakes (items (writers s')) p w)"
      using items(1) by (auto elim: some_thread_mono)
  qed
  moreover have "inv_closed items N s'"
    unfolding inv_closed_def
  proof (intro allI impI)
    fix w assume w: "closed s'" "w < N" "w \<noteq> 0" "late (pcs s' w)" "\<not> signalled s' w"
    have "late (pcs s w) \<and> \<not> signalled s w"
      using w late others(2) by (cases "w = t") auto
    then have "some_thread N (pcs s) (\<lambda>p. p = ClSend \<or> wakes (items (writers s)) p w)"
      using inv w by (simp add: wake_inv_def inv_closed_def)
    then have "some_thread N (pcs s') (\<lambda>p. p = ClSend \<or> wakes (items (writers s)) p w)"
      by (rule keep) (simp add: nd(3) old)
    then show "some_thread N (pcs s') (\<lambda>p. p = ClSend \<or> wakes (items (writers s')) p w)"
      using items(1) by (auto elim: some_thread_mono)
  qed
  ultimately show ?thesis by (simp add: wake_inv_def)
qed

text \<open>Most of these steps neither register nor touch the queue.\<close>

lemma wake_inv_plain:
  assumes "wake_inv items rxc N s" "t < N" "\<not> draining (pcs s t)" "pcs s t \<noteq> ClSend" "pcs s t \<noteq> DrStore"
    and "\<not> pushing (pcs s t)"
    and "pcs s' = (pcs s)(t := p)" "role_ok t p" "registered p \<longrightarrow> t = 0" "undoing p \<longrightarrow> closed s \<or> rxc (channel s)"
    and "writers s' = writers s" "queued s' = queued s" "\<And>w. w \<noteq> t \<Longrightarrow> signalled s' w = signalled s w"
      "closed s' = closed s" "rxc (channel s') = rxc (channel s)" "capacity s' = capacity s"
      "buffered s \<le> buffered s'"
  shows "wake_inv items rxc N s'"
proof (rule wake_inv_move [OF assms(1-5) assms(7,8)])
  assume "queued s' t"
  then show "t \<in> set (items (writers s')) \<or> pushing p \<or> some_thread N (pcs s) (\<lambda>p. clearing p t)"
    using assms by (auto simp: wake_inv_def inv_queued_def)
qed (use assms late_registered in auto)

lemma fifo_queue_laws:
  assumes "fifo_queue Q items"
  shows "items (q_push Q w q) = items q @ [w]" "q_len Q q = length (items q)"
    "q_pop Q q = (None, q') \<Longrightarrow> items q = [] \<and> items q' = []"
    "q_pop Q q = (Some w, q') \<Longrightarrow> items q = w # items q'"
proof -
  show "items (q_push Q w q) = items q @ [w]" "q_len Q q = length (items q)"
    using assms by (simp_all add: fifo_queue_def)
  have law: "case items q of [] \<Rightarrow> fst (q_pop Q q) = None \<and> items (snd (q_pop Q q)) = []
      | v # vs \<Rightarrow> fst (q_pop Q q) = Some v \<and> items (snd (q_pop Q q)) = vs"
    using assms unfolding fifo_queue_def by blast
  then show "q_pop Q q = (None, q') \<Longrightarrow> items q = [] \<and> items q' = []"
    by (cases "items q") auto
  show "q_pop Q q = (Some w, q') \<Longrightarrow> items q = w # items q'"
    using law by (cases "items q") auto
qed

text \<open>Registering: the queue flag, the push, and the two rechecks.\<close>

lemma wake_inv_cap_queue:
  assumes inv: "wake_inv items rxc N s" and t: "t < N" and pc: "pcs s t = CapQueue k"
  shows "wake_inv items rxc N (cap_step Q t (CapQueue k) s)"
proof (cases "queued s t")
  case True
  then have there: "t \<in> set (items (writers s)) \<or> some_thread N (pcs s) (\<lambda>p. clearing p t)"
    using inv t pc by (auto simp: wake_inv_def inv_queued_def)
  moreover have "some_thread N (pcs s) (\<lambda>p. clearing p t) \<Longrightarrow> some_thread N (pcs s) (\<lambda>p. holds p t)"
    by (erule some_thread_mono) (rule clearing_holds)
  ultimately show ?thesis
    using True pc by (intro wake_inv_move [OF inv t, where p = "CapRecheck k"]) auto
next
  case False
  then show ?thesis
    using pc by (intro wake_inv_move [OF inv t, where p = "CapPush k"]) auto
qed

lemma wakes_append: "wakes q p w \<Longrightarrow> wakes (q @ r) p w"
  by (cases "(q, p, w)" rule: wakes.cases) auto

lemma wake_inv_cap_push:
  assumes inv: "wake_inv items rxc N s" and t: "t < N" and pc: "pcs s t = CapPush k"
    and Q: "fifo_queue Q items"
  shows "wake_inv items rxc N (cap_step Q t (CapPush k) s)"
  using pc by (intro wake_inv_move [OF inv t, where p = "CapRecheck k"])
    (auto simp: fifo_queue_laws [OF Q] wakes_append)

lemma wake_inv_cap_recheck:
  assumes inv: "wake_inv items rxc N s" and t: "t < N" and pc: "pcs s t = CapRecheck k"
  shows "wake_inv items rxc N (cap_step Q t (CapRecheck k) s)"
proof (cases "closed s")
  case True
  then show ?thesis
    using pc by (intro wake_inv_plain [OF inv t, where p = "Done (Inl broken_pipe)"]) auto
next
  case False
  have "queued s t \<Longrightarrow> t \<in> set (items (writers s)) \<or> some_thread N (pcs s) (\<lambda>p. clearing p t)"
    using inv t pc by (auto simp: wake_inv_def inv_queued_def)
  moreover have "t \<noteq> 0 \<Longrightarrow> \<not> signalled s t \<Longrightarrow>
      t \<in> set (items (writers s)) \<or> some_thread N (pcs s) (\<lambda>p. holds p t)"
    using inv t pc by (auto simp: wake_inv_def inv_registered_def)
  ultimately show ?thesis
    using pc False by (intro wake_inv_move [OF inv t, where p = "CapReload k"]) auto
qed

lemma wake_inv_cap_reload:
  assumes inv: "wake_inv items rxc N s" and t: "t < N" and pc: "pcs s t = CapReload k"
  shows "wake_inv items rxc N (cap_step Q t (CapReload k) s)"
proof (cases "buffered s < capacity s")
  case True
  then show ?thesis
    using pc by (cases k) (auto simp: cap_ready_def intro!: wake_inv_plain [OF inv t])
next
  case False
  have "queued s t \<Longrightarrow> t \<in> set (items (writers s)) \<or> some_thread N (pcs s) (\<lambda>p. clearing p t)"
    using inv t pc by (auto simp: wake_inv_def inv_queued_def)
  moreover have "t \<noteq> 0 \<Longrightarrow> \<not> signalled s t \<Longrightarrow>
      t \<in> set (items (writers s)) \<or> some_thread N (pcs s) (\<lambda>p. holds p t)"
    using inv t pc by (auto simp: wake_inv_def inv_registered_def)
  ultimately show ?thesis
    using pc False by (intro wake_inv_move [OF inv t, where p = Parked]) auto
qed

text \<open>Starting to drain: every registered writer is in the queue or already held.\<close>

lemma wake_inv_enter:
  assumes inv: "wake_inv items rxc N s" and t: "t < N"
    and old: "\<not> draining (pcs s t)" "\<not> pushing (pcs s t)"
    and new: "pcs s' = (pcs s)(t := Draining DLen k)" "role_ok t (Draining DLen k)"
    and same: "writers s' = writers s" "queued s' = queued s" "signalled s' = signalled s"
      "rxc (channel s') = rxc (channel s)" "capacity s' = capacity s" "closed s \<Longrightarrow> closed s'"
    and rx: "pcs s t = DrStore \<Longrightarrow> closed s'"
  shows "wake_inv items rxc N s'"
proof -
  note [simp] = new(1) same(1-5) and nd = not_draining [OF old(1)]
  have keep: "some_thread N (pcs s') P" if "some_thread N (pcs s) P" "\<not> P (pcs s t)" for P
    using that by (simp, intro some_thread_keep) auto
  have caught: "some_thread N (pcs s') (\<lambda>p. wakes (items (writers s)) p w)"
    if "w < N" "w \<noteq> 0" "registered (pcs s w)" "\<not> signalled s w" for w
  proof -
    have "w \<in> set (items (writers s)) \<or> some_thread N (pcs s) (\<lambda>p. holds p w)"
      using inv that by (simp add: wake_inv_def inv_registered_def)
    then show ?thesis
    proof
      assume "w \<in> set (items (writers s))"
      then show ?thesis using t by (simp add: some_thread_here)
    next
      assume "some_thread N (pcs s) (\<lambda>p. holds p w)"
      then have "some_thread N (pcs s') (\<lambda>p. holds p w)" by (rule keep) (rule nd(2))
      then show ?thesis by (rule some_thread_mono) (rule holds_wakes)
    qed
  qed
  have "inv_control rxc N s'"
    using inv t new(2) same(6) rx by (auto simp: wake_inv_def inv_control_def)
  moreover have "inv_queued items N s'"
    using inv t old keep nd(1) by (auto simp: wake_inv_def inv_queued_def intro!: some_thread_keep)
  moreover have "inv_registered items N s'"
    using inv t nd(2) by (auto simp: wake_inv_def inv_registered_def intro!: some_thread_keep)
  moreover have "inv_room items rxc N s'"
    unfolding inv_room_def using caught by (auto simp del: fun_upd_apply simp: fun_upd_def split: if_splits)
  moreover have "inv_closed items N s'"
    unfolding inv_closed_def
  proof (intro impI allI)
    fix w assume "w < N" "w \<noteq> 0" "late (pcs s' w)" "\<not> signalled s' w"
    then have "some_thread N (pcs s') (\<lambda>p. wakes (items (writers s)) p w)"
      using caught [of w] late_registered by (auto split: if_splits)
    then show "some_thread N (pcs s') (\<lambda>p. p = ClSend \<or> wakes (items (writers s')) p w)"
      by (auto elim: some_thread_mono)
  qed
  ultimately show ?thesis by (simp add: wake_inv_def)
qed

text \<open>A step of a drain: what thread \<open>t\<close> gives up it has woken, what it takes out of the queue
  it holds.\<close>

lemma wake_inv_drain:
  assumes inv: "wake_inv items rxc N s" and t: "t < N" and old: "draining (pcs s t)"
    and new: "pcs s' = (pcs s)(t := p)" "role_ok t p" "\<not> registered p" "\<not> undoing p"
    and clears: "\<And>w. clearing (pcs s t) w \<Longrightarrow> clearing p w \<or> \<not> queued s' w"
    and held: "\<And>w. holds (pcs s t) w \<Longrightarrow> holds p w \<or> signalled s' w"
    and waking: "\<And>w. wakes (items (writers s)) (pcs s t) w \<Longrightarrow> wakes (items (writers s')) p w \<or> signalled s' w"
    and others: "\<And>q w. wakes (items (writers s)) q w \<Longrightarrow> wakes (items (writers s')) q w \<or> holds p w"
    and queue: "\<And>w. w \<in> set (items (writers s)) \<Longrightarrow> w \<in> set (items (writers s')) \<or> clearing p w"
    and flags: "\<And>w. queued s' w \<Longrightarrow> queued s w" "\<And>w. signalled s w \<Longrightarrow> signalled s' w"
    and same: "closed s' = closed s" "channel s' = channel s" "capacity s' = capacity s"
      "buffered s' = buffered s"
  shows "wake_inv items rxc N s'"
proof -
  note [simp] = new(1) same
  have np: "\<not> pushing (pcs s t)" "pcs s t \<noteq> DrStore" "pcs s t \<noteq> ClSend"
    using old by (cases "pcs s t"; simp)+
  have np': "\<not> late p" using new(3) late_registered by blast
  have move: "some_thread N (pcs s') R" if "some_thread N (pcs s) P"
    and "\<And>q. P q \<Longrightarrow> R q \<or> R p" "P (pcs s t) \<Longrightarrow> R p" for P R
    using that t unfolding some_thread_def new(1) by (metis fun_upd_apply)
  have "inv_control rxc N s'"
    using inv t new np by (auto simp: wake_inv_def inv_control_def)
  moreover have "inv_queued items N s'"
    unfolding inv_queued_def
  proof (intro allI impI)
    fix w assume w: "w < N" "queued s' w"
    then have "w \<in> set (items (writers s)) \<or> pushing (pcs s w) \<or> some_thread N (pcs s) (\<lambda>p. clearing p w)"
      using inv flags(1) by (simp add: wake_inv_def inv_queued_def)
    moreover have "clearing p w \<Longrightarrow> some_thread N (pcs s') (\<lambda>p. clearing p w)"
      using t by (simp add: some_thread_here)
    moreover have "some_thread N (pcs s) (\<lambda>p. clearing p w) \<Longrightarrow> some_thread N (pcs s') (\<lambda>p. clearing p w)"
      using w clears by (elim move) auto
    ultimately show "w \<in> set (items (writers s')) \<or> pushing (pcs s' w) \<or> some_thread N (pcs s') (\<lambda>p. clearing p w)"
      using queue np by auto
  qed
  moreover have "inv_registered items N s'"
    unfolding inv_registered_def
  proof (intro allI impI)
    fix w assume w: "w < N" "w \<noteq> 0" "registered (pcs s' w)" "\<not> signalled s' w"
    then have "registered (pcs s w)" "\<not> signalled s w"
      using new(3) flags(2) by (auto split: if_splits)
    then have "w \<in> set (items (writers s)) \<or> some_thread N (pcs s) (\<lambda>p. holds p w)"
      using inv w by (simp add: wake_inv_def inv_registered_def)
    moreover have "clearing p w \<Longrightarrow> some_thread N (pcs s') (\<lambda>p. holds p w)"
      using t by (simp add: some_thread_here clearing_holds)
    moreover have "some_thread N (pcs s) (\<lambda>p. holds p w) \<Longrightarrow> some_thread N (pcs s') (\<lambda>p. holds p w)"
      using w held by (elim move) auto
    ultimately show "w \<in> set (items (writers s')) \<or> some_thread N (pcs s') (\<lambda>p. holds p w)"
      using queue by auto
  qed
  moreover have "inv_room items rxc N s'"
    unfolding inv_room_def
  proof (intro allI impI)
    fix w assume w: "buffered s' < capacity s'" "\<not> closed s'" "\<not> rxc (channel s')"
      "w < N" "w \<noteq> 0" "pcs s' w = Parked" "\<not> signalled s' w"
    then have "pcs s w = Parked" "\<not> signalled s w"
      using new(3) flags(2) by (auto split: if_splits)
    then have "some_thread N (pcs s) (\<lambda>p. wakes (items (writers s)) p w)"
      using inv w by (simp add: wake_inv_def inv_room_def)
    then show "some_thread N (pcs s') (\<lambda>p. wakes (items (writers s')) p w)"
      using w others waking holds_wakes by (elim move) blast+
  qed
  moreover have "inv_closed items N s'"
    unfolding inv_closed_def
  proof (intro allI impI)
    fix w assume w: "closed s'" "w < N" "w \<noteq> 0" "late (pcs s' w)" "\<not> signalled s' w"
    then have "late (pcs s w)" "\<not> signalled s w"
      using np' flags(2) by (auto split: if_splits)
    then have "some_thread N (pcs s) (\<lambda>p. p = ClSend \<or> wakes (items (writers s)) p w)"
      using inv w by (simp add: wake_inv_def inv_closed_def)
    then show "some_thread N (pcs s') (\<lambda>p. p = ClSend \<or> wakes (items (writers s')) p w)"
      using w others waking holds_wakes np(3) by (elim move) blast+
  qed
  ultimately show ?thesis by (simp add: wake_inv_def)
qed

lemma set_take_Cons: "w \<in> set (take n (v # q)) \<Longrightarrow> w = v \<or> w \<in> set (take n q)"
proof (cases n)
  case (Suc m)
  have "set (take m q) \<subseteq> set (take (Suc m) q)"
    by (rule set_take_subset_set_take) simp
  then show "w \<in> set (take n (v # q)) \<Longrightarrow> ?thesis" using Suc by auto
qed simp

lemma wakes_mono_pop: "wakes (v # q) p w \<Longrightarrow> wakes q p w \<or> v = w"
  by (cases "(v # q, p, w)" rule: wakes.cases) (auto dest: set_take_Cons)

lemma wake_inv_drain_step:
  assumes inv: "wake_inv items rxc N s" and t: "t < N" and pc: "pcs s t = Draining d k"
    and Q: "fifo_queue Q items"
  shows "wake_inv items rxc N (drain_step Q t (Draining d k) s)"
proof -
  have role: "role_ok t (Draining e k)" for e
    using inv t pc by (cases k) (auto simp: wake_inv_def inv_control_def dest!: spec [of _ t])
  have drain: "draining (pcs s t)" using pc by simp
  show ?thesis
  proof (cases d)
    case DLen
    then show ?thesis
      using pc role by (intro wake_inv_drain [OF inv t drain]) (auto simp: fifo_queue_laws [OF Q])
  next
    case (DPop n)
    show ?thesis
    proof (cases n)
      case 0
      have "role_ok t (RdLoop r g)" if "k = Some (r, g)" for r g
        using role [of d] that by simp
      then show ?thesis
        using pc DPop 0 by (cases k)
          (auto simp: drain_done_def intro!: wake_inv_drain [OF inv t drain] split: prod.split)
    next
      case (Suc m)
      obtain v q where pop: "q_pop Q (writers s) = (v, q)" by (cases "q_pop Q (writers s)")
      show ?thesis
      proof (cases v)
        case None
        with pop have "items (writers s) = []" "items q = []"
          using fifo_queue_laws(3) [OF Q] by auto
        then show ?thesis
          using pc DPop Suc role pop None
          by (intro wake_inv_drain [OF inv t drain, where p = "Draining (DPop m) k"]) auto
      next
        case (Some w)
        with pop have items: "items (writers s) = w # items q"
          using fifo_queue_laws(4) [OF Q] by auto
        then show ?thesis
          using pc DPop Suc role pop Some
          by (intro wake_inv_drain [OF inv t drain, where p = "Draining (DClear w m) k"])
            (auto dest: wakes_mono_pop)
      qed
    qed
  next
    case (DClear w n)
    then show ?thesis
      using pc role by (intro wake_inv_drain [OF inv t drain, where p = "Draining (DWake w n) k"])
        (auto split: if_splits)
  next
    case (DWake w n)
    then show ?thesis
      using pc role by (intro wake_inv_drain [OF inv t drain, where p = "Draining (DPop n) k"])
        (auto split: if_splits)
  qed
qed

text \<open>Once closed (or half dropped), the amount of data no longer matters.\<close>

lemma wake_inv_buffered:
  "wake_inv items rxc N s \<Longrightarrow> closed s \<or> rxc (channel s) \<Longrightarrow> wake_inv items rxc N (s\<lparr>buffered := b\<rparr>)"
  by (auto simp: wake_inv_def wake_clauses)

lemma wake_inv_write_step:
  assumes inv: "wake_inv items rxc N s" and t: "t < N" and C: "fifo_channel C msgs rxc"
    and B: "pipe_inv msgs N s"
  shows "wake_inv items rxc N (write_step C spurious t (pcs s t) s)"
proof (cases "pcs s t")
  case (WrLoad bs a)
  then show ?thesis by (auto simp: Let_def intro!: wake_inv_plain [OF inv t])
next
  case (WrCas bs w b)
  then show ?thesis by (auto intro!: wake_inv_plain [OF inv t])
next
  case (WrClosed bs w)
  then show ?thesis by (auto intro!: wake_inv_plain [OF inv t])
next
  case (WrSend bs w)
  obtain r c where send: "ch_send C (Data (take w bs)) (channel s) = (r, c)"
    by (cases "ch_send C (Data (take w bs)) (channel s)")
  note law = fifo_send [OF C send]
  show ?thesis
    using WrSend send law by (cases r) (auto intro!: wake_inv_plain [OF inv t])
next
  case (WrUndo w)
  have "closed s \<or> rxc (channel s)"
    using inv t WrUndo by (auto simp: wake_inv_def inv_control_def dest!: spec [of _ t])
  moreover have "wake_inv items rxc N (goto t (Done (Inl broken_pipe)) s)"
    using WrUndo by (auto intro!: wake_inv_plain [OF inv t])
  ultimately have "wake_inv items rxc N
      ((goto t (Done (Inl broken_pipe)) s)\<lparr>buffered := fetch_sub (buffered s) w\<rparr>)"
    by (intro wake_inv_buffered) auto
  moreover have eq: "goto t x (s\<lparr>buffered := n\<rparr>) = (goto t x s)\<lparr>buffered := n\<rparr>" for x n
    by (cases s) (simp add: goto_def)
  ultimately show ?thesis
    by (simp only: WrUndo write_step.simps eq)
qed (use inv in simp_all)

lemma wake_inv_close_step:
  assumes inv: "wake_inv items rxc N s" and t: "t < N" and C: "fifo_channel C msgs rxc"
  shows "wake_inv items rxc N (close_step C t (pcs s t) s)"
proof (cases "pcs s t")
  case (ClSwap writer)
  define s1 where "s1 = (if writer then s\<lparr>active := (active s)(t := False)\<rparr> else s)"
  have same: "pcs s1 = pcs s" "writers s1 = writers s" "queued s1 = queued s" "signalled s1 = signalled s"
    "closed s1 = closed s" "channel s1 = channel s" "capacity s1 = capacity s" "buffered s1 = buffered s"
    by (simp_all add: s1_def)
  show ?thesis
  proof (cases "writer \<and> \<not> (active s t \<and> owns_lifetime s t) \<or> closed s")
    case True
    then have "close_step C t (pcs s t) s = goto t (Done (Inr 0)) s1"
      using ClSwap by (auto simp: s1_def Let_def)
    then show ?thesis
      using ClSwap same by (auto intro!: wake_inv_plain [OF inv t])
  next
    case False
    then have step: "close_step C t (pcs s t) s = goto t ClSend (s1\<lparr>closed := True\<rparr>)"
      using ClSwap by (auto simp: s1_def Let_def)
    let ?s = "goto t ClSend (s1\<lparr>closed := True\<rparr>)"
    have "inv_control rxc N ?s"
      using inv by (auto simp: wake_inv_def inv_control_def same)
    moreover have "inv_queued items N ?s"
      using inv ClSwap by (auto simp: wake_inv_def inv_queued_def same intro!: some_thread_keep)
    moreover have "inv_registered items N ?s"
      using inv ClSwap by (auto simp: wake_inv_def inv_registered_def same intro!: some_thread_keep)
    moreover have "inv_room items rxc N ?s"
      by (simp add: inv_room_def)
    moreover have "inv_closed items N ?s"
      using t by (simp add: inv_closed_def some_thread_here)
    ultimately show ?thesis
      unfolding step by (simp add: wake_inv_def)
  qed
next
  case ClSend
  have "rxc (snd (ch_send C CloseMsg (channel s))) = rxc (channel s)"
    using fifo_send(3) [OF C, of CloseMsg "channel s"] by (cases "ch_send C CloseMsg (channel s)") auto
  then show ?thesis
    using ClSend by (auto intro!: wake_inv_enter [OF inv t])
qed (use inv in simp_all)

lemma wake_inv_read_step:
  assumes inv: "wake_inv items rxc N s" and t: "t < N" and C: "fifo_channel C msgs rxc"
  shows "wake_inv items rxc N (read_step C t (pcs s t) s)"
proof (cases "pcs s t")
  case (RdLoop remaining got)
  then have zero: "t = 0"
    using inv t by (auto simp: wake_inv_def inv_control_def dest!: spec [of _ t])
  obtain r c where recv: "ch_recv C (channel s) = (r, c)" by (cases "ch_recv C (channel s)")
  have law: "rxc c = rxc (channel s)" by (rule fifo_recv(2) [OF C recv])
  have move: "wake_inv items rxc N (goto 0 p s')"
    if "writers s' = writers s" "queued s' = queued s" "signalled s' = signalled s" "closed s' = closed s"
      "channel s' = channel s \<or> channel s' = c" "capacity s' = capacity s" "buffered s' = buffered s"
      "pcs s' = pcs s" "role_ok 0 p" "\<not> undoing p" for p s'
    using that RdLoop zero law by (intro wake_inv_plain [OF inv t]) auto
  show ?thesis
  proof (cases "pending s")
    case None
    show ?thesis
    proof (cases r)
      case (RecvMsg m)
      then show ?thesis
        unfolding RdLoop using None recv by (cases m) (simp_all add: move zero)
    qed (unfold RdLoop, use None recv in \<open>simp_all add: move zero\<close>)
  next
    case (Some p)
    then show ?thesis
      unfolding RdLoop by (simp add: hand_over_def Let_def move zero)
  qed
next
  case (RdSub n remaining got)
  then have "t = 0"
    using inv t by (auto simp: wake_inv_def inv_control_def dest!: spec [of _ t])
  then show ?thesis
    using RdSub by (auto intro!: wake_inv_enter [OF inv t])
next
  case RdyRecv
  then have zero: "t = 0"
    using inv t by (auto simp: wake_inv_def inv_control_def dest!: spec [of _ t])
  obtain r c where recv: "ch_recv C (channel s) = (r, c)" by (cases "ch_recv C (channel s)")
  have law: "rxc c = rxc (channel s)" by (rule fifo_recv(2) [OF C recv])
  have move: "wake_inv items rxc N (goto 0 p s')"
    if "writers s' = writers s" "queued s' = queued s" "signalled s' = signalled s" "closed s' = closed s"
      "channel s' = channel s \<or> channel s' = c" "capacity s' = capacity s" "buffered s' = buffered s"
      "pcs s' = pcs s" "role_ok 0 p" "\<not> undoing p" for p s'
    using that RdyRecv zero law by (intro wake_inv_plain [OF inv t]) auto
  show ?thesis
  proof (cases "pending s = None \<and> \<not> eof s")
    case False
    then show ?thesis
      unfolding RdyRecv by (cases "pending s") (simp_all add: move zero)
  next
    case True
    show ?thesis
    proof (cases r)
      case (RecvMsg m)
      then show ?thesis
        unfolding RdyRecv using True recv by (cases m) (simp_all add: move zero)
    qed (unfold RdyRecv, use True recv in \<open>simp_all add: move zero\<close>)
  qed
next
  case DrClose
  then have "t = 0"
    using inv t by (auto simp: wake_inv_def inv_control_def dest!: spec [of _ t])
  moreover have "inv_queued items N (goto t DrStore s)" "inv_registered items N (goto t DrStore s)"
    "inv_closed items N (goto t DrStore s)"
    using inv DrClose
    by (auto simp: wake_inv_def inv_queued_def inv_registered_def inv_closed_def intro!: some_thread_keep)
  ultimately show ?thesis
    using inv t DrClose fifo_close(2) [OF C]
    by (auto simp: wake_inv_def inv_control_def inv_room_def inv_queued_def inv_registered_def inv_closed_def)
next
  case DrStore
  then show ?thesis by (auto intro!: wake_inv_enter [OF inv t])
qed (use inv in simp_all)

lemma wake_inv_cap_step:
  assumes inv: "wake_inv items rxc N s" and t: "t < N" and Q: "fifo_queue Q items"
  shows "wake_inv items rxc N (cap_step Q t (pcs s t) s)"
proof (cases "pcs s t")
  case (CapCheck k)
  then show ?thesis by (auto intro!: wake_inv_plain [OF inv t])
next
  case (CapLoad k)
  then show ?thesis
    by (cases k) (auto simp: cap_ready_def intro!: wake_inv_plain [OF inv t])
next
  case (CapRegister k)
  then show ?thesis by (auto intro!: wake_inv_plain [OF inv t])
next
  case (CapQueue k)
  then show ?thesis using wake_inv_cap_queue [OF inv t] by metis
next
  case (CapPush k)
  then show ?thesis using wake_inv_cap_push [OF inv t _ Q] by metis
next
  case (CapRecheck k)
  then show ?thesis using wake_inv_cap_recheck [OF inv t] by metis
next
  case (CapReload k)
  then show ?thesis using wake_inv_cap_reload [OF inv t] by metis
qed (use inv in simp_all)

lemma wake_inv_exec:
  assumes inv: "wake_inv items rxc N s" and t: "t < N"
    and C: "fifo_channel C msgs rxc" and Q: "fifo_queue Q items" and B: "pipe_inv msgs N s"
  shows "wake_inv items rxc N (exec C Q spurious t s)"
proof (cases rule: exec_cases [of C Q spurious t s])
  case (draining d k)
  then show ?thesis using wake_inv_drain_step [OF inv t _ Q] by metis
qed (use inv wake_inv_cap_step [OF inv t Q] wake_inv_write_step [OF inv t C B]
    wake_inv_close_step [OF inv t C] wake_inv_read_step [OF inv t C] in \<open>simp_all only:\<close>)

lemma wake_inv_start:
  assumes inv: "wake_inv items rxc N s" and t: "t < N" and rest: "resting (pcs s t)"
    and role: "reader_call c = (t = 0)"
  shows "wake_inv items rxc N (start t c s)"
proof -
  have "\<not> draining (pcs s t)" "pcs s t \<noteq> ClSend" "pcs s t \<noteq> DrStore" "\<not> pushing (pcs s t)"
    using rest by (cases "pcs s t"; simp)+
  note plain = wake_inv_plain [OF inv t this]
  show ?thesis
    using role by (cases c) (auto intro!: plain)
qed

lemma wake_inv_tap: "wake_inv items rxc N s \<Longrightarrow> \<not> queued s t \<Longrightarrow> wake_inv items rxc N (tap w t s)"
proof -
  assume inv: "wake_inv items rxc N s" and "\<not> queued s t"
  then have "(queued s)(t := False) = queued s"
    by (simp add: fun_upd_idem)
  then show ?thesis using inv by (simp add: tap_def wake_inv_def wake_clauses)
qed

lemma wake_system:
  assumes "fifo_channel C msgs rxc" "fifo_queue Q items"
  shows "inductive_invariant (fresh_pipe msgs rxc items cap) (pipe_step C Q N)
    (\<lambda>s. pipe_inv msgs N s \<and> wake_inv items rxc N s)"
proof unfold_locales
  fix s :: "('a, 'b) pipe"
  assume "fresh_pipe msgs rxc items cap s"
  then show "pipe_inv msgs N s \<and> wake_inv items rxc N s"
    by (auto simp: fresh_pipe_inv) (auto simp: fresh_pipe_def bounded_pipe_def wake_inv_def wake_clauses)
next
  fix s s' :: "('a, 'b) pipe"
  assume inv: "pipe_inv msgs N s \<and> wake_inv items rxc N s" and step: "pipe_step C Q N s s'"
  from step inv have "wake_inv items rxc N s'"
    by (induction rule: pipe_step.induct)
      (auto intro: wake_inv_exec [OF _ _ assms] wake_inv_start wake_inv_tap)
  then show "pipe_inv msgs N s' \<and> wake_inv items rxc N s'"
    using pipe_step_inv [OF step assms(1)] inv by blast
qed

section \<open>Drains finish\<close>

text \<open>\<open>solo C Q u m s\<close>: thread \<open>u\<close> makes \<open>m\<close> steps by itself.\<close>

definition solo :: "'c chan_ops \<Rightarrow> 'q queue_ops \<Rightarrow> nat \<Rightarrow> nat \<Rightarrow> ('c, 'q) pipe \<Rightarrow> ('c, 'q) pipe" where
  "solo C Q u m s = (exec C Q False u ^^ m) s"

lemma solo_step: "solo C Q u m (exec C Q False u s) = solo C Q u (Suc m) s"
  by (simp add: solo_def funpow_swap1)

lemma solo_0 [simp]: "solo C Q u 0 s = s"
  by (simp add: solo_def)

lemma solo_back:
  "\<exists>m. signalled (solo C Q u m (exec C Q False u s)) w \<Longrightarrow> \<exists>m. signalled (solo C Q u m s) w"
  by (auto simp: solo_step)

lemma exec_drain: "pcs s u = Draining d k \<Longrightarrow> exec C Q b u s = drain_step Q u (Draining d k) s"
  by (simp add: exec_def)

lemma solo_DWake:
  assumes "pcs s u = Draining (DWake v n) k"
  shows "pcs (exec C Q b u s) u = Draining (DPop n) k" "writers (exec C Q b u s) = writers s"
    "signalled (exec C Q b u s) = (signalled s)(v := True)"
  by (simp_all add: exec_drain [OF assms])

lemma solo_DClear:
  assumes "pcs s u = Draining (DClear v n) k"
  shows "pcs (exec C Q b u s) u = Draining (DWake v n) k" "writers (exec C Q b u s) = writers s"
    "signalled (exec C Q b u s) = signalled s"
  by (simp_all add: exec_drain [OF assms])

lemma solo_DPop:
  assumes "pcs s u = Draining (DPop (Suc n)) k" "q_pop Q (writers s) = (Some v, q)"
  shows "pcs (exec C Q b u s) u = Draining (DClear v n) k" "writers (exec C Q b u s) = q"
    "signalled (exec C Q b u s) = signalled s"
  using assms(2) by (simp_all add: exec_drain [OF assms(1)])

lemma pop_signals:
  assumes Q: "fifo_queue Q items"
  shows "pcs s u = Draining (DPop n) k \<Longrightarrow> w \<in> set (take n (items (writers s))) \<Longrightarrow>
    \<exists>m. signalled (solo C Q u m s) w"
proof (induction n arbitrary: s)
  case (Suc n)
  obtain v q where pop: "q_pop Q (writers s) = (v, q)" by (cases "q_pop Q (writers s)")
  from Suc.prems(2) have "items (writers s) \<noteq> []" by auto
  with pop obtain x where v: "v = Some x"
    using fifo_queue_laws(3) [OF Q] by (cases v) auto
  with pop have items: "items (writers s) = x # items q"
    using fifo_queue_laws(4) [OF Q] by auto
  note one = solo_DPop [OF Suc.prems(1) pop [unfolded v], of C False]
  note two = solo_DClear [OF one(1), of C Q False]
  note three = solo_DWake [OF two(1), of C Q False]
  define s3 where "s3 = exec C Q False u (exec C Q False u (exec C Q False u s))"
  have s3: "pcs s3 u = Draining (DPop n) k" "writers s3 = q" "signalled s3 = (signalled s)(x := True)"
    unfolding s3_def by (rule three(1), simp_all only: one two three)
  have "\<exists>m. signalled (solo C Q u m s3) w"
  proof (cases "x = w")
    case True
    then show ?thesis using s3(3) by (intro exI [of _ 0]) simp
  next
    case False
    then have "w \<in> set (take n (items (writers s3)))"
      using Suc.prems(2) items s3(2) by auto
    then show ?thesis using Suc.IH [OF s3(1)] by blast
  qed
  then show ?case
    unfolding s3_def by (rule solo_back [OF solo_back [OF solo_back]])
qed simp

lemma drain_signals:
  assumes Q: "fifo_queue Q items" and wakes: "wakes (items (writers s)) (pcs s u) w"
  shows "\<exists>m. signalled (solo C Q u m s) w"
proof -
  from wakes obtain d k where pc: "pcs s u = Draining d k"
    by (cases "pcs s u") auto
  show ?thesis
  proof (cases d)
    case DLen
    have "\<exists>m. signalled (solo C Q u m (exec C Q False u s)) w"
      using pc DLen wakes by (intro pop_signals [OF Q]) (auto simp: exec_def fifo_queue_laws [OF Q])
    then show ?thesis by (rule solo_back)
  next
    case (DPop n)
    then show ?thesis using pc wakes pop_signals [OF Q] by auto
  next
    case (DClear v n)
    note one = solo_DClear [OF pc [unfolded DClear], of C Q False]
    note two = solo_DWake [OF one(1), of C Q False]
    define s2 where "s2 = exec C Q False u (exec C Q False u s)"
    have s2: "pcs s2 u = Draining (DPop n) k" "writers s2 = writers s" "signalled s2 = (signalled s)(v := True)"
      unfolding s2_def by (rule two(1), simp_all only: one two)
    have "\<exists>m. signalled (solo C Q u m s2) w"
    proof (cases "v = w")
      case True
      then show ?thesis using s2(3) by (intro exI [of _ 0]) simp
    next
      case False
      then show ?thesis using wakes pc DClear s2 by (intro pop_signals [OF Q]) auto
    qed
    then show ?thesis unfolding s2_def by (rule solo_back [OF solo_back])
  next
    case (DWake v n)
    note one = solo_DWake [OF pc [unfolded DWake], of C Q False]
    define s1 where "s1 = exec C Q False u s"
    have s1: "pcs s1 u = Draining (DPop n) k" "writers s1 = writers s" "signalled s1 = (signalled s)(v := True)"
      unfolding s1_def by (rule one)+
    have "\<exists>m. signalled (solo C Q u m s1) w"
    proof (cases "v = w")
      case True
      then show ?thesis using s1(3) by (intro exI [of _ 0]) simp
    next
      case False
      then show ?thesis using wakes pc DWake s1 by (intro pop_signals [OF Q]) auto
    qed
    then show ?thesis unfolding s1_def by (rule solo_back)
  qed
qed

text \<open>A closer or a dropped reader that has not started its drain yet will find a queued writer.\<close>

lemma closing_signals:
  assumes Q: "fifo_queue Q items" and pc: "pcs s u = ClSend \<or> pcs s u = DrStore"
    and w: "w \<in> set (items (writers s))"
  shows "\<exists>m. signalled (solo C Q u m s) w"
proof -
  have "wakes (items (writers (exec C Q False u s))) (pcs (exec C Q False u s) u) w"
    using pc w by (auto simp: exec_def)
  then show ?thesis by (rule solo_back [OF drain_signals [OF Q]])
qed

lemma reachable_wake:
  assumes "fifo_channel C msgs rxc" "fifo_queue Q items"
    and "reachable (fresh_pipe msgs rxc items cap) (pipe_step C Q N) s"
  shows "pipe_inv msgs N s" "wake_inv items rxc N s"
  using inductive_invariant.reachable_inv [OF wake_system [OF assms(1,2)] assms(3)] by auto

lemma waiting_writer_signalled:
  assumes C: "fifo_channel C msgs rxc" and Q: "fifo_queue Q items"
    and inv: "wake_inv items rxc N s" and w: "w < N" "w \<noteq> 0" "pcs s w = Parked" "\<not> signalled s w"
    and room: "buffered s < capacity s \<or> closed s \<or> rxc (channel s)"
  shows "\<exists>u<N. \<not> resting (pcs s u) \<and> (\<exists>m. signalled (solo C Q u m s) w)"
proof -
  have moving: "\<not> resting p" if "wakes q p w" for p q
    using that by (cases p) auto
  have place: "w \<in> set (items (writers s)) \<or> (\<exists>u<N. holds (pcs s u) w)"
    using inv w by (auto simp: wake_inv_def inv_registered_def some_thread_def)
  have held: ?thesis if "\<exists>u<N. wakes (items (writers s)) (pcs s u) w"
    using that moving drain_signals [OF Q] by blast
  have closing: ?thesis if "\<exists>u<N. pcs s u = ClSend \<or> pcs s u = DrStore"
  proof -
    from that obtain u where u: "u < N" "pcs s u = ClSend \<or> pcs s u = DrStore" by blast
    then have "\<not> resting (pcs s u)" by auto
    with place u held holds_wakes closing_signals [OF Q u(2)] show ?thesis by blast
  qed
  have "N \<noteq> 0" using w by simp
  consider "closed s" | "\<not> closed s" "rxc (channel s)" | "\<not> closed s" "\<not> rxc (channel s)" "buffered s < capacity s"
    using room by blast
  then show ?thesis
  proof cases
    case 1
    then have "\<exists>u<N. pcs s u = ClSend \<or> wakes (items (writers s)) (pcs s u) w"
      using inv w by (auto simp: wake_inv_def inv_closed_def some_thread_def)
    then show ?thesis using held closing by blast
  next
    case 2
    then have "pcs s 0 = DrStore" using inv by (auto simp: wake_inv_def inv_control_def)
    then show ?thesis using closing \<open>N \<noteq> 0\<close> by blast
  next
    case 3
    then show ?thesis
      using held inv w by (auto simp: wake_inv_def inv_room_def some_thread_def)
  qed
qed

section \<open>Properties\<close>

text \<open>C4: no writer sleeps through a wake-up. Whenever a writer's last poll answered pending, it
  has not been woken since it registered, and the pipe has room or is closed, some thread
  is in the middle of an operation that, run by itself, wakes the writer.\<close>

theorem writer_wakeup_progress:
  assumes "fifo_channel C msgs rxc" "fifo_queue Q items"
    and "reachable (fresh_pipe msgs rxc items cap) (pipe_step C Q N) s"
    and "w < N" "w \<noteq> 0" "pcs s w = Parked" "\<not> signalled s w"
    and "buffered s < capacity s \<or> closed s"
  shows "\<exists>u<N. \<not> resting (pcs s u) \<and> (\<exists>m. signalled (solo C Q u m s) w)"
  using waiting_writer_signalled [OF assms(1,2) reachable_wake(2) [OF assms(1-3)] assms(4-7)] assms(8)
  by blast

text \<open>Two writers compete for a full pipe; the reader has just released the room.\<close>

definition sleepy_pipe :: "(bool \<times> pipe_message list, nat list) pipe" where
  "sleepy_pipe = list_pipe 1
     [Call 1 (PollWrite [10]), Step False 1, Step False 1, Step False 1, Step False 1, Step False 1,
      Step False 1, Call 1 (PollWrite [11]), Step False 1, Step False 1, Step False 1, Step False 1,
      Step False 1, Step False 1, Step False 1, Call 0 (PollRead 1), Step False 0, Step False 0,
      Step False 0]"

lemma sleepy_pipe_value:
  "pcs sleepy_pipe 1 = Parked \<and> \<not> signalled sleepy_pipe 1 \<and> buffered sleepy_pipe = 0
     \<and> capacity sleepy_pipe = 1"
  by (simp add: sleepy_pipe_def list_pipe_def exec_def bounded_pipe_def cap_ready_def
      drain_done_def hand_over_def list_chan_def list_queue_def Let_def max_pipe_chunk_bytes_def
      fetch_sub_def goto_def)

theorem writer_wakeup_progress_witness:
  "\<exists>u<3. \<not> resting (pcs sleepy_pipe u) \<and> (\<exists>m. signalled (solo list_chan list_queue u m sleepy_pipe) 1)"
proof -
  have "reachable (fresh_pipe snd fst (\<lambda>q. q) 1) (pipe_step list_chan list_queue 3) sleepy_pipe"
    unfolding sleepy_pipe_def by (rule list_pipe_reachable)
  from writer_wakeup_progress [OF fifo_list_chan fifo_list_queue this, of 1]
  show ?thesis using sleepy_pipe_value by simp
qed

text \<open>A writer waits only for a reason. When no operation on the pipe is in progress, a
  writer that was told to wait and has not been woken faces an open pipe that is full.\<close>

theorem quiet_writer_faces_full_pipe:
  assumes "fifo_channel C msgs rxc" "fifo_queue Q items"
    and "reachable (fresh_pipe msgs rxc items cap) (pipe_step C Q N) s"
    and "\<forall>u<N. resting (pcs s u)"
    and "w < N" "w \<noteq> 0" "pcs s w = Parked" "\<not> signalled s w"
  shows "buffered s = capacity s \<and> \<not> closed s \<and> \<not> rxc (channel s)"
proof -
  have "\<not> (buffered s < capacity s \<or> closed s \<or> rxc (channel s))"
    using waiting_writer_signalled [OF assms(1,2) reachable_wake(2) [OF assms(1-3)] assms(5-8)] assms(4)
    by blast
  moreover have "buffered s \<le> capacity s"
    using reachable_wake(1) [OF assms(1-3)] by (simp add: pipe_inv_def)
  ultimately show ?thesis by auto
qed

definition waiting_pipe :: "(bool \<times> pipe_message list, nat list) pipe" where
  "waiting_pipe = list_pipe 1
     [Call 1 (PollWrite [10]), Step False 1, Step False 1, Step False 1, Step False 1, Step False 1,
      Step False 1, Call 1 (PollWrite [11]), Step False 1, Step False 1, Step False 1, Step False 1,
      Step False 1, Step False 1, Step False 1]"

lemma waiting_pipe_value:
  "pcs waiting_pipe 0 = Idle \<and> pcs waiting_pipe 1 = Parked \<and> pcs waiting_pipe 2 = Idle
     \<and> \<not> signalled waiting_pipe 1"
  by (simp add: waiting_pipe_def list_pipe_def exec_def bounded_pipe_def cap_ready_def
      drain_done_def hand_over_def list_chan_def list_queue_def Let_def max_pipe_chunk_bytes_def
      fetch_sub_def goto_def)

theorem quiet_writer_faces_full_pipe_witness:
  "buffered waiting_pipe = capacity waiting_pipe \<and> \<not> closed waiting_pipe \<and> \<not> fst (channel waiting_pipe)"
proof -
  have r: "reachable (fresh_pipe snd fst (\<lambda>q. q) 1) (pipe_step list_chan list_queue 3) waiting_pipe"
    unfolding waiting_pipe_def by (rule list_pipe_reachable)
  have "u = 0 \<or> u = 1 \<or> u = 2" if "u < 3" for u :: nat using that by auto
  then have "\<forall>u<3. resting (pcs waiting_pipe u)"
    using waiting_pipe_value by (metis resting.simps(1,3))
  from quiet_writer_faces_full_pipe [OF fifo_list_chan fifo_list_queue r this, of 1]
  show ?thesis using waiting_pipe_value by simp
qed

end
