(* ===== verification/Pipe_Files.thy ===== *)
theory Pipe_Files
  imports Pipe_Safety
begin

text \<open>
  The virtual files around the pipe (rust/src/stream.rs): \<open>PipeVirtualFile\<close>, which exposes one
  end of a pipe to the guest, and \<open>RetainedOutput\<close>, which additionally keeps the bytes the pipe
  accepted in a capture. A file operation answers at once, is pending, or forwards a call to a pipe
  endpoint, which is a thread of the pipe model.
\<close>

section \<open>PipeVirtualFile\<close>

record pipe_file =
  vf_reader :: "nat option"
  vf_writer :: "nat option"

definition vf_of_reader :: "nat \<Rightarrow> pipe_file" where
  "vf_of_reader r = \<lparr>vf_reader = Some r, vf_writer = None\<rparr>"

definition vf_of_writer :: "nat \<Rightarrow> pipe_file" where
  "vf_of_writer w = \<lparr>vf_reader = None, vf_writer = Some w\<rparr>"

datatype action = Answer "io_error + nat" | NotYet | Forward nat pipe_call

definition vf_poll_read :: "nat \<Rightarrow> pipe_file \<Rightarrow> action" where
  "vf_poll_read room f = (case vf_reader f of
     None \<Rightarrow> Answer (Inr 0) | Some r \<Rightarrow> Forward r (PollRead room))"

definition vf_poll_write :: "byte list \<Rightarrow> pipe_file \<Rightarrow> action" where
  "vf_poll_write bs f = (case vf_writer f of
     None \<Rightarrow> Answer (Inl broken_pipe) | Some w \<Rightarrow> Forward w (PollWrite bs))"

definition vf_poll_flush :: "pipe_file \<Rightarrow> action" where
  "vf_poll_flush f = (case vf_writer f of None \<Rightarrow> Answer (Inr 0) | Some w \<Rightarrow> Forward w PollFlush)"

definition vf_poll_shutdown :: "pipe_file \<Rightarrow> action" where
  "vf_poll_shutdown f = (case vf_writer f of None \<Rightarrow> Answer (Inr 0) | Some w \<Rightarrow> Forward w Shutdown)"

definition vf_poll_read_ready :: "pipe_file \<Rightarrow> action" where
  "vf_poll_read_ready f = (case vf_reader f of
     None \<Rightarrow> Answer (Inr 0) | Some r \<Rightarrow> Forward r PollReadReady)"

definition vf_poll_write_ready :: "pipe_file \<Rightarrow> action" where
  "vf_poll_write_ready f = (case vf_writer f of
     None \<Rightarrow> Answer (Inl broken_pipe) | Some w \<Rightarrow> Forward w PollWriteReady)"

text \<open>A pipe is not seekable, has no length and cannot be resized; seeking and unlinking it
  succeed without effect.\<close>

definition vf_start_seek :: "seek_from \<Rightarrow> pipe_file \<Rightarrow> io_error + unit" where
  "vf_start_seek position f = Inr ()"

definition vf_poll_complete :: "pipe_file \<Rightarrow> io_error + nat" where
  "vf_poll_complete f = Inr 0"

definition vf_size :: "pipe_file \<Rightarrow> nat" where
  "vf_size f = 0"

definition vf_set_len :: "nat \<Rightarrow> pipe_file \<Rightarrow> vfs_error + unit" where
  "vf_set_len n f = Inl V_Unsupported"

definition vf_unlink :: "pipe_file \<Rightarrow> vfs_error + unit" where
  "vf_unlink f = Inr ()"

section \<open>RetainedOutput\<close>

record retained_output =
  ro_inner :: pipe_file
  ro_capture :: capture

definition retained_new :: "nat \<Rightarrow> capture \<Rightarrow> retained_output" where
  "retained_new w h = \<lparr>ro_inner = vf_of_writer w, ro_capture = h\<rparr>"

definition retained_poll_read :: "nat \<Rightarrow> retained_output \<Rightarrow> action" where
  "retained_poll_read room f = vf_poll_read room (ro_inner f)"

definition retained_poll_flush :: "retained_output \<Rightarrow> action" where
  "retained_poll_flush f = vf_poll_flush (ro_inner f)"

definition retained_poll_shutdown :: "retained_output \<Rightarrow> action" where
  "retained_poll_shutdown f = vf_poll_shutdown (ro_inner f)"

definition retained_poll_read_ready :: "retained_output \<Rightarrow> action" where
  "retained_poll_read_ready f = Answer (Inr 8192)"

definition retained_poll_write_ready :: "retained_output \<Rightarrow> action" where
  "retained_poll_write_ready f = vf_poll_write_ready (ro_inner f)"

text \<open>Writing: the inner poll is made with the whole buffer; when it answers that \<open>written\<close> bytes
  were accepted, exactly those are retained. Its answer is passed on in every case.\<close>

definition retained_poll_write :: "byte list \<Rightarrow> retained_output \<Rightarrow> action" where
  "retained_poll_write bs f = vf_poll_write bs (ro_inner f)"

fun retained_after_write ::
    "byte list \<Rightarrow> (io_error + nat) poll \<Rightarrow> retained_output \<Rightarrow> (io_error + nat) poll \<times> retained_output" where
  "retained_after_write bs (Ready (Inr written)) f =
     (Ready (Inr written), f\<lparr>ro_capture := retain_bytes (take written bs) (ro_capture f)\<rparr>)"
| "retained_after_write bs r f = (r, f)"

fun poll_answer :: "pc \<Rightarrow> (io_error + nat) poll" where
  "poll_answer (Done r) = Ready r"
| "poll_answer _ = Pending"

section \<open>A guest writing to a retained output\<close>

text \<open>The guest's stream is writer 1 of a pipe and there are no taps; the reader and the closers
  run freely. \<open>polling\<close> is the buffer of the \<open>poll_write\<close> in progress.\<close>

record ('c, 'q) retained_system =
  rs_pipe :: "('c, 'q) pipe"
  rs_file :: retained_output
  polling :: "byte list option"

inductive retained_step ::
    "'c chan_ops \<Rightarrow> 'q queue_ops \<Rightarrow> nat \<Rightarrow> ('c, 'q) retained_system \<Rightarrow> ('c, 'q) retained_system \<Rightarrow> bool"
  for C Q N where
  rt_exec: "t < N \<Longrightarrow> retained_step C Q N s (s\<lparr>rs_pipe := exec C Q spurious t (rs_pipe s)\<rparr>)"
| rt_read: "reader_call c \<Longrightarrow> resting (pcs (rs_pipe s) 0) \<Longrightarrow>
    retained_step C Q N s (s\<lparr>rs_pipe := start 0 c (rs_pipe s)\<rparr>)"
| rt_close: "2 \<le> t \<Longrightarrow> resting (pcs (rs_pipe s) t) \<Longrightarrow>
    retained_step C Q N s (s\<lparr>rs_pipe := start t CloserClose (rs_pipe s)\<rparr>)"
| rt_file: "polling s = None \<Longrightarrow> resting (pcs (rs_pipe s) 1) \<Longrightarrow>
    Forward t c \<in> {retained_poll_flush (rs_file s), retained_poll_shutdown (rs_file s),
      retained_poll_write_ready (rs_file s)} \<Longrightarrow>
    retained_step C Q N s (s\<lparr>rs_pipe := start t c (rs_pipe s)\<rparr>)"
| rt_write: "polling s = None \<Longrightarrow> resting (pcs (rs_pipe s) 1) \<Longrightarrow>
    retained_poll_write bs (rs_file s) = Forward t c \<Longrightarrow>
    retained_step C Q N s (s\<lparr>rs_pipe := start t c (rs_pipe s), polling := Some bs\<rparr>)"
| rt_answer: "polling s = Some bs \<Longrightarrow> resting (pcs (rs_pipe s) 1) \<Longrightarrow>
    retained_step C Q N s (s\<lparr>polling := None,
      rs_file := snd (retained_after_write bs (poll_answer (pcs (rs_pipe s) 1)) (rs_file s))\<rparr>)"

definition fresh_retained :: "'c \<Rightarrow> 'q \<Rightarrow> usize \<Rightarrow> usize \<Rightarrow> ('c, 'q) retained_system \<Rightarrow> bool" where
  "fresh_retained c0 q0 cap limit s \<longleftrightarrow>
     s = \<lparr>rs_pipe = bounded_pipe c0 q0 cap, rs_file = retained_new 1 (capture_new limit), polling = None\<rparr>"

section \<open>The retained bytes are the accepted bytes\<close>

text \<open>Program points of a thread that is not writing, and of one that is writing \<open>bs\<close>.\<close>

fun no_write :: "pc \<Rightarrow> bool" where
  "no_write (CapCheck k) = (k = None)"
| "no_write (CapLoad k) = (k = None)"
| "no_write (CapRegister k) = (k = None)"
| "no_write (CapQueue k) = (k = None)"
| "no_write (CapPush k) = (k = None)"
| "no_write (CapRecheck k) = (k = None)"
| "no_write (CapReload k) = (k = None)"
| "no_write (WrLoad bs a) = False"
| "no_write (WrCas bs n b) = False"
| "no_write (WrClosed bs n) = False"
| "no_write (WrSend bs n) = False"
| "no_write (WrUndo n) = False"
| "no_write _ = True"

fun carries :: "byte list \<Rightarrow> pc \<Rightarrow> bool" where
  "carries bs (CapCheck k) = (k = Some bs)"
| "carries bs (CapLoad k) = (k = Some bs)"
| "carries bs (CapRegister k) = (k = Some bs)"
| "carries bs (CapQueue k) = (k = Some bs)"
| "carries bs (CapPush k) = (k = Some bs)"
| "carries bs (CapRecheck k) = (k = Some bs)"
| "carries bs (CapReload k) = (k = Some bs)"
| "carries bs (WrLoad b a) = (b = bs)"
| "carries bs (WrCas b n x) = (b = bs)"
| "carries bs (WrClosed b n) = (b = bs)"
| "carries bs (WrSend b n) = (b = bs)"
| "carries bs (WrUndo n) = True"
| "carries bs (Done r) = True"
| "carries bs Parked = True"
| "carries bs _ = False"

definition captures :: "usize \<Rightarrow> byte list \<Rightarrow> retained_output \<Rightarrow> bool" where
  "captures limit bs f \<longleftrightarrow> ro_inner f = vf_of_writer 1
     \<and> ro_capture f = \<lparr>cap_bytes = take limit bs, cap_truncated = (limit < length bs), cap_limit = limit\<rparr>"

text \<open>Bytes of the current call that the pipe accepted and the file has not retained yet.\<close>

fun unretained :: "byte list option \<Rightarrow> pc \<Rightarrow> byte list" where
  "unretained (Some bs) (Done (Inr n)) = take n bs"
| "unretained _ _ = []"

definition retained_inv :: "usize \<Rightarrow> ('c, 'q) retained_system \<Rightarrow> bool" where
  "retained_inv limit s \<longleftrightarrow>
     (\<forall>t. t \<noteq> 1 \<longrightarrow> no_write (pcs (rs_pipe s) t))
   \<and> (case polling s of None \<Rightarrow> no_write (pcs (rs_pipe s) 1) | Some bs \<Rightarrow> carries bs (pcs (rs_pipe s) 1))
   \<and> (\<exists>kept. captures limit kept (rs_file s)
        \<and> sent (rs_pipe s) = kept @ unretained (polling s) (pcs (rs_pipe s) 1))"

lemma sent_cap_step: "sent (cap_step Q t p s) = sent s"
  by (cases "(Q, t, p, s)" rule: cap_step.cases) (auto simp: cap_ready_def Let_def split: option.splits)

lemma sent_drain_step: "sent (drain_step Q t p s) = sent s"
  by (cases "(Q, t, p, s)" rule: drain_step.cases)
    (auto simp: drain_done_def split: option.splits prod.splits)

lemma sent_close_step: "sent (close_step C t p s) = sent s"
  by (cases "(C, t, p, s)" rule: close_step.cases) (auto simp: Let_def)

lemma sent_read_step: "sent (read_step C t p s) = sent s"
  by (cases "(C, t, p, s)" rule: read_step.cases)
    (auto simp: hand_over_def Let_def split: option.split prod.split recv_result.split pipe_message.split)

lemmas sent_steps = sent_cap_step sent_drain_step sent_close_step sent_read_step

lemma pcs_exec_other: "u \<noteq> t \<Longrightarrow> pcs (exec C Q spurious t s) u = pcs s u"
proof (cases rule: exec_cases [of C Q spurious t s])
  case reserve
  then show "u \<noteq> t \<Longrightarrow> ?thesis"
    by (cases "(Q, t, pcs s t, s)" rule: cap_step.cases) (auto simp: cap_ready_def Let_def split: option.splits)
next
  case writing
  then show "u \<noteq> t \<Longrightarrow> ?thesis"
    by (cases "(C, spurious, t, pcs s t, s)" rule: write_step.cases) (auto simp: Let_def split: prod.splits)
next
  case closing
  then show "u \<noteq> t \<Longrightarrow> ?thesis"
    by (cases "(C, t, pcs s t, s)" rule: close_step.cases) (auto simp: Let_def)
next
  case reading
  then show "u \<noteq> t \<Longrightarrow> ?thesis"
    by (cases "(C, t, pcs s t, s)" rule: read_step.cases)
      (auto simp: hand_over_def Let_def split: option.split prod.split recv_result.split pipe_message.split)
next
  case (draining d k)
  then show "u \<noteq> t \<Longrightarrow> ?thesis"
    by (cases "(Q, t, Draining d k, s)" rule: drain_step.cases)
      (auto simp: drain_done_def split: option.splits prod.splits)
qed simp

lemma exec_no_write:
  assumes "no_write (pcs s t)"
  shows "no_write (pcs (exec C Q spurious t s) t) \<and> sent (exec C Q spurious t s) = sent s"
proof (cases rule: exec_cases [of C Q spurious t s])
  case reserve
  then show ?thesis using assms
    by (cases "(Q, t, pcs s t, s)" rule: cap_step.cases)
      (auto simp: cap_ready_def Let_def sent_steps split: option.splits)
next
  case writing
  then show ?thesis using assms by (cases "(C, spurious, t, pcs s t, s)" rule: write_step.cases) auto
next
  case closing
  then show ?thesis using assms
    by (cases "(C, t, pcs s t, s)" rule: close_step.cases) (auto simp: Let_def sent_steps)
next
  case reading
  then show ?thesis using assms
    by (cases "(C, t, pcs s t, s)" rule: read_step.cases)
      (auto simp: hand_over_def Let_def split: option.split prod.split recv_result.split pipe_message.split)
next
  case (draining d k)
  then show ?thesis using assms
    by (cases "(Q, t, Draining d k, s)" rule: drain_step.cases)
      (auto simp: drain_done_def sent_steps split: option.splits prod.splits)
qed (use assms in simp)

lemma exec_carries:
  assumes "carries bs (pcs s t)" "sent s = kept @ unretained (Some bs) (pcs s t)"
  shows "carries bs (pcs (exec C Q spurious t s) t)
    \<and> sent (exec C Q spurious t s) = kept @ unretained (Some bs) (pcs (exec C Q spurious t s) t)"
proof (cases "pcs s t")
  case (WrSend b n)
  then show ?thesis using assms
    by (cases "ch_send C (Data (take n b)) (channel s)") (auto simp: exec_def)
qed (use assms in \<open>auto simp: exec_def Let_def cap_ready_def\<close>)

lemma captures_retain:
  "captures limit kept f \<Longrightarrow> captures limit (kept @ bs) (f\<lparr>ro_capture := retain_bytes bs (ro_capture f)\<rparr>)"
  by (auto simp: captures_def retain_bytes_def Let_def min_def)

lemma sent_start: "sent (start t c s) = sent s" "u \<noteq> t \<Longrightarrow> pcs (start t c s) u = pcs s u"
  by (cases c; auto)+

lemma retained_inv_frame:
  assumes inv: "retained_inv limit s" and others: "\<And>u. u \<noteq> t \<Longrightarrow> pcs p u = pcs (rs_pipe s) u"
    and quiet: "t \<noteq> 1 \<or> polling s = None \<Longrightarrow> no_write (pcs p t) \<and> sent p = sent (rs_pipe s)"
    and busy: "\<And>bs kept. t = 1 \<Longrightarrow> polling s = Some bs \<Longrightarrow> carries bs (pcs (rs_pipe s) 1) \<Longrightarrow>
        sent (rs_pipe s) = kept @ unretained (Some bs) (pcs (rs_pipe s) 1) \<Longrightarrow>
        carries bs (pcs p 1) \<and> sent p = kept @ unretained (Some bs) (pcs p 1)"
  shows "retained_inv limit (s\<lparr>rs_pipe := p\<rparr>)"
proof -
  have nw: "no_write (pcs p u)" if "u \<noteq> 1" for u
    using inv that others quiet by (cases "u = t") (auto simp: retained_inv_def)
  obtain kept where kept: "captures limit kept (rs_file s)"
      "sent (rs_pipe s) = kept @ unretained (polling s) (pcs (rs_pipe s) 1)"
    using inv by (auto simp: retained_inv_def)
  show ?thesis
  proof (cases "polling s")
    case None
    then have "no_write (pcs p 1)"
      using inv others quiet by (cases "t = 1") (auto simp: retained_inv_def)
    then show ?thesis using None nw kept quiet by (simp add: retained_inv_def)
  next
    case (Some bs)
    then have "carries bs (pcs (rs_pipe s) 1)" using inv by (simp add: retained_inv_def)
    then have "carries bs (pcs p 1) \<and> sent p = kept @ unretained (Some bs) (pcs p 1)"
      using Some kept busy others [of 1] quiet by (cases "t = 1") auto
    then show ?thesis using Some nw kept by (auto simp: retained_inv_def)
  qed
qed

lemma retained_inv_exec:
  assumes inv: "retained_inv limit s"
  shows "retained_inv limit (s\<lparr>rs_pipe := exec C Q spurious t (rs_pipe s)\<rparr>)"
proof (rule retained_inv_frame [OF inv pcs_exec_other])
  assume "t \<noteq> 1 \<or> polling s = None"
  then have "no_write (pcs (rs_pipe s) t)"
    using inv by (cases "t = 1") (auto simp: retained_inv_def)
  then show "no_write (pcs (exec C Q spurious t (rs_pipe s)) t)
      \<and> sent (exec C Q spurious t (rs_pipe s)) = sent (rs_pipe s)"
    by (rule exec_no_write)
next
  fix bs kept
  assume "t = 1" "polling s = Some bs" "carries bs (pcs (rs_pipe s) 1)"
    "sent (rs_pipe s) = kept @ unretained (Some bs) (pcs (rs_pipe s) 1)"
  then show "carries bs (pcs (exec C Q spurious t (rs_pipe s)) 1)
      \<and> sent (exec C Q spurious t (rs_pipe s))
        = kept @ unretained (Some bs) (pcs (exec C Q spurious t (rs_pipe s)) 1)"
    using exec_carries [of bs "rs_pipe s" 1 kept C Q spurious] by simp
qed

lemma no_write_start:
  "\<forall>bs. c \<noteq> PollWrite bs \<Longrightarrow> no_write (pcs (start t c s) t)"
  by (cases c) auto

lemma retained_inv_start:
  assumes inv: "retained_inv limit s" and "no_write (pcs (start t c (rs_pipe s)) t)"
    and "t = 1 \<Longrightarrow> polling s = None"
  shows "retained_inv limit (s\<lparr>rs_pipe := start t c (rs_pipe s)\<rparr>)"
  using assms(2,3) by (intro retained_inv_frame [OF inv, where t = t]) (auto simp: sent_start)

lemma retained_inv_write:
  assumes inv: "retained_inv limit s" and idle: "polling s = None"
    and call: "retained_poll_write bs (rs_file s) = Forward t c"
  shows "retained_inv limit (s\<lparr>rs_pipe := start t c (rs_pipe s), polling := Some bs\<rparr>)"
proof -
  obtain kept where "captures limit kept (rs_file s)" "sent (rs_pipe s) = kept"
    using inv idle by (auto simp: retained_inv_def)
  moreover from this call have "t = 1" "c = PollWrite bs"
    by (auto simp: retained_poll_write_def vf_poll_write_def captures_def vf_of_writer_def)
  ultimately show ?thesis
    using inv idle by (cases "bs = []") (auto simp: retained_inv_def)
qed

lemma retained_inv_answer:
  assumes inv: "retained_inv limit s" and busy: "polling s = Some bs" "resting (pcs (rs_pipe s) 1)"
  shows "retained_inv limit (s\<lparr>polling := None,
    rs_file := snd (retained_after_write bs (poll_answer (pcs (rs_pipe s) 1)) (rs_file s))\<rparr>)"
proof -
  obtain kept where kept: "captures limit kept (rs_file s)"
      "sent (rs_pipe s) = kept @ unretained (Some bs) (pcs (rs_pipe s) 1)"
    using inv busy by (auto simp: retained_inv_def)
  have rest: "no_write (pcs (rs_pipe s) 1)" using busy(2) by (cases "pcs (rs_pipe s) 1") auto
  have "captures limit (sent (rs_pipe s))
      (snd (retained_after_write bs (poll_answer (pcs (rs_pipe s) 1)) (rs_file s)))"
  proof (cases "\<exists>n. pcs (rs_pipe s) 1 = Done (Inr n)")
    case True
    then show ?thesis using kept captures_retain by auto
  next
    case False
    then have "retained_after_write bs (poll_answer (pcs (rs_pipe s) 1)) f
        = (poll_answer (pcs (rs_pipe s) 1), f)" for f
      using False by (cases "(bs, poll_answer (pcs (rs_pipe s) 1), f)" rule: retained_after_write.cases)
        (auto elim: poll_answer.elims)
    moreover have "unretained (Some bs) (pcs (rs_pipe s) 1) = []"
      using False by (cases "(Some bs, pcs (rs_pipe s) 1)" rule: unretained.cases) auto
    ultimately show ?thesis using kept by simp
  qed
  then show ?thesis using inv rest by (simp add: retained_inv_def)
qed

interpretation retained: inductive_invariant "fresh_retained c0 q0 cap limit" "retained_step C Q N"
    "retained_inv limit"
proof unfold_locales
  fix s :: "('a, 'b) retained_system"
  assume "fresh_retained c0 q0 cap limit s"
  then show "retained_inv limit s"
    by (simp add: fresh_retained_def retained_inv_def bounded_pipe_def captures_def retained_new_def
        capture_new_def)
next
  fix s s' :: "('a, 'b) retained_system"
  assume inv: "retained_inv limit s" and step: "retained_step C Q N s s'"
  from step show "retained_inv limit s'"
  proof (cases rule: retained_step.cases)
    case (rt_exec t spurious)
    then show ?thesis using inv by (simp add: retained_inv_exec)
  next
    case (rt_read c)
    then have "no_write (pcs (start 0 c (rs_pipe s)) 0)"
      by (intro no_write_start) auto
    then show ?thesis unfolding rt_read(1) by (rule retained_inv_start [OF inv]) simp
  next
    case (rt_close t)
    have "no_write (pcs (start t CloserClose (rs_pipe s)) t)" by (intro no_write_start) auto
    then show ?thesis
      unfolding rt_close(1) by (rule retained_inv_start [OF inv]) (use rt_close in simp)
  next
    case (rt_file t c)
    have "ro_inner (rs_file s) = vf_of_writer 1"
      using inv by (auto simp: retained_inv_def captures_def)
    then have "c \<in> {PollFlush, Shutdown, PollWriteReady}"
      using rt_file by (auto simp: retained_poll_flush_def retained_poll_shutdown_def
          retained_poll_write_ready_def vf_poll_flush_def vf_poll_shutdown_def vf_poll_write_ready_def
          vf_of_writer_def)
    then have "no_write (pcs (start t c (rs_pipe s)) t)" by (intro no_write_start) auto
    then show ?thesis
      unfolding rt_file(1) by (rule retained_inv_start [OF inv]) (use rt_file in simp)
  next
    case (rt_write bs t c)
    then show ?thesis using inv by (simp add: retained_inv_write)
  next
    case (rt_answer bs)
    show ?thesis unfolding rt_answer(1) by (rule retained_inv_answer [OF inv rt_answer(2,3)])
  qed
qed

section \<open>Properties\<close>


text \<open>A guest writes three bytes through a pipe of two with a limit of one.\<close>

definition retained_demo :: "(bool \<times> pipe_message list, nat list) retained_system" where
  "retained_demo = (let p = fold (\<lambda>t. exec list_chan list_queue False t) [1, 1, 1, 1, 1, 1]
       (start 1 (PollWrite [10, 11, 12]) (bounded_pipe (False, []) [] 2))
     in \<lparr>rs_pipe = p, rs_file = snd (retained_after_write [10, 11, 12] (poll_answer (pcs p 1))
           (retained_new 1 (capture_new 1))), polling = None\<rparr>)"

lemma retained_demo_value:
  "sent (rs_pipe retained_demo) = [10, 11] \<and> polling retained_demo = None"
  by (simp add: retained_demo_def exec_def bounded_pipe_def cap_ready_def list_chan_def Let_def
      max_pipe_chunk_bytes_def goto_def)

lemma retained_execs:
  "\<forall>t \<in> set ts. t < N \<Longrightarrow> reachable I (retained_step C Q N) s \<Longrightarrow>
   reachable I (retained_step C Q N) (s\<lparr>rs_pipe := fold (\<lambda>t. exec C Q False t) ts (rs_pipe s)\<rparr>)"
proof (induction ts arbitrary: s)
  case (Cons t ts)
  then have "reachable I (retained_step C Q N) (s\<lparr>rs_pipe := exec C Q False t (rs_pipe s)\<rparr>)"
    by (intro reach_step [OF Cons.prems(2)] rt_exec) simp
  from Cons.IH [OF _ this] Cons.prems show ?case by simp
qed simp

lemma retained_demo_reachable:
  "reachable (fresh_retained (False, []) [] 2 1) (retained_step list_chan list_queue 2) retained_demo"
proof -
  define bs :: "byte list" where "bs = [10, 11, 12]"
  define p0 :: "(bool \<times> pipe_message list, nat list) pipe" where "p0 = bounded_pipe (False, []) [] 2"
  define p where "p = start 1 (PollWrite bs) p0"
  define q where "q = fold (\<lambda>t. exec list_chan list_queue False t) [1, 1, 1, 1, 1, 1] p"
  define f where "f = retained_new 1 (capture_new 1)"
  let ?R = "reachable (fresh_retained (False, []) [] 2 1) (retained_step list_chan list_queue 2)"
  have "resting (pcs p0 1)" "retained_poll_write bs f = Forward 1 (PollWrite bs)"
    by (simp_all add: p0_def f_def bounded_pipe_def retained_poll_write_def vf_poll_write_def
        retained_new_def vf_of_writer_def)
  then have begins: "retained_step list_chan list_queue 2 \<lparr>rs_pipe = p0, rs_file = f, polling = None\<rparr>
      \<lparr>rs_pipe = p, rs_file = f, polling = Some bs\<rparr>"
    using rt_write [of "\<lparr>rs_pipe = p0, rs_file = f, polling = None\<rparr>" bs 1 "PollWrite bs"]
    by (simp add: p_def del: start.simps)
  have "?R \<lparr>rs_pipe = p0, rs_file = f, polling = None\<rparr>"
    by (rule reach_init) (simp add: fresh_retained_def p0_def f_def)
  then have "?R \<lparr>rs_pipe = p, rs_file = f, polling = Some bs\<rparr>"
    using begins by (rule reach_step)
  then have polled: "?R \<lparr>rs_pipe = q, rs_file = f, polling = Some bs\<rparr>"
    using retained_execs [of "[1, 1, 1, 1, 1, 1]" 2 _ _ _ "\<lparr>rs_pipe = p, rs_file = f, polling = Some bs\<rparr>"]
    unfolding q_def by (simp del: fold_simps)
  have "resting (pcs q 1)"
    by (simp add: q_def p_def p0_def bs_def exec_def bounded_pipe_def cap_ready_def list_chan_def Let_def
        max_pipe_chunk_bytes_def goto_def)
  then have "retained_step list_chan list_queue 2 \<lparr>rs_pipe = q, rs_file = f, polling = Some bs\<rparr>
      \<lparr>rs_pipe = q, rs_file = snd (retained_after_write bs (poll_answer (pcs q 1)) f), polling = None\<rparr>"
    using rt_answer [of "\<lparr>rs_pipe = q, rs_file = f, polling = Some bs\<rparr>" bs] by simp
  with polled have "?R \<lparr>rs_pipe = q,
      rs_file = snd (retained_after_write bs (poll_answer (pcs q 1)) f), polling = None\<rparr>"
    by (rule reach_step)
  then show ?thesis
    by (simp only: retained_demo_def Let_def q_def p_def p0_def f_def bs_def)
qed


end
