(* ===== verification/Process_Stdin.thy ===== *)
theory Process_Stdin
  imports Pipe_Files
begin

text \<open>
  The stdin a caller writes to (\<open>ProcessStdin\<close> in rust/src/process.rs): a pipe writer, or a
  terminal whose line discipline takes each write as one event. The terminal device is
  third-party code: \<open>on_event\<close> starts the processing of an event on a terminal and \<open>poll\<close>
  drives it, handing the terminal back when it is done.
\<close>

record ('t, 'f) terminal_stdin =
  ts_tty :: "'t option"
  ts_pending :: "'f option"
  ts_pending_len :: nat

datatype ('t, 'f) stdin_inner = PipeStdin nat | TerminalStdin "('t, 'f) terminal_stdin"

type_synonym ('t, 'f) process_stdin = "('t, 'f) stdin_inner option"

definition stdin_new :: "nat \<Rightarrow> ('t, 'f) process_stdin" where
  "stdin_new w = Some (PipeStdin w)"

definition stdin_terminal :: "'t \<Rightarrow> ('t, 'f) process_stdin" where
  "stdin_terminal tty = Some (TerminalStdin \<lparr>ts_tty = Some tty, ts_pending = None, ts_pending_len = 0\<rparr>)"

text \<open>The terminal branch of \<open>poll_write\<close>: start an event unless one is pending, then poll.\<close>

definition terminal_begin ::
    "(byte list \<Rightarrow> 't \<Rightarrow> 'f) \<Rightarrow> byte list \<Rightarrow> ('t, 'f) terminal_stdin \<Rightarrow> ('t, 'f) terminal_stdin option" where
  "terminal_begin on_event bs ts = (case ts_pending ts of
     Some f \<Rightarrow> Some ts
   | None \<Rightarrow>
       (case ts_tty ts of
          None \<Rightarrow> None
        | Some current \<Rightarrow> Some \<lparr>ts_tty = None, ts_pending = Some (on_event bs current), ts_pending_len = length bs\<rparr>))"

definition terminal_poll_write ::
    "(byte list \<Rightarrow> 't \<Rightarrow> 'f) \<Rightarrow> ('f \<Rightarrow> 't poll \<times> 'f) \<Rightarrow> byte list \<Rightarrow> ('t, 'f) terminal_stdin
      \<Rightarrow> action \<times> ('t, 'f) terminal_stdin" where
  "terminal_poll_write on_event poll bs ts = (case terminal_begin on_event bs ts of
     None \<Rightarrow> (Answer (Inl broken_pipe), ts)
   | Some ts1 \<Rightarrow>
       (case ts_pending ts1 of
          None \<Rightarrow> (NotYet, ts1)
        | Some f \<Rightarrow>
            (case poll f of
               (Ready nxt, f') \<Rightarrow> (Answer (Inr (ts_pending_len ts1)),
                 ts1\<lparr>ts_tty := Some nxt, ts_pending := None, ts_pending_len := 0\<rparr>)
             | (Pending, f') \<Rightarrow> (NotYet, ts1\<lparr>ts_pending := Some f'\<rparr>))))"

definition stdin_poll_write ::
    "(byte list \<Rightarrow> 't \<Rightarrow> 'f) \<Rightarrow> ('f \<Rightarrow> 't poll \<times> 'f) \<Rightarrow> byte list \<Rightarrow> ('t, 'f) process_stdin
      \<Rightarrow> action \<times> ('t, 'f) process_stdin" where
  "stdin_poll_write on_event poll bs st = (case st of
     None \<Rightarrow> (Answer (Inl broken_pipe), st)
   | Some (PipeStdin w) \<Rightarrow> (Forward w (PollWrite bs), st)
   | Some (TerminalStdin ts) \<Rightarrow>
       (case terminal_poll_write on_event poll bs ts of (a, ts') \<Rightarrow> (a, Some (TerminalStdin ts'))))"

definition stdin_poll_flush :: "('t, 'f) process_stdin \<Rightarrow> action" where
  "stdin_poll_flush st = (case st of
     None \<Rightarrow> Answer (Inl broken_pipe)
   | Some (PipeStdin w) \<Rightarrow> Forward w PollFlush
   | Some (TerminalStdin ts) \<Rightarrow> Answer (Inr 0))"

text \<open>Shutting a pipe down always answers at once, and the stream is then released.\<close>

definition stdin_poll_shutdown :: "('t, 'f) process_stdin \<Rightarrow> action \<times> ('t, 'f) process_stdin" where
  "stdin_poll_shutdown st = (case st of
     None \<Rightarrow> (Answer (Inr 0), None)
   | Some (PipeStdin w) \<Rightarrow> (Forward w Shutdown, None)
   | Some (TerminalStdin ts) \<Rightarrow> (Answer (Inr 0), None))"

section \<open>Terminal writes\<close>

text \<open>Polling a future \<open>n\<close> times.\<close>

fun poll_until :: "('f \<Rightarrow> 't poll \<times> 'f) \<Rightarrow> nat \<Rightarrow> 'f \<Rightarrow> 't poll" where
  "poll_until poll 0 f = Pending"
| "poll_until poll (Suc n) f = (case poll f of (Ready t, f') \<Rightarrow> Ready t | (Pending, f') \<Rightarrow> poll_until poll n f')"

text \<open>The caller's side: a write is polled until it answers, at most \<open>n\<close> times.\<close>

fun write_until ::
    "(byte list \<Rightarrow> 't \<Rightarrow> 'f) \<Rightarrow> ('f \<Rightarrow> 't poll \<times> 'f) \<Rightarrow> nat \<Rightarrow> byte list \<Rightarrow> ('t, 'f) process_stdin
      \<Rightarrow> action \<times> ('t, 'f) process_stdin" where
  "write_until on_event poll 0 bs st = (NotYet, st)"
| "write_until on_event poll (Suc n) bs st =
     (case stdin_poll_write on_event poll bs st of
        (NotYet, st') \<Rightarrow> write_until on_event poll n bs st'
      | (a, st') \<Rightarrow> (a, st'))"

lemma write_pending:
  "poll_until poll n f = Ready t \<Longrightarrow>
   write_until on_event poll n bs
     (Some (TerminalStdin \<lparr>ts_tty = None, ts_pending = Some f, ts_pending_len = k\<rparr>))
   = (Answer (Inr k), stdin_terminal t)"
proof (induction n arbitrary: f)
  case (Suc n)
  then show ?case
    by (cases "poll f" rule: prod.exhaust; cases "fst (poll f)")
      (auto simp: stdin_poll_write_def terminal_poll_write_def terminal_begin_def stdin_terminal_def)
qed simp

section \<open>Properties\<close>

text \<open>A write to a terminal is delivered once and whole. When the line discipline finishes
  the event for a buffer within \<open>n\<close> polls, polling the write that often with the same buffer
  answers that the whole buffer was written and leaves the stdin with the terminal that
  processed exactly that one event; after a shutdown every write and flush is refused.\<close>

theorem terminal_write_once:
  assumes "poll_until poll n (on_event bs tty) = Ready tty'"
  shows "write_until on_event poll n bs (stdin_terminal tty) = (Answer (Inr (length bs)), stdin_terminal tty')
    \<and> stdin_poll_write on_event poll bs (snd (stdin_poll_shutdown st)) = (Answer (Inl broken_pipe), None)
    \<and> stdin_poll_flush (snd (stdin_poll_shutdown st)) = Answer (Inl broken_pipe)"
proof -
  have "write_until on_event poll n bs (stdin_terminal tty) =
      write_until on_event poll n bs
        (Some (TerminalStdin \<lparr>ts_tty = None, ts_pending = Some (on_event bs tty), ts_pending_len = length bs\<rparr>))"
    using assms by (cases n) (simp_all add: stdin_terminal_def stdin_poll_write_def terminal_poll_write_def
        terminal_begin_def)
  then show ?thesis
    using assms by (auto simp: write_pending stdin_poll_shutdown_def stdin_poll_write_def stdin_poll_flush_def
        split: option.split stdin_inner.split)
qed

text \<open>A terminal that logs its events and takes one extra poll for each.\<close>

definition slow_event :: "byte list \<Rightarrow> byte list list \<Rightarrow> nat \<times> byte list list" where
  "slow_event bs log = (1, log @ [bs])"

definition slow_poll :: "nat \<times> byte list list \<Rightarrow> byte list list poll \<times> nat \<times> byte list list" where
  "slow_poll f = (case f of (n, log) \<Rightarrow> if n = 0 then (Ready log, f) else (Pending, (n - 1, log)))"

theorem terminal_write_once_witness:
  "write_until slow_event slow_poll 2 [1, 2, 3] (stdin_terminal [])
    = (Answer (Inr 3), stdin_terminal [[1, 2, 3]])"
  using terminal_write_once [of slow_poll 2 slow_event "[1, 2, 3]" "[]" "[[1, 2, 3]]" None]
  by (simp add: slow_event_def slow_poll_def numeral_2_eq_2)

text \<open>A pending terminal write answers for the buffer it was started with. When a write is
  dropped while it is pending and another buffer is written next, the answer is the length of
  the first buffer and the second one is not delivered; the reported count can exceed the
  length of the buffer it is returned for.\<close>

theorem abandoned_write_answers_next:
  assumes "poll (on_event bs tty) = (Pending, f1)" "poll f1 = (Ready tty', f2)"
  shows "\<exists>st. stdin_poll_write on_event poll bs (stdin_terminal tty) = (NotYet, st)
    \<and> stdin_poll_write on_event poll other st = (Answer (Inr (length bs)), stdin_terminal tty')"
  using assms by (simp add: stdin_poll_write_def terminal_poll_write_def terminal_begin_def stdin_terminal_def)

theorem abandoned_write_answers_next_witness:
  "\<exists>st. stdin_poll_write slow_event slow_poll [1, 2, 3] (stdin_terminal []) = (NotYet, st)
    \<and> stdin_poll_write slow_event slow_poll [9] st = (Answer (Inr 3), stdin_terminal [[1, 2, 3]])"
  using abandoned_write_answers_next [of slow_poll slow_event "[1, 2, 3]" "[]" "(0, [[1, 2, 3]])" "[[1, 2, 3]]"
      "(0, [[1, 2, 3]])" "[9]"]
  by (simp add: slow_event_def slow_poll_def eval_nat_numeral)

end
