(* ===== verification/Terminal.thy ===== *)
theory Terminal
  imports Prelude
begin

text \<open>
  The terminal bridge (rust/src/terminal.rs): the terminal state the guest reads and sets, and
  the options that drive the host's line discipline. Both structures are WASIX types; the
  bridge reads and writes only the fields below, and \<open>tty_other\<close> stands for the fields it
  passes through (their defaults are the parameter \<open>base\<close>).
\<close>

record terminal_options =
  opt_columns :: u32
  opt_rows :: u32

definition terminal_options_default :: terminal_options where
  "terminal_options_default = \<lparr>opt_columns = 80, opt_rows = 24\<rparr>"

definition terminal_options_new :: "u32 \<Rightarrow> u32 \<Rightarrow> terminal_options" where
  "terminal_options_new columns rows = \<lparr>opt_columns = columns, opt_rows = rows\<rparr>"

record 'o tty_state =
  tty_cols :: u32
  tty_rows :: u32
  tty_echo :: bool
  tty_line_buffered :: bool
  tty_line_feeds :: bool
  tty_other :: 'o

record discipline =
  set_cols :: u32
  set_rows :: u32
  set_echo :: bool
  set_line_buffering :: bool
  set_line_feeds :: bool

record 'o terminal_bridge =
  tb_state :: "'o tty_state"
  tb_options :: discipline

definition initial_state :: "'o \<Rightarrow> terminal_options \<Rightarrow> 'o tty_state" where
  "initial_state base options = \<lparr>tty_cols = opt_columns options, tty_rows = opt_rows options,
     tty_echo = True, tty_line_buffered = True, tty_line_feeds = True, tty_other = base\<rparr>"

definition terminal_bridge_new :: "'o \<Rightarrow> discipline \<Rightarrow> terminal_options \<Rightarrow> 'o terminal_bridge" where
  "terminal_bridge_new base defaults options = \<lparr>tb_state = initial_state base options,
     tb_options = defaults\<lparr>set_cols := opt_columns options, set_rows := opt_rows options\<rparr>\<rparr>"

definition bridge_resize :: "u32 \<Rightarrow> u32 \<Rightarrow> 'o terminal_bridge \<Rightarrow> bool \<times> 'o terminal_bridge" where
  "bridge_resize columns rows b =
     (if (tty_cols (tb_state b), tty_rows (tb_state b)) = (columns, rows) then (False, b)
      else (True, b\<lparr>tb_options := (tb_options b)\<lparr>set_cols := columns, set_rows := rows\<rparr>,
                    tb_state := (tb_state b)\<lparr>tty_cols := columns, tty_rows := rows\<rparr>\<rparr>))"

definition bridge_reset :: "'o \<Rightarrow> 'o terminal_bridge \<Rightarrow> 'o terminal_bridge" where
  "bridge_reset base b =
     (let state = initial_state base
        (terminal_options_new (tty_cols (tb_state b)) (tty_rows (tb_state b)))
      in b\<lparr>tb_options := (tb_options b)\<lparr>set_echo := tty_echo state,
             set_line_buffering := tty_line_buffered state, set_line_feeds := tty_line_feeds state\<rparr>,
           tb_state := state\<rparr>)"

definition tty_get :: "'o terminal_bridge \<Rightarrow> 'o tty_state" where
  "tty_get b = tb_state b"

definition tty_set :: "'o tty_state \<Rightarrow> 'o terminal_bridge \<Rightarrow> 'o terminal_bridge" where
  "tty_set state b = b\<lparr>tb_options := (tb_options b)\<lparr>set_cols := tty_cols state,
       set_rows := tty_rows state, set_echo := tty_echo state,
       set_line_buffering := tty_line_buffered state, set_line_feeds := tty_line_feeds state\<rparr>,
     tb_state := state\<rparr>"

section \<open>The two views stay in agreement\<close>

definition in_sync :: "'o terminal_bridge \<Rightarrow> bool" where
  "in_sync b \<longleftrightarrow> set_cols (tb_options b) = tty_cols (tb_state b)
     \<and> set_rows (tb_options b) = tty_rows (tb_state b)
     \<and> set_echo (tb_options b) = tty_echo (tb_state b)
     \<and> set_line_buffering (tb_options b) = tty_line_buffered (tb_state b)
     \<and> set_line_feeds (tb_options b) = tty_line_feeds (tb_state b)"

inductive terminal_step :: "'o \<Rightarrow> 'o terminal_bridge \<Rightarrow> 'o terminal_bridge \<Rightarrow> bool" for base where
  term_resize: "terminal_step base b (snd (bridge_resize columns rows b))"
| term_reset: "terminal_step base b (bridge_reset base b)"
| term_set: "terminal_step base b (tty_set state b)"

text \<open>A fresh bridge, when the line discipline's documented defaults are on.\<close>

definition fresh_terminal :: "'o \<Rightarrow> 'o terminal_bridge \<Rightarrow> bool" where
  "fresh_terminal base b \<longleftrightarrow> (\<exists>defaults options. set_echo defaults \<and> set_line_buffering defaults
     \<and> set_line_feeds defaults \<and> b = terminal_bridge_new base defaults options)"

lemma fresh_terminalI:
  "set_echo d \<Longrightarrow> set_line_buffering d \<Longrightarrow> set_line_feeds d \<Longrightarrow>
   fresh_terminal base (terminal_bridge_new base d options)"
  by (auto simp: fresh_terminal_def)

interpretation terminal: inductive_invariant "fresh_terminal base" "terminal_step base" in_sync
proof unfold_locales
  fix b :: "'a terminal_bridge"
  assume "fresh_terminal base b"
  then show "in_sync b"
    by (auto simp: fresh_terminal_def terminal_bridge_new_def initial_state_def in_sync_def)
next
  fix b b' :: "'a terminal_bridge"
  assume sync: "in_sync b" and step: "terminal_step base b b'"
  from step show "in_sync b'"
  proof cases
    case (term_resize columns rows)
    then show ?thesis using sync by (simp add: in_sync_def bridge_resize_def)
  next
    case term_reset
    then show ?thesis
      using sync by (simp add: in_sync_def bridge_reset_def initial_state_def terminal_options_new_def Let_def)
  next
    case (term_set state)
    then show ?thesis by (simp add: in_sync_def tty_set_def)
  qed
qed

section \<open>Properties\<close>

text \<open>Whatever the guest and the host do, the line discipline follows the terminal state:
  after any sequence of resizes, resets and guest updates the options the host applies
  are the ones the guest reads, and a resize reports a change exactly when it made one.\<close>

theorem terminal_in_sync:
  assumes "reachable (fresh_terminal base) (terminal_step base) b"
  shows "in_sync b \<and> (fst (bridge_resize columns rows b) \<longleftrightarrow> snd (bridge_resize columns rows b) \<noteq> b)
    \<and> (tty_cols (tty_get (snd (bridge_resize columns rows b))),
       tty_rows (tty_get (snd (bridge_resize columns rows b)))) = (columns, rows)"
proof -
  have resized: "(tty_cols (tty_get (snd (bridge_resize columns rows b))),
       tty_rows (tty_get (snd (bridge_resize columns rows b)))) = (columns, rows)"
    by (auto simp: bridge_resize_def tty_get_def)
  have "fst (bridge_resize columns rows b) \<longleftrightarrow> (tty_cols (tty_get b), tty_rows (tty_get b)) \<noteq> (columns, rows)"
    by (auto simp: bridge_resize_def tty_get_def)
  moreover have "\<not> fst (bridge_resize columns rows b) \<Longrightarrow> snd (bridge_resize columns rows b) = b"
    by (auto simp: bridge_resize_def split: if_splits)
  ultimately show ?thesis using terminal.reachable_inv [OF assms] resized by metis
qed

definition demo_terminal :: "unit terminal_bridge" where
  "demo_terminal = snd (bridge_resize 90 30 (terminal_bridge_new () \<lparr>set_cols = 80, set_rows = 25,
     set_echo = True, set_line_buffering = True, set_line_feeds = True\<rparr> terminal_options_default))"

theorem terminal_in_sync_witness:
  "in_sync demo_terminal \<and> \<not> fst (bridge_resize 90 30 demo_terminal)
    \<and> (tty_cols (tty_get (snd (bridge_resize 91 30 demo_terminal))),
       tty_rows (tty_get (snd (bridge_resize 91 30 demo_terminal)))) = (91, 30)"
proof -
  have "reachable (fresh_terminal ()) (terminal_step ()) (terminal_bridge_new () \<lparr>set_cols = 80, set_rows = 25,
     set_echo = True, set_line_buffering = True, set_line_feeds = True\<rparr> terminal_options_default)"
    by (intro reach_init fresh_terminalI) simp_all
  then have "reachable (fresh_terminal ()) (terminal_step ()) demo_terminal"
    unfolding demo_terminal_def by (rule reach_step) (rule term_resize)
  then show ?thesis
    using terminal_in_sync [of "()" demo_terminal 90 30] terminal_in_sync [of "()" demo_terminal 91 30]
    by (simp add: demo_terminal_def bridge_resize_def terminal_bridge_new_def initial_state_def
        terminal_options_default_def)
qed

end
