(* ===== verification/Process.thy ===== *)
theory Process
  imports Pipe_Files Terminal
begin

text \<open>
  Guest processes (rust/src/process.rs): the control block shared by a process and its handles,
  the single-owner process with its streams and its completed output, and the stdin a caller
  writes to. The WASIX process and the task manager are third-party code: their operations are
  the parameter \<open>P\<close> over a state \<open>'w\<close>, which the guest may change between any two operations.
\<close>

section \<open>Process control\<close>

datatype signal = Sigterm | Sigkill | Sigwinch

record 'w wasi_ops =
  wp_try_join :: "'w \<Rightarrow> (string + int) option"
  wp_signal_process :: "signal \<Rightarrow> 'w \<Rightarrow> 'w"
  wp_signal :: "signal \<Rightarrow> 'w \<Rightarrow> 'w"
  wp_all_threads :: "'w \<Rightarrow> nat list"
  wp_terminate :: "int \<Rightarrow> 'w \<Rightarrow> 'w"
  wp_pid :: "'w \<Rightarrow> nat"
  wp_terminate_thread :: "nat \<Rightarrow> nat \<Rightarrow> 'w \<Rightarrow> 'w"

text \<open>The exit cell holds \<open>EXIT_NONE\<close> (\<open>None\<close>) or the first exit the SDK requested.\<close>

datatype exit_request = TerminatedGraceful | TerminatedForced | DeadlinePassed

text \<open>\<open>ctl_stdin\<close>: the closer of the stdin pipe, if there is one, and whether it was used.\<close>

record 'w control =
  ctl_world :: 'w
  ctl_stdin :: "bool option"
  ctl_exit :: "exit_request option"

definition try_join_exited :: "'w wasi_ops \<Rightarrow> 'w control \<Rightarrow> bool" where
  "try_join_exited P c \<longleftrightarrow> wp_try_join P (ctl_world c) \<noteq> None"

definition exit_compare_exchange :: "exit_request \<Rightarrow> 'w control \<Rightarrow> 'w control" where
  "exit_compare_exchange requested c =
     (if ctl_exit c = None then c\<lparr>ctl_exit := Some requested\<rparr> else c)"

interpretation exit_cell: first_write_wins ctl_exit exit_compare_exchange
  by unfold_locales (auto simp: exit_compare_exchange_def)

definition record_exit_if_running :: "'w wasi_ops \<Rightarrow> exit_request \<Rightarrow> 'w control \<Rightarrow> bool \<times> 'w control" where
  "record_exit_if_running P requested c =
     (if try_join_exited P c then (False, c) else (True, exit_compare_exchange requested c))"

definition close_stdin :: "'w control \<Rightarrow> 'w control" where
  "close_stdin c = c\<lparr>ctl_stdin := map_option (\<lambda>_. True) (ctl_stdin c)\<rparr>"

text \<open>\<open>browser\<close> is the \<open>wasm32\<close> build.\<close>

definition force_exit :: "'w wasi_ops \<Rightarrow> bool \<Rightarrow> 'w control \<Rightarrow> 'w control" where
  "force_exit P browser c =
     (let threads = wp_all_threads P (ctl_world c);
          w1 = wp_signal_process P Sigkill (ctl_world c);
          w2 = (if browser then wp_terminate P 137 w1 else w1);
          pid = wp_pid P w2
      in c\<lparr>ctl_world := fold (wp_terminate_thread P pid) threads w2\<rparr>)"

definition signal_terminate :: "'w wasi_ops \<Rightarrow> 'w control \<Rightarrow> 'w control" where
  "signal_terminate P c =
     (case record_exit_if_running P TerminatedGraceful c of
        (False, c1) \<Rightarrow> c1
      | (True, c1) \<Rightarrow> close_stdin (c1\<lparr>ctl_world := wp_signal_process P Sigterm (ctl_world c1)\<rparr>))"

definition control_kill :: "'w wasi_ops \<Rightarrow> bool \<Rightarrow> 'w control \<Rightarrow> 'w control" where
  "control_kill P browser c =
     (case record_exit_if_running P TerminatedForced c of
        (False, c1) \<Rightarrow> c1
      | (True, c1) \<Rightarrow> close_stdin (force_exit P browser c1))"

definition kill_timed_out :: "'w wasi_ops \<Rightarrow> bool \<Rightarrow> 'w control \<Rightarrow> 'w control" where
  "kill_timed_out P browser c =
     (case record_exit_if_running P DeadlinePassed c of
        (False, c1) \<Rightarrow> c1
      | (True, c1) \<Rightarrow> close_stdin (force_exit P browser c1))"

definition exit_state :: "int \<Rightarrow> 'w control \<Rightarrow> exit_reason \<times> exit_status" where
  "exit_state backend_code c = (case ctl_exit c of
     Some TerminatedGraceful \<Rightarrow> (Terminated, 143)
   | Some TerminatedForced \<Rightarrow> (Terminated, 137)
   | Some DeadlinePassed \<Rightarrow> (TimedOut, 137)
   | None \<Rightarrow> (Exited, backend_code))"

section \<open>Processes\<close>

record ('w, 'o) process =
  pr_control :: "'w control"
  pr_stdin :: "nat option"
  pr_stdout :: "nat option"
  pr_stderr :: "nat option"
  pr_stdout_capture :: capture
  pr_stderr_capture :: capture
  pr_terminal :: "'o terminal_bridge option"
  pr_completed :: "process_output option"

definition process_new :: "'w \<Rightarrow> nat option \<Rightarrow> nat option \<Rightarrow> nat option \<Rightarrow> capture \<Rightarrow> capture
    \<Rightarrow> 'o terminal_bridge option \<Rightarrow> ('w, 'o) process" where
  "process_new w stdin out err out_capture err_capture term =
     \<lparr>pr_control = \<lparr>ctl_world = w, ctl_stdin = map_option (\<lambda>_. False) stdin, ctl_exit = None\<rparr>,
      pr_stdin = stdin, pr_stdout = out, pr_stderr = err, pr_stdout_capture = out_capture,
      pr_stderr_capture = err_capture, pr_terminal = term, pr_completed = None\<rparr>"

definition take_stdin :: "('w, 'o) process \<Rightarrow> nat option \<times> ('w, 'o) process" where
  "take_stdin p = (pr_stdin p, p\<lparr>pr_stdin := None\<rparr>)"

definition take_stdout :: "('w, 'o) process \<Rightarrow> nat option \<times> ('w, 'o) process" where
  "take_stdout p = (pr_stdout p, p\<lparr>pr_stdout := None\<rparr>)"

definition take_stderr :: "('w, 'o) process \<Rightarrow> nat option \<times> ('w, 'o) process" where
  "take_stderr p = (pr_stderr p, p\<lparr>pr_stderr := None\<rparr>)"

definition no_terminal :: sdk_error where
  "no_terminal = Execution ''the process has no terminal''"

definition resize_terminal ::
    "'w wasi_ops \<Rightarrow> u32 \<Rightarrow> u32 \<Rightarrow> ('w, 'o) process \<Rightarrow> (sdk_error + unit) \<times> ('w, 'o) process" where
  "resize_terminal P columns rows p = (case pr_terminal p of
     None \<Rightarrow> (Inl no_terminal, p)
   | Some b \<Rightarrow>
       (case bridge_resize columns rows b of
          (changed, b') \<Rightarrow> (Inr (), p\<lparr>pr_terminal := Some b', pr_control :=
             (if changed then (pr_control p)\<lparr>ctl_world := wp_signal P Sigwinch (ctl_world (pr_control p))\<rparr>
              else pr_control p)\<rparr>)))"

definition process_snapshot :: "int \<Rightarrow> ('w, 'o) process \<Rightarrow> process_output" where
  "process_snapshot code p =
     (let (out, out_trunc) = capture_snapshot (pr_stdout_capture p);
          (err, err_trunc) = capture_snapshot (pr_stderr_capture p);
          (reason, status) = exit_state code (pr_control p)
      in \<lparr>out_status = status, out_reason = reason, out_stdout = from_parts out out_trunc,
          out_stderr = from_parts err err_trunc\<rparr>)"

text \<open>\<open>result\<close> is what the task's \<open>wait_finished\<close> resolves to.\<close>

definition process_wait ::
    "string + int \<Rightarrow> ('w, 'o) process \<Rightarrow> (sdk_error + process_output) \<times> ('w, 'o) process" where
  "process_wait result p = (case pr_completed p of
     Some out \<Rightarrow> (Inr out, p)
   | None \<Rightarrow>
       (case result of
          Inl e \<Rightarrow> (Inl (Execution e), p)
        | Inr code \<Rightarrow>
            (let out = process_snapshot code p in (Inr out, p\<lparr>pr_completed := Some out\<rparr>))))"

definition process_try_wait ::
    "'w wasi_ops \<Rightarrow> ('w, 'o) process \<Rightarrow> (sdk_error + process_output option) \<times> ('w, 'o) process" where
  "process_try_wait P p = (case pr_completed p of
     Some out \<Rightarrow> (Inr (Some out), p)
   | None \<Rightarrow>
       (case wp_try_join P (ctl_world (pr_control p)) of
          None \<Rightarrow> (Inr None, p)
        | Some (Inl e) \<Rightarrow> (Inl (Execution e), p)
        | Some (Inr code) \<Rightarrow>
            (let out = process_snapshot code p in (Inr (Some out), p\<lparr>pr_completed := Some out\<rparr>))))"

definition on_control :: "('w control \<Rightarrow> 'w control) \<Rightarrow> ('w, 'o) process \<Rightarrow> ('w, 'o) process" where
  "on_control f p = p\<lparr>pr_control := f (pr_control p)\<rparr>"

text \<open>What the guest does while the SDK waits: it changes the backend's state and writes output.\<close>

definition guest_runs :: "'w \<Rightarrow> capture \<Rightarrow> capture \<Rightarrow> ('w, 'o) process \<Rightarrow> ('w, 'o) process" where
  "guest_runs w out err p = p\<lparr>pr_control := (pr_control p)\<lparr>ctl_world := w\<rparr>,
     pr_stdout_capture := out, pr_stderr_capture := err\<rparr>"

text \<open>Which of the wait and the grace period ends first, and with which result the wait ends.\<close>

datatype race = FinishedFirst "string + int" | GraceElapsed "string + int"

definition process_terminate ::
    "'w wasi_ops \<Rightarrow> bool \<Rightarrow> (('w, 'o) process \<Rightarrow> ('w, 'o) process) \<Rightarrow> race
      \<Rightarrow> (('w, 'o) process \<Rightarrow> ('w, 'o) process)
      \<Rightarrow> ('w, 'o) process \<Rightarrow> (sdk_error + unit) \<times> ('w, 'o) process" where
  "process_terminate P browser meanwhile race after_kill p = (case process_try_wait P p of
     (Inl e, p1) \<Rightarrow> (Inl e, p1)
   | (Inr (Some out), p1) \<Rightarrow> (Inr (), p1)
   | (Inr None, p1) \<Rightarrow>
       (let p2 = meanwhile (on_control (signal_terminate P) p1)
        in case race of
             FinishedFirst r \<Rightarrow> (case process_wait r p2 of (res, p3) \<Rightarrow> (map_ok (\<lambda>_. ()) res, p3))
           | GraceElapsed r \<Rightarrow>
               (let p3 = after_kill (on_control (control_kill P browser) p2)
                in case process_wait r p3 of (res, p4) \<Rightarrow> (map_ok (\<lambda>_. ()) res, p4))))"

definition process_kill :: "'w wasi_ops \<Rightarrow> bool \<Rightarrow> ('w, 'o) process \<Rightarrow> (sdk_error + unit) \<times> ('w, 'o) process" where
  "process_kill P browser p = (Inr (), on_control (control_kill P browser) p)"

definition process_drop :: "'w wasi_ops \<Rightarrow> bool \<Rightarrow> ('w, 'o) process \<Rightarrow> 'w control" where
  "process_drop P browser p =
     (if pr_completed p = None \<and> \<not> try_join_exited P (pr_control p)
      then control_kill P browser (pr_control p) else pr_control p)"

text \<open>The handle's operations act on the shared control. In \<open>handle_terminate\<close> and
  \<open>kill_on_timeout\<close> \<open>elapsed\<close> says that the timer won the race against the exit.\<close>

definition handle_kill :: "'w wasi_ops \<Rightarrow> bool \<Rightarrow> 'w control \<Rightarrow> 'w control" where
  "handle_kill P browser c = control_kill P browser c"

definition handle_terminate ::
    "'w wasi_ops \<Rightarrow> bool \<Rightarrow> ('w control \<Rightarrow> 'w control) \<Rightarrow> bool \<Rightarrow> 'w control \<Rightarrow> 'w control" where
  "handle_terminate P browser meanwhile elapsed c =
     (if wp_try_join P (ctl_world c) \<noteq> None then c
      else (let c1 = meanwhile (signal_terminate P c)
            in if elapsed then control_kill P browser c1 else c1))"

definition handle_resize_terminal ::
    "'w wasi_ops \<Rightarrow> 'o terminal_bridge option \<Rightarrow> u32 \<Rightarrow> u32 \<Rightarrow> 'w control \<Rightarrow>
     (sdk_error + unit) \<times> 'o terminal_bridge option \<times> 'w control" where
  "handle_resize_terminal P terminal columns rows c = (case terminal of
     None \<Rightarrow> (Inl no_terminal, None, c)
   | Some b \<Rightarrow> (case bridge_resize columns rows b of
       (changed, b') \<Rightarrow> (Inr (), Some b', if changed then c\<lparr>ctl_world := wp_signal P Sigwinch (ctl_world c)\<rparr> else c)))"

text \<open>Resizing through the handle and through the process have the same effect.\<close>

lemma handle_resize_same:
  "resize_terminal P columns rows p = (case handle_resize_terminal P (pr_terminal p) columns rows (pr_control p) of
     (r, terminal, c) \<Rightarrow> (r, p\<lparr>pr_terminal := terminal, pr_control := c\<rparr>))"
  by (cases "pr_terminal p") (auto simp: resize_terminal_def handle_resize_terminal_def split: prod.split)

definition kill_on_timeout ::
    "'w wasi_ops \<Rightarrow> bool \<Rightarrow> ('w control \<Rightarrow> 'w control) \<Rightarrow> bool \<Rightarrow> 'w control \<Rightarrow> 'w control" where
  "kill_on_timeout P browser meanwhile elapsed c =
     (let c1 = meanwhile c in if elapsed then kill_timed_out P browser c1 else c1)"


section \<open>Runs of a process\<close>

text \<open>Anything that can happen to a process: the guest runs, the owner waits or takes a stream,
  and the owner, a handle or the deadline asks it to stop.\<close>

datatype 'w process_event =
    GuestRuns 'w capture capture
  | Waits "string + int" | TriesWait
  | AsksTerminate | AsksKill | DeadlineFires
  | TakesStdin | TakesStdout | TakesStderr
  | Resizes u32 u32

fun process_apply :: "'w wasi_ops \<Rightarrow> bool \<Rightarrow> 'w process_event \<Rightarrow> ('w, 'o) process \<Rightarrow> ('w, 'o) process" where
  "process_apply P browser (GuestRuns w out err) p = guest_runs w out err p"
| "process_apply P browser (Waits r) p = snd (process_wait r p)"
| "process_apply P browser TriesWait p = snd (process_try_wait P p)"
| "process_apply P browser AsksTerminate p = on_control (signal_terminate P) p"
| "process_apply P browser AsksKill p = on_control (control_kill P browser) p"
| "process_apply P browser DeadlineFires p = on_control (kill_timed_out P browser) p"
| "process_apply P browser TakesStdin p = snd (take_stdin p)"
| "process_apply P browser TakesStdout p = snd (take_stdout p)"
| "process_apply P browser TakesStderr p = snd (take_stderr p)"
| "process_apply P browser (Resizes columns rows) p = snd (resize_terminal P columns rows p)"

fun exit_asked :: "'w process_event \<Rightarrow> exit_request option" where
  "exit_asked AsksTerminate = Some TerminatedGraceful"
| "exit_asked AsksKill = Some TerminatedForced"
| "exit_asked DeadlineFires = Some DeadlinePassed"
| "exit_asked _ = None"

definition is_running :: "'w wasi_ops \<Rightarrow> ('w, 'o) process \<Rightarrow> bool" where
  "is_running P p \<longleftrightarrow> \<not> try_join_exited P (pr_control p)"

lemma ctl_exit_sel [simp]:
  "ctl_exit (close_stdin c) = ctl_exit c" "ctl_exit (force_exit P browser c) = ctl_exit c"
  by (simp_all add: close_stdin_def force_exit_def Let_def)

lemma ctl_exit_requests:
  "ctl_exit (signal_terminate P c) =
     (if try_join_exited P c then ctl_exit c else ctl_exit (exit_compare_exchange TerminatedGraceful c))"
  "ctl_exit (control_kill P browser c) =
     (if try_join_exited P c then ctl_exit c else ctl_exit (exit_compare_exchange TerminatedForced c))"
  "ctl_exit (kill_timed_out P browser c) =
     (if try_join_exited P c then ctl_exit c else ctl_exit (exit_compare_exchange DeadlinePassed c))"
  by (simp_all add: signal_terminate_def control_kill_def kill_timed_out_def record_exit_if_running_def)

lemma ctl_exit_wait [simp]:
  "pr_control (snd (process_wait r p)) = pr_control p"
  "pr_control (snd (process_try_wait P p)) = pr_control p"
  by (auto simp: process_wait_def process_try_wait_def Let_def split: option.split sum.split)

lemma ctl_exit_apply:
  "ctl_exit (pr_control (process_apply P browser ev p)) =
     (case exit_asked ev of
        None \<Rightarrow> ctl_exit (pr_control p)
      | Some r \<Rightarrow> if is_running P p then ctl_exit (exit_compare_exchange r (pr_control p))
                  else ctl_exit (pr_control p))"
  by (cases ev) (auto simp: guest_runs_def on_control_def take_stdin_def take_stdout_def take_stderr_def
      resize_terminal_def is_running_def ctl_exit_requests split: option.split prod.split)

text \<open>The exit requests a run makes while the process is running, in order.\<close>

fun effective :: "'w wasi_ops \<Rightarrow> bool \<Rightarrow> 'w process_event list \<Rightarrow> ('w, 'o) process \<Rightarrow> exit_request list" where
  "effective P browser [] p = []"
| "effective P browser (ev # evs) p =
     (case exit_asked ev of
        None \<Rightarrow> effective P browser evs (process_apply P browser ev p)
      | Some r \<Rightarrow> (if is_running P p then [r] else [])
          @ effective P browser evs (process_apply P browser ev p))"

lemma ctl_exit_run:
  "ctl_exit (pr_control (fold (process_apply P browser) evs p))
     = ctl_exit (fold exit_compare_exchange (effective P browser evs p) (pr_control p))"
proof (induction evs arbitrary: p)
  case (Cons ev evs)
  have step: "ctl_exit (pr_control (fold (process_apply P browser) (ev # evs) p))
      = ctl_exit (fold exit_compare_exchange (effective P browser evs (process_apply P browser ev p))
          (pr_control (process_apply P browser ev p)))"
    by (simp add: Cons.IH)
  show ?case
  proof (cases "exit_asked ev")
    case None
    then have "ctl_exit (pr_control (process_apply P browser ev p)) = ctl_exit (pr_control p)"
      by (simp add: ctl_exit_apply)
    from exit_cell.get_fold_cong [OF this] show ?thesis
      unfolding step using None by simp
  next
    case (Some r)
    let ?c = "if is_running P p then exit_compare_exchange r (pr_control p) else pr_control p"
    have "ctl_exit (pr_control (process_apply P browser ev p)) = ctl_exit ?c"
      using Some by (simp add: ctl_exit_apply)
    from exit_cell.get_fold_cong [OF this] show ?thesis
      unfolding step using Some by (cases "is_running P p") simp_all
  qed
qed simp

definition verdict :: "exit_request list \<Rightarrow> int \<Rightarrow> exit_reason \<times> exit_status" where
  "verdict rs code = (case rs of
     [] \<Rightarrow> (Exited, code)
   | TerminatedGraceful # _ \<Rightarrow> (Terminated, 143)
   | TerminatedForced # _ \<Rightarrow> (Terminated, 137)
   | DeadlinePassed # _ \<Rightarrow> (TimedOut, 137))"

lemma exit_state_run:
  assumes "ctl_exit (pr_control p) = None"
  shows "exit_state code (pr_control (fold (process_apply P browser) evs p))
    = verdict (effective P browser evs p) code"
  using exit_cell.get_fold [OF assms, of "effective P browser evs p"]
  by (auto simp: exit_state_def verdict_def ctl_exit_run split: list.splits exit_request.splits)

lemma process_snapshot_sel [simp]:
  "out_reason (process_snapshot code p) = fst (exit_state code (pr_control p))"
  "out_status (process_snapshot code p) = snd (exit_state code (pr_control p))"
  by (simp_all add: process_snapshot_def split: prod.split)

text \<open>A completed output is never replaced.\<close>

lemma completed_apply: "pr_completed p = Some out \<Longrightarrow> pr_completed (process_apply P browser ev p) = Some out"
  by (cases ev) (auto simp: guest_runs_def on_control_def take_stdin_def take_stdout_def take_stderr_def
      resize_terminal_def process_wait_def process_try_wait_def split: option.split prod.split)

interpretation completed: sticky_flag "\<lambda>p. pr_completed p = Some out" "range (process_apply P browser)"
  by unfold_locales (auto simp: completed_apply)

lemma completed_run:
  assumes "pr_completed p = Some out"
  shows "pr_completed (fold (process_apply P browser) evs p) = Some out"
proof -
  have "fold (process_apply P browser) evs p = fold (\<lambda>f. f) (map (process_apply P browser) evs) p"
    by (simp add: fold_map comp_def)
  then show ?thesis
    using completed.flag_run [of "map (process_apply P browser) evs" P browser p out] assms by auto
qed

lemma wait_completes: "fst (process_wait r p) = Inr out \<Longrightarrow> pr_completed (snd (process_wait r p)) = Some out"
  by (auto simp: process_wait_def Let_def split: option.splits sum.splits)

lemma try_wait_completes:
  "fst (process_try_wait P p) = Inr (Some out) \<Longrightarrow> pr_completed (snd (process_try_wait P p)) = Some out"
  by (auto simp: process_try_wait_def Let_def split: option.splits sum.splits)

section \<open>Properties\<close>

text \<open>C6: the first effective request decides how a process ends. After any run of a process
  from which no exit was requested yet, the output a wait returns carries the verdict of the
  first exit request made while the process was running (a graceful request that was
  escalated still reports status 143, a missed deadline the reason \<open>TimedOut\<close>), and the
  guest's own status exactly when there was no such request.\<close>

theorem first_request_decides:
  assumes "ctl_exit (pr_control p) = None" "pr_completed (fold (process_apply P browser) evs p) = None"
  shows "\<exists>out. fst (process_wait (Inr code) (fold (process_apply P browser) evs p)) = Inr out
    \<and> (out_reason out, out_status out) = verdict (effective P browser evs p) code
    \<and> (output_check out = (if effective P browser evs p = [] \<and> code = 0 then Inr out
                           else Inl (ProcessExit out)))"
proof -
  let ?q = "fold (process_apply P browser) evs p"
  have "exit_state code (pr_control ?q) = verdict (effective P browser evs p) code"
    using assms(1) by (rule exit_state_run)
  moreover from this have "output_ok (process_snapshot code ?q) \<longleftrightarrow> effective P browser evs p = [] \<and> code = 0"
    by (auto simp: output_ok_def status_success_def verdict_def split: list.splits exit_request.splits)
  ultimately show ?thesis
    using assms(2) by (auto simp: process_wait_def Let_def output_check_def)
qed

text \<open>A backend for the witnesses: the state is the exit code, once there is one, and the
  signals sent so far.\<close>

definition log_ops :: "(int option \<times> signal list) wasi_ops" where
  "log_ops = \<lparr>wp_try_join = (\<lambda>w. map_option Inr (fst w)),
     wp_signal_process = (\<lambda>sig w. (fst w, snd w @ [sig])), wp_signal = (\<lambda>sig w. (fst w, snd w @ [sig])),
     wp_all_threads = (\<lambda>w. [1]), wp_terminate = (\<lambda>code w. (Some code, snd w)), wp_pid = (\<lambda>w. 1),
     wp_terminate_thread = (\<lambda>pid tid w. w)\<rparr>"

definition demo_process :: "(int option \<times> signal list, unit) process" where
  "demo_process = process_new (None, []) None None None (capture_new 4) (capture_new 4) None"

theorem first_request_decides_witness:
  "\<exists>out. fst (process_wait (Inr 0) (fold (process_apply log_ops False)
        [AsksTerminate, DeadlineFires, GuestRuns (Some 0, []) (capture_new 4) (capture_new 4)] demo_process)) = Inr out
     \<and> (out_reason out, out_status out) = (Terminated, 143) \<and> output_check out = Inl (ProcessExit out)"
  using first_request_decides [of demo_process log_ops False
      "[AsksTerminate, DeadlineFires, GuestRuns (Some 0, []) (capture_new 4) (capture_new 4)]" 0]
  by (simp add: demo_process_def process_new_def is_running_def log_ops_def try_join_exited_def verdict_def
      on_control_def guest_runs_def signal_terminate_def kill_timed_out_def record_exit_if_running_def
      close_stdin_def force_exit_def exit_compare_exchange_def Let_def)

text \<open>A completed output is final. Once a wait, or a poll for completion, has returned an
  output, every later wait and poll returns that same output, whatever the guest, the
  handles and the deadline do in between.\<close>

theorem completed_output_final:
  assumes "fst (process_wait r p) = Inr out \<and> p' = snd (process_wait r p)
    \<or> fst (process_try_wait P p) = Inr (Some out) \<and> p' = snd (process_try_wait P p)"
  shows "fst (process_wait r' (fold (process_apply P browser) evs p')) = Inr out
    \<and> fst (process_try_wait P (fold (process_apply P browser) evs p')) = Inr (Some out)"
proof -
  have "pr_completed p' = Some out"
    using assms wait_completes try_wait_completes by blast
  then have "pr_completed (fold (process_apply P browser) evs p') = Some out"
    by (rule completed_run)
  then show ?thesis by (simp add: process_wait_def process_try_wait_def)
qed

theorem completed_output_final_witness:
  "fst (process_wait (Inl ''lost'') (fold (process_apply log_ops True)
      [AsksKill, GuestRuns (None, []) (capture_new 0) (capture_new 0)]
      (snd (process_wait (Inr 7) demo_process)))) = fst (process_wait (Inr 7) demo_process)"
proof -
  have "fst (process_wait (Inr 7) demo_process) = Inr (process_snapshot 7 demo_process)"
    by (simp add: process_wait_def demo_process_def process_new_def Let_def)
  then show ?thesis
    using completed_output_final [of "Inr 7" demo_process "process_snapshot 7 demo_process"
        "snd (process_wait (Inr 7) demo_process)" log_ops "Inl ''lost''" True
        "[AsksKill, GuestRuns (None, []) (capture_new 0) (capture_new 0)]"]
    by presburger
qed




end
