(* ===== verification/Ordered_Map.thy ===== *)
theory Ordered_Map
  imports Prelude
begin

text \<open>
  The standard library's ordered map (\<open>BTreeMap\<close>) as a strictly sorted association list, with
  the order of its iteration; strings are compared byte by byte, as Rust compares them. The
  interface \<open>key_value\<close> states what the clients of a map rely on.
\<close>

locale key_value =
  fixes lookup :: "'m \<Rightarrow> 'k \<Rightarrow> 'v option"
    and insert_kv :: "'k \<Rightarrow> 'v \<Rightarrow> 'm \<Rightarrow> 'm"
  assumes lookup_insert: "lookup (insert_kv k v m) k' = (if k' = k then Some v else lookup m k')"
begin

text \<open>\<open>extend\<close>: the last binding of a key wins, other keys keep their value.\<close>

lemma lookup_extend:
  "lookup (fold (\<lambda>(k, v). insert_kv k v) kvs m) k =
     (case map_of (rev kvs) k of Some v \<Rightarrow> Some v | None \<Rightarrow> lookup m k)"
proof (induction kvs arbitrary: m)
  case (Cons kv kvs)
  then show ?case
    by (cases kv) (auto simp: lookup_insert map_add_def split: option.splits)
qed simp

lemma lookup_extend_notin: "k \<notin> fst ` set kvs \<Longrightarrow> lookup (fold (\<lambda>(k, v). insert_kv k v) kvs m) k = lookup m k"
  by (auto simp: lookup_extend split: option.split dest!: map_of_SomeD intro: rev_image_eqI)

end

type_synonym ('k, 'v) btree = "('k \<times> 'v) list"

fun bt_insert :: "'k::linorder \<Rightarrow> 'v \<Rightarrow> ('k, 'v) btree \<Rightarrow> ('k, 'v) btree" where
  "bt_insert k v [] = [(k, v)]"
| "bt_insert k v ((k', v') # m) =
     (if k < k' then (k, v) # (k', v') # m
      else if k = k' then (k, v) # m
      else (k', v') # bt_insert k v m)"

definition bt_get :: "('k, 'v) btree \<Rightarrow> 'k \<Rightarrow> 'v option" where
  "bt_get = map_of"

definition bt_contains :: "('k, 'v) btree \<Rightarrow> 'k \<Rightarrow> bool" where
  "bt_contains m k \<longleftrightarrow> bt_get m k \<noteq> None"

definition bt_keys :: "('k, 'v) btree \<Rightarrow> 'k list" where
  "bt_keys m = map fst m"

definition bt_extend :: "('k::linorder \<times> 'v) list \<Rightarrow> ('k, 'v) btree \<Rightarrow> ('k, 'v) btree" where
  "bt_extend kvs m = fold (\<lambda>(k, v). bt_insert k v) kvs m"

definition bt_ok :: "('k::linorder, 'v) btree \<Rightarrow> bool" where
  "bt_ok m \<longleftrightarrow> sorted_wrt (<) (bt_keys m)"

lemma bt_get_insert: "bt_get (bt_insert k v m) k' = (if k' = k then Some v else bt_get m k')"
  by (induction m) (auto simp: bt_get_def)

interpretation btree: key_value bt_get bt_insert
  by unfold_locales (rule bt_get_insert)

lemmas bt_get_extend = btree.lookup_extend [folded bt_extend_def]

lemma set_bt_keys_insert: "set (bt_keys (bt_insert k v m)) = insert k (set (bt_keys m))"
  unfolding bt_keys_def
proof (induction m)
  case (Cons kv m)
  then show ?case by (cases kv) auto
qed simp

lemma bt_ok_insert: "bt_ok m \<Longrightarrow> bt_ok (bt_insert k v m)"
proof (induction m)
  case (Cons kv m)
  obtain k' v' where kv: "kv = (k', v')" by (cases kv)
  have "bt_ok m" using Cons.prems by (simp add: bt_ok_def bt_keys_def)
  then have "bt_ok (bt_insert k v m)" by (rule Cons.IH)
  moreover have "\<forall>x \<in> set (bt_keys (bt_insert k v m)). k' < x" if "k' < k"
    using that Cons.prems unfolding set_bt_keys_insert by (auto simp: kv bt_ok_def bt_keys_def)
  moreover have "k < k' \<Longrightarrow> \<forall>x \<in> set (bt_keys m). k < x"
    using Cons.prems by (auto simp: kv bt_ok_def bt_keys_def)
  ultimately show ?case
    using Cons.prems by (auto simp: kv bt_ok_def bt_keys_def)
qed (simp add: bt_ok_def bt_keys_def)

lemma bt_ok_extend: "bt_ok m \<Longrightarrow> bt_ok (bt_extend kvs m)"
  unfolding bt_extend_def by (induction kvs arbitrary: m) (auto simp: bt_ok_insert)

lemma bt_ok_distinct: "bt_ok m \<Longrightarrow> distinct (bt_keys m)"
  by (simp add: bt_ok_def strict_sorted_iff)

lemma bt_get_mem: "bt_ok m \<Longrightarrow> bt_get m k = Some v \<longleftrightarrow> (k, v) \<in> set m"
  using bt_ok_distinct [of m] by (simp add: bt_get_def bt_keys_def)

lemma bt_get_None: "bt_get m k = None \<longleftrightarrow> k \<notin> set (bt_keys m)"
  by (simp add: bt_get_def bt_keys_def map_of_eq_None_iff)

text \<open>Two ordered maps with the same bindings are the same list.\<close>

lemma bt_rebuild: "distinct (bt_keys m) \<Longrightarrow> map (\<lambda>k. (k, the (bt_get m k))) (bt_keys m) = m"
  by (auto simp: bt_get_def bt_keys_def comp_def intro!: map_idI)

lemma bt_unique:
  assumes "bt_ok m" "bt_ok n" "\<And>k. bt_get m k = bt_get n k"
  shows "m = n"
proof -
  have "k \<in> set (bt_keys m) \<longleftrightarrow> k \<in> set (bt_keys n)" for k
    using assms(3) [of k] bt_get_None [of m k] bt_get_None [of n k] by auto
  then have "bt_keys m = bt_keys n"
    using assms(1,2) by (intro sorted_distinct_set_unique) (auto simp: bt_ok_def strict_sorted_iff)
  moreover have "bt_get m = bt_get n" using assms(3) by (rule ext)
  ultimately show ?thesis
    using bt_rebuild [OF bt_ok_distinct [OF assms(1)]] bt_rebuild [OF bt_ok_distinct [OF assms(2)]] by (metis (no_types))
qed

text \<open>Removal, \<open>retain\<close>, and sets as maps to the unit value.\<close>

definition bt_remove :: "'k \<Rightarrow> ('k, 'v) btree \<Rightarrow> ('k, 'v) btree" where
  "bt_remove k m = filter (\<lambda>(k', _). k' \<noteq> k) m"

definition bt_retain :: "('k \<Rightarrow> 'v \<Rightarrow> bool) \<Rightarrow> ('k, 'v) btree \<Rightarrow> ('k, 'v) btree" where
  "bt_retain keep m = filter (\<lambda>(k, v). keep k v) m"

lemma bt_get_remove [simp]: "bt_get (bt_remove k m) k' = (if k' = k then None else bt_get m k')"
  unfolding bt_get_def bt_remove_def by (induction m) auto

lemma bt_keys_remove: "set (bt_keys (bt_remove k m)) = set (bt_keys m) - {k}"
  by (auto simp: bt_keys_def bt_remove_def)

lemma bt_keys_retain: "set (bt_keys (bt_retain keep m)) \<subseteq> set (bt_keys m)"
  by (auto simp: bt_keys_def bt_retain_def)

lemma bt_ok_filter: "bt_ok m \<Longrightarrow> bt_ok (filter Q m)"
  unfolding bt_ok_def bt_keys_def by (induction m) (auto simp: sorted_wrt_map)

lemma bt_ok_remove: "bt_ok m \<Longrightarrow> bt_ok (bt_remove k m)"
  unfolding bt_remove_def by (rule bt_ok_filter)

lemma bt_ok_Nil [simp]: "bt_ok []"
  by (simp add: bt_ok_def bt_keys_def)

lemma bt_get_Nil [simp]: "bt_get [] k = None"
  by (simp add: bt_get_def)

lemma set_bt_insert: "set (bt_insert k v m) \<subseteq> insert (k, v) (set m)"
  by (induction m) (auto split: if_splits)

lemma bt_get_SomeD: "bt_get m k = Some v \<Longrightarrow> (k, v) \<in> set m"
  by (simp add: bt_get_def map_of_SomeD)

lemma bt_keys_mem: "(k, v) \<in> set m \<Longrightarrow> k \<in> set (bt_keys m)"
  by (auto simp: bt_keys_def intro: rev_image_eqI)

lemma bt_get_not_None: "bt_get m k \<noteq> None \<longleftrightarrow> k \<in> set (bt_keys m)"
  using bt_get_None by metis

text \<open>\<open>entry(k).or_insert(v)\<close>: the value is stored only under a key that has none.\<close>

definition bt_or_insert :: "'k::linorder \<Rightarrow> 'v \<Rightarrow> ('k, 'v) btree \<Rightarrow> ('k, 'v) btree" where
  "bt_or_insert k v m = (case bt_get m k of Some _ \<Rightarrow> m | None \<Rightarrow> bt_insert k v m)"

definition bt_values :: "('k, 'v) btree \<Rightarrow> 'v list" where
  "bt_values m = map snd m"

lemma bt_get_or_insert:
  "bt_get (bt_or_insert k v m) k' =
     (if k' = k then Some (case bt_get m k of Some w \<Rightarrow> w | None \<Rightarrow> v) else bt_get m k')"
  by (auto simp: bt_or_insert_def bt_get_insert split: option.split)

lemma bt_ok_or_insert: "bt_ok m \<Longrightarrow> bt_ok (bt_or_insert k v m)"
  by (simp add: bt_or_insert_def bt_ok_insert split: option.split)

lemma set_bt_keys_or_insert: "set (bt_keys (bt_or_insert k v m)) = insert k (set (bt_keys m))"
  using bt_get_None [of m k] by (auto simp: bt_or_insert_def set_bt_keys_insert split: option.split)

lemma set_bt_values_insert: "set (bt_values (bt_insert k v m)) \<subseteq> insert v (set (bt_values m))"
  using set_bt_insert [of k v m] by (fastforce simp: bt_values_def)

lemma set_bt_values_or_insert: "set (bt_values (bt_or_insert k v m)) \<subseteq> insert v (set (bt_values m))"
  using set_bt_values_insert [of k v m] by (auto simp: bt_or_insert_def split: option.split)

lemma bt_values_mem: "bt_get m k = Some v \<Longrightarrow> v \<in> set (bt_values m)"
  by (auto simp: bt_values_def dest!: bt_get_SomeD intro: rev_image_eqI)

end
