(* ===== verification/Prefix_Code.thy ===== *)
theory Prefix_Code
  imports Prelude
begin

text \<open>
  Encodings that can be read back from the front of a byte string: the interface
  \<open>prefix_code\<close>, with its instances for the little-endian 64-bit counts and the length-prefixed
  fields that the package hash is made of.
\<close>

locale prefix_code =
  fixes enc :: "'a \<Rightarrow> byte list"
    and fits :: "'a \<Rightarrow> bool"
  assumes unique: "fits a \<Longrightarrow> fits b \<Longrightarrow> enc a @ r = enc b @ t \<Longrightarrow> a = b \<and> r = t"
begin

lemma enc_inject: "fits a \<Longrightarrow> fits b \<Longrightarrow> enc a = enc b \<longleftrightarrow> a = b"
  using unique [of a b "[]" "[]"] by auto

text \<open>A sequence of known length.\<close>

lemma seq_unique:
  "length xs = length ys \<Longrightarrow> list_all fits xs \<Longrightarrow> list_all fits ys \<Longrightarrow>
   concat (map enc xs) @ r = concat (map enc ys) @ t \<Longrightarrow> xs = ys \<and> r = t"
proof (induction xs ys rule: list_induct2)
  case (Cons x xs y ys)
  then have "enc x @ (concat (map enc xs) @ r) = enc y @ (concat (map enc ys) @ t)"
    "fits x" "fits y" by simp_all
  then have "x = y" "concat (map enc xs) @ r = concat (map enc ys) @ t"
    using unique [of x y] by blast+
  then show ?case using Cons by simp
qed simp

end

section \<open>Little-endian counts\<close>

fun le_bytes :: "nat \<Rightarrow> nat \<Rightarrow> byte list" where
  "le_bytes 0 n = []"
| "le_bytes (Suc w) n = word_of_nat (n mod 256) # le_bytes w (n div 256)"

definition u64_le_bytes :: "nat \<Rightarrow> byte list" where
  "u64_le_bytes n = le_bytes 8 n"

lemma length_le_bytes [simp]: "length (le_bytes w n) = w"
  by (induction w arbitrary: n) simp_all

lemma le_bytes_inject: "m < 256 ^ w \<Longrightarrow> n < 256 ^ w \<Longrightarrow> le_bytes w m = le_bytes w n \<Longrightarrow> m = n"
proof (induction w arbitrary: m n)
  case (Suc w)
  have byte: "unat (word_of_nat (k mod 256) :: byte) = k mod 256" for k
    by (simp add: unsigned_of_nat take_bit_eq_mod)
  have "(word_of_nat (m mod 256) :: byte) = word_of_nat (n mod 256)" using Suc.prems(3) by simp
  then have "m mod 256 = n mod 256" by (metis byte)
  moreover have "m div 256 = n div 256"
    using Suc.prems by (intro Suc.IH) (auto simp: less_mult_imp_div_less mult.commute)
  ultimately show ?case by (metis div_mult_mod_eq)
qed simp

interpretation count: prefix_code u64_le_bytes "\<lambda>n. n \<le> u64_max"
proof unfold_locales
  fix a b :: nat and r t
  assume "a \<le> u64_max" "b \<le> u64_max" "u64_le_bytes a @ r = u64_le_bytes b @ t"
  then show "a = b \<and> r = t"
    using le_bytes_inject [of a 8 b] by (auto simp: u64_le_bytes_def u64_max_def)
qed

section \<open>Length-prefixed fields\<close>

definition field :: "byte list \<Rightarrow> byte list" where
  "field bs = u64_le_bytes (length bs) @ bs"

interpretation field: prefix_code field "\<lambda>bs. length bs \<le> u64_max"
proof unfold_locales
  fix a b r t
  assume len: "length a \<le> u64_max" "length b \<le> u64_max" and eq: "field a @ r = field b @ t"
  have "length a = length b \<and> a @ r = b @ t"
    using eq by (intro count.unique [OF len]) (simp add: field_def)
  then show "a = b \<and> r = t" by auto
qed

text \<open>A pair of fields, and a counted table of pairs.\<close>

definition field_pair :: "byte list \<times> byte list \<Rightarrow> byte list" where
  "field_pair kv = field (fst kv) @ field (snd kv)"

interpretation field_pair: prefix_code field_pair "\<lambda>kv. length (fst kv) \<le> u64_max \<and> length (snd kv) \<le> u64_max"
proof unfold_locales
  fix a b :: "byte list \<times> byte list" and r t
  assume len: "length (fst a) \<le> u64_max \<and> length (snd a) \<le> u64_max"
    "length (fst b) \<le> u64_max \<and> length (snd b) \<le> u64_max"
    and eq: "field_pair a @ r = field_pair b @ t"
  have "fst a = fst b \<and> field (snd a) @ r = field (snd b) @ t"
    using eq len by (intro field.unique) (auto simp: field_pair_def)
  moreover from this have "snd a = snd b \<and> r = t"
    using len by (intro field.unique) auto
  ultimately show "a = b \<and> r = t" by (auto simp: prod_eq_iff)
qed

definition table :: "(byte list \<times> byte list) list \<Rightarrow> byte list" where
  "table kvs = u64_le_bytes (length kvs) @ concat (map field_pair kvs)"

interpretation table: prefix_code table "\<lambda>kvs. length kvs \<le> u64_max
    \<and> list_all (\<lambda>kv. length (fst kv) \<le> u64_max \<and> length (snd kv) \<le> u64_max) kvs"
proof unfold_locales
  fix a b :: "(byte list \<times> byte list) list" and r t
  assume fits: "length a \<le> u64_max \<and> list_all (\<lambda>kv. length (fst kv) \<le> u64_max \<and> length (snd kv) \<le> u64_max) a"
    "length b \<le> u64_max \<and> list_all (\<lambda>kv. length (fst kv) \<le> u64_max \<and> length (snd kv) \<le> u64_max) b"
    and eq: "table a @ r = table b @ t"
  have "length a = length b \<and> concat (map field_pair a) @ r = concat (map field_pair b) @ t"
    using eq fits by (intro count.unique) (auto simp: table_def)
  then show "a = b \<and> r = t"
    using fits by (intro field_pair.seq_unique) auto
qed

end
