(* ===== verification/Paths.thy ===== *)
theory Paths
  imports Errors
begin

text \<open>
  Guest and provider paths. The first part is the POSIX reading of Rust's
  \<open>std::path\<close>: a path is a string, \<open>components\<close> is its normalised reading, and
  \<open>push\<close>, \<open>parent\<close> and \<open>strip_prefix\<close> work on the string. The second part is the SDK's
  own path discipline: \<open>RelativePath::new\<close> and \<open>internal_path\<close> (rust/src/provider_fs.rs),
  \<open>validate_guest_path\<close> and \<open>workspace_path\<close> (rust/src/fs.rs) and \<open>validate_mount_path\<close>
  (rust/src/sandbox.rs). The third part proves that every accepted path stays beneath its
  root.
\<close>

section \<open>std::path on POSIX\<close>

text \<open>The code also matches \<open>Prefix\<close>, which a POSIX path never has.\<close>

datatype component = RootDir | CurDir | ParentDir | Normal string | Prefix string

fun split_slash :: "string \<Rightarrow> string list" where
  "split_slash [] = [[]]"
| "split_slash (c # cs) =
     (if c = CHR ''/'' then [] # split_slash cs
      else (case split_slash cs of [] \<Rightarrow> [[c]] | p # ps \<Rightarrow> (c # p) # ps))"

fun join_slash :: "string list \<Rightarrow> string" where
  "join_slash [] = []"
| "join_slash [p] = p"
| "join_slash (p # ps) = p @ CHR ''/'' # join_slash ps"

definition has_root :: "string \<Rightarrow> bool" where
  "has_root p \<longleftrightarrow> p \<noteq> [] \<and> hd p = CHR ''/''"

text \<open>Empty parts and \<open>.\<close> parts are skipped in the body of a path.\<close>

definition skip_part :: "string \<Rightarrow> bool" where
  "skip_part s \<longleftrightarrow> s = [] \<or> s = ''.''"

definition part_component :: "string \<Rightarrow> component" where
  "part_component s = (if s = ''..'' then ParentDir else Normal s)"

definition body_components :: "string list \<Rightarrow> component list" where
  "body_components ps = map part_component (filter (\<lambda>s. \<not> skip_part s) ps)"

definition components :: "string \<Rightarrow> component list" where
  "components p =
     (if has_root p then RootDir # body_components (tl (split_slash p))
      else if hd (split_slash p) = ''.'' then CurDir # body_components (tl (split_slash p))
      else body_components (split_slash p))"

definition path_push :: "string \<Rightarrow> string \<Rightarrow> string" where
  "path_push base p =
     (if has_root p then p
      else if base \<noteq> [] \<and> last base \<noteq> CHR ''/'' then base @ CHR ''/'' # p
      else base @ p)"

text \<open>\<open>Components::as_path\<close> of a body: skipped parts are trimmed at both ends only.\<close>

definition body_path :: "string list \<Rightarrow> string" where
  "body_path ps = join_slash (rev (dropWhile skip_part (rev (dropWhile skip_part ps))))"

fun consume_parts :: "string list \<Rightarrow> string list \<Rightarrow> string list option" where
  "consume_parts [] ps = Some ps"
| "consume_parts (b # bs) ps =
     (case dropWhile skip_part ps of
        [] \<Rightarrow> None
      | p # rest \<Rightarrow> if p = b then consume_parts bs rest else None)"

text \<open>\<open>strip_prefix\<close> for a rooted base, given by the names of its normal components.\<close>

definition strip_rooted :: "string list \<Rightarrow> string \<Rightarrow> string option" where
  "strip_rooted names p =
     (if has_root p then map_option body_path (consume_parts names (tl (split_slash p)))
      else None)"

text \<open>\<open>Path::parent\<close> of a rooted path: the path without its last component, none for
  the root itself.\<close>

definition rooted_parent :: "string \<Rightarrow> string option" where
  "rooted_parent p =
     (let kept = dropWhile skip_part (rev (tl (split_slash p)))
      in if kept = [] then None
         else Some (CHR ''/'' # join_slash (rev (dropWhile skip_part (tl kept)))))"

text \<open>Rust compares paths by their components.\<close>

definition path_eq :: "string \<Rightarrow> string \<Rightarrow> bool" where
  "path_eq p q \<longleftrightarrow> components p = components q"

section \<open>The SDK's path discipline\<close>

fun push_components :: "component list \<Rightarrow> string \<Rightarrow> fs_error + string" where
  "push_components [] buf = Inr buf"
| "push_components (Normal s # cs) buf = push_components cs (path_push buf s)"
| "push_components (CurDir # cs) buf = push_components cs buf"
| "push_components (c # cs) buf =
     Inl (InvalidInput ''provider paths cannot escape their root'')"

text \<open>A \<open>RelativePath\<close> is represented by the normalised string it wraps.\<close>

definition relative_path :: "string \<Rightarrow> fs_error + string" where
  "relative_path p =
     (if has_root p then Inl (InvalidInput ''provider paths must be relative'')
      else push_components (components p) [])"

definition is_root_path :: "string \<Rightarrow> bool" where
  "is_root_path r \<longleftrightarrow> r = []"

definition internal_path :: "string \<Rightarrow> string" where
  "internal_path r = path_push ''/'' r"

fun escapes :: "component \<Rightarrow> bool" where
  "escapes ParentDir = True"
| "escapes (Prefix s) = True"
| "escapes _ = False"

definition validate_guest_path :: "string \<Rightarrow> sdk_error + string" where
  "validate_guest_path p =
     (if p = [] then Inl (InvalidGuestPath p ''path must not be empty'')
      else if list_ex escapes (components p)
      then Inl (InvalidGuestPath p ''path traversal and host prefixes are not allowed'')
      else Inr p)"

definition workspace_path :: "string \<Rightarrow> sdk_error + string \<times> string" where
  "workspace_path path =
     bind_res (validate_guest_path path) (\<lambda>p.
       case (if has_root p then strip_rooted [''workspace''] p else Some p) of
         None \<Rightarrow> Inl (InvalidGuestPath p ''sandbox filesystem paths must be inside `/workspace`'')
       | Some relative \<Rightarrow>
           Inr (path_push ''/workspace'' relative, path_push ''/'' relative))"

definition validate_mount_path :: "string \<Rightarrow> sdk_error + unit" where
  "validate_mount_path path =
     (if \<not> has_root path then Inl (InvalidGuestPath path ''mount paths must be absolute'')
      else bind_res (validate_guest_path path) (\<lambda>_.
        if path_eq path ''/'' \<or> path_eq path ''/workspace''
        then Inl (InvalidGuestPath path
                    ''the root and `/workspace` are reserved mount points'')
        else Inr ()))"

section \<open>Splitting and joining\<close>

lemma split_slash_ne [simp]: "split_slash p \<noteq> []"
  by (cases p) (auto split: list.splits)

lemma split_slash_append:
  "split_slash (a @ CHR ''/'' # b) = split_slash a @ split_slash b"
  by (induction a) (auto split: list.splits)

lemma split_slash_plain: "CHR ''/'' \<notin> set p \<Longrightarrow> split_slash p = [p]"
  by (induction p) auto

lemma split_slash_parts: "s \<in> set (split_slash p) \<Longrightarrow> CHR ''/'' \<notin> set s"
  by (induction p arbitrary: s) (fastforce split: if_splits list.splits)+

lemma split_join_slash:
  "ps \<noteq> [] \<Longrightarrow> \<forall>s \<in> set ps. CHR ''/'' \<notin> set s \<Longrightarrow> split_slash (join_slash ps) = ps"
proof (induction ps rule: join_slash.induct)
  case (3 p q ps)
  then show ?case by (simp add: split_slash_append split_slash_plain)
qed (auto simp: split_slash_plain)

lemma has_root_split: "has_root p \<Longrightarrow> split_slash p = [] # tl (split_slash p)"
  by (cases p) (auto simp: has_root_def)

lemma has_root_Cons [simp]: "has_root (CHR ''/'' # p)"
  by (simp add: has_root_def)

lemma split_slash_root [simp]: "split_slash (CHR ''/'' # p) = [] # split_slash p"
  by simp

lemma skip_part_Nil [simp]: "skip_part []"
  by (simp add: skip_part_def)

lemma skip_part_dot [simp]: "skip_part ''.''"
  by (simp add: skip_part_def)

lemma body_components_append [simp]:
  "body_components (ps @ qs) = body_components ps @ body_components qs"
  by (simp add: body_components_def)

lemma body_components_Nil [simp]: "body_components [] = []"
  by (simp add: body_components_def)

lemma body_components_Cons:
  "body_components (s # ps) =
     (if skip_part s then body_components ps else part_component s # body_components ps)"
  by (simp add: body_components_def)

lemma body_components_dropWhile [simp]:
  "body_components (dropWhile skip_part ps) = body_components ps"
  by (induction ps) (auto simp: body_components_Cons)

lemma body_components_rev: "body_components (rev ps) = rev (body_components ps)"
  by (simp add: body_components_def rev_map rev_filter)

lemma body_components_trim:
  "body_components (rev (dropWhile skip_part (rev (dropWhile skip_part ps)))) = body_components ps"
  by (simp add: body_components_rev)

lemma body_component_cases:
  "c \<in> set (body_components ps) \<Longrightarrow> c = ParentDir \<or> (\<exists>s. c = Normal s)"
  by (auto simp: body_components_def part_component_def)

lemma normal_body_component:
  "Normal s \<in> set (body_components ps) \<Longrightarrow> s \<noteq> [] \<and> s \<noteq> ''.'' \<and> s \<noteq> ''..'' \<and> s \<in> set ps"
  by (auto simp: body_components_def part_component_def skip_part_def split: if_splits)

text \<open>Only the root of the string and its parts matter to the components.\<close>

lemma components_rooted [path_simps]:
  "components (CHR ''/'' # p) = RootDir # body_components (split_slash p)"
  by (simp add: components_def)

lemma components_relative:
  "\<not> has_root p \<Longrightarrow>
   components p = (if hd (split_slash p) = ''.'' then [CurDir] else []) @ body_components (split_slash p)"
  by (cases "split_slash p") (auto simp: components_def body_components_Cons)

lemma trim_Cons:
  assumes "dropWhile P ps = y # ys"
  shows "rev (dropWhile P (rev (dropWhile P ps))) = y # rev (dropWhile P (rev ys))"
proof -
  have "\<not> P y"
    using hd_dropWhile [of P ps] assms by simp
  then show ?thesis
    by (simp add: assms dropWhile_append3)
qed

lemma set_trim: "set (rev (dropWhile P (rev (dropWhile P ps)))) \<subseteq> set ps"
  by (auto dest!: set_dropWhileD)

text \<open>A body path trimmed by \<open>strip_prefix\<close> keeps its components and gains no root.\<close>

lemma body_path_cases:
  assumes "\<forall>s \<in> set ps. CHR ''/'' \<notin> set s"
  obtains "body_path ps = []" "body_components ps = []"
  | y ys where "split_slash (body_path ps) = y # ys" "\<not> skip_part y"
      "body_components ps = body_components (y # ys)"
proof (cases "dropWhile skip_part ps")
  case Nil
  have "body_path ps = []"
    by (simp only: body_path_def Nil rev.simps dropWhile.simps join_slash.simps)
  moreover have "body_components ps = []"
    by (metis Nil body_components_Nil body_components_dropWhile)
  ultimately show thesis by (rule that(1))
next
  case (Cons y ys)
  let ?qs = "y # rev (dropWhile skip_part (rev ys))"
  have qs: "rev (dropWhile skip_part (rev (dropWhile skip_part ps))) = ?qs"
    using Cons by (rule trim_Cons)
  have "\<forall>s \<in> set ?qs. CHR ''/'' \<notin> set s"
    using set_trim [of skip_part ps] assms unfolding qs by blast
  then have "split_slash (body_path ps) = ?qs"
    by (simp only: body_path_def qs) (rule split_join_slash, simp_all)
  moreover have "\<not> skip_part y"
    using hd_dropWhile [of skip_part ps] Cons by simp
  moreover have "body_components ps = body_components ?qs"
    using body_components_trim [of ps] unfolding qs by simp
  ultimately show thesis by (rule that(2))
qed

lemma body_path_components:
  assumes "\<forall>s \<in> set ps. CHR ''/'' \<notin> set s"
  shows "body_components (split_slash (body_path ps)) = body_components ps"
  using assms by (rule body_path_cases) (simp_all add: body_components_Cons)

lemma body_path_not_rooted:
  assumes "\<forall>s \<in> set ps. CHR ''/'' \<notin> set s"
  shows "\<not> has_root (body_path ps)"
  using assms
proof (rule body_path_cases)
  assume "body_path ps = []"
  then show ?thesis by (simp add: has_root_def)
next
  fix y ys
  assume "split_slash (body_path ps) = y # ys" "\<not> skip_part y"
  then show ?thesis
    using has_root_split [of "body_path ps"] by auto
qed

section \<open>Names beneath a root\<close>

text \<open>A name an accepted path may contain: one file name, no navigation.\<close>

definition plain_name :: "string \<Rightarrow> bool" where
  "plain_name s \<longleftrightarrow> s \<noteq> [] \<and> s \<noteq> ''.'' \<and> s \<noteq> ''..'' \<and> CHR ''/'' \<notin> set s"

lemma plain_name_simps:
  assumes "plain_name s"
  shows "\<not> skip_part s" "part_component s = Normal s" "\<not> has_root s" "split_slash s = [s]"
  using assms
  by (auto simp: plain_name_def skip_part_def part_component_def has_root_def
      intro: split_slash_plain dest: hd_in_set)

lemma body_components_plain:
  assumes "ParentDir \<notin> set (body_components (split_slash p))"
  obtains ns where "body_components (split_slash p) = map Normal ns" "\<forall>n \<in> set ns. plain_name n"
proof -
  define ns where "ns = filter (\<lambda>s. \<not> skip_part s) (split_slash p)"
  have "s \<noteq> ''..''" if "s \<in> set ns" for s
    using assms that by (force simp: body_components_def ns_def part_component_def)
  then have "body_components (split_slash p) = map Normal ns"
    by (simp add: body_components_def ns_def [symmetric] part_component_def)
  moreover have "\<forall>n \<in> set ns. plain_name n"
  proof
    fix n assume n: "n \<in> set ns"
    then have "\<not> skip_part n" "CHR ''/'' \<notin> set n"
      using split_slash_parts by (auto simp: ns_def)
    with \<open>n \<in> set ns \<Longrightarrow> n \<noteq> ''..''\<close> n show "plain_name n"
      by (auto simp: plain_name_def skip_part_def)
  qed
  ultimately show thesis by (rule that)
qed

lemma body_components_split:
  "has_root p \<or> hd (split_slash p) = ''.'' \<Longrightarrow>
   body_components (split_slash p) = body_components (tl (split_slash p))"
proof -
  assume "has_root p \<or> hd (split_slash p) = ''.''"
  then have "skip_part (hd (split_slash p))"
    using has_root_split [of p] by (auto simp: skip_part_def) (metis list.sel(1))
  then show ?thesis
    by (cases "split_slash p") (simp_all add: body_components_Cons)
qed

lemma components_body:
  "set (body_components (split_slash p)) \<subseteq> set (components p)"
  by (auto simp: components_def body_components_split)

lemma consume_parts_components:
  "consume_parts names ps = Some rest \<Longrightarrow> \<forall>n \<in> set names. plain_name n \<Longrightarrow>
   body_components ps = map Normal names @ body_components rest \<and> set rest \<subseteq> set ps"
proof (induction names ps rule: consume_parts.induct)
  case (2 b bs ps)
  from "2.prems" obtain rst where
    drop: "dropWhile skip_part ps = b # rst" and rest: "consume_parts bs rst = Some rest"
    by (auto split: list.splits if_splits)
  have ih: "body_components rst = map Normal bs @ body_components rest \<and> set rest \<subseteq> set rst"
    using "2.IH" [OF drop] rest "2.prems"(2) by simp
  have "body_components ps = body_components (b # rst)"
    using drop body_components_dropWhile [of ps] by simp
  moreover have "set rst \<subseteq> set ps"
    using drop set_dropWhileD by (metis list.set_intros(2) subsetI)
  ultimately show ?case
    using ih "2.prems"(2) by (auto simp: body_components_Cons plain_name_simps)
qed simp

lemma components_push_slash:
  "body_components (split_slash (a @ CHR ''/'' # p))
     = body_components (split_slash a) @ body_components (split_slash p)"
  by (simp add: split_slash_append)

text \<open>Joining a relative path below a root directory.\<close>

lemma components_push_root:
  "\<not> has_root p \<Longrightarrow>
   components (path_push ''/'' p) = RootDir # body_components (split_slash p)"
  by (simp add: path_push_def components_rooted)

lemma components_push_workspace:
  assumes "\<not> has_root p"
  shows "components (path_push ''/workspace'' p)
    = RootDir # Normal ''workspace'' # body_components (split_slash p)"
proof -
  have "path_push ''/workspace'' p = CHR ''/'' # (''workspace'' @ CHR ''/'' # p)"
    using assms by (simp add: path_push_def)
  then show ?thesis
    by (simp only: components_rooted components_push_slash)
      (simp add: body_components_Cons skip_part_def part_component_def)
qed

text \<open>What the path functions promise their callers: an accepted path is the root
  followed by plain names.\<close>

locale confined_paths =
  fixes resolve :: "string \<Rightarrow> 'e + string"
    and root :: "component list"
  assumes confined: "resolve p = Inr i \<Longrightarrow>
      \<exists>ns. components i = root @ map Normal ns \<and> (\<forall>n \<in> set ns. plain_name n)"
    and root_plain: "ParentDir \<notin> set root"
begin

lemma no_traversal: "resolve p = Inr i \<Longrightarrow> ParentDir \<notin> set (components i)"
  using confined root_plain by fastforce

lemma below_root: "resolve p = Inr i \<Longrightarrow> take (length root) (components i) = root"
  using confined by fastforce

lemma names_below_root:
  "resolve p = Inr i \<Longrightarrow> c \<in> set (drop (length root) (components i)) \<Longrightarrow>
   \<exists>n. c = Normal n \<and> plain_name n"
  using confined by fastforce

end

lemma validate_guest_path_Inr:
  "validate_guest_path p = Inr q \<longleftrightarrow> q = p \<and> p \<noteq> [] \<and> ParentDir \<notin> set (components p)"
proof -
  have "Prefix x \<notin> set (components p)" for x
    by (auto simp: components_def dest: body_component_cases)
  then have "list_ex escapes (components p) \<longleftrightarrow> ParentDir \<in> set (components p)"
    by (auto simp: list_ex_iff elim!: escapes.elims(2) intro: bexI [of _ ParentDir])
  then show ?thesis by (auto simp: validate_guest_path_def)
qed

text \<open>The relative part of an accepted workspace path.\<close>

lemma workspace_relative:
  assumes "workspace_path p = Inr (g, i)"
  obtains r where "g = path_push ''/workspace'' r" "i = path_push ''/'' r" "\<not> has_root r"
    "ParentDir \<notin> set (body_components (split_slash r))"
    "has_root p \<Longrightarrow> components p = RootDir # Normal ''workspace'' # body_components (split_slash r)"
    "\<not> has_root p \<Longrightarrow> r = p"
proof (cases "has_root p")
  case True
  from assms True obtain r where valid: "validate_guest_path p = Inr p"
    and strip: "strip_rooted [''workspace''] p = Some r"
    and gi: "g = path_push ''/workspace'' r" "i = path_push ''/'' r"
    by (auto simp: workspace_path_def bind_res_Inr_iff validate_guest_path_Inr split: option.splits)
  from strip True obtain ps where ps: "consume_parts [''workspace''] (tl (split_slash p)) = Some ps"
    and r: "r = body_path ps"
    by (auto simp: strip_rooted_def split: option.splits)
  have comps: "body_components (tl (split_slash p)) = Normal ''workspace'' # body_components ps"
    and sub: "set ps \<subseteq> set (tl (split_slash p))"
    using consume_parts_components [OF ps] by (auto simp: plain_name_def)
  have free: "\<forall>s \<in> set ps. CHR ''/'' \<notin> set s"
    using sub list.set_sel(2) [OF split_slash_ne] split_slash_parts by blast
  have cp: "components p = RootDir # Normal ''workspace'' # body_components (split_slash r)"
    using True comps by (simp add: components_def r body_path_components [OF free])
  have "ParentDir \<notin> set (body_components (split_slash r))"
    using valid cp by (simp add: validate_guest_path_Inr)
  then show thesis
    using that [OF gi] body_path_not_rooted [OF free] cp True r by blast
next
  case False
  with assms have gi: "g = path_push ''/workspace'' p" "i = path_push ''/'' p"
    and valid: "validate_guest_path p = Inr p"
    by (auto simp: workspace_path_def bind_res_Inr_iff validate_guest_path_Inr split: option.splits)
  then show thesis
    using that [OF gi False] components_body [of p] False
    by (auto simp: validate_guest_path_Inr)
qed

definition workspace_internal :: "string \<Rightarrow> sdk_error + string" where
  "workspace_internal p = map_ok snd (workspace_path p)"

definition workspace_guest :: "string \<Rightarrow> sdk_error + string" where
  "workspace_guest p = map_ok fst (workspace_path p)"

interpretation internal_paths: confined_paths workspace_internal "[RootDir]"
proof unfold_locales
  fix p i assume "workspace_internal p = Inr i"
  then obtain g where "workspace_path p = Inr (g, i)"
    by (auto simp: workspace_internal_def map_ok_Inr_iff)
  then obtain r where "i = path_push ''/'' r" "\<not> has_root r"
    and clean: "ParentDir \<notin> set (body_components (split_slash r))"
    by (rule workspace_relative)
  then show "\<exists>ns. components i = [RootDir] @ map Normal ns \<and> (\<forall>n \<in> set ns. plain_name n)"
    using body_components_plain [OF clean] by (metis components_push_root append_Cons append_Nil)
qed simp

interpretation guest_paths: confined_paths workspace_guest "[RootDir, Normal ''workspace'']"
proof unfold_locales
  fix p g assume "workspace_guest p = Inr g"
  then obtain i where "workspace_path p = Inr (g, i)"
    by (auto simp: workspace_guest_def map_ok_Inr_iff)
  then obtain r where "g = path_push ''/workspace'' r" "\<not> has_root r"
    and clean: "ParentDir \<notin> set (body_components (split_slash r))"
    by (rule workspace_relative)
  then show "\<exists>ns. components g = [RootDir, Normal ''workspace''] @ map Normal ns
      \<and> (\<forall>n \<in> set ns. plain_name n)"
    using body_components_plain [OF clean]
    by (metis components_push_workspace append_Cons append_Nil)
qed simp

section \<open>Provider-relative paths\<close>

lemma path_push_plain:
  assumes "\<forall>n \<in> set ns. plain_name n" "plain_name s"
  shows "path_push (join_slash ns) s = join_slash (ns @ [s])"
proof (cases "ns = []")
  case True
  with assms show ?thesis by (simp add: path_push_def plain_name_simps)
next
  case False
  have last: "join_slash ns \<noteq> [] \<and> last (join_slash ns) \<noteq> CHR ''/''"
    using False assms(1)
  proof (induction ns rule: join_slash.induct)
    case (2 p)
    then show ?case by (auto simp: plain_name_def dest: last_in_set)
  qed auto
  have "join_slash (ns @ [s]) = join_slash ns @ CHR ''/'' # s"
    using False by (induction ns rule: join_slash.induct) auto
  then show ?thesis
    using last assms(2) by (simp add: path_push_def plain_name_simps)
qed

lemma push_components_Inr:
  "push_components cs (join_slash ns) = Inr r \<Longrightarrow> \<forall>n \<in> set ns. plain_name n \<Longrightarrow>
   (\<And>s. Normal s \<in> set cs \<Longrightarrow> plain_name s) \<Longrightarrow>
   \<exists>ms. filter (\<lambda>c. c \<noteq> CurDir) cs = map Normal ms \<and> (\<forall>m \<in> set ms. plain_name m)
     \<and> r = join_slash (ns @ ms)"
proof (induction cs arbitrary: ns)
  case (Cons c cs)
  show ?case
  proof (cases c)
    case (Normal s)
    with Cons.prems have plain: "plain_name s" and rest: "push_components cs (join_slash (ns @ [s])) = Inr r"
      by (auto simp: path_push_plain)
    obtain ms where "filter (\<lambda>c. c \<noteq> CurDir) cs = map Normal ms" "\<forall>m \<in> set ms. plain_name m"
      "r = join_slash ((ns @ [s]) @ ms)"
      using Cons.IH [OF rest] Cons.prems plain by auto
    with Normal plain show ?thesis by (intro exI [of _ "s # ms"]) simp
  qed (use Cons in auto)
qed simp

lemma push_components_plain:
  "\<forall>m \<in> set ms. plain_name m \<Longrightarrow> \<forall>n \<in> set ns. plain_name n \<Longrightarrow>
   push_components (map Normal ms) (join_slash ns) = Inr (join_slash (ns @ ms))"
  by (induction ms arbitrary: ns) (simp_all add: path_push_plain)

lemma components_join_slash:
  assumes "\<forall>n \<in> set ns. plain_name n"
  shows "components (join_slash ns) = map Normal ns" "\<not> has_root (join_slash ns)"
proof -
  have split: "ns \<noteq> [] \<Longrightarrow> split_slash (join_slash ns) = ns"
    using assms by (intro split_join_slash) (auto simp: plain_name_def)
  have body: "body_components ns = map Normal ns"
    using assms by (induction ns) (simp_all add: body_components_Cons plain_name_simps)
  show root: "\<not> has_root (join_slash ns)"
  proof (cases ns)
    case (Cons n ms)
    then have "hd (split_slash (join_slash ns)) = n" using split by simp
    moreover have "n \<noteq> []" using Cons assms by (simp add: plain_name_def)
    ultimately show ?thesis
      using has_root_split [of "join_slash ns"] by (metis list.sel(1))
  qed (simp add: has_root_def)
  show "components (join_slash ns) = map Normal ns"
  proof (cases ns)
    case Nil
    then show ?thesis by (simp add: components_def has_root_def body_components_Cons)
  next
    case (Cons n ms)
    then have "split_slash (join_slash ns) = ns" "n \<noteq> ''.''"
      using split assms by (auto simp: plain_name_def)
    with Cons root body show ?thesis by (simp add: components_relative)
  qed
qed

lemma normal_component_plain: "Normal s \<in> set (components p) \<Longrightarrow> plain_name s"
proof -
  assume "Normal s \<in> set (components p)"
  then have "Normal s \<in> set (body_components (split_slash p))"
    by (auto simp: components_def body_components_split split: if_splits)
  then show ?thesis
    using normal_body_component split_slash_parts by (fastforce simp: plain_name_def)
qed

text \<open>A provider path is the slash-joined list of the plain names of its source.\<close>

lemma relative_path_Inr:
  assumes "relative_path p = Inr r"
  obtains ns where "r = join_slash ns" "\<forall>n \<in> set ns. plain_name n"
    "filter (\<lambda>c. c \<noteq> CurDir) (components p) = map Normal ns"
proof -
  from assms have "push_components (components p) (join_slash []) = Inr r"
    by (simp add: relative_path_def split: if_splits)
  then obtain ms where "filter (\<lambda>c. c \<noteq> CurDir) (components p) = map Normal ms"
    "\<forall>m \<in> set ms. plain_name m" "r = join_slash ([] @ ms)"
    using push_components_Inr [of "components p" "[]" r] normal_component_plain by auto
  then show thesis using that by simp
qed

interpretation provider_paths: confined_paths relative_path "[]"
  by unfold_locales (auto elim!: relative_path_Inr simp: components_join_slash)

lemma relative_path_join:
  assumes "\<forall>n \<in> set ns. plain_name n"
  shows "relative_path (join_slash ns) = Inr (join_slash ns)"
  using push_components_plain [OF assms, of "[]"]
  by (simp add: relative_path_def components_join_slash assms)

lemma relative_path_idem: "relative_path p = Inr r \<Longrightarrow> relative_path r = Inr r"
  by (erule relative_path_Inr) (simp add: relative_path_join)

text \<open>The adapter's \<open>ProviderAdapter::path\<close> turns a mount-internal path into a provider path.\<close>

definition adapter_path :: "string \<Rightarrow> vfs_error + string" where
  "adapter_path path =
     (let relative = (case strip_rooted [] path of None \<Rightarrow> path | Some r \<Rightarrow> r)
      in map_err map_provider_error (relative_path relative))"

lemma body_path_plain:
  assumes "\<forall>n \<in> set ns. plain_name n"
  shows "body_path ns = join_slash ns"
proof -
  have "dropWhile skip_part ms = ms" if "set ms \<subseteq> set ns" for ms
    using that assms by (cases ms) (auto simp: plain_name_simps)
  then show ?thesis by (simp add: body_path_def)
qed

lemma adapter_path_internal:
  assumes "\<forall>n \<in> set ns. plain_name n"
  shows "adapter_path (internal_path (join_slash ns)) = Inr (join_slash ns)"
proof -
  have "body_path (split_slash (join_slash ns)) = join_slash ns"
  proof (cases "ns = []")
    case True
    then show ?thesis by (simp add: body_path_def)
  next
    case False
    then have "split_slash (join_slash ns) = ns"
      using assms by (intro split_join_slash) (auto simp: plain_name_def)
    then show ?thesis by (simp add: body_path_plain assms)
  qed
  then have "strip_rooted [] (CHR ''/'' # join_slash ns) = Some (join_slash ns)"
    by (simp add: strip_rooted_def)
  then show ?thesis
    using assms by (simp add: adapter_path_def internal_path_def path_push_def
        components_join_slash relative_path_join)
qed

lemma consume_workspace:
  "(\<exists>ps. consume_parts [''workspace''] qs = Some ps) \<longleftrightarrow>
   take 1 (body_components qs) = [Normal ''workspace'']"
proof (cases "dropWhile skip_part qs")
  case Nil
  then have "body_components qs = []"
    by (metis body_components_Nil body_components_dropWhile)
  then show ?thesis by (simp add: Nil del: dropWhile_eq_Nil_conv)
next
  case (Cons q rest)
  then have "\<not> skip_part q" using hd_dropWhile [of skip_part qs] by simp
  moreover have "body_components qs = body_components (q # rest)"
    using Cons body_components_dropWhile [of qs] by simp
  ultimately show ?thesis
    using Cons by (auto simp: body_components_Cons part_component_def)
qed

section \<open>Properties\<close>

text \<open>C1: every accepted workspace path is confined. The path given to the filesystem is the
  root followed by plain names (no \<open>..\<close>, no separator), the path shown to the caller is
  the same names beneath \<open>/workspace\<close>, and both name what the caller asked for.\<close>

theorem workspace_path_confined:
  assumes "workspace_path p = Inr (guest, internal)"
  shows "\<exists>ns. (\<forall>n \<in> set ns. plain_name n)
    \<and> components internal = RootDir # map Normal ns
    \<and> components guest = RootDir # Normal ''workspace'' # map Normal ns
    \<and> (if has_root p then components p = components guest
       else filter (\<lambda>c. c \<noteq> CurDir) (components p) = map Normal ns)"
proof -
  obtain r where r: "guest = path_push ''/workspace'' r" "internal = path_push ''/'' r"
      "\<not> has_root r" and clean: "ParentDir \<notin> set (body_components (split_slash r))"
    and rooted: "has_root p \<Longrightarrow>
      components p = RootDir # Normal ''workspace'' # body_components (split_slash r)"
    and plain: "\<not> has_root p \<Longrightarrow> r = p"
    by (rule workspace_relative [OF assms]) blast
  obtain ns where ns: "body_components (split_slash r) = map Normal ns" "\<forall>n \<in> set ns. plain_name n"
    using body_components_plain [OF clean] .
  moreover have "filter (\<lambda>c. c \<noteq> CurDir) (components p) = map Normal ns" if "\<not> has_root p"
    using that plain ns(1) by (auto simp: components_relative filter_map comp_def)
  ultimately show ?thesis
    using r rooted by (auto simp: components_push_root components_push_workspace)
qed

theorem workspace_path_confined_witness:
  "\<exists>ns. (\<forall>n \<in> set ns. plain_name n)
    \<and> components ''/a//b'' = RootDir # map Normal ns
    \<and> components ''/workspace/a//b'' = RootDir # Normal ''workspace'' # map Normal ns
    \<and> (if has_root ''/workspace/./a//b'' then components ''/workspace/./a//b'' = components ''/workspace/a//b''
       else filter (\<lambda>c. c \<noteq> CurDir) (components ''/workspace/./a//b'') = map Normal ns)"
proof -
  have "workspace_path ''/workspace/./a//b'' = Inr (''/workspace/a//b'', ''/a//b'')"
    by code_simp
  then show ?thesis by (rule workspace_path_confined)
qed

text \<open>Which workspace paths are accepted: exactly the non-empty ones without \<open>..\<close> that are
  relative or lie at or below \<open>/workspace\<close>; every other path is an \<open>InvalidGuestPath\<close> error
  naming it.\<close>

theorem workspace_path_accepts:
  "((\<exists>r. workspace_path p = Inr r) \<longleftrightarrow>
     ParentDir \<notin> set (components p)
     \<and> (if has_root p then take 2 (components p) = [RootDir, Normal ''workspace''] else p \<noteq> []))
   \<and> ((\<exists>r. workspace_path p = Inr r) \<or> (\<exists>m. workspace_path p = Inl (InvalidGuestPath p m)))"
proof (rule conjI)
  have strip: "strip_rooted [''workspace''] p \<noteq> None \<longleftrightarrow>
      take 2 (components p) = [RootDir, Normal ''workspace'']" if "has_root p"
    using that consume_workspace [of "tl (split_slash p)"]
    by (simp add: strip_rooted_def components_def numeral_2_eq_2)
  then show "(\<exists>r. workspace_path p = Inr r) \<longleftrightarrow>
     ParentDir \<notin> set (components p)
     \<and> (if has_root p then take 2 (components p) = [RootDir, Normal ''workspace''] else p \<noteq> [])"
    by (auto simp: workspace_path_def bind_res_Inr_iff validate_guest_path_Inr has_root_def
        split: option.splits)
  show "(\<exists>r. workspace_path p = Inr r) \<or> (\<exists>m. workspace_path p = Inl (InvalidGuestPath p m))"
    by (auto simp: workspace_path_def validate_guest_path_def split: option.splits)
qed

text \<open>Provider paths are canonical. Re-reading an accepted provider path changes nothing,
  the adapter recovers it from the mount-internal path built from it, and that internal
  path holds the same names beneath the mount's root.\<close>

theorem relative_path_roundtrip:
  assumes "relative_path p = Inr r"
  shows "relative_path r = Inr r \<and> adapter_path (internal_path r) = Inr r
    \<and> components (internal_path r) = RootDir # filter (\<lambda>c. c \<noteq> CurDir) (components p)"
proof (intro conjI)
  obtain ns where ns: "r = join_slash ns" "\<forall>n \<in> set ns. plain_name n"
    "filter (\<lambda>c. c \<noteq> CurDir) (components p) = map Normal ns"
    using relative_path_Inr [OF assms] .
  show "relative_path r = Inr r" using assms by (rule relative_path_idem)
  show "adapter_path (internal_path r) = Inr r" using ns by (simp add: adapter_path_internal)
  have "hd (split_slash r) \<noteq> ''.''"
    using components_join_slash [OF ns(2)] ns(1) by (auto simp: components_relative split: if_splits)
  then show "components (internal_path r) = RootDir # filter (\<lambda>c. c \<noteq> CurDir) (components p)"
    using components_join_slash [OF ns(2)] ns
    by (simp add: internal_path_def components_push_root components_relative)
qed

theorem relative_path_roundtrip_witness:
  "relative_path ''a/b'' = Inr ''a/b'' \<and> adapter_path (internal_path ''a/b'') = Inr ''a/b''
   \<and> components (internal_path ''a/b'') = RootDir # filter (\<lambda>c. c \<noteq> CurDir) (components ''./a//b/'')"
proof -
  have h: "relative_path ''./a//b/'' = Inr ''a/b''" by code_simp
  show ?thesis
    using relative_path_roundtrip [OF h] .
qed

text \<open>a mount point is accepted exactly when it is rooted, free of \<open>..\<close>, and neither the
  guest root nor \<open>/workspace\<close> under any spelling.\<close>

theorem validate_mount_path_accepts:
  "validate_mount_path p = Inr () \<longleftrightarrow>
     has_root p \<and> ParentDir \<notin> set (components p)
     \<and> components p \<noteq> [RootDir] \<and> components p \<noteq> [RootDir, Normal ''workspace'']"
proof -
  have "components ''/'' = [RootDir]" "components ''/workspace'' = [RootDir, Normal ''workspace'']"
    by code_simp+
  moreover have "has_root p \<Longrightarrow> p \<noteq> []" by (auto simp: has_root_def)
  ultimately show ?thesis
    by (auto simp: validate_mount_path_def bind_res_Inr_iff validate_guest_path_Inr path_eq_def)
qed

end
