(* ===== verification/Package_Definition.thy ===== *)
theory Package_Definition
  imports Ordered_Map Prefix_Code Paths
begin

text \<open>
  In-memory packages (rust/src/package/definition.rs): validation of a definition, the hash
  that identifies it, and the package built from it. SHA-256, the WebAssembly parser and the
  in-memory filesystem are third-party code: the parameters \<open>sha256\<close>, \<open>parse_all\<close> (the payloads
  of a module, each an error text or a payload) and \<open>M\<close> (creating directories and writing a new
  file).
\<close>

section \<open>Definitions and their validation\<close>

record package_definition =
  pd_modules :: "(string, byte list) btree"
  pd_commands :: "(string, string) btree"
  pd_entrypoint :: "string option"
  pd_files :: "(string, byte list) btree"

definition from_wasm :: "byte list \<Rightarrow> package_definition" where
  "from_wasm bs = \<lparr>pd_modules = [(''main'', bs)], pd_commands = [(''main'', ''main'')],
     pd_entrypoint = Some ''main'', pd_files = []\<rparr>"

datatype payload =
    ComponentVersion
  | ExportSection "(string + string \<times> bool) list"
  | OtherPayload

definition invalid_definition :: "string \<Rightarrow> sdk_error" where
  "invalid_definition message = InvalidArgument message"

definition module_error :: "string \<Rightarrow> string \<Rightarrow> sdk_error" where
  "module_error name message = PackageLoad (''in-memory module `'' @ name @ ''`'') message"

definition name_char :: "char \<Rightarrow> bool" where
  "name_char c \<longleftrightarrow> CHR ''0'' \<le> c \<and> c \<le> CHR ''9'' \<or> CHR ''A'' \<le> c \<and> c \<le> CHR ''Z''
     \<or> CHR ''a'' \<le> c \<and> c \<le> CHR ''z'' \<or> c \<in> set ''-_.+''"

definition validate_name :: "string \<Rightarrow> string \<Rightarrow> sdk_error + unit" where
  "validate_name kind name =
     (if name = [] \<or> name = ''.'' \<or> name = ''..'' \<or> \<not> list_all name_char name then
        Inl (invalid_definition (kind @ '' name `'' @ name @ ''` must contain only ASCII letters, digits, '' @
          [CHR 0x27] @ ''-'' @ [CHR 0x27] @ '', '' @ [CHR 0x27] @ ''_'' @ [CHR 0x27] @ '', '' @ [CHR 0x27] @ ''.'' @ [CHR 0x27] @
          '', or '' @ [CHR 0x27] @ ''+'' @ [CHR 0x27] @ '' and cannot be empty, '' @ [CHR 0x27] @ ''.'' @ [CHR 0x27] @
          '' or '' @ [CHR 0x27] @ ''..'' @ [CHR 0x27]))
      else Inr ())"

fun exports_start :: "string \<Rightarrow> (string + string \<times> bool) list \<Rightarrow> bool \<Rightarrow> sdk_error + bool" where
  "exports_start name [] acc = Inr acc"
| "exports_start name (Inl e # es) acc = Inl (module_error name e)"
| "exports_start name (Inr (x, func) # es) acc = exports_start name es (acc \<or> x = ''_start'' \<and> func)"

fun payloads_start :: "string \<Rightarrow> (string + payload) list \<Rightarrow> bool \<Rightarrow> sdk_error + bool" where
  "payloads_start name [] acc = Inr acc"
| "payloads_start name (Inl e # ps) acc = Inl (module_error name e)"
| "payloads_start name (Inr ComponentVersion # ps) acc = Inl (module_error name
     ''WebAssembly components are not supported by the sandbox command runner'')"
| "payloads_start name (Inr (ExportSection es) # ps) acc =
     bind_res (exports_start name es acc) (payloads_start name ps)"
| "payloads_start name (Inr OtherPayload # ps) acc = payloads_start name ps acc"

definition module_has_start :: "(byte list \<Rightarrow> (string + payload) list) \<Rightarrow> string \<Rightarrow> byte list \<Rightarrow> sdk_error + bool" where
  "module_has_start parse_all name bs = payloads_start name (parse_all bs) False"

fun validate_modules :: "(byte list \<Rightarrow> (string + payload) list) \<Rightarrow> string option
    \<Rightarrow> (string, byte list) btree \<Rightarrow> (string, bool) btree \<Rightarrow> sdk_error + (string, bool) btree" where
  "validate_modules parse_all checked [] starts = Inr starts"
| "validate_modules parse_all checked ((name, bs) # ms) starts =
     bind_res (validate_name ''module'' name) (\<lambda>_.
     bind_res (if checked = Some name then Inr True else module_has_start parse_all name bs) (\<lambda>has.
     validate_modules parse_all checked ms (bt_insert name has starts)))"

fun validate_commands :: "(string, bool) btree \<Rightarrow> (string, string) btree \<Rightarrow> sdk_error + unit" where
  "validate_commands starts [] = Inr ()"
| "validate_commands starts ((name, m) # cs) =
     bind_res (validate_name ''command'' name) (\<lambda>_.
     case bt_get starts m of
       None \<Rightarrow> Inl (invalid_definition (''command `'' @ name @ ''` references missing module `'' @ m @ ''`''))
     | Some has \<Rightarrow>
         if \<not> has then Inl (module_error m ''WASI/WASIX commands require an exported `_start` function'')
         else validate_commands starts cs)"

text \<open>\<open>rsplit_once\<close> at a slash, and the parents the loop visits.\<close>

definition rsplit_slash :: "string \<Rightarrow> string option" where
  "rsplit_slash s = (case dropWhile (\<lambda>c. c \<noteq> CHR ''/'') (rev s) of [] \<Rightarrow> None | _ # t \<Rightarrow> Some (rev t))"

lemma rsplit_slash_shorter: "rsplit_slash s = Some p \<Longrightarrow> length p < length s"
proof -
  assume "rsplit_slash s = Some p"
  then have "length (dropWhile (\<lambda>c. c \<noteq> CHR ''/'') (rev s)) = Suc (length p)"
    by (auto simp: rsplit_slash_def split: list.splits)
  then show ?thesis
    using length_dropWhile_le [of "\<lambda>c. c \<noteq> CHR ''/''" "rev s"] by simp
qed

function ancestors :: "string \<Rightarrow> string list" where
  "ancestors s = (case rsplit_slash s of None \<Rightarrow> [] | Some p \<Rightarrow> p # ancestors p)"
  by auto
termination by (relation "measure length") (auto simp: rsplit_slash_shorter)

declare ancestors.simps [simp del]

definition canonical_file :: "string \<Rightarrow> bool" where
  "canonical_file path \<longleftrightarrow> path \<noteq> [] \<and> hd path = CHR ''/''
     \<and> CHR 0x5C \<notin> set path \<and> CHR 0x00 \<notin> set path
     \<and> \<not> list_ex (\<lambda>part. part = [] \<or> part = ''.'' \<or> part = ''..'') (split_slash (tl path))"

fun validate_files :: "(string, byte list) btree \<Rightarrow> string list \<Rightarrow> sdk_error + unit" where
  "validate_files files [] = Inr ()"
| "validate_files files (path # paths) =
     (if \<not> canonical_file path then
        Inl (invalid_definition (''package file `'' @ path @ ''` must be a canonical absolute guest path''))
      else (case find (bt_contains files) (ancestors path) of
              Some parent \<Rightarrow> Inl (invalid_definition (''package file `'' @ parent @
                ''` is also a directory for `'' @ path @ ''`''))
            | None \<Rightarrow> validate_files files paths))"

definition validate_definition ::
    "(byte list \<Rightarrow> (string + payload) list) \<Rightarrow> string option \<Rightarrow> package_definition \<Rightarrow> sdk_error + unit" where
  "validate_definition parse_all checked d =
     (if pd_commands d = [] then
        Inl (invalid_definition ''a package definition must contain at least one command'')
      else
        bind_res (validate_modules parse_all checked (pd_modules d) []) (\<lambda>starts.
        bind_res (validate_commands starts (pd_commands d)) (\<lambda>_.
        (case pd_entrypoint d of
           Some e \<Rightarrow>
             if \<not> bt_contains (pd_commands d) e then
               Inl (invalid_definition (''entrypoint `'' @ e @ ''` is not a command''))
             else validate_files (pd_files d) (bt_keys (pd_files d))
         | None \<Rightarrow> validate_files (pd_files d) (bt_keys (pd_files d))))))"

section \<open>The package hash\<close>

definition hash_version :: "byte list" where
  "hash_version = bytes_of ''wasmer-sdk:package-definition:v2'' @ [0]"

definition hash_preimage :: "package_definition \<Rightarrow> (string \<Rightarrow> byte list) \<Rightarrow> byte list" where
  "hash_preimage d digests = hash_version
     @ table (map (\<lambda>(name, bs). (bytes_of name, digests name)) (pd_modules d))
     @ table (map (\<lambda>(name, m). (bytes_of name, bytes_of m)) (pd_commands d))
     @ field (bytes_of (case pd_entrypoint d of None \<Rightarrow> [] | Some e \<Rightarrow> e))
     @ table (map (\<lambda>(path, bs). (bytes_of path, bs)) (pd_files d))"

definition package_hash ::
    "(byte list \<Rightarrow> byte list) \<Rightarrow> package_definition \<Rightarrow> (string \<Rightarrow> byte list) \<Rightarrow> byte list" where
  "package_hash sha256 d digests = sha256 (hash_preimage d digests)"

section \<open>Building the package\<close>

record package_command =
  pc_name :: string
  pc_runner :: string
  pc_atom :: "byte list"
  pc_hash :: "byte list"

record 'f binary_package =
  bp_id :: "byte list"
  bp_entrypoint :: "string option"
  bp_commands :: "package_command list"
  bp_root_layer :: "'f option"

record 'f mem_fs_ops =
  mem_new :: 'f
  mem_create_dir_all :: "string \<Rightarrow> 'f \<Rightarrow> vfs_error + 'f"
  mem_create_new :: "string \<Rightarrow> 'f \<Rightarrow> vfs_error + 'f"
  mem_write_all :: "string \<Rightarrow> byte list \<Rightarrow> 'f \<Rightarrow> io_error + 'f"
  mem_show :: "vfs_error \<Rightarrow> string"

fun build_files :: "'f mem_fs_ops \<Rightarrow> (string, byte list) btree \<Rightarrow> 'f \<Rightarrow> sdk_error + 'f" where
  "build_files M [] fs = Inr fs"
| "build_files M ((path, bs) # files) fs =
     (let fail = (\<lambda>e. FileSystemError ''create package file'' path (mem_show M e))
      in bind_res (case rooted_parent path of
             Some parent \<Rightarrow> map_err fail (mem_create_dir_all M parent fs)
           | None \<Rightarrow> Inr fs) (\<lambda>fs1.
         bind_res (map_err fail (mem_create_new M path fs1)) (\<lambda>fs2.
         bind_res (map_err SdkIo (mem_write_all M path bs fs2)) (\<lambda>fs3.
         build_files M files fs3))))"

definition build_filesystem :: "'f mem_fs_ops \<Rightarrow> (string, byte list) btree \<Rightarrow> sdk_error + 'f" where
  "build_filesystem M files = build_files M files (mem_new M)"

text \<open>The digest of a module: the caller's, or computed.\<close>

definition module_digests :: "(byte list \<Rightarrow> byte list) \<Rightarrow> package_definition \<Rightarrow> (string, byte list) btree
    \<Rightarrow> (string, byte list) btree" where
  "module_digests sha256 d digests =
     fold (\<lambda>(name, bs) m. if bt_get m name = None then bt_insert name (sha256 bs) m else m) (pd_modules d)
       (filter (\<lambda>(name, _). bt_get (pd_modules d) name \<noteq> None) digests)"

definition infer_single_command :: "package_definition \<Rightarrow> package_definition" where
  "infer_single_command d =
     (if pd_entrypoint d = None \<and> length (pd_commands d) = 1
      then d\<lparr>pd_entrypoint := Some (hd (bt_keys (pd_commands d)))\<rparr> else d)"

definition wasi_runner :: string where
  "wasi_runner = ''https://webc.org/runner/wasi''"

definition package_commands ::
    "package_definition \<Rightarrow> (string, byte list) btree \<Rightarrow> package_command list" where
  "package_commands d digests = map (\<lambda>(name, m).
     \<lparr>pc_name = name, pc_runner = wasi_runner, pc_atom = the (bt_get (pd_modules d) m),
      pc_hash = the (bt_get digests m)\<rparr>) (pd_commands d)"

definition into_package_with_digests ::
    "(byte list \<Rightarrow> byte list) \<Rightarrow> (byte list \<Rightarrow> (string + payload) list) \<Rightarrow> 'f mem_fs_ops
      \<Rightarrow> package_definition \<Rightarrow> (string, byte list) btree \<Rightarrow> bool \<Rightarrow> sdk_error + 'f binary_package" where
  "into_package_with_digests sha256 parse_all M d digests validated =
     (let checked = validated \<and> length (pd_modules d) = 1 \<and> length digests = 1
      in bind_res (validate_definition parse_all (if checked then Some (hd (bt_keys digests)) else None) d) (\<lambda>_.
         let d1 = infer_single_command d;
             digests1 = module_digests sha256 d1 digests;
             ident = package_hash sha256 d1 (\<lambda>name. the (bt_get digests1 name));
             commands = package_commands d1 digests1
         in bind_res (if pd_files d1 = [] then Inr None else map_ok Some (build_filesystem M (pd_files d1))) (\<lambda>root.
            Inr \<lparr>bp_id = ident, bp_entrypoint = pd_entrypoint d1, bp_commands = commands,
                 bp_root_layer = root\<rparr>)))"

definition into_package ::
    "(byte list \<Rightarrow> byte list) \<Rightarrow> (byte list \<Rightarrow> (string + payload) list) \<Rightarrow> 'f mem_fs_ops
      \<Rightarrow> package_definition \<Rightarrow> sdk_error + 'f binary_package" where
  "into_package sha256 parse_all M d = into_package_with_digests sha256 parse_all M d [] False"


section \<open>What validation accepts\<close>

definition name_ok :: "string \<Rightarrow> bool" where
  "name_ok name \<longleftrightarrow> name \<noteq> [] \<and> name \<noteq> ''.'' \<and> name \<noteq> ''..'' \<and> list_all name_char name"

lemma validate_name_Inr [simp]: "validate_name kind name = Inr u \<longleftrightarrow> name_ok name"
  by (auto simp: validate_name_def name_ok_def)

definition start_of :: "(byte list \<Rightarrow> (string + payload) list) \<Rightarrow> string option \<Rightarrow> string \<Rightarrow> byte list
    \<Rightarrow> sdk_error + bool" where
  "start_of parse_all checked name bs =
     (if checked = Some name then Inr True else module_has_start parse_all name bs)"

lemma validate_modules_Inr:
  "validate_modules parse_all checked ms starts = Inr out \<longleftrightarrow>
     list_all (\<lambda>(name, bs). name_ok name \<and> is_ok (start_of parse_all checked name bs)) ms
   \<and> out = bt_extend (map (\<lambda>(name, bs). (name, start_of parse_all checked name bs = Inr True)) ms) starts"
proof (induction ms arbitrary: starts)
  case (Cons m ms)
  obtain name bs where m: "m = (name, bs)" by (cases m)
  show ?case
  proof (cases "start_of parse_all checked name bs")
    case (Inl e)
    then show ?thesis by (auto simp: m bind_res_Inr_iff start_of_def split: if_splits)
  next
    case (Inr has)
    then have "validate_modules parse_all checked (m # ms) starts = Inr out \<longleftrightarrow>
        name_ok name \<and> validate_modules parse_all checked ms (bt_insert name has starts) = Inr out"
      by (auto simp: m bind_res_Inr_iff start_of_def split: if_splits)
    with Inr show ?thesis
      unfolding Cons.IH by (auto simp: m bt_extend_def)
  qed
qed (simp add: bt_extend_def eq_commute)

lemma bt_get_starts:
  assumes "bt_ok ms"
  shows "bt_get (bt_extend (map (\<lambda>(name, bs). (name, f name bs)) ms) []) m = map_option (f m) (bt_get ms m)"
proof -
  have keys: "fst \<circ> (\<lambda>(name, bs). (name, f name bs)) = fst"
    by (auto simp: fun_eq_iff)
  have "distinct (map fst ms)"
    using bt_ok_distinct [OF assms] by (simp add: bt_keys_def)
  then have "map_of (rev (map (\<lambda>(name, bs). (name, f name bs)) ms)) = map_of (map (\<lambda>(name, bs). (name, f name bs)) ms)"
    by (subst map_of_inject_set) (simp_all add: rev_map [symmetric] keys)
  then have "bt_get (bt_extend (map (\<lambda>(name, bs). (name, f name bs)) ms) []) m
      = map_of (map (\<lambda>(name, bs). (name, f name bs)) ms) m"
    by (simp add: bt_get_extend) (simp add: bt_get_def split: option.split)
  also have "\<dots> = map_option (f m) (bt_get ms m)"
    by (induction ms) (auto simp: bt_get_def)
  finally show ?thesis .
qed

lemma validate_commands_Inr:
  "validate_commands starts cs = Inr u \<longleftrightarrow>
     list_all (\<lambda>(name, m). name_ok name \<and> bt_get starts m = Some True) cs"
proof (induction cs)
  case (Cons c cs)
  obtain name m where c: "c = (name, m)" by (cases c)
  show ?case
  proof (cases "bt_get starts m = Some True")
    case True
    then show ?thesis using Cons by (simp add: c bind_res_Inr_iff)
  next
    case False
    then show ?thesis
      by (cases "bt_get starts m") (auto simp: c bind_res_Inr_iff simp del: append.simps)
  qed
qed simp

lemma rsplit_slash_Some:
  "rsplit_slash s = Some p \<longleftrightarrow> (\<exists>part. s = p @ CHR ''/'' # part \<and> CHR ''/'' \<notin> set part)"
proof
  assume p: "rsplit_slash s = Some p"
  let ?P = "\<lambda>c. c \<noteq> CHR ''/''"
  from p have "dropWhile ?P (rev s) = hd (dropWhile ?P (rev s)) # rev p"
    by (cases "dropWhile ?P (rev s)") (auto simp: rsplit_slash_def)
  moreover from this have "dropWhile ?P (rev s) \<noteq> []" by (metis list.distinct(1))
  moreover from this have "hd (dropWhile ?P (rev s)) = CHR ''/''"
    using hd_dropWhile by blast
  ultimately have "rev s = takeWhile ?P (rev s) @ CHR ''/'' # rev p"
    using takeWhile_dropWhile_id [of ?P "rev s"] by metis
  then have "s = p @ CHR ''/'' # rev (takeWhile ?P (rev s))"
    by (metis rev_rev_ident rev_append rev.simps(2) append.assoc append_Cons append_Nil)
  moreover have "CHR ''/'' \<notin> set (takeWhile ?P (rev s))"
    by (auto dest: set_takeWhileD)
  ultimately show "\<exists>part. s = p @ CHR ''/'' # part \<and> CHR ''/'' \<notin> set part" by auto
next
  assume "\<exists>part. s = p @ CHR ''/'' # part \<and> CHR ''/'' \<notin> set part"
  then obtain part where "s = p @ CHR ''/'' # part" "CHR ''/'' \<notin> set part" by blast
  moreover from this(2) have "dropWhile (\<lambda>c. c \<noteq> CHR ''/'') (rev part @ CHR ''/'' # rev p) = CHR ''/'' # rev p"
    by (subst dropWhile_append2) auto
  ultimately show "rsplit_slash s = Some p" by (simp add: rsplit_slash_def)
qed

lemma rsplit_slash_None: "rsplit_slash s = None \<longleftrightarrow> CHR ''/'' \<notin> set s"
proof -
  have "rsplit_slash s = None \<longleftrightarrow> dropWhile (\<lambda>c. c \<noteq> CHR ''/'') (rev s) = []"
    by (cases "dropWhile (\<lambda>c. c \<noteq> CHR ''/'') (rev s)")
      (simp_all add: rsplit_slash_def del: dropWhile_eq_Nil_conv)
  also have "\<dots> \<longleftrightarrow> CHR ''/'' \<notin> set s"
    unfolding dropWhile_eq_Nil_conv by auto
  finally show ?thesis .
qed

lemma slash_append_eq:
  assumes "q @ CHR ''/'' # part = p @ CHR ''/'' # rest" "CHR ''/'' \<notin> set part"
  shows "p = q \<or> (\<exists>rest. q = p @ CHR ''/'' # rest)"
proof -
  obtain us where "q = p @ us \<and> us @ CHR ''/'' # part = CHR ''/'' # rest
      \<or> q @ us = p \<and> CHR ''/'' # part = us @ CHR ''/'' # rest"
    using assms(1) unfolding append_eq_append_conv2 by blast
  then show ?thesis
  proof (elim disjE)
    assume "q = p @ us \<and> us @ CHR ''/'' # part = CHR ''/'' # rest"
    then show ?thesis by (cases us) auto
  next
    assume "q @ us = p \<and> CHR ''/'' # part = us @ CHR ''/'' # rest"
    then show ?thesis using assms(2) by (cases us) auto
  qed
qed

lemma ancestors_iff: "p \<in> set (ancestors s) \<longleftrightarrow> (\<exists>rest. s = p @ CHR ''/'' # rest)"
proof (induction s rule: ancestors.induct)
  case (1 s)
  show ?case
  proof (cases "rsplit_slash s")
    case None
    then show ?thesis
      using rsplit_slash_None [of s] by (auto simp: ancestors.simps [of s])
  next
    case (Some q)
    then obtain part where part: "s = q @ CHR ''/'' # part" "CHR ''/'' \<notin> set part"
      by (auto simp: rsplit_slash_Some)
    have "(\<exists>rest. s = p @ CHR ''/'' # rest) \<longleftrightarrow> p = q \<or> (\<exists>rest. q = p @ CHR ''/'' # rest)"
      using slash_append_eq [OF _ part(2)] unfolding part(1) by auto
    then show ?thesis
      using Some 1 [OF Some] by (simp add: ancestors.simps [of s])
  qed
qed

lemma validate_files_Inr:
  "validate_files files paths = Inr u \<longleftrightarrow>
     list_all (\<lambda>path. canonical_file path \<and> (\<forall>p \<in> set (ancestors path). \<not> bt_contains files p)) paths"
proof (induction paths)
  case (Cons path paths)
  show ?case
  proof (cases "find (bt_contains files) (ancestors path)")
    case None
    then have "\<forall>p \<in> set (ancestors path). \<not> bt_contains files p"
      by (auto simp: find_None_iff)
    with None show ?thesis using Cons by simp
  next
    case (Some p)
    then have "\<not> (\<forall>p \<in> set (ancestors path). \<not> bt_contains files p)"
      by (auto simp: find_Some_iff)
    with Some show ?thesis by (auto simp del: append.simps)
  qed
qed simp

lemma validate_definition_Inr:
  assumes "bt_ok (pd_modules d)"
  shows "validate_definition parse_all checked d = Inr u \<longleftrightarrow>
     pd_commands d \<noteq> []
   \<and> list_all (\<lambda>(name, bs). name_ok name \<and> is_ok (start_of parse_all checked name bs)) (pd_modules d)
   \<and> list_all (\<lambda>(name, m). name_ok name \<and> (\<exists>bs. bt_get (pd_modules d) m = Some bs
        \<and> start_of parse_all checked m bs = Inr True)) (pd_commands d)
   \<and> (case pd_entrypoint d of None \<Rightarrow> True | Some e \<Rightarrow> bt_contains (pd_commands d) e)
   \<and> list_all (\<lambda>path. canonical_file path \<and> (\<forall>p \<in> set (ancestors path). \<not> bt_contains (pd_files d) p))
       (bt_keys (pd_files d))"
proof -
  have "map_option (\<lambda>bs. start_of parse_all checked m bs = Inr True) (bt_get (pd_modules d) m) = Some True
      \<longleftrightarrow> (\<exists>bs. bt_get (pd_modules d) m = Some bs \<and> start_of parse_all checked m bs = Inr True)" for m
    by auto
  then show ?thesis
    by (auto simp: validate_definition_def bind_res_Inr_iff validate_modules_Inr validate_commands_Inr
        validate_files_Inr bt_get_starts [OF assms, of "\<lambda>m bs. start_of parse_all checked m bs = Inr True"]
        split: option.split)
qed


section \<open>Digests and identity\<close>

lemma get_fill_digests:
  "bt_get (fold (\<lambda>(name, bs) m. if bt_get m name = None then bt_insert name (f bs) m else m) ms m) k
     = (case bt_get m k of Some v \<Rightarrow> Some v | None \<Rightarrow> map_option f (map_of ms k))"
proof (induction ms arbitrary: m k)
  case (Cons x ms)
  obtain name bs where x: "x = (name, bs)" by (cases x)
  show ?case
    by (cases "k = name"; cases "bt_get m name") (simp_all add: x Cons.IH bt_get_insert split: option.split)
qed (simp split: option.split)

lemma get_filter: "bt_get (filter (\<lambda>(k, _). P k) m) k = (if P k then bt_get m k else None)"
  by (induction m) (auto simp: bt_get_def)

text \<open>The digests the caller supplied are right.\<close>

definition true_digests :: "(byte list \<Rightarrow> byte list) \<Rightarrow> package_definition \<Rightarrow> (string, byte list) btree \<Rightarrow> bool" where
  "true_digests sha256 d digests \<longleftrightarrow> list_all (\<lambda>(name, bs). bt_get digests name \<in> {None, Some (sha256 bs)}) (pd_modules d)"

lemma get_module_digests:
  assumes "true_digests sha256 d digests" "bt_get (pd_modules d) name = Some bs"
  shows "bt_get (module_digests sha256 d digests) name = Some (sha256 bs)"
proof -
  have "(name, bs) \<in> set (pd_modules d)"
    using assms(2) by (auto simp: bt_get_def dest: map_of_SomeD)
  then have "bt_get digests name \<in> {None, Some (sha256 bs)}"
    using assms(1) by (auto simp: true_digests_def list_all_iff)
  moreover have "map_of (pd_modules d) name = Some bs" using assms(2) by (simp add: bt_get_def)
  ultimately show ?thesis
    using assms(2) by (auto simp: module_digests_def get_fill_digests get_filter)
qed

lemma infer_single_command_sel [simp]:
  "pd_modules (infer_single_command d) = pd_modules d" "pd_commands (infer_single_command d) = pd_commands d"
  "pd_files (infer_single_command d) = pd_files d"
  "true_digests sha256 (infer_single_command d) digests = true_digests sha256 d digests"
  by (simp_all add: infer_single_command_def true_digests_def)

lemma bt_get_member: "bt_ok m \<Longrightarrow> (k, v) \<in> set m \<Longrightarrow> bt_get m k = Some v"
  by (simp add: bt_get_mem)

lemma hash_preimage_digests:
  assumes "bt_ok (pd_modules d)" "true_digests sha256 d digests"
  shows "hash_preimage d (\<lambda>name. the (bt_get (module_digests sha256 d digests) name)) = hash_version
     @ table (map (\<lambda>(name, bs). (bytes_of name, sha256 bs)) (pd_modules d))
     @ table (map (\<lambda>(name, m). (bytes_of name, bytes_of m)) (pd_commands d))
     @ field (bytes_of (case pd_entrypoint d of None \<Rightarrow> [] | Some e \<Rightarrow> e))
     @ table (map (\<lambda>(path, bs). (bytes_of path, bs)) (pd_files d))"
proof -
  have "map (\<lambda>(name, bs). (bytes_of name, the (bt_get (module_digests sha256 d digests) name))) (pd_modules d)
      = map (\<lambda>(name, bs). (bytes_of name, sha256 bs)) (pd_modules d)"
    using assms(1) by (intro map_cong refl) (auto simp: get_module_digests [OF assms(2)] bt_get_member)
  then show ?thesis by (simp only: hash_preimage_def)
qed

definition storable :: "package_definition \<Rightarrow> bool" where
  "storable d \<longleftrightarrow> bt_ok (pd_modules d) \<and> bt_ok (pd_commands d) \<and> bt_ok (pd_files d)
     \<and> length (pd_modules d) \<le> u64_max \<and> length (pd_commands d) \<le> u64_max \<and> length (pd_files d) \<le> u64_max
     \<and> list_all (\<lambda>(name, bs). length name \<le> u64_max \<and> length bs \<le> u64_max) (pd_modules d)
     \<and> list_all (\<lambda>(name, m). length name \<le> u64_max \<and> length m \<le> u64_max) (pd_commands d)
     \<and> list_all (\<lambda>(path, bs). length path \<le> u64_max \<and> length bs \<le> u64_max) (pd_files d)
     \<and> (case pd_entrypoint d of None \<Rightarrow> True | Some e \<Rightarrow> length e \<le> u64_max)"

lemma storable_infer: "storable d \<Longrightarrow> storable (infer_single_command d)"
  by (cases "pd_commands d") (auto simp: storable_def infer_single_command_def bt_keys_def split: prod.splits)

text \<open>What the preimage determines.\<close>

lemma preimage_parts:
  assumes st: "storable d" "storable e" and sha: "\<And>x. length (sha256 x) \<le> u64_max"
    and eq: "hash_version
       @ table (map (\<lambda>(name, bs). (bytes_of name, sha256 bs)) (pd_modules d))
       @ table (map (\<lambda>(name, m). (bytes_of name, bytes_of m)) (pd_commands d))
       @ field (bytes_of x) @ table (map (\<lambda>(path, bs). (bytes_of path, bs)) (pd_files d))
     = hash_version
       @ table (map (\<lambda>(name, bs). (bytes_of name, sha256 bs)) (pd_modules e))
       @ table (map (\<lambda>(name, m). (bytes_of name, bytes_of m)) (pd_commands e))
       @ field (bytes_of y) @ table (map (\<lambda>(path, bs). (bytes_of path, bs)) (pd_files e))"
    and xy: "length x \<le> u64_max" "length y \<le> u64_max"
  shows "map (\<lambda>(name, bs). (bytes_of name, sha256 bs)) (pd_modules d)
      = map (\<lambda>(name, bs). (bytes_of name, sha256 bs)) (pd_modules e)
    \<and> pd_commands d = pd_commands e \<and> x = y \<and> pd_files d = pd_files e"
proof -
  let ?fits = "\<lambda>kvs. length kvs \<le> u64_max
    \<and> list_all (\<lambda>kv. length (fst kv) \<le> u64_max \<and> length (snd kv) \<le> u64_max) kvs"
  let ?m = "\<lambda>d. map (\<lambda>(name, bs). (bytes_of name, sha256 bs)) (pd_modules d)"
  let ?c = "\<lambda>d. map (\<lambda>(name, m). (bytes_of name, bytes_of m)) (pd_commands d)"
  let ?f = "\<lambda>d. map (\<lambda>(path, bs). (bytes_of path, bs)) (pd_files d)"
  have fits: "?fits (?m d)" "?fits (?m e)" "?fits (?c d)" "?fits (?c e)" "?fits (?f d)" "?fits (?f e)"
    using st sha by (auto simp: storable_def list_all_iff)
  have modules: "?m d = ?m e \<and> table (?c d) @ field (bytes_of x) @ table (?f d)
      = table (?c e) @ field (bytes_of y) @ table (?f e)"
    using eq by (intro table.unique [OF fits(1,2)]) simp
  then have commands: "?c d = ?c e \<and> field (bytes_of x) @ table (?f d) = field (bytes_of y) @ table (?f e)"
    by (intro table.unique [OF fits(3,4)]) simp
  then have entry: "bytes_of x = bytes_of y \<and> table (?f d) = table (?f e)"
    using xy by (intro field.unique) simp_all
  then have files: "?f d = ?f e \<and> ([] :: byte list) = []"
    by (intro table.unique [OF fits(5,6)]) simp
  have "inj (\<lambda>(name, m). (bytes_of name, bytes_of m))" "inj (\<lambda>(path, bs :: byte list). (bytes_of path, bs))"
    by (auto simp: inj_def)
  then show ?thesis
    using modules commands entry files by (auto dest: map_injective)
qed

lemma modules_or_collision:
  assumes "map (\<lambda>(name, bs). (bytes_of name, sha256 bs)) ms = map (\<lambda>(name, bs). (bytes_of name, sha256 bs)) ns"
  shows "ms = ns \<or> (\<exists>x y. x \<noteq> y \<and> sha256 x = sha256 y)"
proof (rule disjCI)
  assume "\<nexists>x y. x \<noteq> y \<and> sha256 x = sha256 y"
  then have "inj (\<lambda>(name, bs). (bytes_of name, sha256 bs))"
    by (auto simp: inj_def)
  then show "ms = ns" using assms by (rule map_injective [rotated])
qed


lemma into_package_digests_Inr:
  assumes "into_package_with_digests sha256 parse_all M d digests validated = Inr p"
  shows "\<exists>checked. validate_definition parse_all checked d = Inr ()"
    "bp_id p = package_hash sha256 (infer_single_command d)
       (\<lambda>name. the (bt_get (module_digests sha256 (infer_single_command d) digests) name))"
    "bp_entrypoint p = pd_entrypoint (infer_single_command d)"
  using assms by (auto simp: into_package_with_digests_def Let_def bind_res_Inr_iff simp del: infer_single_command_sel)

lemma accepted_entrypoint:
  assumes "bt_ok (pd_modules d)" "validate_definition parse_all checked d = Inr ()"
  shows "pd_entrypoint (infer_single_command d) \<noteq> Some []"
proof -
  have cmds: "pd_commands d \<noteq> []" "\<And>name m. (name, m) \<in> set (pd_commands d) \<Longrightarrow> name_ok name"
    using assms by (auto simp: validate_definition_Inr list_all_iff)
  have "name \<noteq> []" if "bt_contains (pd_commands d) name" for name
    using cmds(2) that by (auto simp: bt_contains_def bt_get_def name_ok_def dest!: map_of_SomeD)
  moreover have "hd (bt_keys (pd_commands d)) \<noteq> []"
  proof -
    obtain name m rest where "pd_commands d = (name, m) # rest"
      using cmds(1) by (cases "pd_commands d") auto
    then show ?thesis using cmds(2) [of name m] by (simp add: bt_keys_def name_ok_def)
  qed
  ultimately show ?thesis
    using assms by (auto simp: infer_single_command_def validate_definition_Inr split: option.splits)
qed

section \<open>Properties\<close>

text \<open>C10: what a package definition may be. Validation accepts a definition exactly when it has a
  command, every module has a permitted name and parses, every command has a permitted name
  and runs a module that exports \<open>_start\<close>, the entrypoint (if named) is a command, and the
  bundled files are canonical absolute paths none of which is a directory of another.\<close>

theorem definition_accepted:
  assumes "bt_ok (pd_modules d)"
  shows "validate_definition parse_all None d = Inr () \<longleftrightarrow>
     pd_commands d \<noteq> []
   \<and> (\<forall>(name, bs) \<in> set (pd_modules d). name_ok name \<and> is_ok (module_has_start parse_all name bs))
   \<and> (\<forall>(name, m) \<in> set (pd_commands d). name_ok name
        \<and> (\<exists>bs. bt_get (pd_modules d) m = Some bs \<and> module_has_start parse_all m bs = Inr True))
   \<and> (\<forall>e. pd_entrypoint d = Some e \<longrightarrow> bt_contains (pd_commands d) e)
   \<and> (\<forall>path \<in> set (bt_keys (pd_files d)). canonical_file path
        \<and> (\<forall>rest. path @ CHR ''/'' # rest \<notin> set (bt_keys (pd_files d))))"
proof -
  have "(\<forall>p \<in> set (ancestors path). \<not> bt_contains (pd_files d) p) \<longleftrightarrow>
      (\<forall>p \<in> set (bt_keys (pd_files d)). \<forall>rest. path \<noteq> p @ CHR ''/'' # rest)" for path
    using bt_get_None [of "pd_files d"] by (auto simp: ancestors_iff bt_contains_def)
  then have files: "list_all (\<lambda>path. canonical_file path \<and> (\<forall>p \<in> set (ancestors path). \<not> bt_contains (pd_files d) p))
        (bt_keys (pd_files d)) \<longleftrightarrow>
      (\<forall>path \<in> set (bt_keys (pd_files d)). canonical_file path
        \<and> (\<forall>rest. path @ CHR ''/'' # rest \<notin> set (bt_keys (pd_files d))))"
    unfolding list_all_iff by blast
  have entry: "(case x of None \<Rightarrow> True | Some e \<Rightarrow> P e) \<longleftrightarrow> (\<forall>e. x = Some e \<longrightarrow> P e)" for x :: "string option" and P
    by (cases x) auto
  show ?thesis
    unfolding validate_definition_Inr [OF assms] files entry by (simp add: list_all_iff start_of_def)
qed

text \<open>A module whose bytes are \<open>[0]\<close> exports \<open>_start\<close>; every other one exports nothing.\<close>

definition demo_parse :: "byte list \<Rightarrow> (string + payload) list" where
  "demo_parse bs = (if bs = [0] then [Inr OtherPayload, Inr (ExportSection [Inr (''_start'', True)])] else [])"

definition demo_definition :: package_definition where
  "demo_definition = \<lparr>pd_modules = [(''m'', [0])], pd_commands = [(''run'', ''m'')], pd_entrypoint = None,
     pd_files = [(''/a'', [7]), (''/b/c'', [8])]\<rparr>"

theorem definition_accepted_witness:
  "validate_definition demo_parse None demo_definition = Inr ()"
proof -
  have "canonical_file ''/a''" "canonical_file ''/b/c''" by code_simp+
  moreover have "name_ok ''m''" "name_ok ''run''" by code_simp+
  moreover have "bt_ok (pd_modules demo_definition)" by (simp add: demo_definition_def bt_ok_def bt_keys_def)
  ultimately show ?thesis
    using definition_accepted [of demo_definition demo_parse]
    by (simp add: demo_definition_def bt_keys_def bt_get_def module_has_start_def demo_parse_def)
qed


text \<open>A digest of the right length and a filesystem that stores nothing, for the witnesses.\<close>

definition demo_sha :: "byte list \<Rightarrow> byte list" where
  "demo_sha bs = replicate 31 0 @ [of_nat (length bs)]"

definition demo_mem :: "unit mem_fs_ops" where
  "demo_mem = \<lparr>mem_new = (), mem_create_dir_all = (\<lambda>p fs. Inr fs), mem_create_new = (\<lambda>p fs. Inr fs),
     mem_write_all = (\<lambda>p bs fs. Inr fs), mem_show = (\<lambda>e. [])\<rparr>"

lemma demo_package:
  "\<exists>p. into_package demo_sha demo_parse demo_mem demo_definition = Inr p"
proof -
  have "validate_definition demo_parse None demo_definition = Inr ()" by code_simp
  moreover have "\<exists>fs. build_filesystem demo_mem files = Inr fs" for files
  proof -
    have "\<exists>fs. build_files demo_mem files () = Inr fs"
      by (induction files) (auto simp: Let_def demo_mem_def split: option.split)
    then show ?thesis by (simp add: build_filesystem_def)
  qed
  ultimately show ?thesis
    by (auto simp: into_package_def into_package_with_digests_def Let_def map_ok_Inr_iff bind_res_Inr_iff)
qed


text \<open>A supplied digest changes nothing but the work. When the digests the caller passes are
  the SHA-256 of the modules they name, and a module it vouches for does export \<open>_start\<close>, the
  result is the one of building the package from its bytes alone, errors included.\<close>

theorem supplied_digests_agree:
  assumes "bt_ok (pd_modules d)" "true_digests sha256 d digests"
    and "validated \<longrightarrow> (\<forall>(name, bs) \<in> set (pd_modules d). module_has_start parse_all name bs = Inr True)"
  shows "into_package_with_digests sha256 parse_all M d digests validated = into_package sha256 parse_all M d"
proof -
  let ?d = "infer_single_command d"
  have none: "true_digests sha256 ?d []" by (simp add: true_digests_def bt_get_def list_all_iff)
  have given: "true_digests sha256 ?d digests" using assms(2) by simp
  have modules: "validate_modules parse_all (if validated \<and> b then Some n else None) ms starts
      = validate_modules parse_all None ms starts" if "set ms \<subseteq> set (pd_modules d)" for b n ms starts
    using that assms(3) by (induction ms arbitrary: starts) auto
  then have same: "validate_definition parse_all (if validated \<and> b then Some n else None) d
      = validate_definition parse_all None d" for b n
    by (simp add: validate_definition_def)
  have ident: "package_hash sha256 ?d (\<lambda>name. the (bt_get (module_digests sha256 ?d digests) name))
      = package_hash sha256 ?d (\<lambda>name. the (bt_get (module_digests sha256 ?d []) name))"
    using hash_preimage_digests [OF _ given] hash_preimage_digests [OF _ none] assms(1)
    by (simp add: package_hash_def)
  have cmds: "package_commands ?d (module_digests sha256 ?d digests)
      = package_commands ?d (module_digests sha256 ?d [])" if "validate_definition parse_all None d = Inr ()"
  proof -
    have "the (bt_get (module_digests sha256 ?d digests) m) = the (bt_get (module_digests sha256 ?d []) m)"
      if mem: "(name, m) \<in> set (pd_commands d)" for name m
    proof -
      obtain bs where "bt_get (pd_modules ?d) m = Some bs"
        using \<open>validate_definition parse_all None d = Inr ()\<close> mem
        by (auto simp: validate_definition_Inr [OF assms(1)] list_all_iff)
      then show ?thesis
        using get_module_digests [OF given] get_module_digests [OF none] by simp
    qed
    then show ?thesis by (auto simp: package_commands_def)
  qed
  show ?thesis
  proof (cases "validate_definition parse_all None d")
    case (Inl e)
    then show ?thesis
      unfolding into_package_def into_package_with_digests_def Let_def same by simp
  next
    case (Inr u)
    then show ?thesis
      using cmds unfolding into_package_def into_package_with_digests_def Let_def same ident by simp
  qed
qed

theorem supplied_digests_agree_witness:
  "into_package_with_digests demo_sha demo_parse demo_mem demo_definition [(''m'', demo_sha [0])] True
    = into_package demo_sha demo_parse demo_mem demo_definition"
  by (rule supplied_digests_agree)
    (simp_all add: demo_definition_def bt_ok_def bt_keys_def true_digests_def bt_get_def module_has_start_def
      demo_parse_def)

end
