(* ===== verification/Provider_Fs.thy ===== *)
theory Provider_Fs
  imports Capture Paths
begin

text \<open>
  External filesystem providers mounted into a guest (rust/src/provider_fs.rs): the adapter
  that checks rights and paths before it calls the provider, and the file it opens, which
  keeps a cursor and a length of its own. The provider is the application's code: the
  operations of the traits \<open>FileSystem\<close> and \<open>File\<close> are the record \<open>V\<close> over a state \<open>'p\<close>, with
  open files named by handles \<open>'h\<close>. \<open>to_io\<close> is the conversion of the virtual filesystem's errors
  to I/O errors. \<open>run_provider\<close> runs one provider operation to completion.
\<close>

section \<open>The provider's interface\<close>

datatype file_type = RegularFile | DirectoryFileType

record file_metadata =
  fm_file_type :: file_type
  fm_len :: nat
  fm_readonly :: bool
  fm_accessed :: nat
  fm_modified :: nat
  fm_created :: nat

record directory_entry =
  de_name :: string
  de_metadata :: file_metadata

record fs_capabilities =
  cap_read :: bool
  cap_write :: bool

definition capabilities_read_only :: fs_capabilities where
  "capabilities_read_only = \<lparr>cap_read = True, cap_write = False\<rparr>"

definition capabilities_read_write :: fs_capabilities where
  "capabilities_read_write = \<lparr>cap_read = True, cap_write = True\<rparr>"

record open_options =
  oo_read :: bool
  oo_write :: bool
  oo_create :: bool
  oo_create_new :: bool
  oo_truncate :: bool
  oo_append :: bool

definition open_default :: open_options where
  "open_default = \<lparr>oo_read = False, oo_write = False, oo_create = False, oo_create_new = False,
     oo_truncate = False, oo_append = False\<rparr>"

datatype mount_mode = ReadOnly | ReadWrite

record ('p, 'h) provider =
  pv_capabilities :: "'p \<Rightarrow> fs_capabilities"
  pv_stat :: "string \<Rightarrow> 'p \<Rightarrow> (fs_error + file_metadata) \<times> 'p"
  pv_read_dir :: "string \<Rightarrow> 'p \<Rightarrow> (fs_error + directory_entry list) \<times> 'p"
  pv_open :: "string \<Rightarrow> open_options \<Rightarrow> 'p \<Rightarrow> (fs_error + 'h) \<times> 'p"
  pv_create_dir :: "string \<Rightarrow> 'p \<Rightarrow> (fs_error + unit) \<times> 'p"
  pv_remove :: "string \<Rightarrow> bool \<Rightarrow> 'p \<Rightarrow> (fs_error + unit) \<times> 'p"
  pv_rename :: "string \<Rightarrow> string \<Rightarrow> 'p \<Rightarrow> (fs_error + unit) \<times> 'p"
  pv_flush :: "'p \<Rightarrow> (fs_error + unit) \<times> 'p"
  pv_set_times :: "string \<Rightarrow> nat option \<Rightarrow> nat option \<Rightarrow> bool \<Rightarrow> 'p \<Rightarrow> (fs_error + unit) \<times> 'p"
  fl_read_at :: "'h \<Rightarrow> nat \<Rightarrow> nat \<Rightarrow> 'p \<Rightarrow> (fs_error + byte list) \<times> 'p"
  fl_write_at :: "'h \<Rightarrow> nat \<Rightarrow> byte list \<Rightarrow> 'p \<Rightarrow> (fs_error + nat) \<times> 'p"
  fl_set_len :: "'h \<Rightarrow> nat \<Rightarrow> 'p \<Rightarrow> (fs_error + unit) \<times> 'p"
  fl_flush :: "'h \<Rightarrow> 'p \<Rightarrow> (fs_error + unit) \<times> 'p"
  fl_close :: "'h \<Rightarrow> 'p \<Rightarrow> (fs_error + unit) \<times> 'p"
  fl_metadata :: "'h \<Rightarrow> 'p \<Rightarrow> (fs_error + file_metadata) \<times> 'p"
  fl_set_times :: "'h \<Rightarrow> nat option \<Rightarrow> nat option \<Rightarrow> 'p \<Rightarrow> (fs_error + unit) \<times> 'p"

section \<open>Virtual filesystem types\<close>

record vfs_metadata =
  vm_file_type :: file_type
  vm_accessed :: nat
  vm_created :: nat
  vm_modified :: nat
  vm_len :: nat

record vfs_entry =
  ve_path :: string
  ve_metadata :: "vfs_error + vfs_metadata"

definition to_virtual_metadata :: "file_metadata \<Rightarrow> vfs_metadata" where
  "to_virtual_metadata m = \<lparr>vm_file_type = (case fm_file_type m of RegularFile \<Rightarrow> RegularFile
       | DirectoryFileType \<Rightarrow> DirectoryFileType),
     vm_accessed = fm_accessed m, vm_created = fm_created m, vm_modified = fm_modified m, vm_len = fm_len m\<rparr>"

section \<open>The adapter\<close>

definition adapter_writable :: "('p, 'h) provider \<Rightarrow> mount_mode \<Rightarrow> 'p \<Rightarrow> bool" where
  "adapter_writable V mode p \<longleftrightarrow> mode = ReadWrite \<and> cap_write (pv_capabilities V p)"

definition adapter_readable :: "('p, 'h) provider \<Rightarrow> 'p \<Rightarrow> bool" where
  "adapter_readable V p \<longleftrightarrow> cap_read (pv_capabilities V p)"

record 'h provider_file =
  pf_file :: 'h
  pf_cursor :: nat
  pf_len :: nat
  pf_writable :: bool
  pf_closed :: bool

text \<open>Run a provider operation on a checked path.\<close>

definition with_path :: "string \<Rightarrow> (string \<Rightarrow> 'p \<Rightarrow> (fs_error + 'a) \<times> 'p) \<Rightarrow> 'p \<Rightarrow> (vfs_error + 'a) \<times> 'p" where
  "with_path path run p = (case adapter_path path of
     Inl e \<Rightarrow> (Inl e, p) | Inr rel \<Rightarrow> map_err_st map_provider_error (run rel p))"

definition asks_write :: "open_options \<Rightarrow> bool" where
  "asks_write c \<longleftrightarrow> oo_write c \<or> oo_append c \<or> oo_create c \<or> oo_create_new c \<or> oo_truncate c"

text \<open>The length is read before opening; a missing or truncated file starts at zero.\<close>

definition initial_len :: "('p, 'h) provider \<Rightarrow> string \<Rightarrow> open_options \<Rightarrow> 'p \<Rightarrow> nat \<times> 'p" where
  "initial_len V rel config p =
     (if oo_truncate config \<or> oo_create_new config then (0, p)
      else (case pv_stat V rel p of (Inl e, p1) \<Rightarrow> (0, p1) | (Inr m, p1) \<Rightarrow> (fm_len m, p1)))"

definition adapter_open ::
    "('p, 'h) provider \<Rightarrow> mount_mode \<Rightarrow> string \<Rightarrow> open_options \<Rightarrow> 'p \<Rightarrow> (vfs_error + 'h provider_file) \<times> 'p" where
  "adapter_open V mode path config p = (case adapter_path path of
     Inl e \<Rightarrow> (Inl e, p)
   | Inr rel \<Rightarrow>
       if oo_read config \<and> \<not> adapter_readable V p then (Inl V_PermissionDenied, p)
       else if asks_write config \<and> \<not> adapter_writable V mode p then (Inl V_PermissionDenied, p)
       else
         (let len = fst (initial_len V rel config p); p1 = snd (initial_len V rel config p)
          in bind_st (map_err_st map_provider_error (pv_open V rel config p1)) (\<lambda>h p2.
               (Inr \<lparr>pf_file = h, pf_cursor = (if oo_append config then len else 0), pf_len = len,
                     pf_writable = adapter_writable V mode p2, pf_closed = False\<rparr>, p2))))"

definition adapter_readlink :: "string \<Rightarrow> 'p \<Rightarrow> (vfs_error + string) \<times> 'p" where
  "adapter_readlink path p = (Inl V_Unsupported, p)"

definition adapter_read_dir ::
    "('p, 'h) provider \<Rightarrow> string \<Rightarrow> 'p \<Rightarrow> (vfs_error + vfs_entry list) \<times> 'p" where
  "adapter_read_dir V path p =
     (if \<not> adapter_readable V p then (Inl V_PermissionDenied, p)
      else bind_st (with_path path (pv_read_dir V) p) (\<lambda>entries p1.
        (Inr (map (\<lambda>e. \<lparr>ve_path = path_push path (de_name e),
                        ve_metadata = Inr (to_virtual_metadata (de_metadata e))\<rparr>) entries), p1)))"

definition adapter_create_dir :: "('p, 'h) provider \<Rightarrow> mount_mode \<Rightarrow> string \<Rightarrow> 'p \<Rightarrow> (vfs_error + unit) \<times> 'p" where
  "adapter_create_dir V mode path p =
     (if \<not> adapter_writable V mode p then (Inl V_PermissionDenied, p)
      else with_path path (pv_create_dir V) p)"

definition adapter_remove_dir :: "('p, 'h) provider \<Rightarrow> mount_mode \<Rightarrow> string \<Rightarrow> 'p \<Rightarrow> (vfs_error + unit) \<times> 'p" where
  "adapter_remove_dir V mode path p =
     (if \<not> adapter_writable V mode p then (Inl V_PermissionDenied, p)
      else with_path path (\<lambda>rel. pv_remove V rel False) p)"

definition adapter_rename :: "('p, 'h) provider \<Rightarrow> mount_mode \<Rightarrow> string \<Rightarrow> string \<Rightarrow> 'p \<Rightarrow> (vfs_error + unit) \<times> 'p" where
  "adapter_rename V mode src dst p =
     (if \<not> adapter_writable V mode p then (Inl V_PermissionDenied, p)
      else (case adapter_path src of
              Inl e \<Rightarrow> (Inl e, p)
            | Inr from_rel \<Rightarrow> with_path dst (\<lambda>to_rel. pv_rename V from_rel to_rel) p))"

definition adapter_metadata :: "('p, 'h) provider \<Rightarrow> string \<Rightarrow> 'p \<Rightarrow> (vfs_error + vfs_metadata) \<times> 'p" where
  "adapter_metadata V path p =
     (if \<not> adapter_readable V p then (Inl V_PermissionDenied, p)
      else bind_st (with_path path (pv_stat V) p) (\<lambda>m p1. (Inr (to_virtual_metadata m), p1)))"

definition adapter_symlink_metadata :: "('p, 'h) provider \<Rightarrow> string \<Rightarrow> 'p \<Rightarrow> (vfs_error + vfs_metadata) \<times> 'p" where
  "adapter_symlink_metadata V path p = adapter_metadata V path p"

definition adapter_set_times :: "('p, 'h) provider \<Rightarrow> mount_mode \<Rightarrow> string \<Rightarrow> nat option \<Rightarrow> nat option \<Rightarrow> bool
    \<Rightarrow> 'p \<Rightarrow> (vfs_error + unit) \<times> 'p" where
  "adapter_set_times V mode path atime mtime follow p =
     (if \<not> adapter_writable V mode p then (Inl V_PermissionDenied, p)
      else with_path path (\<lambda>rel. pv_set_times V rel atime mtime follow) p)"

definition adapter_remove_file :: "('p, 'h) provider \<Rightarrow> mount_mode \<Rightarrow> string \<Rightarrow> 'p \<Rightarrow> (vfs_error + unit) \<times> 'p" where
  "adapter_remove_file V mode path p =
     (if \<not> adapter_writable V mode p then (Inl V_PermissionDenied, p)
      else with_path path (\<lambda>rel. pv_remove V rel False) p)"

section \<open>Open files\<close>

definition provider_io_error :: "(vfs_error \<Rightarrow> io_error) \<Rightarrow> fs_error \<Rightarrow> io_error" where
  "provider_io_error to_io e = to_io (map_provider_error e)"

definition permission_denied :: io_error where
  "permission_denied = Io_Error IoPermissionDenied ''''"

definition overreported_write :: io_error where
  "overreported_write = Io_Error IoInvalidData ''provider reported writing more bytes than supplied''"

definition pf_poll_read :: "('p, 'h) provider \<Rightarrow> (vfs_error \<Rightarrow> io_error) \<Rightarrow> nat \<Rightarrow> 'h provider_file \<Rightarrow> 'p
    \<Rightarrow> (io_error + byte list) \<times> 'h provider_file \<times> 'p" where
  "pf_poll_read V to_io remaining f p =
     (if pf_closed f then (Inl (Io_Error BrokenPipe ''''), f, p)
      else (case fl_read_at V (pf_file f) (pf_cursor f) remaining p of
              (Inl e, p1) \<Rightarrow> (Inl (provider_io_error to_io e), f, p1)
            | (Inr bs, p1) \<Rightarrow>
                (let amount = min (length bs) remaining
                 in (Inr (take amount bs), f\<lparr>pf_cursor := u64_saturating_add (pf_cursor f) amount\<rparr>, p1))))"

definition pf_poll_write :: "('p, 'h) provider \<Rightarrow> (vfs_error \<Rightarrow> io_error) \<Rightarrow> byte list \<Rightarrow> 'h provider_file \<Rightarrow> 'p
    \<Rightarrow> (io_error + nat) \<times> 'h provider_file \<times> 'p" where
  "pf_poll_write V to_io bs f p =
     (if pf_closed f then (Inl (Io_Error BrokenPipe ''''), f, p)
      else if \<not> pf_writable f then (Inl permission_denied, f, p)
      else (case fl_write_at V (pf_file f) (pf_cursor f) bs p of
              (Inl e, p1) \<Rightarrow> (Inl (provider_io_error to_io e), f, p1)
            | (Inr written, p1) \<Rightarrow>
                if written > length bs then (Inl overreported_write, f, p1)
                else (let cursor = u64_saturating_add (pf_cursor f) written
                      in (Inr written, f\<lparr>pf_cursor := cursor, pf_len := max (pf_len f) cursor\<rparr>, p1))))"

definition pf_poll_flush :: "('p, 'h) provider \<Rightarrow> (vfs_error \<Rightarrow> io_error) \<Rightarrow> 'h provider_file \<Rightarrow> 'p
    \<Rightarrow> (io_error + unit) \<times> 'h provider_file \<times> 'p" where
  "pf_poll_flush V to_io f p = (case fl_flush V (pf_file f) p of
     (r, p1) \<Rightarrow> (map_err (provider_io_error to_io) r, f, p1))"

definition pf_poll_shutdown :: "('p, 'h) provider \<Rightarrow> (vfs_error \<Rightarrow> io_error) \<Rightarrow> 'h provider_file \<Rightarrow> 'p
    \<Rightarrow> (io_error + unit) \<times> 'h provider_file \<times> 'p" where
  "pf_poll_shutdown V to_io f p = (case fl_close V (pf_file f) p of
     (r, p1) \<Rightarrow> (map_err (provider_io_error to_io) r, f\<lparr>pf_closed := True\<rparr>, p1))"

definition invalid_seek :: io_error where
  "invalid_seek = Io_Error IoInvalidInput ''invalid seek''"

definition pf_start_seek :: "seek_from \<Rightarrow> 'h provider_file \<Rightarrow> (io_error + unit) \<times> 'h provider_file" where
  "pf_start_seek position f =
     (let next = (case position of
          SeekStart offset \<Rightarrow> int offset
        | SeekEnd offset \<Rightarrow> int (pf_len f) + offset
        | SeekCurrent offset \<Rightarrow> int (pf_cursor f) + offset)
      in case u64_try_from next of
           None \<Rightarrow> (Inl invalid_seek, f)
         | Some c \<Rightarrow> (Inr (), f\<lparr>pf_cursor := c\<rparr>))"

definition pf_poll_complete :: "'h provider_file \<Rightarrow> nat" where
  "pf_poll_complete f = pf_cursor f"

definition pf_size :: "'h provider_file \<Rightarrow> nat" where
  "pf_size f = pf_len f"

definition pf_time :: "('p, 'h) provider \<Rightarrow> (file_metadata \<Rightarrow> nat) \<Rightarrow> 'h provider_file \<Rightarrow> 'p \<Rightarrow> nat \<times> 'p" where
  "pf_time V stamp f p = (case fl_metadata V (pf_file f) p of
     (Inl e, p1) \<Rightarrow> (0, p1) | (Inr m, p1) \<Rightarrow> (stamp m, p1))"

definition pf_set_times :: "('p, 'h) provider \<Rightarrow> nat option \<Rightarrow> nat option \<Rightarrow> 'h provider_file \<Rightarrow> 'p
    \<Rightarrow> (vfs_error + unit) \<times> 'h provider_file \<times> 'p" where
  "pf_set_times V atime mtime f p =
     (if \<not> pf_writable f then (Inl V_PermissionDenied, f, p)
      else (case fl_set_times V (pf_file f) atime mtime p of
              (r, p1) \<Rightarrow> (map_err map_provider_error r, f, p1)))"

definition pf_set_len :: "('p, 'h) provider \<Rightarrow> nat \<Rightarrow> 'h provider_file \<Rightarrow> 'p
    \<Rightarrow> (vfs_error + unit) \<times> 'h provider_file \<times> 'p" where
  "pf_set_len V new_len f p =
     (if \<not> pf_writable f then (Inl V_PermissionDenied, f, p)
      else (case fl_set_len V (pf_file f) new_len p of
              (Inl e, p1) \<Rightarrow> (Inl (map_provider_error e), f, p1)
            | (Inr u, p1) \<Rightarrow> (Inr (), f\<lparr>pf_len := new_len\<rparr>, p1)))"

definition pf_unlink :: "'h provider_file \<Rightarrow> vfs_error + unit" where
  "pf_unlink f = Inr ()"

definition pf_poll_read_ready :: "'h provider_file \<Rightarrow> nat" where
  "pf_poll_read_ready f = min (pf_len f - pf_cursor f) usize_max"

definition pf_poll_write_ready :: "'h provider_file \<Rightarrow> nat" where
  "pf_poll_write_ready f = 8192"

end
