(* ===== verification/Sandbox_Fs.thy ===== *)
theory Sandbox_Fs
  imports Provider_Fs
begin

text \<open>
  The sandbox's filesystem interface (rust/src/fs.rs), the in-memory directory an application
  can mount (\<open>Directory\<close> in rust/src/provider_fs.rs), and the recursive removal they share. The
  virtual filesystem underneath is third-party code, the parameter \<open>X\<close> over a state \<open>'f\<close> with
  open files named by handles \<open>'h\<close>.
\<close>

section \<open>The virtual filesystem\<close>

record ('f, 'h) vfs_ops =
  vx_metadata :: "string \<Rightarrow> 'f \<Rightarrow> vfs_error + vfs_metadata"
  vx_read_dir :: "string \<Rightarrow> 'f \<Rightarrow> vfs_error + (vfs_error + vfs_entry) list"
  vx_create_dir :: "string \<Rightarrow> 'f \<Rightarrow> (vfs_error + unit) \<times> 'f"
  vx_create_dir_all :: "string \<Rightarrow> 'f \<Rightarrow> (vfs_error + unit) \<times> 'f"
  vx_remove_dir :: "string \<Rightarrow> 'f \<Rightarrow> (vfs_error + unit) \<times> 'f"
  vx_remove_file :: "string \<Rightarrow> 'f \<Rightarrow> (vfs_error + unit) \<times> 'f"
  vx_rename :: "string \<Rightarrow> string \<Rightarrow> 'f \<Rightarrow> (vfs_error + unit) \<times> 'f"
  vx_set_times :: "string \<Rightarrow> nat option \<Rightarrow> nat option \<Rightarrow> bool \<Rightarrow> 'f \<Rightarrow> (vfs_error + unit) \<times> 'f"
  vx_open :: "open_options \<Rightarrow> string \<Rightarrow> 'f \<Rightarrow> (vfs_error + 'h) \<times> 'f"
  vh_seek :: "'h \<Rightarrow> nat \<Rightarrow> 'f \<Rightarrow> (io_error + nat) \<times> 'f"
  vh_read :: "'h \<Rightarrow> nat \<Rightarrow> 'f \<Rightarrow> (io_error + byte list) \<times> 'f"
  vh_write :: "'h \<Rightarrow> byte list \<Rightarrow> 'f \<Rightarrow> (io_error + nat) \<times> 'f"
  vh_write_all :: "'h \<Rightarrow> byte list \<Rightarrow> 'f \<Rightarrow> (io_error + unit) \<times> 'f"
  vh_read_to_end :: "'h \<Rightarrow> 'f \<Rightarrow> (io_error + byte list) \<times> 'f"
  vh_flush :: "'h \<Rightarrow> 'f \<Rightarrow> (io_error + unit) \<times> 'f"
  vh_set_len :: "'h \<Rightarrow> nat \<Rightarrow> 'f \<Rightarrow> (vfs_error + unit) \<times> 'f"
  vh_set_times :: "'h \<Rightarrow> nat option \<Rightarrow> nat option \<Rightarrow> 'f \<Rightarrow> (vfs_error + unit) \<times> 'f"
  vh_size :: "'h \<Rightarrow> 'f \<Rightarrow> nat"
  vh_times :: "'h \<Rightarrow> 'f \<Rightarrow> nat \<times> nat \<times> nat"
  vx_show :: "vfs_error \<Rightarrow> string"
  vx_show_io :: "io_error \<Rightarrow> string"
  ve_file_name :: "vfs_entry \<Rightarrow> string"

definition vm_is_dir :: "vfs_metadata \<Rightarrow> bool" where
  "vm_is_dir m \<longleftrightarrow> vm_file_type m = DirectoryFileType"

definition vm_is_file :: "vfs_metadata \<Rightarrow> bool" where
  "vm_is_file m \<longleftrightarrow> vm_file_type m = RegularFile"

definition virtual_metadata :: "vfs_metadata \<Rightarrow> file_metadata" where
  "virtual_metadata m = \<lparr>fm_file_type = (if vm_is_dir m then DirectoryFileType else RegularFile),
     fm_len = vm_len m, fm_readonly = False, fm_accessed = vm_accessed m, fm_modified = vm_modified m,
     fm_created = vm_created m\<rparr>"

section \<open>Recursive removal\<close>

text \<open>\<open>remove_directory_tree\<close> recurses into the directories it lists; \<open>None\<close> means the depth \<open>fuel\<close>
  was used up.\<close>

function (sequential) remove_tree ::
    "('f, 'h) vfs_ops \<Rightarrow> nat \<Rightarrow> string \<Rightarrow> 'f \<Rightarrow> ((fs_error + unit) \<times> 'f) option"
  and remove_entries ::
    "('f, 'h) vfs_ops \<Rightarrow> nat \<Rightarrow> vfs_entry list \<Rightarrow> 'f \<Rightarrow> ((fs_error + unit) \<times> 'f) option" where
  "remove_tree X 0 path f = None"
| "remove_tree X (Suc n) path f =
     (case map_err (map_virtual_error (vx_show X)) (bind_res (vx_read_dir X path f) collect_res) of
        Inl e \<Rightarrow> Some (Inl e, f)
      | Inr entries \<Rightarrow> remove_entries X n entries f)"
| "remove_entries X n [] f = Some (Inr (), f)"
| "remove_entries X n (entry # entries) f =
     (case map_err (map_virtual_error (vx_show X)) (ve_metadata entry) of
        Inl e \<Rightarrow> Some (Inl e, f)
      | Inr m \<Rightarrow>
          if vm_is_dir m then
            (case remove_tree X n (ve_path entry) f of
               None \<Rightarrow> None
             | Some (Inl e, f1) \<Rightarrow> Some (Inl e, f1)
             | Some (Inr u, f1) \<Rightarrow>
                 (case map_err_st (map_virtual_error (vx_show X)) (vx_remove_dir X (ve_path entry) f1) of
                    (Inl e, f2) \<Rightarrow> Some (Inl e, f2)
                  | (Inr u, f2) \<Rightarrow> remove_entries X n entries f2))
          else
            (case map_err_st (map_virtual_error (vx_show X)) (vx_remove_file X (ve_path entry) f) of
               (Inl e, f1) \<Rightarrow> Some (Inl e, f1)
             | (Inr u, f1) \<Rightarrow> remove_entries X n entries f1))"
  by pat_completeness auto
termination
  by (relation "measures [\<lambda>x. case x of Inl (X, n, path, f) \<Rightarrow> n | Inr (X, n, entries, f) \<Rightarrow> n,
      \<lambda>x. case x of Inl (X, n, path, f) \<Rightarrow> 0 | Inr (X, n, entries, f) \<Rightarrow> Suc (length entries)]") auto

section \<open>SandboxFileSystem\<close>

definition fs_failure :: "string \<Rightarrow> string \<Rightarrow> string \<Rightarrow> sdk_error" where
  "fs_failure operation guest message = FileSystemError operation guest message"

text \<open>Each operation resolves its path first; \<open>guest\<close> names it in errors, \<open>internal\<close> is used on the
  filesystem.\<close>

definition in_workspace ::
    "string \<Rightarrow> (string \<Rightarrow> string \<Rightarrow> 'f \<Rightarrow> (sdk_error + 'a) \<times> 'f) \<Rightarrow> 'f \<Rightarrow> (sdk_error + 'a) \<times> 'f" where
  "in_workspace path run f = (case workspace_path path of
     Inl e \<Rightarrow> (Inl e, f) | Inr (guest, internal) \<Rightarrow> run guest internal f)"

definition sfs_write :: "('f, 'h) vfs_ops \<Rightarrow> string \<Rightarrow> byte list \<Rightarrow> 'f \<Rightarrow> (sdk_error + unit) \<times> 'f" where
  "sfs_write X path bs = in_workspace path (\<lambda>guest internal f.
     bind_st (case rooted_parent internal of
         None \<Rightarrow> (Inr (), f)
       | Some parent \<Rightarrow> map_err_st (\<lambda>e. fs_failure ''create_dir_all'' guest (vx_show X e))
           (vx_create_dir_all X parent f)) (\<lambda>_ f1.
     bind_st (map_err_st (\<lambda>e. fs_failure ''open'' guest (vx_show X e))
         (vx_open X (open_default\<lparr>oo_create := True, oo_truncate := True, oo_write := True\<rparr>) internal f1)) (\<lambda>h f2.
     bind_st (map_err_st (\<lambda>e. fs_failure ''write'' guest (vx_show_io X e)) (vh_write_all X h bs f2)) (\<lambda>_ f3.
     map_err_st (\<lambda>e. fs_failure ''flush'' guest (vx_show_io X e)) (vh_flush X h f3)))))"

definition sfs_write_text :: "('f, 'h) vfs_ops \<Rightarrow> string \<Rightarrow> string \<Rightarrow> 'f \<Rightarrow> (sdk_error + unit) \<times> 'f" where
  "sfs_write_text X path txt = sfs_write X path (bytes_of txt)"

definition sfs_read :: "('f, 'h) vfs_ops \<Rightarrow> string \<Rightarrow> 'f \<Rightarrow> (sdk_error + byte list) \<times> 'f" where
  "sfs_read X path = in_workspace path (\<lambda>guest internal f.
     bind_st (map_err_st (\<lambda>e. fs_failure ''open'' guest (vx_show X e))
         (vx_open X (open_default\<lparr>oo_read := True\<rparr>) internal f)) (\<lambda>h f1.
     map_err_st (\<lambda>e. fs_failure ''read'' guest (vx_show_io X e)) (vh_read_to_end X h f1)))"

definition sfs_read_text :: "('f, 'h) vfs_ops \<Rightarrow> string \<Rightarrow> 'f \<Rightarrow> (sdk_error + string) \<times> 'f" where
  "sfs_read_text X path f = bind_st (sfs_read X path f) (\<lambda>bs f1.
     (if utf8_valid bs then Inr (text_of bs) else Inl (Utf8Error bs), f1))"

definition sfs_create_dir_all :: "('f, 'h) vfs_ops \<Rightarrow> string \<Rightarrow> 'f \<Rightarrow> (sdk_error + unit) \<times> 'f" where
  "sfs_create_dir_all X path = in_workspace path (\<lambda>guest internal f.
     map_err_st (\<lambda>e. fs_failure ''create_dir_all'' guest (vx_show X e)) (vx_create_dir_all X internal f))"

definition sfs_create_dir :: "('f, 'h) vfs_ops \<Rightarrow> string \<Rightarrow> 'f \<Rightarrow> (sdk_error + unit) \<times> 'f" where
  "sfs_create_dir X path = in_workspace path (\<lambda>guest internal f.
     map_err_st (\<lambda>e. fs_failure ''create_dir'' guest (vx_show X e)) (vx_create_dir X internal f))"

definition sfs_entry :: "('f, 'h) vfs_ops \<Rightarrow> string \<Rightarrow> vfs_error + vfs_entry \<Rightarrow> sdk_error + directory_entry" where
  "sfs_entry X guest r = map_err (\<lambda>e. fs_failure ''read_dir'' guest (vx_show X e))
     (bind_res r (\<lambda>entry. map_ok (\<lambda>m. \<lparr>de_name = ve_file_name X entry, de_metadata = virtual_metadata m\<rparr>)
        (ve_metadata entry)))"

definition sfs_read_dir :: "('f, 'h) vfs_ops \<Rightarrow> string \<Rightarrow> 'f \<Rightarrow> (sdk_error + directory_entry list) \<times> 'f" where
  "sfs_read_dir X path = in_workspace path (\<lambda>guest internal f.
     (bind_res (map_err (\<lambda>e. fs_failure ''read_dir'' guest (vx_show X e)) (vx_read_dir X internal f))
        (\<lambda>rs. collect_res (map (sfs_entry X guest) rs)), f))"

definition sfs_stat :: "('f, 'h) vfs_ops \<Rightarrow> string \<Rightarrow> 'f \<Rightarrow> (sdk_error + file_metadata) \<times> 'f" where
  "sfs_stat X path = in_workspace path (\<lambda>guest internal f.
     (map_ok virtual_metadata (map_err (\<lambda>e. fs_failure ''stat'' guest (vx_show X e)) (vx_metadata X internal f)), f))"

definition sfs_remove ::
    "('f, 'h) vfs_ops \<Rightarrow> nat \<Rightarrow> string \<Rightarrow> bool \<Rightarrow> 'f \<Rightarrow> ((sdk_error + unit) \<times> 'f) option" where
  "sfs_remove X fuel path recursive f = (case workspace_path path of
     Inl e \<Rightarrow> Some (Inl e, f)
   | Inr (guest, internal) \<Rightarrow>
       (case vx_metadata X internal f of
          Inl e \<Rightarrow> Some (Inl (fs_failure ''stat'' guest (vx_show X e)), f)
        | Inr m \<Rightarrow>
            let remove_self = (\<lambda>f1. map_err_st (\<lambda>e. fs_failure ''remove'' guest (vx_show X e))
                  (vx_remove_dir X internal f1))
            in if vm_is_file m then
                 Some (map_err_st (\<lambda>e. fs_failure ''remove'' guest (vx_show X e)) (vx_remove_file X internal f))
               else if recursive then
                 (case remove_tree X fuel internal f of
                    None \<Rightarrow> None
                  | Some (Inl e, f1) \<Rightarrow> Some (Inl (fs_failure ''remove'' guest (fs_error_text e)), f1)
                  | Some (Inr u, f1) \<Rightarrow> Some (remove_self f1))
               else Some (remove_self f)))"

definition sfs_rename :: "('f, 'h) vfs_ops \<Rightarrow> string \<Rightarrow> string \<Rightarrow> 'f \<Rightarrow> (sdk_error + unit) \<times> 'f" where
  "sfs_rename X src dst = in_workspace src (\<lambda>guest_from internal_from. in_workspace dst (\<lambda>_ internal_to f.
     map_err_st (\<lambda>e. fs_failure ''rename'' guest_from (vx_show X e)) (vx_rename X internal_from internal_to f)))"

section \<open>Directory\<close>

text \<open>The provider interface over an in-memory filesystem. An open file is a handle and its closed
  flag, kept in the state by number.\<close>

record ('f, 'h) directory =
  dir_inner :: 'f
  dir_files :: "('h \<times> bool) list"

definition on_inner :: "('f \<Rightarrow> ('e + 'a) \<times> 'f) \<Rightarrow> ('f, 'h) directory \<Rightarrow> ('e + 'a) \<times> ('f, 'h) directory" where
  "on_inner run d = (case run (dir_inner d) of (r, f) \<Rightarrow> (r, d\<lparr>dir_inner := f\<rparr>))"

definition directory_metadata :: "vfs_metadata \<Rightarrow> file_metadata" where
  "directory_metadata m = \<lparr>fm_file_type = (if vm_is_dir m then DirectoryFileType else RegularFile),
     fm_len = vm_len m, fm_readonly = False, fm_accessed = vm_accessed m, fm_modified = vm_modified m,
     fm_created = vm_created m\<rparr>"

definition directory_stat :: "('f, 'h) vfs_ops \<Rightarrow> string \<Rightarrow> ('f, 'h) directory
    \<Rightarrow> (fs_error + file_metadata) \<times> ('f, 'h) directory" where
  "directory_stat X path d =
     (map_ok directory_metadata (map_err (map_virtual_error (vx_show X)) (vx_metadata X (internal_path path) (dir_inner d))), d)"

definition directory_read_dir :: "('f, 'h) vfs_ops \<Rightarrow> string \<Rightarrow> ('f, 'h) directory
    \<Rightarrow> (fs_error + directory_entry list) \<times> ('f, 'h) directory" where
  "directory_read_dir X path d =
     (bind_res (map_err (map_virtual_error (vx_show X)) (vx_read_dir X (internal_path path) (dir_inner d)))
        (\<lambda>rs. collect_res (map (\<lambda>r. map_err (map_virtual_error (vx_show X)) (bind_res r (\<lambda>entry.
            map_ok (\<lambda>m. \<lparr>de_name = ve_file_name X entry, de_metadata = directory_metadata m\<rparr>) (ve_metadata entry)))) rs)), d)"

definition directory_open :: "('f, 'h) vfs_ops \<Rightarrow> string \<Rightarrow> open_options \<Rightarrow> ('f, 'h) directory
    \<Rightarrow> (fs_error + nat) \<times> ('f, 'h) directory" where
  "directory_open X path options d =
     bind_st (map_err_st (map_virtual_error (vx_show X)) (on_inner (vx_open X options (internal_path path)) d))
       (\<lambda>h d1. (Inr (length (dir_files d1)), d1\<lparr>dir_files := dir_files d1 @ [(h, False)]\<rparr>))"

definition directory_create_dir :: "('f, 'h) vfs_ops \<Rightarrow> string \<Rightarrow> ('f, 'h) directory
    \<Rightarrow> (fs_error + unit) \<times> ('f, 'h) directory" where
  "directory_create_dir X path d =
     map_err_st (map_virtual_error (vx_show X)) (on_inner (vx_create_dir X (internal_path path)) d)"

definition directory_remove :: "('f, 'h) vfs_ops \<Rightarrow> nat \<Rightarrow> string \<Rightarrow> bool \<Rightarrow> ('f, 'h) directory
    \<Rightarrow> ((fs_error + unit) \<times> ('f, 'h) directory) option" where
  "directory_remove X fuel path recursive d =
     (let internal = internal_path path;
          remove_self = (\<lambda>d1. map_err_st (map_virtual_error (vx_show X)) (on_inner (vx_remove_dir X internal) d1))
      in case vx_metadata X internal (dir_inner d) of
           Inl e \<Rightarrow> Some (Inl (map_virtual_error (vx_show X) e), d)
         | Inr m \<Rightarrow>
             if vm_is_file m then
               Some (map_err_st (map_virtual_error (vx_show X)) (on_inner (vx_remove_file X internal) d))
             else if recursive then
               (case remove_tree X fuel internal (dir_inner d) of
                  None \<Rightarrow> None
                | Some (Inl e, f) \<Rightarrow> Some (Inl e, d\<lparr>dir_inner := f\<rparr>)
                | Some (Inr u, f) \<Rightarrow> Some (remove_self (d\<lparr>dir_inner := f\<rparr>)))
             else Some (remove_self d))"

definition directory_rename :: "('f, 'h) vfs_ops \<Rightarrow> string \<Rightarrow> string \<Rightarrow> ('f, 'h) directory
    \<Rightarrow> (fs_error + unit) \<times> ('f, 'h) directory" where
  "directory_rename X src dst d =
     map_err_st (map_virtual_error (vx_show X)) (on_inner (vx_rename X (internal_path src) (internal_path dst)) d)"

definition directory_set_times :: "('f, 'h) vfs_ops \<Rightarrow> string \<Rightarrow> nat option \<Rightarrow> nat option \<Rightarrow> bool
    \<Rightarrow> ('f, 'h) directory \<Rightarrow> (fs_error + unit) \<times> ('f, 'h) directory" where
  "directory_set_times X path atime mtime follow d =
     map_err_st (map_virtual_error (vx_show X)) (on_inner (vx_set_times X (internal_path path) atime mtime follow) d)"

text \<open>\<open>DirectoryFile\<close>.\<close>

definition file_closed :: fs_error where
  "file_closed = IoFailed ''file is closed''"

definition with_file :: "nat \<Rightarrow> ('h \<Rightarrow> ('f, 'h) directory \<Rightarrow> (fs_error + 'a) \<times> ('f, 'h) directory)
    \<Rightarrow> ('f, 'h) directory \<Rightarrow> (fs_error + 'a) \<times> ('f, 'h) directory" where
  "with_file n run d =
     (let (h, closed) = dir_files d ! n in if closed then (Inl file_closed, d) else run h d)"

definition io_failed :: "('f, 'h) vfs_ops \<Rightarrow> io_error \<Rightarrow> fs_error" where
  "io_failed X e = IoFailed (vx_show_io X e)"

definition directory_read_at :: "('f, 'h) vfs_ops \<Rightarrow> nat \<Rightarrow> nat \<Rightarrow> nat \<Rightarrow> ('f, 'h) directory
    \<Rightarrow> (fs_error + byte list) \<times> ('f, 'h) directory" where
  "directory_read_at X n off count = with_file n (\<lambda>h d.
     bind_st (map_err_st (io_failed X) (on_inner (vh_seek X h off) d)) (\<lambda>_ d1.
       map_err_st (io_failed X) (on_inner (vh_read X h count) d1)))"

definition directory_write_at :: "('f, 'h) vfs_ops \<Rightarrow> nat \<Rightarrow> nat \<Rightarrow> byte list \<Rightarrow> ('f, 'h) directory
    \<Rightarrow> (fs_error + nat) \<times> ('f, 'h) directory" where
  "directory_write_at X n off bs = with_file n (\<lambda>h d.
     bind_st (map_err_st (io_failed X) (on_inner (vh_seek X h off) d)) (\<lambda>_ d1.
       map_err_st (io_failed X) (on_inner (vh_write X h bs) d1)))"

definition directory_set_len :: "('f, 'h) vfs_ops \<Rightarrow> nat \<Rightarrow> nat \<Rightarrow> ('f, 'h) directory
    \<Rightarrow> (fs_error + unit) \<times> ('f, 'h) directory" where
  "directory_set_len X n new_len = with_file n (\<lambda>h d.
     map_err_st (map_virtual_error (vx_show X)) (on_inner (vh_set_len X h new_len) d))"

definition directory_file_flush :: "('f, 'h) vfs_ops \<Rightarrow> nat \<Rightarrow> ('f, 'h) directory
    \<Rightarrow> (fs_error + unit) \<times> ('f, 'h) directory" where
  "directory_file_flush X n = with_file n (\<lambda>h d. map_err_st (io_failed X) (on_inner (vh_flush X h) d))"

definition directory_file_metadata :: "('f, 'h) vfs_ops \<Rightarrow> nat \<Rightarrow> ('f, 'h) directory
    \<Rightarrow> (fs_error + file_metadata) \<times> ('f, 'h) directory" where
  "directory_file_metadata X n = with_file n (\<lambda>h d.
     (case vh_times X h (dir_inner d) of (accessed, modified, created) \<Rightarrow>
        (Inr \<lparr>fm_file_type = RegularFile, fm_len = vh_size X h (dir_inner d), fm_readonly = False,
              fm_accessed = accessed, fm_modified = modified, fm_created = created\<rparr>, d)))"

definition directory_file_set_times :: "('f, 'h) vfs_ops \<Rightarrow> nat \<Rightarrow> nat option \<Rightarrow> nat option
    \<Rightarrow> ('f, 'h) directory \<Rightarrow> (fs_error + unit) \<times> ('f, 'h) directory" where
  "directory_file_set_times X n atime mtime = with_file n (\<lambda>h d.
     map_err_st (map_virtual_error (vx_show X)) (on_inner (vh_set_times X h atime mtime) d))"

definition directory_file_close :: "nat \<Rightarrow> ('f, 'h) directory \<Rightarrow> (fs_error + unit) \<times> ('f, 'h) directory" where
  "directory_file_close n d = (Inr (), d\<lparr>dir_files := (dir_files d)[n := (fst (dir_files d ! n), True)]\<rparr>)"

text \<open>Whole files.\<close>

definition directory_write :: "('f, 'h) vfs_ops \<Rightarrow> string \<Rightarrow> byte list \<Rightarrow> ('f, 'h) directory
    \<Rightarrow> (fs_error + unit) \<times> ('f, 'h) directory" where
  "directory_write X path bs d = (case relative_path path of
     Inl e \<Rightarrow> (Inl e, d)
   | Inr rel \<Rightarrow>
       bind_st (case rooted_parent (internal_path rel) of
           None \<Rightarrow> (Inr (), d)
         | Some parent \<Rightarrow> map_err_st (map_virtual_error (vx_show X)) (on_inner (vx_create_dir_all X parent) d)) (\<lambda>_ d1.
       bind_st (directory_open X rel (open_default\<lparr>oo_write := True, oo_create := True, oo_truncate := True\<rparr>) d1) (\<lambda>n d2.
       bind_st (directory_write_at X n 0 bs d2) (\<lambda>_ d3. directory_file_flush X n d3))))"

definition directory_write_text :: "('f, 'h) vfs_ops \<Rightarrow> string \<Rightarrow> string \<Rightarrow> ('f, 'h) directory
    \<Rightarrow> (fs_error + unit) \<times> ('f, 'h) directory" where
  "directory_write_text X path txt d = directory_write X path (bytes_of txt) d"

definition directory_read :: "('f, 'h) vfs_ops \<Rightarrow> string \<Rightarrow> ('f, 'h) directory
    \<Rightarrow> (fs_error + byte list) \<times> ('f, 'h) directory" where
  "directory_read X path d = (case relative_path path of
     Inl e \<Rightarrow> (Inl e, d)
   | Inr rel \<Rightarrow>
       bind_st (directory_stat X rel d) (\<lambda>m d1.
         if fm_len m > usize_max then (Inl (IoFailed ''file is too large for this target''), d1)
         else bind_st (directory_open X rel (open_default\<lparr>oo_read := True\<rparr>) d1) (\<lambda>n d2.
           directory_read_at X n 0 (fm_len m) d2)))"

definition directory_read_text :: "('f, 'h) vfs_ops \<Rightarrow> (byte list \<Rightarrow> string) \<Rightarrow> string \<Rightarrow> ('f, 'h) directory
    \<Rightarrow> (fs_error + string) \<times> ('f, 'h) directory" where
  "directory_read_text X utf8_message path d = bind_st (directory_read X path d) (\<lambda>bs d1.
     (if utf8_valid bs then Inr (text_of bs) else Inl (IoFailed (utf8_message bs)), d1))"

text \<open>The directory as a provider.\<close>

definition directory_provider :: "('f, 'h) vfs_ops \<Rightarrow> nat \<Rightarrow> (('f, 'h) directory, nat) provider" where
  "directory_provider X fuel = \<lparr>pv_capabilities = (\<lambda>_. capabilities_read_write),
     pv_stat = directory_stat X, pv_read_dir = directory_read_dir X, pv_open = directory_open X,
     pv_create_dir = directory_create_dir X,
     pv_remove = (\<lambda>path recursive d. case directory_remove X fuel path recursive d of
        None \<Rightarrow> (Inl (IoFailed []), d) | Some r \<Rightarrow> r),
     pv_rename = directory_rename X, pv_flush = (\<lambda>d. (Inr (), d)), pv_set_times = directory_set_times X,
     fl_read_at = directory_read_at X, fl_write_at = directory_write_at X, fl_set_len = directory_set_len X,
     fl_flush = directory_file_flush X, fl_close = directory_file_close,
     fl_metadata = directory_file_metadata X, fl_set_times = directory_file_set_times X\<rparr>"

end
