(* ===== verification/Fs_Safety.thy ===== *)
theory Fs_Safety
  imports Sandbox_Fs
begin

text \<open>
  What the sandbox's filesystem interface guarantees: it only ever touches confined paths, and
  a file written under one spelling of a path is read back under any other.
\<close>

section \<open>Confined paths\<close>

definition confined_path :: "string \<Rightarrow> bool" where
  "confined_path p \<longleftrightarrow> has_root p \<and> ParentDir \<notin> set (components p)"

lemma workspace_path_confined_path:
  assumes "workspace_path p = Inr (guest, internal)"
  shows "confined_path internal"
proof -
  obtain r where "internal = path_push ''/'' r" "\<not> has_root r"
      "ParentDir \<notin> set (body_components (split_slash r))"
    using workspace_relative [OF assms] by metis
  then show ?thesis
    by (simp add: confined_path_def components_push_root) (simp add: path_push_def)
qed

lemma set_body_components_mono: "set ps \<subseteq> set qs \<Longrightarrow> set (body_components ps) \<subseteq> set (body_components qs)"
  by (auto simp: body_components_def)

lemma rooted_parent_confined:
  assumes "confined_path p" "rooted_parent p = Some q"
  shows "confined_path q"
proof -
  define kept where "kept = dropWhile skip_part (rev (tl (split_slash p)))"
  define ps where "ps = rev (dropWhile skip_part (tl kept))"
  have q: "q = CHR ''/'' # join_slash ps"
    using assms(2) by (auto simp: rooted_parent_def kept_def ps_def Let_def split: if_splits)
  have "set ps \<subseteq> set (tl kept)" by (auto simp: ps_def dest: set_dropWhileD)
  also have "\<dots> \<subseteq> set kept" by (cases kept) auto
  also have "\<dots> \<subseteq> set (tl (split_slash p))" by (auto simp: kept_def dest: set_dropWhileD)
  finally have sub: "set ps \<subseteq> set (tl (split_slash p))" .
  then have free: "\<forall>s \<in> set ps. CHR ''/'' \<notin> set s"
    using list.set_sel(2) [OF split_slash_ne] split_slash_parts by blast
  have "body_components (split_slash (join_slash ps)) = body_components ps"
    using split_join_slash [OF _ free] by (cases "ps = []") (auto simp: body_components_Cons)
  then have "components q = RootDir # body_components ps" by (simp add: q components_rooted)
  moreover have "ParentDir \<notin> set (body_components ps)"
    using set_body_components_mono [OF sub] assms(1)
    by (auto simp: confined_path_def components_def split: if_splits)
  ultimately show ?thesis by (simp add: confined_path_def q)
qed

section \<open>Filesystems that agree on confined paths\<close>

definition agree_confined :: "('f, 'h) vfs_ops \<Rightarrow> ('f, 'h) vfs_ops \<Rightarrow> bool" where
  "agree_confined X Y \<longleftrightarrow>
     (\<forall>p. confined_path p \<longrightarrow> vx_metadata X p = vx_metadata Y p \<and> vx_read_dir X p = vx_read_dir Y p
        \<and> vx_create_dir X p = vx_create_dir Y p \<and> vx_create_dir_all X p = vx_create_dir_all Y p
        \<and> vx_remove_dir X p = vx_remove_dir Y p \<and> vx_remove_file X p = vx_remove_file Y p
        \<and> (\<forall>q. confined_path q \<longrightarrow> vx_rename X p q = vx_rename Y p q)
        \<and> (\<forall>c. vx_open X c p = vx_open Y c p))
   \<and> vh_write_all X = vh_write_all Y \<and> vh_read_to_end X = vh_read_to_end Y \<and> vh_flush X = vh_flush Y
   \<and> vx_show X = vx_show Y \<and> vx_show_io X = vx_show_io Y \<and> ve_file_name X = ve_file_name Y"

text \<open>A listing of a confined directory names confined paths.\<close>

definition lists_confined :: "('f, 'h) vfs_ops \<Rightarrow> bool" where
  "lists_confined X \<longleftrightarrow> (\<forall>p f es e. confined_path p \<longrightarrow> vx_read_dir X p f = Inr es \<longrightarrow> Inr e \<in> set es
     \<longrightarrow> confined_path (ve_path e))"

lemma collect_res_set: "collect_res rs = Inr xs \<Longrightarrow> x \<in> set xs \<Longrightarrow> Inr x \<in> set rs"
  by (induction rs arbitrary: xs) (auto simp: res_iffs)

lemma agree_confinedD:
  assumes "agree_confined X Y" "confined_path p"
  shows "vx_metadata X p = vx_metadata Y p" "vx_read_dir X p = vx_read_dir Y p"
    "vx_create_dir X p = vx_create_dir Y p" "vx_create_dir_all X p = vx_create_dir_all Y p"
    "vx_remove_dir X p = vx_remove_dir Y p" "vx_remove_file X p = vx_remove_file Y p"
    "confined_path q \<Longrightarrow> vx_rename X p q = vx_rename Y p q" "vx_open X c p = vx_open Y c p"
  using assms by (auto simp: agree_confined_def)

lemma agree_confined_handles:
  assumes "agree_confined X Y"
  shows "vh_write_all X = vh_write_all Y" "vh_read_to_end X = vh_read_to_end Y" "vh_flush X = vh_flush Y"
    "vx_show X = vx_show Y" "vx_show_io X = vx_show_io Y" "ve_file_name X = ve_file_name Y"
  using assms by (auto simp: agree_confined_def)

lemma remove_tree_agree:
  "agree_confined X Y \<longrightarrow> lists_confined X \<longrightarrow> confined_path path \<longrightarrow>
     remove_tree X n path f = remove_tree Y n path f"
  "agree_confined X Y \<longrightarrow> lists_confined X \<longrightarrow> list_all (\<lambda>e. confined_path (ve_path e)) entries \<longrightarrow>
     remove_entries X n entries f = remove_entries Y n entries f"
proof (induction X n path f and X n entries f rule: remove_tree_remove_entries.induct)
  case (2 X n path f)
  show ?case
  proof (intro impI)
    assume XY: "agree_confined X Y" and lists: "lists_confined X" and path: "confined_path path"
    have entries: "list_all (\<lambda>e. confined_path (ve_path e)) es"
      if "bind_res (vx_read_dir X path f) collect_res = Inr es" for es
      using that lists path
      by (auto simp: list_all_iff lists_confined_def res_iffs dest: collect_res_set)
    show "remove_tree X (Suc n) path f = remove_tree Y (Suc n) path f"
      using 2 XY lists entries agree_confinedD(2) [OF XY path] agree_confined_handles(4) [OF XY]
      by (auto simp: res_iffs split: sum.split)
  qed
next
  case (4 X n entry entries f)
  show ?case
  proof (intro impI)
    assume XY: "agree_confined X Y" and lists: "lists_confined X"
      and all: "list_all (\<lambda>e. confined_path (ve_path e)) (entry # entries)"
    then have path: "confined_path (ve_path entry)" by simp
    show "remove_entries X n (entry # entries) f = remove_entries Y n (entry # entries) f"
      using 4 XY lists all agree_confinedD(5,6) [OF XY path] agree_confined_handles(4) [OF XY]
      by (auto split: sum.split option.split prod.split)
  qed
qed simp_all

section \<open>What the sandbox filesystem touches\<close>

text \<open>An operation under \<open>in_workspace\<close> depends on the filesystem only through its run on a
  confined path.\<close>

lemma in_workspace_cong:
  assumes "\<And>guest internal f. confined_path internal \<Longrightarrow> run guest internal f = run' guest internal f"
  shows "in_workspace path run = in_workspace path run'"
proof (rule ext)
  fix f
  show "in_workspace path run f = in_workspace path run' f"
  proof (cases "workspace_path path")
    case (Inr gi)
    then show ?thesis
      using assms workspace_path_confined_path by (cases gi) (simp add: in_workspace_def)
  qed (simp add: in_workspace_def)
qed

lemma sfs_write_agree:
  assumes XY: "agree_confined X Y"
  shows "sfs_write X path bs = sfs_write Y path bs"
  unfolding sfs_write_def agree_confined_handles [OF XY]
proof (rule in_workspace_cong)
  fix guest internal f assume path: "confined_path internal"
  have parent: "vx_create_dir_all X q = vx_create_dir_all Y q" if "rooted_parent internal = Some q" for q
    using agree_confinedD(4) [OF XY rooted_parent_confined [OF path that]] .
  have first: "(case rooted_parent internal of None \<Rightarrow> (Inr (), f)
      | Some p \<Rightarrow> map_err_st (\<lambda>e. fs_failure ''create_dir_all'' guest (vx_show Y e)) (vx_create_dir_all X p f))
    = (case rooted_parent internal of None \<Rightarrow> (Inr (), f)
      | Some p \<Rightarrow> map_err_st (\<lambda>e. fs_failure ''create_dir_all'' guest (vx_show Y e)) (vx_create_dir_all Y p f))"
    using parent by (auto split: option.split)
  show "bind_st (case rooted_parent internal of None \<Rightarrow> (Inr (), f)
      | Some p \<Rightarrow> map_err_st (\<lambda>e. fs_failure ''create_dir_all'' guest (vx_show Y e)) (vx_create_dir_all X p f))
      (\<lambda>_ f1. bind_st (map_err_st (\<lambda>e. fs_failure ''open'' guest (vx_show Y e))
         (vx_open X (open_default\<lparr>oo_create := True, oo_truncate := True, oo_write := True\<rparr>) internal f1))
       (\<lambda>h f2. bind_st (map_err_st (\<lambda>e. fs_failure ''write'' guest (vx_show_io Y e)) (vh_write_all Y h bs f2))
       (\<lambda>_ f3. map_err_st (\<lambda>e. fs_failure ''flush'' guest (vx_show_io Y e)) (vh_flush Y h f3))))
   = bind_st (case rooted_parent internal of None \<Rightarrow> (Inr (), f)
      | Some p \<Rightarrow> map_err_st (\<lambda>e. fs_failure ''create_dir_all'' guest (vx_show Y e)) (vx_create_dir_all Y p f))
      (\<lambda>_ f1. bind_st (map_err_st (\<lambda>e. fs_failure ''open'' guest (vx_show Y e))
         (vx_open Y (open_default\<lparr>oo_create := True, oo_truncate := True, oo_write := True\<rparr>) internal f1))
       (\<lambda>h f2. bind_st (map_err_st (\<lambda>e. fs_failure ''write'' guest (vx_show_io Y e)) (vh_write_all Y h bs f2))
       (\<lambda>_ f3. map_err_st (\<lambda>e. fs_failure ''flush'' guest (vx_show_io Y e)) (vh_flush Y h f3))))"
    unfolding first agree_confinedD(8) [OF XY path] ..
qed

lemma sfs_simple_agree:
  assumes XY: "agree_confined X Y"
  shows "sfs_read X path = sfs_read Y path" "sfs_create_dir_all X path = sfs_create_dir_all Y path"
    "sfs_create_dir X path = sfs_create_dir Y path" "sfs_read_dir X path = sfs_read_dir Y path"
    "sfs_stat X path = sfs_stat Y path" "sfs_rename X path dst = sfs_rename Y path dst"
proof -
  show "sfs_read X path = sfs_read Y path" "sfs_create_dir_all X path = sfs_create_dir_all Y path"
    "sfs_create_dir X path = sfs_create_dir Y path" "sfs_stat X path = sfs_stat Y path"
    unfolding sfs_read_def sfs_create_dir_all_def sfs_create_dir_def sfs_stat_def agree_confined_handles [OF XY]
    by (rule in_workspace_cong; simp add: agree_confinedD [OF XY])+
  have "sfs_entry X = sfs_entry Y"
    by (simp add: sfs_entry_def agree_confined_handles [OF XY] fun_eq_iff)
  then show "sfs_read_dir X path = sfs_read_dir Y path"
    unfolding sfs_read_dir_def agree_confined_handles [OF XY]
    by (intro in_workspace_cong) (simp add: agree_confinedD [OF XY])
  show "sfs_rename X path dst = sfs_rename Y path dst"
    unfolding sfs_rename_def agree_confined_handles [OF XY]
  proof (rule in_workspace_cong)
    fix guest internal f assume path: "confined_path internal"
    have "in_workspace dst (\<lambda>_ q f. map_err_st (\<lambda>e. fs_failure ''rename'' guest (vx_show Y e)) (vx_rename X internal q f))
        = in_workspace dst (\<lambda>_ q f. map_err_st (\<lambda>e. fs_failure ''rename'' guest (vx_show Y e)) (vx_rename Y internal q f))"
      by (rule in_workspace_cong) (simp add: agree_confinedD(7) [OF XY path])
    then show "in_workspace dst (\<lambda>_ q f. map_err_st (\<lambda>e. fs_failure ''rename'' guest (vx_show Y e)) (vx_rename X internal q f)) f
        = in_workspace dst (\<lambda>_ q f. map_err_st (\<lambda>e. fs_failure ''rename'' guest (vx_show Y e)) (vx_rename Y internal q f)) f"
      by (rule fun_cong)
  qed
qed

lemma sfs_remove_agree:
  assumes XY: "agree_confined X Y" and lists: "lists_confined X"
  shows "sfs_remove X fuel path recursive f = sfs_remove Y fuel path recursive f"
proof (cases "workspace_path path")
  case (Inr gi)
  obtain guest internal where gi: "gi = (guest, internal)" by (cases gi)
  have path: "confined_path internal" using Inr gi workspace_path_confined_path by simp
  have tree: "remove_tree X fuel internal f = remove_tree Y fuel internal f"
    by (rule remove_tree_agree(1) [rule_format, OF XY lists path])
  show ?thesis
    unfolding sfs_remove_def Inr gi sum.case prod.case tree agree_confinedD(1,5,6) [OF XY path]
      agree_confined_handles(4) [OF XY] ..
qed (simp add: sfs_remove_def)

text \<open>C18: the sandbox filesystem is confined: two virtual filesystems that behave alike on absolute
  paths free of \<open>..\<close> cannot be told apart through \<open>SandboxFileSystem\<close>, whatever path strings its
  caller supplies, recursive removal included. So no call reaches a path outside those.\<close>

theorem sandbox_fs_confined:
  assumes "agree_confined X Y" and "lists_confined X"
  shows "sfs_write X = sfs_write Y \<and> sfs_write_text X = sfs_write_text Y
    \<and> sfs_read X = sfs_read Y \<and> sfs_read_text X = sfs_read_text Y
    \<and> sfs_create_dir_all X = sfs_create_dir_all Y \<and> sfs_create_dir X = sfs_create_dir Y
    \<and> sfs_read_dir X = sfs_read_dir Y \<and> sfs_stat X = sfs_stat Y
    \<and> sfs_rename X = sfs_rename Y \<and> sfs_remove X = sfs_remove Y"
  using sfs_write_agree [OF assms(1)] sfs_simple_agree [OF assms(1)] sfs_remove_agree [OF assms]
  by (simp add: fun_eq_iff sfs_write_text_def sfs_read_text_def)

section \<open>A file is read back under any spelling\<close>

text \<open>What a virtual filesystem promises of a file's bytes: \<open>content\<close> is keyed by path components,
  \<open>target\<close> says which file an open handle is for.\<close>

definition write_options :: open_options where
  "write_options = open_default\<lparr>oo_create := True, oo_truncate := True, oo_write := True\<rparr>"

definition keeps_files :: "('f, 'h) vfs_ops \<Rightarrow> ('f \<Rightarrow> component list \<Rightarrow> byte list option)
    \<Rightarrow> ('f \<Rightarrow> 'h \<Rightarrow> component list) \<Rightarrow> bool" where
  "keeps_files X content target \<longleftrightarrow>
     (\<forall>p f h f1. vx_open X write_options p f = (Inr h, f1) \<longrightarrow>
        target f1 h = components p \<and> content f1 (components p) = Some [])
   \<and> (\<forall>h bs f f1. content f (target f h) = Some [] \<longrightarrow> vh_write_all X h bs f = (Inr (), f1) \<longrightarrow>
        target f1 h = target f h \<and> content f1 (target f h) = Some bs)
   \<and> (\<forall>h f f1. vh_flush X h f = (Inr (), f1) \<longrightarrow> content f1 = content f)
   \<and> (\<forall>p f bs. content f (components p) = Some bs \<longrightarrow>
        (\<exists>h f1 f2. vx_open X (open_default\<lparr>oo_read := True\<rparr>) p f = (Inr h, f1)
           \<and> vh_read_to_end X h f1 = (Inr bs, f2)))"

lemma sfs_write_stores:
  assumes X: "keeps_files X content target" and p: "workspace_path p = Inr (guest, internal)"
    and wrote: "sfs_write X p bs f = (Inr (), f')"
  shows "content f' (components internal) = Some bs"
proof -
  obtain f1 h f2 f3 where opened: "vx_open X write_options internal f1 = (Inr h, f2)"
      and written: "vh_write_all X h bs f2 = (Inr (), f3)" and flushed: "vh_flush X h f3 = (Inr (), f')"
    using wrote by (auto simp: sfs_write_def in_workspace_def p bind_st_Inr map_err_st_Inr write_options_def)
  then show ?thesis using X unfolding keeps_files_def by metis
qed

lemma sfs_read_stored:
  assumes X: "keeps_files X content target" and q: "workspace_path q = Inr (guest, internal)"
    and stored: "content f (components internal) = Some bs"
  shows "fst (sfs_read X q f) = Inr bs"
proof -
  obtain h f1 f2 where "vx_open X (open_default\<lparr>oo_read := True\<rparr>) internal f = (Inr h, f1)"
      and "vh_read_to_end X h f1 = (Inr bs, f2)"
    using X stored unfolding keeps_files_def by blast
  then show ?thesis by (simp add: sfs_read_def in_workspace_def q)
qed

lemma same_guest_same_internal:
  assumes "workspace_path p = Inr (g, i)" "workspace_path q = Inr (g', i')" "path_eq g g'"
  shows "components i = components i'"
proof -
  obtain r where r: "g = path_push ''/workspace'' r" "i = path_push ''/'' r" "\<not> has_root r"
    using workspace_relative [OF assms(1)] by metis
  obtain s where s: "g' = path_push ''/workspace'' s" "i' = path_push ''/'' s" "\<not> has_root s"
    using workspace_relative [OF assms(2)] by metis
  show ?thesis using assms(3) r s by (simp add: path_eq_def components_push_workspace components_push_root)
qed

text \<open>C19: a successful \<open>write\<close> is read back: on a filesystem that keeps files by path, after
  \<open>write(p, bytes)\<close> succeeds, \<open>read(q)\<close> returns exactly those bytes for every spelling \<open>q\<close> of the
  same guest path, and \<open>read_text(q)\<close> their text, or a UTF-8 error with the bytes when they are
  not text.\<close>

theorem sandbox_write_read:
  assumes "keeps_files X content target"
    and "workspace_path p = Inr (guest, internal)" and "workspace_path q = Inr (guest', internal')"
    and "path_eq guest guest'"
    and "sfs_write X p bs f = (Inr (), f')"
  shows "fst (sfs_read X q f') = Inr bs
    \<and> fst (sfs_read_text X q f') = (if utf8_valid bs then Inr (text_of bs) else Inl (Utf8Error bs))"
proof -
  have "fst (sfs_read X q f') = Inr bs"
    using sfs_write_stores [OF assms(1,2,5)] same_guest_same_internal [OF assms(2,3,4)]
      sfs_read_stored [OF assms(1,3)] by simp
  then show ?thesis by (simp add: sfs_read_text_def bind_st_split)
qed

section \<open>A concrete filesystem\<close>

text \<open>Flat storage keyed by components, enough to meet both contracts.\<close>

definition flat_vfs :: "(component list \<Rightarrow> byte list option, component list) vfs_ops" where
  "flat_vfs = \<lparr>vx_metadata = (\<lambda>p f. Inl V_EntryNotFound), vx_read_dir = (\<lambda>p f. Inr []),
     vx_create_dir = (\<lambda>p f. (Inr (), f)), vx_create_dir_all = (\<lambda>p f. (Inr (), f)),
     vx_remove_dir = (\<lambda>p f. (Inr (), f)), vx_remove_file = (\<lambda>p f. (Inr (), f(components p := None))),
     vx_rename = (\<lambda>p q f. (Inr (), f(components q := f (components p), components p := None))),
     vx_set_times = (\<lambda>p a m b f. (Inr (), f)),
     vx_open = (\<lambda>c p f. if oo_truncate c then (Inr (components p), f(components p := Some []))
        else (Inr (components p), f)),
     vh_seek = (\<lambda>h n f. (Inr n, f)), vh_read = (\<lambda>h n f. (Inr (take n (the (f h))), f)),
     vh_write = (\<lambda>h bs f. (Inr (length bs), f(h := Some bs))),
     vh_write_all = (\<lambda>h bs f. (Inr (), f(h := Some bs))),
     vh_read_to_end = (\<lambda>h f. (Inr (the (f h)), f)), vh_flush = (\<lambda>h f. (Inr (), f)),
     vh_set_len = (\<lambda>h n f. (Inr (), f)), vh_set_times = (\<lambda>h a m f. (Inr (), f)),
     vh_size = (\<lambda>h f. length (the (f h))), vh_times = (\<lambda>h f. (0, 0, 0)),
     vx_show = (\<lambda>e. ''error''), vx_show_io = (\<lambda>e. ''io error''), ve_file_name = ve_path\<rparr>"

definition guarded_vfs :: "(component list \<Rightarrow> byte list option, component list) vfs_ops" where
  "guarded_vfs = flat_vfs\<lparr>vx_remove_file := (\<lambda>p f. if confined_path p then (Inr (), f(components p := None))
     else (Inl V_PermissionDenied, f))\<rparr>"

lemma flat_keeps_files: "keeps_files flat_vfs (\<lambda>f. f) (\<lambda>f h. h)"
  by (auto simp: keeps_files_def flat_vfs_def write_options_def open_default_def)

lemma flat_agree: "agree_confined flat_vfs guarded_vfs" "lists_confined flat_vfs"
  by (simp_all add: agree_confined_def lists_confined_def guarded_vfs_def flat_vfs_def)

theorem sandbox_fs_confined_witness:
  "vx_remove_file flat_vfs ''../x'' \<noteq> vx_remove_file guarded_vfs ''../x''
    \<and> sfs_write flat_vfs = sfs_write guarded_vfs \<and> sfs_remove flat_vfs = sfs_remove guarded_vfs"
proof -
  have "fst (vx_remove_file flat_vfs ''../x'' Map.empty) \<noteq> fst (vx_remove_file guarded_vfs ''../x'' Map.empty)"
    by (simp add: guarded_vfs_def flat_vfs_def confined_path_def has_root_def)
  then show ?thesis using sandbox_fs_confined [OF flat_agree] by metis
qed

theorem sandbox_write_read_witness:
  "fst (sfs_read flat_vfs ''/workspace/./a/b'' (snd (sfs_write flat_vfs ''a//b'' [104, 105] Map.empty))) = Inr [104, 105]"
proof -
  have p: "workspace_path ''a//b'' = Inr (''/workspace/a//b'', ''/a//b'')" by code_simp
  have q: "workspace_path ''/workspace/./a/b'' = Inr (''/workspace/a/b'', ''/a/b'')" by code_simp
  have same: "path_eq ''/workspace/a//b'' ''/workspace/a/b''" by code_simp
  have wrote: "sfs_write flat_vfs ''a//b'' [104, 105] Map.empty
      = (Inr (), snd (sfs_write flat_vfs ''a//b'' [104, 105] Map.empty))"
    by (simp add: sfs_write_def in_workspace_def p flat_vfs_def open_default_def split: option.split)
  show ?thesis
    using sandbox_write_read [OF flat_keeps_files p q same wrote] by simp
qed

section \<open>Removal through a mount\<close>

text \<open>A mounted provider cannot tell a guest's unlink from its rmdir: the adapter maps both to
  \<open>remove(path, recursive = false)\<close>, and \<open>Directory\<close> decides by what the path is. So over a mounted
  directory a guest's unlink of a directory removes the directory, and its rmdir of a file removes
  the file.\<close>

theorem adapter_removal_by_kind:
  assumes "adapter_path path = Inr rel"
    and "vx_metadata X (internal_path rel) (dir_inner d) = Inr m"
  shows "adapter_remove_file (directory_provider X fuel) ReadWrite path d
      = map_err_st (\<lambda>e. map_provider_error (map_virtual_error (vx_show X) e))
          (on_inner (if vm_is_file m then vx_remove_file X (internal_path rel)
                     else vx_remove_dir X (internal_path rel)) d)
    \<and> adapter_remove_dir (directory_provider X fuel) ReadWrite path d
      = adapter_remove_file (directory_provider X fuel) ReadWrite path d"
proof -
  have compose: "map_err_st g (map_err_st h r) = map_err_st (\<lambda>e. g (h e)) r" for g h and r :: "(_ + unit) \<times> _"
    by (cases r; cases "fst r") auto
  have "adapter_writable (directory_provider X fuel) ReadWrite d"
    by (simp add: adapter_writable_def directory_provider_def capabilities_read_write_def)
  then show ?thesis
    using assms by (auto simp: adapter_remove_file_def adapter_remove_dir_def with_path_def
        directory_provider_def directory_remove_def compose)
qed

definition folder_vfs :: "(component list \<Rightarrow> byte list option, component list) vfs_ops" where
  "folder_vfs = flat_vfs\<lparr>vx_metadata := (\<lambda>p f. Inr \<lparr>vm_file_type = DirectoryFileType, vm_accessed = 0,
       vm_created = 0, vm_modified = 0, vm_len = 0\<rparr>),
     vx_remove_dir := (\<lambda>p f. (Inr (), f(components p := None)))\<rparr>"

theorem adapter_removal_by_kind_witness:
  "adapter_remove_file (directory_provider folder_vfs 0) ReadWrite ''/d''
     \<lparr>dir_inner = [components ''/d'' \<mapsto> []], dir_files = []\<rparr>
   = (Inr (), \<lparr>dir_inner = Map.empty, dir_files = []\<rparr>)"
proof -
  have path: "adapter_path ''/d'' = Inr ''d''" by code_simp
  have same: "components (internal_path ''d'') = components ''/d''" by code_simp
  show ?thesis
    using adapter_removal_by_kind [OF path, of folder_vfs "\<lparr>dir_inner = [components ''/d'' \<mapsto> []], dir_files = []\<rparr>" _ 0]
    by (simp add: folder_vfs_def same on_inner_def vm_is_file_def)
qed

end
