(* ===== verification/Provider_Safety.thy ===== *)
theory Provider_Safety
  imports Provider_Fs
begin

text \<open>
  What a guest can do to a mounted provider: read-only mounts are never changed, the provider
  only ever sees normalised relative paths, cursors stay in range, and an open file behaves
  like an ordinary file with a cursor.
\<close>

section \<open>A guest using a mount\<close>

record ('p, 'h) mounted =
  mt_provider :: 'p
  mt_files :: "nat \<Rightarrow> 'h provider_file option"

datatype guest_call =
    GOpen nat string open_options
  | GReadDir string | GCreateDir string | GRemoveDir string | GRename string string
  | GMetadata string | GSetTimes string "nat option" "nat option" bool | GRemoveFile string
  | GRead nat nat | GWrite nat "byte list" | GFlush nat | GShutdown nat | GSeek nat seek_from
  | GFileTimes nat "nat option" "nat option" | GSetLen nat nat | GStamp nat

definition on_file :: "nat \<Rightarrow> ('h provider_file \<Rightarrow> 'p \<Rightarrow> 'h provider_file \<times> 'p) \<Rightarrow> ('p, 'h) mounted \<Rightarrow> ('p, 'h) mounted" where
  "on_file fd run s = (case mt_files s fd of
     None \<Rightarrow> s
   | Some f \<Rightarrow> (case run f (mt_provider s) of
       (f', p) \<Rightarrow> s\<lparr>mt_provider := p, mt_files := (mt_files s)(fd := Some f')\<rparr>))"

fun guest_apply :: "('p, 'h) provider \<Rightarrow> (vfs_error \<Rightarrow> io_error) \<Rightarrow> mount_mode \<Rightarrow> guest_call
    \<Rightarrow> ('p, 'h) mounted \<Rightarrow> ('p, 'h) mounted" where
  "guest_apply V to_io mode (GOpen fd path config) s =
     (case adapter_open V mode path config (mt_provider s) of
        (Inl e, p) \<Rightarrow> s\<lparr>mt_provider := p\<rparr>
      | (Inr f, p) \<Rightarrow> s\<lparr>mt_provider := p, mt_files := (mt_files s)(fd := Some f)\<rparr>)"
| "guest_apply V to_io mode (GReadDir path) s = s\<lparr>mt_provider := snd (adapter_read_dir V path (mt_provider s))\<rparr>"
| "guest_apply V to_io mode (GCreateDir path) s =
     s\<lparr>mt_provider := snd (adapter_create_dir V mode path (mt_provider s))\<rparr>"
| "guest_apply V to_io mode (GRemoveDir path) s =
     s\<lparr>mt_provider := snd (adapter_remove_dir V mode path (mt_provider s))\<rparr>"
| "guest_apply V to_io mode (GRename src dst) s =
     s\<lparr>mt_provider := snd (adapter_rename V mode src dst (mt_provider s))\<rparr>"
| "guest_apply V to_io mode (GMetadata path) s = s\<lparr>mt_provider := snd (adapter_metadata V path (mt_provider s))\<rparr>"
| "guest_apply V to_io mode (GSetTimes path a m follow) s =
     s\<lparr>mt_provider := snd (adapter_set_times V mode path a m follow (mt_provider s))\<rparr>"
| "guest_apply V to_io mode (GRemoveFile path) s =
     s\<lparr>mt_provider := snd (adapter_remove_file V mode path (mt_provider s))\<rparr>"
| "guest_apply V to_io mode (GRead fd n) s = on_file fd (\<lambda>f p. snd (pf_poll_read V to_io n f p)) s"
| "guest_apply V to_io mode (GWrite fd bs) s = on_file fd (\<lambda>f p. snd (pf_poll_write V to_io bs f p)) s"
| "guest_apply V to_io mode (GFlush fd) s = on_file fd (\<lambda>f p. snd (pf_poll_flush V to_io f p)) s"
| "guest_apply V to_io mode (GShutdown fd) s = on_file fd (\<lambda>f p. snd (pf_poll_shutdown V to_io f p)) s"
| "guest_apply V to_io mode (GSeek fd position) s = on_file fd (\<lambda>f p. (snd (pf_start_seek position f), p)) s"
| "guest_apply V to_io mode (GFileTimes fd a m) s = on_file fd (\<lambda>f p. snd (pf_set_times V a m f p)) s"
| "guest_apply V to_io mode (GSetLen fd n) s = on_file fd (\<lambda>f p. snd (pf_set_len V n f p)) s"
| "guest_apply V to_io mode (GStamp fd) s = on_file fd (\<lambda>f p. (f, snd (pf_time V fm_accessed f p))) s"

definition mount_new :: "'p \<Rightarrow> ('p, 'h) mounted" where
  "mount_new p = \<lparr>mt_provider = p, mt_files = (\<lambda>_. None)\<rparr>"

section \<open>Read-only mounts\<close>

text \<open>Reading operations of a provider do not change what it stores.\<close>

definition harmless_reads :: "('p, 'h) provider \<Rightarrow> ('p \<Rightarrow> 'c) \<Rightarrow> bool" where
  "harmless_reads V content \<longleftrightarrow>
     (\<forall>rel p. content (snd (pv_stat V rel p)) = content p \<and> content (snd (pv_read_dir V rel p)) = content p)
   \<and> (\<forall>rel opts p. \<not> asks_write opts \<longrightarrow> content (snd (pv_open V rel opts p)) = content p)
   \<and> (\<forall>h off n p. content (snd (fl_read_at V h off n p)) = content p)
   \<and> (\<forall>h p. content (snd (fl_flush V h p)) = content p \<and> content (snd (fl_close V h p)) = content p
        \<and> content (snd (fl_metadata V h p)) = content p)"

definition no_writable_file :: "('p, 'h) mounted \<Rightarrow> bool" where
  "no_writable_file s \<longleftrightarrow> (\<forall>fd f. mt_files s fd = Some f \<longrightarrow> \<not> pf_writable f)"

lemma with_path_keeps:
  "(\<And>rel. content (snd (run rel p)) = content p) \<Longrightarrow> content (snd (with_path path run p)) = content p"
  by (auto simp: with_path_def split: sum.split)

lemma adapter_open_read_only:
  assumes "harmless_reads V content"
  shows "content (snd (adapter_open V ReadOnly path config p)) = content p"
    "fst (adapter_open V ReadOnly path config p) = Inr f \<Longrightarrow> \<not> pf_writable f"
proof -
  have stat: "content (snd (pv_stat V rel p)) = content p" for rel p
    using assms by (simp add: harmless_reads_def)
  have opens: "\<not> asks_write config \<Longrightarrow> content (snd (pv_open V rel config p)) = content p" for rel p
    using assms by (simp add: harmless_reads_def)
  have "content (snd (initial_len V rel config p)) = content p" for rel
    using stat [of rel p] by (auto simp: initial_len_def split: prod.split sum.split)
  then show "content (snd (adapter_open V ReadOnly path config p)) = content p"
    by (auto simp: adapter_open_def adapter_writable_def bind_st_split Let_def opens split: sum.split)
  show "fst (adapter_open V ReadOnly path config p) = Inr f \<Longrightarrow> \<not> pf_writable f"
    by (auto simp: adapter_open_def adapter_writable_def bind_st_split Let_def
        split: sum.splits prod.splits if_splits)
qed

lemma on_file_read_only:
  assumes "no_writable_file s"
    and "\<And>f p. \<not> pf_writable f \<Longrightarrow> content (snd (run f p)) = content p \<and> \<not> pf_writable (fst (run f p))"
  shows "no_writable_file (on_file fd run s) \<and> content (mt_provider (on_file fd run s)) = content (mt_provider s)"
proof (cases "mt_files s fd")
  case (Some f)
  then have "\<not> pf_writable f" using assms(1) by (simp add: no_writable_file_def)
  with assms(2) [of f "mt_provider s"] show ?thesis
    using assms(1) Some by (cases "run f (mt_provider s)") (auto simp: on_file_def no_writable_file_def)
qed (use assms(1) in \<open>simp add: on_file_def\<close>)

lemma guest_apply_read_only:
  assumes V: "harmless_reads V content" and s: "no_writable_file s"
  shows "no_writable_file (guest_apply V to_io ReadOnly call s)
    \<and> content (mt_provider (guest_apply V to_io ReadOnly call s)) = content (mt_provider s)"
proof -
  have laws: "\<And>rel p. content (snd (pv_stat V rel p)) = content p"
    "\<And>rel p. content (snd (pv_read_dir V rel p)) = content p"
    "\<And>h off n p. content (snd (fl_read_at V h off n p)) = content p"
    "\<And>h p. content (snd (fl_flush V h p)) = content p" "\<And>h p. content (snd (fl_close V h p)) = content p"
    "\<And>h p. content (snd (fl_metadata V h p)) = content p"
    using V by (simp_all add: harmless_reads_def)
  have denied: "\<not> adapter_writable V ReadOnly p" for p by (simp add: adapter_writable_def)
  have same: "no_writable_file (s\<lparr>mt_provider := p\<rparr>)" for p
    using s by (simp add: no_writable_file_def)
  have keeps: "content (snd x) = content p \<Longrightarrow> x = (a, q) \<Longrightarrow> content q = content p"
    for x :: "('x + 'y) \<times> 'a" and a p q by simp
  show ?thesis
  proof (cases call)
    case (GOpen fd path config)
    obtain r p where run: "adapter_open V ReadOnly path config (mt_provider s) = (r, p)"
      by (cases "adapter_open V ReadOnly path config (mt_provider s)")
    have "content p = content (mt_provider s)" "\<And>f. r = Inr f \<Longrightarrow> \<not> pf_writable f"
      using adapter_open_read_only [OF V, of path config "mt_provider s"] run by auto
    then show ?thesis
      using s same run GOpen by (cases r) (auto simp: no_writable_file_def)
  next
    case (GReadDir path)
    have "content (snd (adapter_read_dir V path p)) = content p" for p
      using with_path_keeps [of content "pv_read_dir V" p path] laws
      by (auto simp: adapter_read_dir_def bind_st_split split: sum.split)
    then show ?thesis using GReadDir same by simp
  next
    case (GMetadata path)
    have "content (snd (adapter_metadata V path p)) = content p" for p
      using with_path_keeps [of content "pv_stat V" p path] laws
      by (auto simp: adapter_metadata_def bind_st_split split: sum.split)
    then show ?thesis using GMetadata same by simp
  next
    case (GRead fd n)
    have "content (snd (snd (pf_poll_read V to_io n f p))) = content p
        \<and> pf_writable (fst (snd (pf_poll_read V to_io n f p))) = pf_writable f" for f p
      using laws(3) [of "pf_file f" "pf_cursor f" n p]
      by (auto simp: pf_poll_read_def Let_def split: prod.split sum.split)
    then show ?thesis unfolding GRead guest_apply.simps by (intro on_file_read_only [OF s]) simp
  next
    case (GWrite fd bs)
    show ?thesis
      unfolding GWrite guest_apply.simps by (intro on_file_read_only [OF s]) (simp add: pf_poll_write_def)
  next
    case (GFlush fd)
    have "content (snd (snd (pf_poll_flush V to_io f p))) = content p
        \<and> pf_writable (fst (snd (pf_poll_flush V to_io f p))) = pf_writable f" for f p
      using laws(4) [of "pf_file f" p] by (auto simp: pf_poll_flush_def split: prod.split)
    then show ?thesis unfolding GFlush guest_apply.simps by (intro on_file_read_only [OF s]) simp
  next
    case (GShutdown fd)
    have "content (snd (snd (pf_poll_shutdown V to_io f p))) = content p
        \<and> pf_writable (fst (snd (pf_poll_shutdown V to_io f p))) = pf_writable f" for f p
      using laws(5) [of "pf_file f" p] by (auto simp: pf_poll_shutdown_def split: prod.split)
    then show ?thesis unfolding GShutdown guest_apply.simps by (intro on_file_read_only [OF s]) simp
  next
    case (GSeek fd position)
    show ?thesis
      unfolding GSeek guest_apply.simps
      by (intro on_file_read_only [OF s]) (simp add: pf_start_seek_def Let_def split: option.split)
  next
    case (GFileTimes fd a m)
    show ?thesis
      unfolding GFileTimes guest_apply.simps by (intro on_file_read_only [OF s]) (simp add: pf_set_times_def)
  next
    case (GSetLen fd n)
    show ?thesis
      unfolding GSetLen guest_apply.simps by (intro on_file_read_only [OF s]) (simp add: pf_set_len_def)
  next
    case (GStamp fd)
    have "content (snd (pf_time V fm_accessed f p)) = content p" for f p
      using laws(6) [of "pf_file f" p] by (auto simp: pf_time_def split: prod.split sum.split)
    then show ?thesis unfolding GStamp guest_apply.simps by (intro on_file_read_only [OF s]) simp
  qed (use denied same s in \<open>simp_all add: adapter_create_dir_def adapter_remove_dir_def adapter_rename_def
      adapter_set_times_def adapter_remove_file_def\<close>)
qed


section \<open>What the provider is asked\<close>

definition normalised :: "string \<Rightarrow> bool" where
  "normalised rel \<longleftrightarrow> (\<exists>ns. (\<forall>n \<in> set ns. plain_name n) \<and> rel = join_slash ns)"

lemma adapter_path_normalised: "adapter_path path = Inr rel \<Longrightarrow> normalised rel"
  unfolding adapter_path_def Let_def map_err_Inr_iff normalised_def
  by (erule relative_path_Inr) blast

text \<open>Two providers that cannot be told apart by normalised relative paths.\<close>

definition agree_normalised :: "('p, 'h) provider \<Rightarrow> ('p, 'h) provider \<Rightarrow> bool" where
  "agree_normalised V W \<longleftrightarrow>
     pv_capabilities V = pv_capabilities W
   \<and> (\<forall>rel. normalised rel \<longrightarrow> pv_stat V rel = pv_stat W rel \<and> pv_read_dir V rel = pv_read_dir W rel
        \<and> pv_open V rel = pv_open W rel \<and> pv_create_dir V rel = pv_create_dir W rel
        \<and> pv_remove V rel = pv_remove W rel \<and> pv_set_times V rel = pv_set_times W rel
        \<and> (\<forall>dst. normalised dst \<longrightarrow> pv_rename V rel dst = pv_rename W rel dst))
   \<and> fl_read_at V = fl_read_at W \<and> fl_write_at V = fl_write_at W \<and> fl_set_len V = fl_set_len W
   \<and> fl_flush V = fl_flush W \<and> fl_close V = fl_close W \<and> fl_metadata V = fl_metadata W
   \<and> fl_set_times V = fl_set_times W"

lemma with_path_agree:
  "(\<And>rel. normalised rel \<Longrightarrow> run rel = run' rel) \<Longrightarrow> with_path path run p = with_path path run' p"
  by (auto simp: with_path_def adapter_path_normalised split: sum.split)

lemma guest_apply_agree:
  assumes "agree_normalised V W"
  shows "guest_apply V to_io mode call s = guest_apply W to_io mode call s"
proof -
  have rights: "adapter_writable V = adapter_writable W" "adapter_readable V = adapter_readable W"
    using assms by (auto simp: agree_normalised_def adapter_writable_def adapter_readable_def fun_eq_iff)
  have ops: "normalised rel \<Longrightarrow> pv_stat V rel = pv_stat W rel" "normalised rel \<Longrightarrow> pv_read_dir V rel = pv_read_dir W rel"
    "normalised rel \<Longrightarrow> pv_open V rel = pv_open W rel" "normalised rel \<Longrightarrow> pv_create_dir V rel = pv_create_dir W rel"
    "normalised rel \<Longrightarrow> pv_remove V rel = pv_remove W rel" "normalised rel \<Longrightarrow> pv_set_times V rel = pv_set_times W rel"
    "normalised rel \<Longrightarrow> normalised dst \<Longrightarrow> pv_rename V rel dst = pv_rename W rel dst" for rel dst
    using assms by (simp_all add: agree_normalised_def)
  have files: "fl_read_at V = fl_read_at W" "fl_write_at V = fl_write_at W" "fl_set_len V = fl_set_len W"
    "fl_flush V = fl_flush W" "fl_close V = fl_close W" "fl_metadata V = fl_metadata W"
    "fl_set_times V = fl_set_times W"
    using assms by (simp_all add: agree_normalised_def)
  have "adapter_open V mode path config p = adapter_open W mode path config p" for path config p
    by (auto simp: adapter_open_def initial_len_def rights ops adapter_path_normalised split: sum.split)
  moreover have "adapter_rename V mode src dst p = adapter_rename W mode src dst p" for src dst p
    by (auto simp: adapter_rename_def rights ops adapter_path_normalised split: sum.split intro!: with_path_agree)
  moreover have "pf_poll_read V = pf_poll_read W" "pf_poll_write V = pf_poll_write W"
    "pf_poll_flush V = pf_poll_flush W" "pf_poll_shutdown V = pf_poll_shutdown W"
    "pf_set_times V = pf_set_times W" "pf_set_len V = pf_set_len W" "pf_time V = pf_time W"
    unfolding pf_poll_read_def [abs_def] pf_poll_write_def [abs_def] pf_poll_flush_def [abs_def]
      pf_poll_shutdown_def [abs_def] pf_set_times_def [abs_def] pf_set_len_def [abs_def]
      pf_time_def [abs_def] files by (rule refl)+
  ultimately show ?thesis
    by (cases call) (simp_all add: adapter_read_dir_def adapter_create_dir_def adapter_remove_dir_def
        adapter_metadata_def adapter_set_times_def adapter_remove_file_def rights ops
        cong: with_path_agree)
qed

section \<open>Ranges\<close>

definition in_range :: "('p, 'h) mounted \<Rightarrow> bool" where
  "in_range s \<longleftrightarrow> (\<forall>fd f. mt_files s fd = Some f \<longrightarrow> pf_cursor f \<le> u64_max \<and> pf_len f \<le> u64_max)"

fun call_fits :: "guest_call \<Rightarrow> bool" where
  "call_fits (GSetLen fd n) = (n \<le> u64_max)"
| "call_fits _ = True"

definition lengths_fit :: "('p, 'h) provider \<Rightarrow> bool" where
  "lengths_fit V \<longleftrightarrow> (\<forall>rel p m. fst (pv_stat V rel p) = Inr m \<longrightarrow> fm_len m \<le> u64_max)"

definition file_fits :: "'h provider_file \<Rightarrow> bool" where
  "file_fits f \<longleftrightarrow> pf_cursor f \<le> u64_max \<and> pf_len f \<le> u64_max"

lemma saturating_le [simp]: "u64_saturating_add a b \<le> u64_max"
  by (simp add: u64_saturating_add_def)

lemma on_file_range:
  assumes "in_range s" "\<And>f p. file_fits f \<Longrightarrow> file_fits (fst (run f p))"
  shows "in_range (on_file fd run s)"
proof (cases "mt_files s fd")
  case (Some f)
  then have "file_fits f" using assms(1) by (simp add: in_range_def file_fits_def)
  with assms(2) [of f "mt_provider s"] show ?thesis
    using assms(1) Some by (cases "run f (mt_provider s)") (auto simp: on_file_def in_range_def file_fits_def)
qed (use assms(1) in \<open>simp add: on_file_def\<close>)

lemma guest_apply_range:
  assumes V: "lengths_fit V" and s: "in_range s" and fits: "call_fits call"
  shows "in_range (guest_apply V to_io mode call s)"
proof -
  have same: "in_range (s\<lparr>mt_provider := p\<rparr>)" for p using s by (simp add: in_range_def)
  have len: "fst (initial_len V rel config p) \<le> u64_max" for rel config p
    using V by (auto simp: initial_len_def lengths_fit_def split: prod.split sum.split) (metis fst_conv)
  show ?thesis
  proof (cases call)
    case (GOpen fd path config)
    obtain r p where run: "adapter_open V mode path config (mt_provider s) = (r, p)"
      by (cases "adapter_open V mode path config (mt_provider s)")
    have "file_fits f" if "r = Inr f" for f
      using run that len by (auto simp: adapter_open_def bind_st_split Let_def file_fits_def
          split: sum.splits if_splits)
    then show ?thesis
      using s same run GOpen by (cases r) (auto simp: in_range_def file_fits_def)
  next
    case (GRead fd n)
    show ?thesis unfolding GRead guest_apply.simps
      by (intro on_file_range [OF s]) (auto simp: pf_poll_read_def file_fits_def Let_def split: prod.split sum.split)
  next
    case (GWrite fd bs)
    show ?thesis unfolding GWrite guest_apply.simps
      by (intro on_file_range [OF s]) (auto simp: pf_poll_write_def file_fits_def Let_def split: prod.split sum.split)
  next
    case (GSeek fd position)
    show ?thesis unfolding GSeek guest_apply.simps
      by (intro on_file_range [OF s])
        (auto simp: pf_start_seek_def file_fits_def Let_def split: option.split dest: u64_try_from_SomeD)
  next
    case (GSetLen fd n)
    then show ?thesis using fits unfolding GSetLen guest_apply.simps
      by (intro on_file_range [OF s]) (auto simp: pf_set_len_def file_fits_def split: prod.split sum.split)
  qed (use same in \<open>auto simp: pf_poll_flush_def pf_poll_shutdown_def pf_set_times_def file_fits_def
      intro!: on_file_range [OF s] split: prod.split\<close>)
qed

section \<open>An open file is an ordinary file\<close>

text \<open>The specification: contents and a cursor; writing beyond the end pads with zeros.\<close>

definition splice :: "nat \<Rightarrow> byte list \<Rightarrow> byte list \<Rightarrow> byte list" where
  "splice off bs body = take off (body @ replicate (off - length body) 0) @ bs @ drop (off + length bs) body"

lemma length_splice: "length (splice off bs body) = max (length body) (off + length bs)"
  by (auto simp: splice_def)

datatype file_op = OpRead nat | OpWrite "byte list" | OpSeek seek_from | OpSetLen nat

datatype file_reply = GotBytes "byte list" | Wrote nat | Moved bool | Resized | Refused

fun spec_file :: "file_op \<Rightarrow> byte list \<times> nat \<Rightarrow> file_reply \<times> byte list \<times> nat" where
  "spec_file (OpRead n) (body, c) = (GotBytes (take n (drop c body)), body, c + length (take n (drop c body)))"
| "spec_file (OpWrite bs) (body, c) = (Wrote (length bs), splice c bs body, c + length bs)"
| "spec_file (OpSeek position) (body, c) =
     (let next = (case position of SeekStart k \<Rightarrow> int k | SeekEnd k \<Rightarrow> int (length body) + k
                  | SeekCurrent k \<Rightarrow> int c + k)
      in if 0 \<le> next \<and> next \<le> int u64_max then (Moved True, body, nat next) else (Moved False, body, c))"
| "spec_file (OpSetLen n) (body, c) = (Resized, take n body @ replicate (n - length body) 0, c)"

text \<open>The operation on the provider's file, with its answer.\<close>

definition reply :: "('a \<Rightarrow> file_reply) \<Rightarrow> 'e + 'a \<Rightarrow> file_reply" where
  "reply f r = (case r of Inl e \<Rightarrow> Refused | Inr a \<Rightarrow> f a)"

fun file_apply :: "('p, 'h) provider \<Rightarrow> (vfs_error \<Rightarrow> io_error) \<Rightarrow> file_op \<Rightarrow> 'h provider_file \<times> 'p
    \<Rightarrow> file_reply \<times> 'h provider_file \<times> 'p" where
  "file_apply V to_io (OpRead n) (f, p) = (case pf_poll_read V to_io n f p of (r, s) \<Rightarrow> (reply GotBytes r, s))"
| "file_apply V to_io (OpWrite bs) (f, p) = (case pf_poll_write V to_io bs f p of (r, s) \<Rightarrow> (reply Wrote r, s))"
| "file_apply V to_io (OpSeek position) (f, p) =
     (case pf_start_seek position f of (r, f') \<Rightarrow> (Moved (is_ok r), f', p))"
| "file_apply V to_io (OpSetLen n) (f, p) = (case pf_set_len V n f p of (r, s) \<Rightarrow> (reply (\<lambda>_. Resized) r, s))"

text \<open>The provider's file stores bytes: reads return what is there, writes take everything.\<close>

definition stores_bytes :: "('p, 'h) provider \<Rightarrow> 'h \<Rightarrow> ('p \<Rightarrow> byte list) \<Rightarrow> bool" where
  "stores_bytes V h body \<longleftrightarrow>
     (\<forall>off n p. fst (fl_read_at V h off n p) = Inr (take n (drop off (body p)))
        \<and> body (snd (fl_read_at V h off n p)) = body p)
   \<and> (\<forall>off bs p. fst (fl_write_at V h off bs p) = Inr (length bs)
        \<and> body (snd (fl_write_at V h off bs p)) = splice off bs (body p))
   \<and> (\<forall>n p. fst (fl_set_len V h n p) = Inr ()
        \<and> body (snd (fl_set_len V h n p)) = take n (body p) @ replicate (n - length (body p)) 0)"

definition synced :: "'h \<Rightarrow> ('p \<Rightarrow> byte list) \<Rightarrow> 'h provider_file \<times> 'p \<Rightarrow> bool" where
  "synced h body s \<longleftrightarrow> pf_file (fst s) = h \<and> pf_writable (fst s) \<and> \<not> pf_closed (fst s)
     \<and> pf_len (fst s) = length (body (snd s))"

definition abs_file :: "('p \<Rightarrow> byte list) \<Rightarrow> 'h provider_file \<times> 'p \<Rightarrow> byte list \<times> nat" where
  "abs_file body s = (body (snd s), pf_cursor (fst s))"

lemma take_available: "take (min (length xs - c) n) (drop c xs) = take n (drop c xs)"
  by (simp add: min_def)

lemma file_apply_refines:
  assumes V: "stores_bytes V h body" and sync: "synced h body s"
    and fits: "snd (snd (spec_file oper (abs_file body s))) \<le> u64_max"
  shows "fst (file_apply V to_io oper s) = fst (spec_file oper (abs_file body s))
    \<and> abs_file body (snd (file_apply V to_io oper s)) = snd (spec_file oper (abs_file body s))
    \<and> synced h body (snd (file_apply V to_io oper s))"
proof -
  obtain f p where s: "s = (f, p)" by (cases s)
  have f: "pf_file f = h" "pf_writable f" "\<not> pf_closed f" "pf_len f = length (body p)"
    using sync by (simp_all add: synced_def s)
  show ?thesis
  proof (cases oper)
    case (OpRead n)
    obtain r q where run: "fl_read_at V h (pf_cursor f) n p = (r, q)" by (cases "fl_read_at V h (pf_cursor f) n p")
    then have "r = Inr (take n (drop (pf_cursor f) (body p)))" "body q = body p"
      using V unfolding stores_bytes_def by (metis fst_conv, metis snd_conv)
    then show ?thesis
      using f run fits by (simp add: s OpRead pf_poll_read_def reply_def abs_file_def synced_def Let_def
          u64_saturating_add_def take_available)
  next
    case (OpWrite bs)
    obtain r q where run: "fl_write_at V h (pf_cursor f) bs p = (r, q)" by (cases "fl_write_at V h (pf_cursor f) bs p")
    then have "r = Inr (length bs)" "body q = splice (pf_cursor f) bs (body p)"
      using V unfolding stores_bytes_def by (metis fst_conv, metis snd_conv)
    then show ?thesis
      using f run fits by (simp add: s OpWrite pf_poll_write_def reply_def abs_file_def synced_def Let_def
          u64_saturating_add_def length_splice)
  next
    case (OpSeek position)
    then show ?thesis
      using f by (cases position) (auto simp: s pf_start_seek_def abs_file_def synced_def Let_def u64_try_from_def)
  next
    case (OpSetLen n)
    obtain r q where run: "fl_set_len V h n p = (r, q)" by (cases "fl_set_len V h n p")
    then have "r = Inr ()" "body q = take n (body p) @ replicate (n - length (body p)) 0"
      using V unfolding stores_bytes_def by (metis fst_conv, metis snd_conv)
    then show ?thesis
      using f run by (simp add: s OpSetLen pf_set_len_def reply_def abs_file_def synced_def)
  qed
qed

fun run_file :: "(file_op \<Rightarrow> 's \<Rightarrow> file_reply \<times> 's) \<Rightarrow> file_op list \<Rightarrow> 's \<Rightarrow> file_reply list \<times> 's" where
  "run_file step [] s = ([], s)"
| "run_file step (oper # opers) s =
     (case step oper s of (r, s1) \<Rightarrow> (case run_file step opers s1 of (rs, s2) \<Rightarrow> (r # rs, s2)))"

fun stays_in_range :: "file_op list \<Rightarrow> byte list \<times> nat \<Rightarrow> bool" where
  "stays_in_range [] a = True"
| "stays_in_range (oper # opers) a =
     (snd (snd (spec_file oper a)) \<le> u64_max \<and> stays_in_range opers (snd (spec_file oper a)))"

lemma run_file_refines:
  "stores_bytes V h body \<Longrightarrow> synced h body s \<Longrightarrow> stays_in_range opers (abs_file body s) \<Longrightarrow>
   fst (run_file (file_apply V to_io) opers s) = fst (run_file spec_file opers (abs_file body s))
   \<and> abs_file body (snd (run_file (file_apply V to_io) opers s)) = snd (run_file spec_file opers (abs_file body s))
   \<and> synced h body (snd (run_file (file_apply V to_io) opers s))"
proof (induction opers arbitrary: s)
  case (Cons oper opers)
  have step: "fst (file_apply V to_io oper s) = fst (spec_file oper (abs_file body s))"
    "abs_file body (snd (file_apply V to_io oper s)) = snd (spec_file oper (abs_file body s))"
    "synced h body (snd (file_apply V to_io oper s))"
    using file_apply_refines [OF Cons.prems(1,2), of oper to_io] Cons.prems(3) by auto
  have "stays_in_range opers (abs_file body (snd (file_apply V to_io oper s)))"
    using Cons.prems(3) step(2) by simp
  from Cons.IH [OF Cons.prems(1) step(3) this] show ?case
    using step by (auto simp: split_beta)
qed simp

section \<open>A provider for the witnesses\<close>

text \<open>Files in a map, with paths as handles.\<close>

definition map_provider :: "(string \<Rightarrow> byte list option, string) provider" where
  "map_provider = \<lparr>pv_capabilities = (\<lambda>_. capabilities_read_write),
     pv_stat = (\<lambda>rel p. (case p rel of None \<Rightarrow> Inl NotFound
        | Some bs \<Rightarrow> Inr \<lparr>fm_file_type = RegularFile, fm_len = min (length bs) u64_max, fm_readonly = False,
            fm_accessed = 0, fm_modified = 0, fm_created = 0\<rparr>, p)),
     pv_read_dir = (\<lambda>rel p. (Inr [], p)),
     pv_open = (\<lambda>rel c p. if oo_truncate c \<or> oo_create_new c then (Inr rel, p(rel \<mapsto> []))
        else if p rel = None \<and> \<not> oo_create c then (Inl NotFound, p)
        else if p rel = None then (Inr rel, p(rel \<mapsto> [])) else (Inr rel, p)),
     pv_create_dir = (\<lambda>rel p. (Inl Unsupported, p)),
     pv_remove = (\<lambda>rel recursive p. (Inr (), p(rel := None))),
     pv_rename = (\<lambda>src dst p. (Inr (), p(src := None, dst := p src))),
     pv_flush = (\<lambda>p. (Inr (), p)), pv_set_times = (\<lambda>rel a m follow p. (Inr (), p)),
     fl_read_at = (\<lambda>h off n p. (Inr (take n (drop off (case p h of None \<Rightarrow> [] | Some bs \<Rightarrow> bs))), p)),
     fl_write_at = (\<lambda>h off bs p. (Inr (length bs),
        p(h \<mapsto> splice off bs (case p h of None \<Rightarrow> [] | Some bs \<Rightarrow> bs)))),
     fl_set_len = (\<lambda>h n p. (Inr (), p(h \<mapsto> (let body = (case p h of None \<Rightarrow> [] | Some bs \<Rightarrow> bs)
        in take n body @ replicate (n - length body) 0)))),
     fl_flush = (\<lambda>h p. (Inr (), p)), fl_close = (\<lambda>h p. (Inr (), p)),
     fl_metadata = (\<lambda>h p. (Inl Unsupported, p)), fl_set_times = (\<lambda>h a m p. (Inr (), p))\<rparr>"

definition demo_store :: "string \<Rightarrow> byte list option" where
  "demo_store = [''a'' \<mapsto> [1, 2, 3]]"

section \<open>Properties\<close>

text \<open>C16: a read-only mount is read-only. Whatever a guest does through a mount in read-only mode
  (opening with any options, writing, truncating, creating, renaming, removing, changing
  times), the contents of the provider stay what they were, provided the provider's own
  reading operations do not change them.\<close>

theorem read_only_mount_preserves:
  assumes "harmless_reads V content"
  shows "content (mt_provider (fold (guest_apply V to_io ReadOnly) calls (mount_new p))) = content p"
proof -
  have "no_writable_file (fold (guest_apply V to_io ReadOnly) calls (mount_new p))
      \<and> content (mt_provider (fold (guest_apply V to_io ReadOnly) calls (mount_new p))) = content p"
  proof (rule fold_invariant_list [where P = "\<lambda>s. no_writable_file s \<and> content (mt_provider s) = content p"])
    show "no_writable_file (mount_new p) \<and> content (mt_provider (mount_new p)) = content p"
      by (simp add: no_writable_file_def mount_new_def)
  qed (use guest_apply_read_only [OF assms] in metis)
  then show ?thesis ..
qed

theorem read_only_mount_preserves_witness:
  "mt_provider (fold (guest_apply map_provider (\<lambda>e. invalid_seek) ReadOnly)
     [GOpen 1 ''/a'' (open_default\<lparr>oo_write := True, oo_truncate := True\<rparr>), GOpen 2 ''/a'' (open_default\<lparr>oo_read := True\<rparr>),
      GWrite 2 [9], GRemoveFile ''/a'', GSetLen 2 0] (mount_new demo_store)) = demo_store"
  by (rule read_only_mount_preserves [where content = "\<lambda>p. p"])
    (auto simp: harmless_reads_def map_provider_def asks_write_def)

text \<open>The provider is asked about normalised paths only. Two providers that answer alike for
  relative paths made of plain names (no \<open>..\<close>, no \<open>.\<close>, no empty part, not absolute) and on open
  files cannot be told apart by any guest, in any mode: no other path ever reaches them.\<close>

theorem provider_sees_normalised_paths:
  assumes "agree_normalised V W"
  shows "fold (guest_apply V to_io mode) calls s = fold (guest_apply W to_io mode) calls s"
proof -
  have "guest_apply V to_io mode = guest_apply W to_io mode"
    using guest_apply_agree [OF assms] by (intro ext)
  then show ?thesis by (rule arg_cong)
qed

definition strict_provider :: "(string \<Rightarrow> byte list option, string) provider" where
  "strict_provider = map_provider\<lparr>pv_remove := (\<lambda>rel recursive p.
     if rel = ''../secret'' then (Inr (), \<lambda>_. None) else pv_remove map_provider rel recursive p)\<rparr>"

theorem provider_sees_normalised_paths_witness:
  "fold (guest_apply strict_provider (\<lambda>e. invalid_seek) ReadWrite) [GRemoveFile ''/../secret''] (mount_new demo_store)
    = fold (guest_apply map_provider (\<lambda>e. invalid_seek) ReadWrite) [GRemoveFile ''/../secret''] (mount_new demo_store)"
proof (rule provider_sees_normalised_paths)
  have "\<not> normalised ''../secret''"
  proof
    assume "normalised ''../secret''"
    then obtain ns where ns: "\<forall>n \<in> set ns. plain_name n" "''../secret'' = join_slash ns"
      unfolding normalised_def by blast
    then have "ns \<noteq> []" by auto
    with ns have "split_slash ''../secret'' = ns"
      by (metis split_join_slash plain_name_def)
    then have "''..'' \<in> set ns" by auto
    with ns(1) show False by (auto simp: plain_name_def)
  qed
  then show "agree_normalised strict_provider map_provider"
    by (auto simp: agree_normalised_def strict_provider_def fun_eq_iff)
qed

text \<open>Offsets stay in the unsigned 64-bit range. With a provider whose lengths do, no sequence
  of guest calls moves the cursor or the remembered length of an open file out of it,
  however large the seeks.\<close>

theorem provider_file_in_range:
  assumes "lengths_fit V" "list_all call_fits calls"
  shows "in_range (fold (guest_apply V to_io mode) calls (mount_new p))"
proof (rule fold_invariant_list [where P = in_range])
  show "in_range (mount_new p)" by (simp add: in_range_def mount_new_def)
next
  fix x and t :: "('a, 'b) mounted" assume "x \<in> set calls" "in_range t"
  then show "in_range (guest_apply V to_io mode x t)"
    using assms by (intro guest_apply_range) (auto simp: list_all_iff)
qed

theorem provider_file_in_range_witness:
  "in_range (fold (guest_apply map_provider (\<lambda>e. invalid_seek) ReadWrite)
     [GOpen 1 ''a'' (open_default\<lparr>oo_append := True\<rparr>), GSeek 1 (SeekStart (2 ^ 64)), GWrite 1 [1], GSetLen 1 5]
     (mount_new demo_store))"
  by (rule provider_file_in_range)
    (auto simp: lengths_fit_def map_provider_def u64_max_def split: option.split)

text \<open>C17: an open provider file is an ordinary file. When the provider's file stores bytes, the
  answers to any sequence of reads, writes, seeks and truncations, and the contents and cursor
  they leave, are those of a byte list with a cursor (writing past the end pads with zeros),
  as long as offsets stay in range.\<close>

theorem provider_file_refines:
  assumes "stores_bytes V h body" "synced h body s" "stays_in_range opers (abs_file body s)"
  shows "fst (run_file (file_apply V to_io) opers s) = fst (run_file spec_file opers (abs_file body s))
    \<and> abs_file body (snd (run_file (file_apply V to_io) opers s)) = snd (run_file spec_file opers (abs_file body s))"
  using run_file_refines [OF assms, of to_io] by blast

theorem provider_file_refines_witness:
  "fst (run_file (file_apply map_provider (\<lambda>e. invalid_seek))
      [OpSeek (SeekEnd (-1)), OpWrite [8, 9], OpSeek (SeekStart 1), OpRead 9]
      (\<lparr>pf_file = ''a'', pf_cursor = 0, pf_len = 3, pf_writable = True, pf_closed = False\<rparr>, demo_store))
    = [Moved True, Wrote 2, Moved True, GotBytes [2, 8, 9]]"
proof -
  let ?body = "\<lambda>p. case p ''a'' of None \<Rightarrow> [] | Some bs \<Rightarrow> bs"
  let ?s = "(\<lparr>pf_file = ''a'', pf_cursor = 0, pf_len = 3, pf_writable = True, pf_closed = False\<rparr>, demo_store)"
  have "stores_bytes map_provider ''a'' ?body"
    by (simp add: stores_bytes_def map_provider_def Let_def)
  moreover have "synced ''a'' ?body ?s" by (simp add: synced_def demo_store_def)
  moreover have abs: "abs_file ?body ?s = ([1, 2, 3], 0)" by (simp add: abs_file_def demo_store_def)
  moreover have "stays_in_range [OpSeek (SeekEnd (-1)), OpWrite [8, 9], OpSeek (SeekStart 1), OpRead 9] ([1, 2, 3], 0)"
    by (simp add: u64_max_def splice_def)
  ultimately have "fst (run_file (file_apply map_provider (\<lambda>e. invalid_seek))
      [OpSeek (SeekEnd (-1)), OpWrite [8, 9], OpSeek (SeekStart 1), OpRead 9] ?s)
    = fst (run_file spec_file [OpSeek (SeekEnd (-1)), OpWrite [8, 9], OpSeek (SeekStart 1), OpRead 9] ([1, 2, 3], 0))"
    using provider_file_refines [of map_provider "''a''" ?body ?s
        "[OpSeek (SeekEnd (-1)), OpWrite [8, 9], OpSeek (SeekStart 1), OpRead 9]" "\<lambda>e. invalid_seek"]
    unfolding abs by blast
  then show ?thesis by (simp add: u64_max_def splice_def)
qed

end
