(* ===== verification/Packages.thy ===== *)
theory Packages
  imports Errors
begin

text \<open>
  Resolved packages, their sources, and the ways to name a command of one (rust/src/package.rs).
  The binary package is third-party code: its identifier, commands and entrypoint are the
  parameter \<open>B\<close>. A package is shared by reference; \<open>pkg_arc\<close> identifies the shared value.
\<close>

section \<open>Packages\<close>

record ('b, 'i) binary_ops =
  bin_id :: "'b \<Rightarrow> 'i"
  bin_show_id :: "'i \<Rightarrow> string"
  bin_command_names :: "'b \<Rightarrow> string list"
  bin_get_command :: "'b \<Rightarrow> string \<Rightarrow> bool"
  bin_infer_entrypoint :: "'b \<Rightarrow> string + string"

record 'b package =
  pkg_arc :: nat
  pkg_binary :: 'b

definition package_id :: "('b, 'i) binary_ops \<Rightarrow> 'b package \<Rightarrow> string" where
  "package_id B p = bin_show_id B (bin_id B (pkg_binary p))"

definition package_commands_of :: "('b, 'i) binary_ops \<Rightarrow> 'b package \<Rightarrow> string list" where
  "package_commands_of B p = bin_command_names B (pkg_binary p)"

definition package_entrypoint :: "('b, 'i) binary_ops \<Rightarrow> 'b package \<Rightarrow> string option" where
  "package_entrypoint B p = (case bin_infer_entrypoint B (pkg_binary p) of Inl e \<Rightarrow> None | Inr c \<Rightarrow> Some c)"

definition same_as :: "('b, 'i) binary_ops \<Rightarrow> 'b package \<Rightarrow> 'b package \<Rightarrow> bool" where
  "same_as B p q \<longleftrightarrow> pkg_arc p = pkg_arc q \<or> bin_id B (pkg_binary p) = bin_id B (pkg_binary q)"

lemma same_as_refl [simp]: "same_as B p p"
  by (simp add: same_as_def)

lemma same_as_sym: "same_as B p q \<longleftrightarrow> same_as B q p"
  by (auto simp: same_as_def)

section \<open>Command selectors\<close>

record 'b command_ref =
  ref_package :: "'b package"
  ref_name :: string

definition package_command_ref ::
    "('b, 'i) binary_ops \<Rightarrow> 'b package \<Rightarrow> string \<Rightarrow> sdk_error + 'b command_ref" where
  "package_command_ref B p name =
     (if \<not> bin_get_command B (pkg_binary p) name then Inl (CommandNotFound name)
      else Inr \<lparr>ref_package = p, ref_name = name\<rparr>)"

datatype 'b command_selector = NameSel string | RefSel "'b command_ref" | PackageSel "'b package"

section \<open>Package sources\<close>

datatype 'b package_source =
    RegistrySource string
  | PathSource string
  | BytesSource "byte list"
  | WasmModuleSource "byte list" "byte list" bool
  | WebcSource "byte list"
  | ResolvedSource "'b package"

definition source_wasm_module :: "byte list \<Rightarrow> byte list \<Rightarrow> 'b package_source" where
  "source_wasm_module bs sha256 = WasmModuleSource bs sha256 False"

definition source_module :: "byte list \<Rightarrow> byte list \<Rightarrow> bool \<Rightarrow> 'b package_source" where
  "source_module bs sha256 validated = WasmModuleSource bs sha256 validated"

fun source_label :: "('b, 'i) binary_ops \<Rightarrow> 'b package_source \<Rightarrow> string" where
  "source_label B (RegistrySource specifier) = specifier"
| "source_label B (PathSource path) = path"
| "source_label B (BytesSource bs) = ''<'' @ nat_digits (length bs) @ '' in-memory package bytes>''"
| "source_label B (WasmModuleSource bs d v) = ''<'' @ nat_digits (length bs) @ '' in-memory package bytes>''"
| "source_label B (WebcSource bs) = ''<'' @ nat_digits (length bs) @ '' in-memory WEBC bytes>''"
| "source_label B (ResolvedSource p) = package_id B p"

section \<open>Lists without duplicates\<close>

text \<open>No two packages of the list are the same.\<close>

fun no_duplicates :: "('b, 'i) binary_ops \<Rightarrow> 'b package list \<Rightarrow> bool" where
  "no_duplicates B [] = True"
| "no_duplicates B (p # ps) = (list_all (\<lambda>q. \<not> same_as B p q) ps \<and> no_duplicates B ps)"

lemma no_duplicates_snoc:
  "no_duplicates B (ps @ [q]) \<longleftrightarrow> no_duplicates B ps \<and> list_all (\<lambda>p. \<not> same_as B p q) ps"
  by (induction ps) auto

lemma no_duplicates_find:
  assumes "no_duplicates B ps" "p \<in> set ps" "q \<in> set ps" "bin_id B (pkg_binary p) = bin_id B (pkg_binary q)"
  shows "p = q"
  using assms by (induction ps) (auto simp: list_all_iff same_as_def)

text \<open>Packages given by an identifier and the names of their commands, for the witnesses.\<close>

definition listed_binary :: "(string \<times> string list, string) binary_ops" where
  "listed_binary = \<lparr>bin_id = fst, bin_show_id = (\<lambda>i. i), bin_command_names = snd,
     bin_get_command = (\<lambda>b name. name \<in> set (snd b)),
     bin_infer_entrypoint = (\<lambda>b. case snd b of [c] \<Rightarrow> Inr c | _ \<Rightarrow> Inl ''no entrypoint'')\<rparr>"

end
