(* ===== verification/Sandbox.thy ===== *)
theory Sandbox
  imports Packages Process Sandbox_Fs Ordered_Map
begin

text \<open>
  Sandboxes (rust/src/sandbox.rs): the builder, the creation of a sandbox, installing packages,
  the registry of processes with registration and closing, and waiting for a guest port. The
  virtual filesystem \<open>X\<close>, binary packages \<open>B\<close> and WASIX processes \<open>P\<close> are parameters; so is the
  result of loading packages.
\<close>

section \<open>The builder\<close>

datatype network_policy = Disabled | HostNet

record 'v mount_spec =
  ms_guest_path :: string
  ms_filesystem :: 'v
  ms_mode :: mount_mode

record ('b, 'v, 'n) sandbox_builder =
  bd_packages :: "'b package_source list"
  bd_files :: "(string \<times> byte list) list"
  bd_env :: "(string, string) btree"
  bd_mounts :: "'v mount_spec list"
  bd_workspace_provider :: "'v option"
  bd_network :: network_policy
  bd_network_provider :: "'n option"

definition builder_new :: "('b, 'v, 'n) sandbox_builder" where
  "builder_new = \<lparr>bd_packages = [], bd_files = [], bd_env = [], bd_mounts = [],
     bd_workspace_provider = None, bd_network = Disabled, bd_network_provider = None\<rparr>"

definition builder_package :: "'b package_source \<Rightarrow> ('b, 'v, 'n) sandbox_builder \<Rightarrow> ('b, 'v, 'n) sandbox_builder" where
  "builder_package source b = b\<lparr>bd_packages := bd_packages b @ [source]\<rparr>"

definition builder_file :: "string \<Rightarrow> byte list \<Rightarrow> ('b, 'v, 'n) sandbox_builder \<Rightarrow> ('b, 'v, 'n) sandbox_builder" where
  "builder_file path bs b = b\<lparr>bd_files := bd_files b @ [(path, bs)]\<rparr>"

definition builder_env :: "string \<Rightarrow> string \<Rightarrow> ('b, 'v, 'n) sandbox_builder \<Rightarrow> ('b, 'v, 'n) sandbox_builder" where
  "builder_env key val b = b\<lparr>bd_env := bt_insert key val (bd_env b)\<rparr>"

definition builder_envs :: "(string \<times> string) list \<Rightarrow> ('b, 'v, 'n) sandbox_builder \<Rightarrow> ('b, 'v, 'n) sandbox_builder" where
  "builder_envs kvs b = b\<lparr>bd_env := bt_extend kvs (bd_env b)\<rparr>"

definition builder_mount :: "string \<Rightarrow> 'v \<Rightarrow> mount_mode \<Rightarrow> ('b, 'v, 'n) sandbox_builder \<Rightarrow> ('b, 'v, 'n) sandbox_builder" where
  "builder_mount path fs mode b =
     b\<lparr>bd_mounts := bd_mounts b @ [\<lparr>ms_guest_path = path, ms_filesystem = fs, ms_mode = mode\<rparr>]\<rparr>"

definition builder_storage :: "'v \<Rightarrow> ('b, 'v, 'n) sandbox_builder \<Rightarrow> ('b, 'v, 'n) sandbox_builder" where
  "builder_storage fs b = b\<lparr>bd_workspace_provider := Some fs\<rparr>"

definition builder_network :: "network_policy \<Rightarrow> ('b, 'v, 'n) sandbox_builder \<Rightarrow> ('b, 'v, 'n) sandbox_builder" where
  "builder_network policy b = b\<lparr>bd_network := policy, bd_network_provider := None\<rparr>"

definition builder_network_provider :: "'n \<Rightarrow> ('b, 'v, 'n) sandbox_builder \<Rightarrow> ('b, 'v, 'n) sandbox_builder" where
  "builder_network_provider provider b = b\<lparr>bd_network_provider := Some provider\<rparr>"

section \<open>Sandboxes\<close>

text \<open>\<open>sb_processes\<close> are weak references; \<open>sb_live\<close> holds the controls that still have an owner.\<close>

datatype 'v workspace = MemoryWorkspace | ProviderWorkspace 'v

datatype 'n networking = NoNetwork | HostNetwork | ProvidedNetwork 'n

record ('b, 'v, 'n, 'w) sandbox =
  sb_client_closed :: bool
  sb_closed :: bool
  sb_packages :: "'b package list"
  sb_workspace :: "'v workspace"
  sb_env :: "(string, string) btree"
  sb_mounts :: "'v mount_spec list"
  sb_networking :: "'n networking"
  sb_processes :: "nat list"
  sb_live :: "nat \<Rightarrow> 'w control option"

fun distinct_packages :: "('b, 'i) binary_ops \<Rightarrow> 'b package list \<Rightarrow> 'b package list \<Rightarrow> 'b package list" where
  "distinct_packages B [] packages = packages"
| "distinct_packages B (p # ps) packages =
     (if \<not> list_ex (\<lambda>installed. same_as B installed p) packages
      then distinct_packages B ps (packages @ [p]) else distinct_packages B ps packages)"

fun seed_files :: "('f, 'h) vfs_ops \<Rightarrow> (string \<times> byte list) list \<Rightarrow> 'f \<Rightarrow> (sdk_error + unit) \<times> 'f" where
  "seed_files X [] f = (Inr (), f)"
| "seed_files X ((path, bs) # files) f = bind_st (sfs_write X path bs f) (\<lambda>_ f1. seed_files X files f1)"

fun check_mounts :: "'v mount_spec list \<Rightarrow> 'v mount_spec list \<Rightarrow> sdk_error + 'v mount_spec list" where
  "check_mounts [] mounts = Inr mounts"
| "check_mounts (m # ms) mounts =
     bind_res (validate_mount_path (ms_guest_path m)) (\<lambda>_.
       if list_ex (\<lambda>existing. path_eq (ms_guest_path existing) (ms_guest_path m)) mounts
       then Inl (InvalidGuestPath (ms_guest_path m) ''a filesystem is already mounted at this path'')
       else check_mounts ms (mounts @ [m]))"

definition choose_networking :: "('b, 'v, 'n) sandbox_builder \<Rightarrow> 'n networking" where
  "choose_networking b = (case bd_network_provider b of
     Some n \<Rightarrow> ProvidedNetwork n
   | None \<Rightarrow> (case bd_network b of Disabled \<Rightarrow> NoNetwork | HostNet \<Rightarrow> HostNetwork))"

text \<open>\<open>loaded\<close> is the result of loading the builder's packages; \<open>f\<close> is the state of the workspace's
  filesystem.\<close>

definition create_sandbox :: "('b, 'i) binary_ops \<Rightarrow> ('f, 'h) vfs_ops \<Rightarrow> bool \<Rightarrow> sdk_error + 'b package list
    \<Rightarrow> ('b, 'v, 'n) sandbox_builder \<Rightarrow> 'f \<Rightarrow> (sdk_error + ('b, 'v, 'n, 'w) sandbox) \<times> 'f" where
  "create_sandbox B X client_closed loaded b f =
     (if client_closed then (Inl ClientClosed, f)
      else bind_st (loaded, f) (\<lambda>packages f.
        bind_st (seed_files X (bd_files b) f) (\<lambda>_ f1.
        bind_st (check_mounts (bd_mounts b) [], f1) (\<lambda>mounts f1.
          (Inr \<lparr>sb_client_closed = client_closed, sb_closed = False,
                sb_packages = distinct_packages B packages [],
                sb_workspace = (case bd_workspace_provider b of
                   Some p \<Rightarrow> ProviderWorkspace p | None \<Rightarrow> MemoryWorkspace),
                sb_env = bd_env b, sb_mounts = mounts, sb_networking = choose_networking b,
                sb_processes = [], sb_live = (\<lambda>_. None)\<rparr>, f1)))))"

definition ensure_open :: "('b, 'v, 'n, 'w) sandbox \<Rightarrow> sdk_error + unit" where
  "ensure_open s = (if sb_client_closed s then Inl ClientClosed
     else if sb_closed s then Inl SandboxClosed else Inr ())"

text \<open>\<open>install_package\<close> after its load: the sandbox is checked again, as it may have been closed
  meanwhile.\<close>

definition finish_install :: "('b, 'i) binary_ops \<Rightarrow> 'b package \<Rightarrow> ('b, 'v, 'n, 'w) sandbox
    \<Rightarrow> (sdk_error + 'b package) \<times> ('b, 'v, 'n, 'w) sandbox" where
  "finish_install B p s = (case ensure_open s of
     Inl e \<Rightarrow> (Inl e, s)
   | Inr u \<Rightarrow> (case find (\<lambda>installed. same_as B installed p) (sb_packages s) of
       Some installed \<Rightarrow> (Inr installed, s)
     | None \<Rightarrow> (Inr p, s\<lparr>sb_packages := sb_packages s @ [p]\<rparr>)))"

definition install_package :: "('b, 'i) binary_ops
    \<Rightarrow> (('b, 'v, 'n, 'w) sandbox \<Rightarrow> ('b, 'v, 'n, 'w) sandbox) \<Rightarrow> sdk_error + 'b package
    \<Rightarrow> ('b, 'v, 'n, 'w) sandbox \<Rightarrow> (sdk_error + 'b package) \<times> ('b, 'v, 'n, 'w) sandbox" where
  "install_package B meanwhile loaded s = (case ensure_open s of
     Inl e \<Rightarrow> (Inl e, s)
   | Inr u \<Rightarrow> bind_st (loaded, meanwhile s) (finish_install B))"

definition register_process :: "nat \<Rightarrow> 'w control \<Rightarrow> ('b, 'v, 'n, 'w) sandbox \<Rightarrow> ('b, 'v, 'n, 'w) sandbox" where
  "register_process pid c s =
     (let live = (sb_live s)(pid := Some c)
      in s\<lparr>sb_live := live, sb_processes := filter (\<lambda>q. live q \<noteq> None) (sb_processes s) @ [pid]\<rparr>)"

text \<open>Closing kills the processes of the registry that can still be upgraded.\<close>

definition kill_live :: "'w wasi_ops \<Rightarrow> bool \<Rightarrow> nat \<Rightarrow> (nat \<Rightarrow> 'w control option) \<Rightarrow> nat \<Rightarrow> 'w control option" where
  "kill_live P browser pid live = (case live pid of
     None \<Rightarrow> live | Some c \<Rightarrow> live(pid := Some (control_kill P browser c)))"

definition close_sandbox :: "'w wasi_ops \<Rightarrow> bool \<Rightarrow> ('b, 'v, 'n, 'w) sandbox \<Rightarrow> ('b, 'v, 'n, 'w) sandbox" where
  "close_sandbox P browser s = s\<lparr>sb_closed := True,
     sb_live := fold (kill_live P browser) (sb_processes s) (sb_live s), sb_processes := []\<rparr>"

section \<open>Waiting for a port\<close>

datatype net_error = NetUnsupported | NetRefused | NetNotConnected | NetOther nat

datatype socket_status = Opening | Opened | Failed | SocketClosed

text \<open>One poll of the probe's socket. \<open>last_error\<close> is what the socket reports when it failed.\<close>

definition probe_poll :: "net_error + socket_status \<Rightarrow> net_error + net_error option
    \<Rightarrow> (net_error + unit) poll" where
  "probe_poll status last_error = (case status of
     Inl e \<Rightarrow> Ready (Inl e)
   | Inr Opened \<Rightarrow> Ready (Inr ())
   | Inr Opening \<Rightarrow> Pending
   | Inr Failed \<Rightarrow> (case last_error of
         Inl e \<Rightarrow> Ready (Inl e)
       | Inr None \<Rightarrow> Ready (Inl NetRefused)
       | Inr (Some e) \<Rightarrow> Ready (Inl e))
   | Inr SocketClosed \<Rightarrow> Ready (Inl NetNotConnected))"

fun probe_tcp :: "((net_error + socket_status) \<times> (net_error + net_error option)) list \<Rightarrow> (net_error + unit) poll" where
  "probe_tcp [] = Pending"
| "probe_tcp ((status, err) # polls) = (case probe_poll status err of
     Pending \<Rightarrow> probe_tcp polls | Ready r \<Rightarrow> Ready r)"

definition port_timeout :: "nat \<Rightarrow> sdk_error" where
  "port_timeout port = Timeout (''guest port '' @ nat_digits port @ '' to accept connections'')"

text \<open>\<open>rounds\<close> are the probes that come to an end before the deadline: whether the sandbox was open
  when the round began, and the probe's result.\<close>

fun probe_rounds :: "nat \<Rightarrow> ((sdk_error + unit) \<times> (net_error + unit)) list \<Rightarrow> sdk_error + unit" where
  "probe_rounds port [] = Inl (port_timeout port)"
| "probe_rounds port ((opened, probe) # rounds) = (case opened of
     Inl e \<Rightarrow> Inl e
   | Inr u \<Rightarrow> (case probe of
         Inr u \<Rightarrow> Inr ()
       | Inl NetUnsupported \<Rightarrow> Inl (CapabilityUnavailable ''port probing requires sandbox networking'')
       | Inl e \<Rightarrow> probe_rounds port rounds))"

definition ports_wait :: "nat \<Rightarrow> nat \<Rightarrow> ((sdk_error + unit) \<times> (net_error + unit)) list \<Rightarrow> sdk_error + unit" where
  "ports_wait port timeout rounds =
     (if timeout = 0 then Inl (port_timeout port) else probe_rounds port rounds)"

end
