(* ===== verification/Sandbox_Safety.thy ===== *)
theory Sandbox_Safety
  imports Sandbox Fs_Safety
begin

text \<open>
  What a sandbox guarantees: its packages are distinct, its mounts are distinct and never
  reserved paths, closing it stops every process that was registered, and what happens to a spawn
  that is under way meanwhile.
\<close>

section \<open>A sandbox among its tasks\<close>

text \<open>\<open>sy_spawning\<close>: spawns that found the sandbox open and have not registered their process yet;
  \<open>sy_raced\<close>: those that were at that point when the sandbox was closed.\<close>

record ('b, 'v, 'n, 'w) sandbox_system =
  sy_sandbox :: "('b, 'v, 'n, 'w) sandbox"
  sy_spawning :: "nat list"
  sy_raced :: "nat list"

definition requests :: "'w wasi_ops \<Rightarrow> bool \<Rightarrow> ('w control \<Rightarrow> 'w control) list" where
  "requests P browser = [signal_terminate P, control_kill P browser, kill_timed_out P browser]"

inductive sandbox_step :: "('b, 'i) binary_ops \<Rightarrow> 'w wasi_ops \<Rightarrow> bool
    \<Rightarrow> ('b, 'v, 'n, 'w) sandbox_system \<Rightarrow> ('b, 'v, 'n, 'w) sandbox_system \<Rightarrow> bool"
  for B :: "('b, 'i) binary_ops" and P :: "'w wasi_ops" and browser :: bool where
  begin_spawn: "ensure_open (sy_sandbox s) = Inr () \<Longrightarrow> sb_live (sy_sandbox s) pid = None \<Longrightarrow>
     sandbox_step B P browser s (s\<lparr>sy_spawning := pid # sy_spawning s\<rparr>)"
| end_spawn: "pid \<in> set (sy_spawning s) \<Longrightarrow>
     sandbox_step B P browser s (s\<lparr>sy_sandbox := register_process pid c (sy_sandbox s),
        sy_spawning := remove1 pid (sy_spawning s)\<rparr>)"
| fail_spawn: "sandbox_step B P browser s (s\<lparr>sy_spawning := remove1 pid (sy_spawning s)\<rparr>)"
| install: "sandbox_step B P browser s (s\<lparr>sy_sandbox := snd (finish_install B p (sy_sandbox s))\<rparr>)"
| close: "sandbox_step B P browser s (s\<lparr>sy_sandbox := close_sandbox P browser (sy_sandbox s),
     sy_raced := sy_spawning s @ sy_raced s\<rparr>)"
| close_client: "sandbox_step B P browser s (s\<lparr>sy_sandbox := (sy_sandbox s)\<lparr>sb_client_closed := True\<rparr>\<rparr>)"
| guest_runs: "sb_live (sy_sandbox s) pid = Some c \<Longrightarrow>
     wp_try_join P (ctl_world c) = None \<or> wp_try_join P w \<noteq> None \<Longrightarrow>
     sandbox_step B P browser s (s\<lparr>sy_sandbox := (sy_sandbox s)\<lparr>sb_live :=
        (sb_live (sy_sandbox s))(pid := Some (c\<lparr>ctl_world := w\<rparr>))\<rparr>\<rparr>)"
| ask: "sb_live (sy_sandbox s) pid = Some c \<Longrightarrow> f \<in> set (requests P browser) \<Longrightarrow>
     sandbox_step B P browser s (s\<lparr>sy_sandbox := (sy_sandbox s)\<lparr>sb_live :=
        (sb_live (sy_sandbox s))(pid := Some (f c))\<rparr>\<rparr>)"
| release: "sandbox_step B P browser s (s\<lparr>sy_sandbox := (sy_sandbox s)\<lparr>sb_live :=
        (sb_live (sy_sandbox s))(pid := None)\<rparr>\<rparr>)"

definition fresh_system :: "('b, 'i) binary_ops \<Rightarrow> ('b, 'v, 'n, 'w) sandbox_system \<Rightarrow> bool" where
  "fresh_system B s \<longleftrightarrow> \<not> sb_closed (sy_sandbox s) \<and> sb_processes (sy_sandbox s) = []
     \<and> sb_live (sy_sandbox s) = (\<lambda>_. None) \<and> no_duplicates B (sb_packages (sy_sandbox s))
     \<and> sy_spawning s = [] \<and> sy_raced s = []"

section \<open>Stopped processes\<close>

text \<open>A process that has exited, or was asked to.\<close>

definition stopping :: "'w wasi_ops \<Rightarrow> 'w control \<Rightarrow> bool" where
  "stopping P c \<longleftrightarrow> ctl_exit c \<noteq> None \<or> try_join_exited P c"

lemma exit_compare_exchange_set [simp]: "ctl_exit (exit_compare_exchange r c) \<noteq> None"
  using exit_cell.get_put [of r c] by (cases "ctl_exit c") auto

lemma exit_compare_exchange_Some [simp]: "\<exists>y. ctl_exit (exit_compare_exchange r c) = Some y"
  using exit_compare_exchange_set [of r c] by blast

lemma stopping_requests:
  assumes "f \<in> set (requests P browser)"
  shows "stopping P (f c)"
proof (cases "try_join_exited P c")
  case True
  then have "f c = c" using assms
    by (auto simp: requests_def signal_terminate_def control_kill_def kill_timed_out_def record_exit_if_running_def)
  then show ?thesis using True by (simp add: stopping_def)
next
  case False
  then show ?thesis using assms by (auto simp: requests_def stopping_def ctl_exit_requests)
qed

lemma stopping_kill [simp]: "stopping P (control_kill P browser c)"
  by (rule stopping_requests [of _ P browser]) (simp add: requests_def)

lemma kill_all:
  "fold (kill_live P browser) pids live pid = Some c \<Longrightarrow>
     (\<exists>c0. live pid = Some c0 \<and> (pid \<in> set pids \<or> stopping P c0 \<longrightarrow> stopping P c))"
proof (induction pids arbitrary: live)
  case (Cons q pids)
  then obtain c1 where c1: "kill_live P browser q live pid = Some c1"
      "pid \<in> set pids \<or> stopping P c1 \<longrightarrow> stopping P c" by fastforce
  then show ?case
    by (auto simp: kill_live_def split: option.splits if_splits)
qed auto

section \<open>The invariant\<close>

definition sandbox_inv :: "('b, 'i) binary_ops \<Rightarrow> 'w wasi_ops \<Rightarrow> ('b, 'v, 'n, 'w) sandbox_system \<Rightarrow> bool" where
  "sandbox_inv B P s \<longleftrightarrow> no_duplicates B (sb_packages (sy_sandbox s))
     \<and> (\<not> sb_closed (sy_sandbox s) \<longrightarrow>
          (\<forall>pid. sb_live (sy_sandbox s) pid \<noteq> None \<longrightarrow> pid \<in> set (sb_processes (sy_sandbox s))))
     \<and> (sb_closed (sy_sandbox s) \<longrightarrow> set (sy_spawning s) \<subseteq> set (sy_raced s)
          \<and> (\<forall>pid c. sb_live (sy_sandbox s) pid = Some c \<longrightarrow> stopping P c \<or> pid \<in> set (sy_raced s)))"

lemma finish_install_fields [simp]:
  "sb_closed (snd (finish_install B p s)) = sb_closed s"
  "sb_live (snd (finish_install B p s)) = sb_live s"
  "sb_processes (snd (finish_install B p s)) = sb_processes s"
  by (auto simp: finish_install_def split: sum.split option.split)

lemma finish_install_distinct:
  "no_duplicates B (sb_packages s) \<Longrightarrow> no_duplicates B (sb_packages (snd (finish_install B p s)))"
  by (auto simp: finish_install_def no_duplicates_snoc list_all_iff find_None_iff split: sum.split option.split)

lemma register_fields [simp]:
  "sb_closed (register_process pid c s) = sb_closed s"
  "sb_packages (register_process pid c s) = sb_packages s"
  "sb_live (register_process pid c s) = (sb_live s)(pid := Some c)"
  by (simp_all add: register_process_def Let_def)

lemma register_processes:
  "set (sb_processes (register_process pid c s)) =
     {q \<in> set (sb_processes s). q = pid \<or> sb_live s q \<noteq> None} \<union> {pid}"
  by (auto simp: register_process_def Let_def)

lemma sandbox_inv_step: "sandbox_inv B P s \<Longrightarrow> sandbox_step B P browser s t \<Longrightarrow> sandbox_inv B P t"
proof -
  assume inv: "sandbox_inv B P s" and step: "sandbox_step B P browser s t"
  from step show ?thesis
  proof cases
    case (begin_spawn pid)
    then show ?thesis using inv by (auto simp: sandbox_inv_def ensure_open_def split: if_splits)
  next
    case (end_spawn pid c)
    then show ?thesis using inv
      by (auto simp: sandbox_inv_def register_processes dest: notin_set_remove1 in_set_takeD
          set_remove1_subset [THEN subsetD])
  next
    case (fail_spawn pid)
    then show ?thesis using inv by (auto simp: sandbox_inv_def dest: set_remove1_subset [THEN subsetD])
  next
    case (install p)
    then show ?thesis using inv by (simp add: sandbox_inv_def finish_install_distinct)
  next
    case close
    have "stopping P c \<or> pid \<in> set (sy_raced s)"
      if "fold (kill_live P browser) (sb_processes (sy_sandbox s)) (sb_live (sy_sandbox s)) pid = Some c" for pid c
      using kill_all [OF that] inv by (cases "sb_closed (sy_sandbox s)") (auto simp: sandbox_inv_def)
    then show ?thesis using close inv by (auto simp: sandbox_inv_def close_sandbox_def)
  next
    case close_client
    then show ?thesis using inv by (simp add: sandbox_inv_def)
  next
    case (guest_runs pid c w)
    have "stopping P c \<Longrightarrow> stopping P (c\<lparr>ctl_world := w\<rparr>)"
      using guest_runs(3) by (auto simp: stopping_def try_join_exited_def)
    then show ?thesis using guest_runs(1,2) inv by (auto simp: sandbox_inv_def)
  next
    case (ask pid c f)
    then show ?thesis using inv stopping_requests [OF ask(3)] by (auto simp: sandbox_inv_def)
  next
    case (release pid)
    then show ?thesis using inv by (auto simp: sandbox_inv_def)
  qed
qed

interpretation sandbox: inductive_invariant "fresh_system B" "sandbox_step B P browser" "sandbox_inv B P"
proof unfold_locales
  show "fresh_system B s \<Longrightarrow> sandbox_inv B P s" for s
    by (simp add: fresh_system_def sandbox_inv_def)
qed (rule sandbox_inv_step)

section \<open>Properties\<close>

lemma distinct_packages_inv:
  "no_duplicates B acc \<Longrightarrow> no_duplicates B (distinct_packages B ps acc)"
proof (induction ps arbitrary: acc)
  case (Cons p ps)
  show ?case
  proof (cases "list_ex (\<lambda>installed. same_as B installed p) acc")
    case False
    then have "no_duplicates B (acc @ [p])"
      using Cons.prems by (auto simp: no_duplicates_snoc list_all_iff list_ex_iff)
    then show ?thesis using False Cons.IH by simp
  qed (simp add: Cons)
qed simp

lemma distinct_packages_covers:
  "p \<in> set acc \<Longrightarrow> p \<in> set (distinct_packages B ps acc)"
  "p \<in> set ps \<Longrightarrow> \<exists>q \<in> set (distinct_packages B ps acc). same_as B q p"
  "set (distinct_packages B ps acc) \<subseteq> set acc \<union> set ps"
proof -
  have keep: "p \<in> set acc \<Longrightarrow> p \<in> set (distinct_packages B ps acc)" for p ps acc
    by (induction ps arbitrary: acc) auto
  then show "p \<in> set acc \<Longrightarrow> p \<in> set (distinct_packages B ps acc)" .
  show "p \<in> set ps \<Longrightarrow> \<exists>q \<in> set (distinct_packages B ps acc). same_as B q p"
  proof (induction ps arbitrary: acc)
    case (Cons r ps)
    show ?case
    proof (cases "p = r")
      case True
      show ?thesis
      proof (cases "list_ex (\<lambda>installed. same_as B installed p) acc")
        case True
        then obtain q where "q \<in> set acc" "same_as B q p" by (auto simp: list_ex_iff)
        moreover have "q \<in> set (distinct_packages B (r # ps) acc)"
          using True \<open>p = r\<close> keep [OF \<open>q \<in> set acc\<close>] by simp
        ultimately show ?thesis by blast
      next
        case False
        have "p \<in> set (distinct_packages B (r # ps) acc)"
          using False \<open>p = r\<close> keep [of p "acc @ [r]"] by simp
        then show ?thesis by (auto intro!: bexI [of _ p])
      qed
    next
      case False
      then have "p \<in> set ps" using Cons.prems by simp
      then show ?thesis using Cons.IH by simp
    qed
  qed simp
  show "set (distinct_packages B ps acc) \<subseteq> set acc \<union> set ps"
  proof (induction ps arbitrary: acc)
    case (Cons r ps)
    show ?case using Cons.IH [of acc] Cons.IH [of "acc @ [r]"] by auto
  qed simp
qed

text \<open>A path is reserved for a mount if it is the root or the workspace.\<close>

definition mountable :: "string \<Rightarrow> bool" where
  "mountable p \<longleftrightarrow> has_root p \<and> ParentDir \<notin> set (components p)
     \<and> \<not> path_eq p ''/'' \<and> \<not> path_eq p ''/workspace''"

fun distinct_mounts :: "'v mount_spec list \<Rightarrow> bool" where
  "distinct_mounts [] = True"
| "distinct_mounts (m # ms) =
     (list_all (\<lambda>n. \<not> path_eq (ms_guest_path m) (ms_guest_path n)) ms \<and> distinct_mounts ms)"

lemma distinct_mounts_snoc:
  "distinct_mounts (ms @ [m]) \<longleftrightarrow>
     distinct_mounts ms \<and> list_all (\<lambda>n. \<not> path_eq (ms_guest_path n) (ms_guest_path m)) ms"
  by (induction ms) auto

lemma validate_mount_path_mountable: "validate_mount_path p = Inr () \<Longrightarrow> mountable p"
  by (auto simp: validate_mount_path_def mountable_def res_iffs validate_guest_path_Inr split: if_splits)

lemma check_mounts_Inr:
  "check_mounts ms acc = Inr mounts \<Longrightarrow> distinct_mounts acc \<Longrightarrow> list_all (\<lambda>m. mountable (ms_guest_path m)) acc \<Longrightarrow>
     mounts = acc @ ms \<and> distinct_mounts mounts \<and> list_all (\<lambda>m. mountable (ms_guest_path m)) mounts"
proof (induction ms arbitrary: acc)
  case (Cons m ms)
  have ok: "validate_mount_path (ms_guest_path m) = Inr ()"
      "\<not> list_ex (\<lambda>n. path_eq (ms_guest_path n) (ms_guest_path m)) acc"
      and rest: "check_mounts ms (acc @ [m]) = Inr mounts"
    using Cons.prems(1) by (auto simp: res_iffs split: if_splits)
  have "distinct_mounts (acc @ [m])"
    using ok(2) Cons.prems(2) by (auto simp: distinct_mounts_snoc list_all_iff list_ex_iff)
  moreover have "list_all (\<lambda>m. mountable (ms_guest_path m)) (acc @ [m])"
    using validate_mount_path_mountable [OF ok(1)] Cons.prems(3) by simp
  ultimately have "mounts = (acc @ [m]) @ ms \<and> distinct_mounts mounts
      \<and> list_all (\<lambda>m. mountable (ms_guest_path m)) mounts"
    using Cons.IH [OF rest] by blast
  then show ?case unfolding append_assoc append.simps .
qed simp



section \<open>Witnesses\<close>

definition demo_loaded :: "(string \<times> string list) package list" where
  "demo_loaded = [\<lparr>pkg_arc = 1, pkg_binary = (''a'', [''run''])\<rparr>, \<lparr>pkg_arc = 2, pkg_binary = (''a'', [''run''])\<rparr>]"

definition demo_builder :: "(string \<times> string list, unit, unit) sandbox_builder" where
  "demo_builder = builder_mount ''/data'' () ReadOnly (builder_mount ''/data/sub'' () ReadWrite builder_new)"

definition demo_sandbox :: "(string \<times> string list, unit, unit, int option \<times> signal list) sandbox" where
  "demo_sandbox = \<lparr>sb_client_closed = False, sb_closed = False,
     sb_packages = [\<lparr>pkg_arc = 1, pkg_binary = (''a'', [''run''])\<rparr>], sb_workspace = MemoryWorkspace,
     sb_env = [], sb_mounts = bd_mounts demo_builder, sb_networking = NoNetwork, sb_processes = [],
     sb_live = (\<lambda>_. None)\<rparr>"

definition demo_system :: "(string \<times> string list, unit, unit, int option \<times> signal list) sandbox_system" where
  "demo_system = \<lparr>sy_sandbox = demo_sandbox, sy_spawning = [], sy_raced = []\<rparr>"

lemma demo_fresh: "fresh_system listed_binary demo_system"
  by (simp add: fresh_system_def demo_system_def demo_sandbox_def)

lemma demo_created: "create_sandbox listed_binary flat_vfs False (Inr demo_loaded) demo_builder Map.empty
    = (Inr demo_sandbox, Map.empty)"
proof -
  have "check_mounts (bd_mounts demo_builder) [] = Inr (bd_mounts demo_builder)"
    by code_simp
  moreover have "distinct_packages listed_binary demo_loaded [] = sb_packages demo_sandbox"
    by code_simp
  ultimately show ?thesis
    by (simp add: create_sandbox_def demo_builder_def builder_mount_def builder_new_def demo_sandbox_def
        choose_networking_def)
qed



text \<open>C22: closing races with spawning: whatever the backend, a spawn that found the sandbox open may
  register its process after \<open>close\<close> has returned, and the process then runs in a closed sandbox
  without having been asked to exit.\<close>

theorem spawn_outlives_close:
  fixes P :: "'w wasi_ops" and s :: "('b, 'v, 'n, 'w) sandbox_system"
  assumes "wp_try_join P w = None" and "fresh_system B s" and "\<not> sb_client_closed (sy_sandbox s)"
  shows "\<exists>t :: ('b, 'v, 'n, 'w) sandbox_system. reachable (fresh_system B) (sandbox_step B P browser) t \<and> sb_closed (sy_sandbox t)
    \<and> sb_processes (sy_sandbox t) = [pid]
    \<and> sb_live (sy_sandbox t) pid = Some \<lparr>ctl_world = w, ctl_stdin = None, ctl_exit = None\<rparr>
    \<and> \<not> try_join_exited P \<lparr>ctl_world = w, ctl_stdin = None, ctl_exit = None\<rparr>"
proof -
  let ?c = "\<lparr>ctl_world = w, ctl_stdin = None, ctl_exit = None\<rparr>"
  define s1 where "s1 = s\<lparr>sy_spawning := pid # sy_spawning s\<rparr>"
  define s2 where "s2 = s1\<lparr>sy_sandbox := close_sandbox P browser (sy_sandbox s1), sy_raced := sy_spawning s1 @ sy_raced s1\<rparr>"
  define s3 where "s3 = s2\<lparr>sy_sandbox := register_process pid ?c (sy_sandbox s2), sy_spawning := remove1 pid (sy_spawning s2)\<rparr>"
  have fresh: "ensure_open (sy_sandbox s) = Inr ()" "sb_live (sy_sandbox s) pid = None"
    using assms(2,3) by (simp_all add: fresh_system_def ensure_open_def)
  have "sandbox_step B P browser s s1" unfolding s1_def by (rule sandbox_step.begin_spawn [OF fresh])
  moreover have "sandbox_step B P browser s1 s2" unfolding s2_def by (rule sandbox_step.close)
  moreover have "sandbox_step B P browser s2 s3" unfolding s3_def
    by (rule sandbox_step.end_spawn) (simp add: s2_def s1_def)
  ultimately have "reachable (fresh_system B) (sandbox_step B P browser) s3"
    using assms(2) by (blast intro: reachable.intros)
  moreover have "sb_closed (sy_sandbox s3)" "sb_processes (sy_sandbox s3) = [pid]"
      "sb_live (sy_sandbox s3) pid = Some ?c"
    by (simp_all add: s3_def s2_def s1_def close_sandbox_def register_process_def)
  moreover have "\<not> try_join_exited P ?c" using assms(1) by (simp add: try_join_exited_def)
  ultimately show ?thesis by blast
qed

theorem spawn_outlives_close_witness:
  "\<exists>t :: (string \<times> string list, unit, unit, int option \<times> signal list) sandbox_system. reachable (fresh_system listed_binary) (sandbox_step listed_binary log_ops False) t \<and> sb_closed (sy_sandbox t)
    \<and> sb_processes (sy_sandbox t) = [7]
    \<and> sb_live (sy_sandbox t) 7 = Some \<lparr>ctl_world = (None, []), ctl_stdin = None, ctl_exit = None\<rparr>
    \<and> \<not> try_join_exited log_ops \<lparr>ctl_world = (None, []), ctl_stdin = None, ctl_exit = None\<rparr>"
  by (rule spawn_outlives_close [OF _ demo_fresh]) (simp_all add: log_ops_def demo_system_def demo_sandbox_def)

section \<open>Waiting for a port\<close>

definition retryable :: "(sdk_error + unit) \<times> (net_error + unit) \<Rightarrow> bool" where
  "retryable r \<longleftrightarrow> fst r = Inr () \<and> snd r \<noteq> Inr () \<and> snd r \<noteq> Inl NetUnsupported"

text \<open>What waiting for a port reports. The first probe that is not a mere refusal in an open
  sandbox decides: the closed sandbox's error, success when it connected, and the missing
  capability when networking is unsupported. The timeout is reported exactly when no probe decided
  before the deadline, or the wait was to take no time at all.\<close>

theorem ports_wait_reports:
  "ports_wait port timeout rounds =
     (if timeout = 0 then Inl (port_timeout port)
      else case dropWhile retryable rounds of
          [] \<Rightarrow> Inl (port_timeout port)
        | (Inl e, _) # _ \<Rightarrow> Inl e
        | (Inr u, Inr v) # _ \<Rightarrow> Inr ()
        | (Inr u, Inl e) # _ \<Rightarrow> Inl (CapabilityUnavailable ''port probing requires sandbox networking''))"
proof -
  have "probe_rounds port rounds = (case dropWhile retryable rounds of
          [] \<Rightarrow> Inl (port_timeout port)
        | (Inl e, _) # _ \<Rightarrow> Inl e
        | (Inr u, Inr v) # _ \<Rightarrow> Inr ()
        | (Inr u, Inl e) # _ \<Rightarrow> Inl (CapabilityUnavailable ''port probing requires sandbox networking''))"
    by (induction rounds) (auto simp: retryable_def split: sum.split net_error.split prod.split)
  then show ?thesis by (simp add: ports_wait_def)
qed

end
