(* ===== verification/Command.thy ===== *)
theory Command
  imports Sandbox
begin

text \<open>
  Commands (rust/src/command.rs): the builder, the resolution of a selector to a package and a
  command, the environment, the wiring of the standard streams, local package mounts, spawning a
  process and running one to completion. The WASIX runner, the module cache and host filesystems
  are third-party code and parameters.
\<close>

section \<open>The builder\<close>

datatype stdio = Piped | CaptureMode | NullMode

record 'b command =
  cmd_selector :: "'b command_selector"
  cmd_args :: "string list"
  cmd_env :: "(string, string) btree"
  cmd_current_dir :: string
  cmd_input :: "byte list"
  cmd_output_bytes :: "usize option"
  cmd_timeout :: "nat option"
  cmd_stdin :: stdio
  cmd_stdout :: stdio
  cmd_stderr :: stdio
  cmd_stream_bytes :: usize
  cmd_terminal :: "terminal_options option"

definition command_new :: "'b command_selector \<Rightarrow> 'b command" where
  "command_new selector = \<lparr>cmd_selector = selector, cmd_args = [], cmd_env = [],
     cmd_current_dir = ''/workspace'', cmd_input = [], cmd_output_bytes = None, cmd_timeout = None,
     cmd_stdin = NullMode, cmd_stdout = Piped, cmd_stderr = Piped, cmd_stream_bytes = 64 * 1024,
     cmd_terminal = None\<rparr>"

definition command_arg :: "string \<Rightarrow> 'b command \<Rightarrow> 'b command" where
  "command_arg a c = c\<lparr>cmd_args := cmd_args c @ [a]\<rparr>"

definition command_args :: "string list \<Rightarrow> 'b command \<Rightarrow> 'b command" where
  "command_args as c = c\<lparr>cmd_args := cmd_args c @ as\<rparr>"

definition command_env :: "string \<Rightarrow> string \<Rightarrow> 'b command \<Rightarrow> 'b command" where
  "command_env key val c = c\<lparr>cmd_env := bt_insert key val (cmd_env c)\<rparr>"

definition command_current_dir :: "string \<Rightarrow> 'b command \<Rightarrow> 'b command" where
  "command_current_dir path c = c\<lparr>cmd_current_dir := path\<rparr>"

definition command_input :: "byte list \<Rightarrow> 'b command \<Rightarrow> 'b command" where
  "command_input bs c = c\<lparr>cmd_input := bs\<rparr>"

definition command_output_bytes :: "usize \<Rightarrow> 'b command \<Rightarrow> 'b command" where
  "command_output_bytes n c = c\<lparr>cmd_output_bytes := Some n\<rparr>"

definition command_timeout :: "nat \<Rightarrow> 'b command \<Rightarrow> 'b command" where
  "command_timeout d c = c\<lparr>cmd_timeout := Some d\<rparr>"

definition command_stdin :: "stdio \<Rightarrow> 'b command \<Rightarrow> 'b command" where
  "command_stdin mode c = c\<lparr>cmd_stdin := mode\<rparr>"

definition command_stdout :: "stdio \<Rightarrow> 'b command \<Rightarrow> 'b command" where
  "command_stdout mode c = c\<lparr>cmd_stdout := mode\<rparr>"

definition command_stderr :: "stdio \<Rightarrow> 'b command \<Rightarrow> 'b command" where
  "command_stderr mode c = c\<lparr>cmd_stderr := mode\<rparr>"

definition command_stream_bytes :: "usize \<Rightarrow> 'b command \<Rightarrow> 'b command" where
  "command_stream_bytes n c = c\<lparr>cmd_stream_bytes := max n 1\<rparr>"

definition command_terminal :: "terminal_options \<Rightarrow> 'b command \<Rightarrow> 'b command" where
  "command_terminal options c = c\<lparr>cmd_terminal := Some options\<rparr>"

section \<open>Resolution\<close>

definition provides :: "('b, 'i) binary_ops \<Rightarrow> string \<Rightarrow> 'b package \<Rightarrow> bool" where
  "provides B name p \<longleftrightarrow> bin_get_command B (pkg_binary p) name"

fun resolve_command :: "('b, 'i) binary_ops \<Rightarrow> 'b package list \<Rightarrow> 'b command_selector
    \<Rightarrow> sdk_error + 'b package \<times> string" where
  "resolve_command B packages (NameSel name) =
     (case filter (provides B name) packages of
        [] \<Rightarrow> Inl (CommandNotFound name)
      | [p] \<Rightarrow> Inr (p, name)
      | many \<Rightarrow> Inl (CommandAmbiguous name (map (package_id B) many)))"
| "resolve_command B packages (RefSel r) =
     (case find (\<lambda>p. same_as B p (ref_package r)) packages of
        None \<Rightarrow> Inl (PackageNotInstalled (package_id B (ref_package r)))
      | Some p \<Rightarrow> Inr (p, ref_name r))"
| "resolve_command B packages (PackageSel requested) =
     (case find (\<lambda>p. same_as B p requested) packages of
        None \<Rightarrow> Inl (PackageNotInstalled (package_id B requested))
      | Some p \<Rightarrow> (case bin_infer_entrypoint B (pkg_binary p) of
            Inl e \<Rightarrow> Inl (PackageHasNoEntrypoint (package_id B p))
          | Inr entrypoint \<Rightarrow> Inr (p, entrypoint)))"

section \<open>The environment\<close>

text \<open>The sandbox's values, overridden by the command's.\<close>

definition spawn_env :: "(string, string) btree \<Rightarrow> 'b command \<Rightarrow> (string, string) btree" where
  "spawn_env sandbox_env c = bt_extend (cmd_env c) sandbox_env"

text \<open>\<open>Vec::retain\<close> with \<open>HashSet::insert\<close> as its predicate.\<close>

fun retain_unseen :: "string set \<Rightarrow> (string \<times> 'x) list \<Rightarrow> (string \<times> 'x) list" where
  "retain_unseen seen [] = []"
| "retain_unseen seen ((key, val) # env) =
     (if key \<in> seen then retain_unseen seen env else (key, val) # retain_unseen (insert key seen) env)"

definition deduplicate_environment :: "(string \<times> 'x) list \<Rightarrow> (string \<times> 'x) list" where
  "deduplicate_environment env = rev (retain_unseen {} (rev env))"

section \<open>The standard streams\<close>

datatype guest_file = NullFile | StdinPipe usize | RetainedPipe usize capture | CapturedFile capture_file

definition guest_output_file :: "stdio \<Rightarrow> capture \<Rightarrow> usize \<Rightarrow> guest_file \<times> bool \<times> bool" where
  "guest_output_file mode h stream_bytes = (case mode of
     Piped \<Rightarrow> (RetainedPipe (max stream_bytes 1) h, True, True)
   | CaptureMode \<Rightarrow> (CapturedFile (capture_file_new h), False, False)
   | NullMode \<Rightarrow> (NullFile, False, False))"

text \<open>The guest's three files and what is left for the application: \<open>io_stdin\<close> is the process's
  plain stdin, \<open>io_terminal_input\<close> the writer kept for the terminal.\<close>

record stdio_plan =
  io_guest_stdin :: guest_file
  io_stdin :: bool
  io_terminal_input :: bool
  io_guest_stdout :: guest_file
  io_stdout :: bool
  io_terminal_echo :: bool
  io_guest_stderr :: guest_file
  io_stderr :: bool

definition effective_mode :: "'b command \<Rightarrow> stdio \<Rightarrow> stdio" where
  "effective_mode c mode = (if cmd_terminal c \<noteq> None then Piped else mode)"

definition wire_stdio :: "usize \<Rightarrow> 'b command \<Rightarrow> stdio_plan" where
  "wire_stdio limit c =
     (let terminal = cmd_terminal c \<noteq> None;
          stdin_piped = effective_mode c (cmd_stdin c) = Piped;
          (stdout_file, stdout_stream, echo) =
            guest_output_file (effective_mode c (cmd_stdout c)) (capture_new limit) (cmd_stream_bytes c);
          (stderr_file, stderr_stream, _) =
            guest_output_file (effective_mode c (cmd_stderr c)) (capture_new limit) (cmd_stream_bytes c)
      in \<lparr>io_guest_stdin = (if stdin_piped then StdinPipe (max (cmd_stream_bytes c) 1) else NullFile),
          io_stdin = (stdin_piped \<and> \<not> terminal), io_terminal_input = (stdin_piped \<and> terminal),
          io_guest_stdout = stdout_file, io_stdout = stdout_stream, io_terminal_echo = echo,
          io_guest_stderr = stderr_file, io_stderr = stderr_stream\<rparr>)"

text \<open>The terminal's line discipline takes over the stdin writer and echoes to the stdout pipe.\<close>

definition attach_terminal :: "'b command \<Rightarrow> stdio_plan \<Rightarrow> sdk_error + bool" where
  "attach_terminal c plan =
     (if \<not> io_terminal_input plan then Inr (io_stdin plan)
      else if cmd_terminal c = None then Inl (InternalState ''terminal input has no terminal bridge'')
      else if \<not> io_terminal_echo plan then Inl (InternalState ''terminal mode has no output stream'')
      else Inr True)"

section \<open>Local package mounts\<close>

text \<open>\<open>mo_overlay\<close> puts a fresh writable layer over a host directory; \<open>mo_mount_root\<close> mounts it at
  the root of a mount filesystem.\<close>

record ('m, 'r, 't) mount_ops =
  mo_host :: "string \<Rightarrow> string + 'm"
  mo_overlay :: "'m \<Rightarrow> 'r"
  mo_create_dir_all :: "string \<Rightarrow> 'r \<Rightarrow> string + 'r"
  mo_mount_root :: "'r \<Rightarrow> string + 't"
  mo_mount :: "string \<Rightarrow> 'm \<Rightarrow> 't \<Rightarrow> string + 't"

record host_mapping =
  hm_guest :: string
  hm_host :: string

definition mount_failure :: "host_mapping \<Rightarrow> string \<Rightarrow> sdk_error" where
  "mount_failure m e = Execution (''unable to mount local package directory `'' @ hm_host m @
     ''` at `'' @ hm_guest m @ ''`: '' @ e)"

fun runner_mounts :: "('m, 'r, 't) mount_ops \<Rightarrow> host_mapping list \<Rightarrow> (string \<times> 'm) list \<Rightarrow> sdk_error + (string \<times> 'm) list" where
  "runner_mounts M [] acc = Inr acc"
| "runner_mounts M (m # ms) acc =
     bind_res (map_err (mount_failure m) (mo_host M (hm_host m))) (\<lambda>fs.
       runner_mounts M ms (acc @ [(hm_guest m, fs)]))"

fun create_dirs :: "('m, 'r, 't) mount_ops \<Rightarrow> (string \<Rightarrow> string \<Rightarrow> sdk_error) \<Rightarrow> string list \<Rightarrow> 'r \<Rightarrow> sdk_error + 'r" where
  "create_dirs M fail [] r = Inr r"
| "create_dirs M fail (p # ps) r =
     bind_res (map_err (fail p) (mo_create_dir_all M p r)) (create_dirs M fail ps)"

fun mount_mappings :: "('m, 'r, 't) mount_ops \<Rightarrow> host_mapping list \<Rightarrow> 't \<Rightarrow> sdk_error + 't" where
  "mount_mappings M [] t = Inr t"
| "mount_mappings M (m # ms) t =
     bind_res (map_err (mount_failure m) (mo_host M (hm_host m))) (\<lambda>fs.
     bind_res (map_err (mount_failure m) (mo_mount M (hm_guest m) fs t)) (mount_mappings M ms))"

definition runtime_dirs :: "string list" where
  "runtime_dirs = [''/home'', ''/dev'', ''/dev/shm'', ''/tmp'']"

definition no_runtime_dir :: "string \<Rightarrow> string \<Rightarrow> sdk_error" where
  "no_runtime_dir path e = Execution (''unable to create guest runtime directory `'' @ path @ ''`: '' @ e)"

definition no_mount_point :: "string \<Rightarrow> string \<Rightarrow> sdk_error" where
  "no_mount_point path e = Execution (''unable to create local package mount point `'' @ path @ ''`: '' @ e)"

definition apply_local_package_mounts :: "('m, 'r, 't) mount_ops \<Rightarrow> host_mapping list
    \<Rightarrow> sdk_error + (string \<times> 'm) list \<times> 't option" where
  "apply_local_package_mounts M mappings =
     (case find (\<lambda>m. hm_guest m = ''/'') mappings of
        None \<Rightarrow> map_ok (\<lambda>ms. (ms, None)) (runner_mounts M mappings [])
      | Some root \<Rightarrow>
          (let others = filter (\<lambda>m. hm_guest m \<noteq> ''/'') mappings in
           bind_res (map_err (\<lambda>e. Execution (''unable to use local package directory `'' @ hm_host root @
               ''` as the guest root: '' @ e)) (mo_host M (hm_host root))) (\<lambda>fs.
           bind_res (create_dirs M no_runtime_dir runtime_dirs (mo_overlay M fs)) (\<lambda>r1.
           bind_res (create_dirs M no_mount_point (map hm_guest others) r1) (\<lambda>r2.
           bind_res (map_err (\<lambda>e. Execution (''unable to mount the local package root: '' @ e)) (mo_mount_root M r2)) (\<lambda>t.
           map_ok (\<lambda>t'. ([], Some t')) (mount_mappings M others t)))))))"

text \<open>Without host filesystems (the browser) such a package is refused.\<close>

definition apply_local_package_mounts_browser :: "host_mapping list \<Rightarrow> sdk_error + (string \<times> 'm) list \<times> 't option" where
  "apply_local_package_mounts_browser mappings =
     (if mappings = [] then Inr ([], None) else Inl (CapabilityUnavailable ''local package directory mounts''))"

section \<open>Compiling ahead of the run\<close>

record ('d, 'g) module_cache_ops =
  mc_contains :: "'d \<Rightarrow> 'g \<Rightarrow> string + bool"
  mc_compile :: "'d \<Rightarrow> string + unit"
  mc_save :: "'d \<Rightarrow> 'g \<Rightarrow> string + 'g"

definition precompile_browser_command :: "('d, 'g) module_cache_ops \<Rightarrow> bool \<Rightarrow> 'd \<Rightarrow> 'g \<Rightarrow> sdk_error + 'g" where
  "precompile_browser_command K on_window h g =
     (if \<not> on_window then Inr g
      else bind_res (map_err (\<lambda>e. Execution (''unable to inspect the compiled-command cache: '' @ e)) (mc_contains K h g)) (\<lambda>cached.
        if cached then Inr g
        else bind_res (map_err (\<lambda>e. Execution (''unable to compile the command: '' @ e)) (mc_compile K h)) (\<lambda>_.
          map_err (\<lambda>e. Execution (''unable to cache the compiled command: '' @ e)) (mc_save K h g))))"

end
