(* ===== verification/Spawn.thy ===== *)
theory Spawn
  imports Command
begin

text \<open>
  Spawning a command and running it to completion (\<open>Command::spawn\<close>, \<open>Command::output\<close> and
  \<open>Command::run\<close> in rust/src/command.rs). The WASIX runner is the parameter \<open>S\<close>: it turns a launch
  into an environment list, an environment list into a process, and starts the process.
\<close>

section \<open>Launches\<close>

datatype ('v, 'm) mount_target = LocalDir 'm | WorkspaceDir | ProviderDir 'v mount_mode

record ('b, 'v, 'm, 't) launch =
  la_executable :: string
  la_package :: 'b
  la_args :: "string list"
  la_envs :: "(string, string) btree"
  la_forward_host_env :: bool
  la_current_dir :: string
  la_mounts :: "(string \<times> ('v, 'm) mount_target) list"
  la_injected :: "'b list"
  la_stdio :: stdio_plan
  la_root :: "'t option"

record ('b, 'v, 'm, 't, 'w) spawn_ops =
  so_mappings :: "'b \<Rightarrow> host_mapping list"
  so_precompile :: "'b \<Rightarrow> string \<Rightarrow> sdk_error + unit"
  so_exec_name :: "'b \<Rightarrow> string \<Rightarrow> string + string option"
  so_prepare :: "('b, 'v, 'm, 't) launch \<Rightarrow> string + (string \<times> byte list) list"
  so_build :: "('b, 'v, 'm, 't) launch \<Rightarrow> (string \<times> byte list) list \<Rightarrow> string + 'w"
  so_exec :: "'b \<Rightarrow> string \<Rightarrow> 'w \<Rightarrow> string + unit"
  so_schedule :: "nat \<Rightarrow> string + unit"

definition provider_mounts :: "'v mount_spec list \<Rightarrow> (string \<times> ('v, 'm) mount_target) list" where
  "provider_mounts ms = map (\<lambda>m. (ms_guest_path m, ProviderDir (ms_filesystem m) (ms_mode m))) ms"

definition output_limit :: "usize \<Rightarrow> 'b command \<Rightarrow> usize" where
  "output_limit client_limit c = (case cmd_output_bytes c of None \<Rightarrow> client_limit | Some n \<Rightarrow> n)"

definition make_launch :: "('b, 'i) binary_ops \<Rightarrow> usize \<Rightarrow> 'b command \<Rightarrow> ('b, 'v, 'n, 'w) sandbox
    \<Rightarrow> string \<Rightarrow> 'b package \<Rightarrow> (string \<times> 'm) list \<times> 't option \<Rightarrow> string \<Rightarrow> ('b, 'v, 'm, 't) launch" where
  "make_launch B client_limit c s cwd selected mounted executable =
     \<lparr>la_executable = executable, la_package = pkg_binary selected, la_args = cmd_args c,
      la_envs = spawn_env (sb_env s) c, la_forward_host_env = False, la_current_dir = cwd,
      la_mounts = map (\<lambda>(path, fs). (path, LocalDir fs)) (fst mounted)
        @ [(''/workspace'', WorkspaceDir)] @ provider_mounts (sb_mounts s),
      la_injected = map pkg_binary (filter (\<lambda>p. \<not> same_as B p selected) (sb_packages s)),
      la_stdio = wire_stdio (output_limit client_limit c) c, la_root = snd mounted\<rparr>"

section \<open>Spawning\<close>

text \<open>Everything up to a started process. \<open>browser\<close> is the build without host filesystems.\<close>

definition start_guest :: "('b, 'i) binary_ops \<Rightarrow> ('b, 'v, 'm, 't, 'w) spawn_ops \<Rightarrow> ('m, 'r, 't) mount_ops \<Rightarrow> bool
    \<Rightarrow> usize \<Rightarrow> 'b command \<Rightarrow> ('b, 'v, 'n, 'w) sandbox
    \<Rightarrow> sdk_error + ('b, 'v, 'm, 't) launch \<times> (string \<times> byte list) list \<times> 'w \<times> bool" where
  "start_guest B S M browser client_limit c s =
     bind_res (ensure_open s) (\<lambda>_.
     bind_res (validate_guest_path (cmd_current_dir c)) (\<lambda>cwd.
     bind_res (resolve_command B (sb_packages s) (cmd_selector c)) (\<lambda>(selected, name).
     bind_res (if browser then apply_local_package_mounts_browser (so_mappings S (pkg_binary selected))
               else apply_local_package_mounts M (so_mappings S (pkg_binary selected))) (\<lambda>mounted.
     bind_res (if bin_get_command B (pkg_binary selected) name then Inr () else Inl (CommandNotFound name)) (\<lambda>_.
     bind_res (so_precompile S (pkg_binary selected) name) (\<lambda>_.
     bind_res (map_err (\<lambda>e. Execution (''unable to read command metadata: '' @ e))
         (so_exec_name S (pkg_binary selected) name)) (\<lambda>exec_name.
     let launch = make_launch B client_limit c s cwd selected mounted
           (case exec_name of None \<Rightarrow> name | Some e \<Rightarrow> e) in
     bind_res (map_err (\<lambda>e. Execution (''unable to prepare the WASI environment: '' @ e)) (so_prepare S launch)) (\<lambda>prepared.
     let env = deduplicate_environment prepared in
     bind_res (map_err (\<lambda>e. Execution (''unable to build the WASI environment: '' @ e)) (so_build S launch env)) (\<lambda>w.
     bind_res (attach_terminal c (la_stdio launch)) (\<lambda>stdin.
     map_ok (\<lambda>_. (launch, env, w, stdin))
       (map_err (\<lambda>e. Execution (''unable to spawn the command: '' @ e)) (so_exec S (pkg_binary selected) name w))))))))))))"

text \<open>The process takes the streams by the numbers 0, 1 and 2. Between the start and the
  registration other tasks may have run (\<open>meanwhile\<close>). When the deadline cannot be scheduled the
  process is dropped again.\<close>

definition spawned_process :: "usize \<Rightarrow> 'o \<Rightarrow> discipline \<Rightarrow> 'b command \<Rightarrow> ('b, 'v, 'm, 't) launch \<Rightarrow> 'w \<Rightarrow> bool
    \<Rightarrow> ('w, 'o) process" where
  "spawned_process client_limit base defaults c launch w stdin =
     process_new w (if stdin then Some 0 else None)
       (if io_stdout (la_stdio launch) then Some 1 else None)
       (if io_stderr (la_stdio launch) then Some 2 else None)
       (capture_new (output_limit client_limit c)) (capture_new (output_limit client_limit c))
       (map_option (terminal_bridge_new base defaults) (cmd_terminal c))"

definition spawn_command :: "('b, 'i) binary_ops \<Rightarrow> ('b, 'v, 'm, 't, 'w) spawn_ops \<Rightarrow> ('m, 'r, 't) mount_ops \<Rightarrow> bool
    \<Rightarrow> usize \<Rightarrow> 'o \<Rightarrow> discipline \<Rightarrow> nat \<Rightarrow> (('b, 'v, 'n, 'w) sandbox \<Rightarrow> ('b, 'v, 'n, 'w) sandbox)
    \<Rightarrow> 'b command \<Rightarrow> ('b, 'v, 'n, 'w) sandbox
    \<Rightarrow> (sdk_error + ('w, 'o) process) \<times> ('b, 'v, 'n, 'w) sandbox" where
  "spawn_command B S M browser client_limit base defaults pid meanwhile c s =
     bind_st (start_guest B S M browser client_limit c s, meanwhile s) (\<lambda>(launch, env, w, stdin) s1.
       let p = spawned_process client_limit base defaults c launch w stdin;
           s2 = register_process pid (pr_control p) s1
       in case cmd_timeout c of
            None \<Rightarrow> (Inr p, s2)
          | Some duration \<Rightarrow> (case so_schedule S duration of
                Inl e \<Rightarrow> (Inl (TaskError (''unable to schedule the command deadline: '' @ e)),
                  s2\<lparr>sb_live := (sb_live s2)(pid := None)\<rparr>)
              | Inr _ \<Rightarrow> (Inr p, s2)))"

section \<open>Running to completion\<close>

definition output_command :: "'b command \<Rightarrow> 'b command" where
  "output_command c = c\<lparr>cmd_stdin := (if cmd_input c = [] then NullMode else Piped),
     cmd_stdout := CaptureMode, cmd_stderr := CaptureMode\<rparr>"

definition tolerate_early_exit :: "io_error + unit \<Rightarrow> io_error + unit" where
  "tolerate_early_exit result = (case result of
     Inl e \<Rightarrow> if io_error_kind e = BrokenPipe \<or> io_error_kind e = WriteZero then Inr () else Inl e
   | Inr u \<Rightarrow> Inr u)"

definition feed_stdin :: "bool \<Rightarrow> io_error + unit \<Rightarrow> io_error + unit \<Rightarrow> io_error + unit" where
  "feed_stdin has_stdin written shut =
     (if has_stdin then bind_res (tolerate_early_exit written) (\<lambda>_. tolerate_early_exit shut) else Inr ())"

text \<open>\<open>feed\<close> and \<open>finish\<close> are how the concurrent write of the input and the wait end.\<close>

definition command_output :: "('b, 'i) binary_ops \<Rightarrow> ('b, 'v, 'm, 't, 'w) spawn_ops \<Rightarrow> ('m, 'r, 't) mount_ops \<Rightarrow> bool
    \<Rightarrow> usize \<Rightarrow> 'o \<Rightarrow> discipline \<Rightarrow> nat \<Rightarrow> (('b, 'v, 'n, 'w) sandbox \<Rightarrow> ('b, 'v, 'n, 'w) sandbox)
    \<Rightarrow> (io_error + unit) \<times> (io_error + unit) \<Rightarrow> (('w, 'o) process \<Rightarrow> sdk_error + process_output)
    \<Rightarrow> 'b command \<Rightarrow> ('b, 'v, 'n, 'w) sandbox \<Rightarrow> sdk_error + process_output" where
  "command_output B S M browser client_limit base defaults pid meanwhile feed finish c s =
     bind_res (fst (spawn_command B S M browser client_limit base defaults pid meanwhile (output_command c) s)) (\<lambda>p.
       let (stdin, p1) = take_stdin p in
       bind_res (map_err SdkIo (feed_stdin (stdin \<noteq> None) (fst feed) (snd feed))) (\<lambda>_. finish p1))"

definition command_run where
  "command_run B S M browser client_limit base defaults pid meanwhile feed finish c s =
     bind_res (command_output B S M browser client_limit base defaults pid meanwhile feed finish c s) output_check"

end
