(* ===== verification/Command_Safety.thy ===== *)
theory Command_Safety
  imports Spawn Pipe_Wakeup "HOL-Library.Sublist"
begin

text \<open>
  Properties of commands: which package and command a selector resolves to, which environment a
  guest gets, what a spawn hands to the runner, and that running a command to completion does not
  make the guest wait for a reader.
\<close>

section \<open>Resolution\<close>

fun selected_package :: "'b command_selector \<Rightarrow> 'b package option" where
  "selected_package (NameSel name) = None"
| "selected_package (RefSel r) = Some (ref_package r)"
| "selected_package (PackageSel p) = Some p"

text \<open>A shared reference has one value.\<close>

definition shared_values :: "'b package list \<Rightarrow> 'b command_selector \<Rightarrow> bool" where
  "shared_values packages sel \<longleftrightarrow> (\<forall>p \<in> set packages. \<forall>q. selected_package sel = Some q \<longrightarrow>
     pkg_arc p = pkg_arc q \<longrightarrow> pkg_binary p = pkg_binary q)"

definition same_id :: "('b, 'i) binary_ops \<Rightarrow> 'b package \<Rightarrow> 'b package \<Rightarrow> bool" where
  "same_id B p q \<longleftrightarrow> bin_id B (pkg_binary p) = bin_id B (pkg_binary q)"

lemma distinct_single: "distinct xs \<Longrightarrow> set xs = {x} \<Longrightarrow> xs = [x]"
proof (cases xs)
  case (Cons y ys)
  assume "distinct xs" "set xs = {x}"
  then have "y = x" "set ys \<subseteq> {x}" "x \<notin> set ys" using Cons by auto
  then show ?thesis using Cons by (cases ys) auto
qed simp

lemma filter_single:
  assumes "no_duplicates B ps"
  shows "filter Q ps = [p] \<longleftrightarrow> p \<in> set ps \<and> Q p \<and> (\<forall>q \<in> set ps. Q q \<longrightarrow> q = p)"
proof
  assume "filter Q ps = [p]"
  then have "set (filter Q ps) = {p}" by simp
  then show "p \<in> set ps \<and> Q p \<and> (\<forall>q \<in> set ps. Q q \<longrightarrow> q = p)" by auto
next
  have distinct: "distinct ps" using assms by (induction ps) (auto simp: list_all_iff)
  assume p: "p \<in> set ps \<and> Q p \<and> (\<forall>q \<in> set ps. Q q \<longrightarrow> q = p)"
  then have "set (filter Q ps) = {p}" by auto
  moreover have "distinct (filter Q ps)" using distinct by simp
  ultimately show "filter Q ps = [p]" using distinct_single by metis
qed

lemma find_same:
  assumes "no_duplicates B ps" "\<forall>p \<in> set ps. pkg_arc p = pkg_arc q \<longrightarrow> pkg_binary p = pkg_binary q"
  shows "find (\<lambda>p. same_as B p q) ps = Some p \<longleftrightarrow> p \<in> set ps \<and> same_id B p q"
  using assms
proof (induction ps)
  case (Cons r ps)
  have same: "same_as B r q \<longleftrightarrow> same_id B r q"
    using Cons.prems(2) by (auto simp: same_as_def same_id_def)
  show ?case
  proof (cases "same_id B r q")
    case True
    then have "p = r" if "p \<in> set ps" "same_id B p q"
      using that no_duplicates_find [OF Cons.prems(1), of p r] by (simp add: same_id_def)
    then show ?thesis using True same by auto
  next
    case False
    then show ?thesis using same Cons by auto
  qed
qed simp

lemma resolve_name_Inr:
  assumes "no_duplicates B packages"
  shows "resolve_command B packages (NameSel n) = Inr (p, name) \<longleftrightarrow>
    p \<in> set packages \<and> name = n \<and> provides B n p \<and> (\<forall>q \<in> set packages. provides B n q \<longrightarrow> q = p)"
proof -
  have "resolve_command B packages (NameSel n) = Inr (p, name) \<longleftrightarrow> filter (provides B n) packages = [p] \<and> name = n"
    by (cases "filter (provides B n) packages" rule: remdups_adj.cases) auto
  then show ?thesis unfolding filter_single [OF assms] by blast
qed

lemma resolve_name_Inl:
  assumes "resolve_command B packages (NameSel n) = Inl e"
  shows "e = CommandNotFound n \<and> (\<forall>q \<in> set packages. \<not> provides B n q) \<or>
    (\<exists>ps. e = CommandAmbiguous n (map (package_id B) ps) \<and> 2 \<le> length ps \<and>
       set ps = {q \<in> set packages. provides B n q})"
proof -
  let ?ps = "filter (provides B n) packages"
  have "set ?ps = {q \<in> set packages. provides B n q}" by auto
  moreover have "?ps = [] \<and> e = CommandNotFound n \<or> 2 \<le> length ?ps \<and> e = CommandAmbiguous n (map (package_id B) ?ps)"
    using assms by (cases "filter (provides B n) packages" rule: remdups_adj.cases) auto
  ultimately show ?thesis by (metis (no_types, lifting) filter_empty_conv)
qed

lemma find_shared:
  assumes "no_duplicates B packages" "shared_values packages sel" "selected_package sel = Some q"
  shows "find (\<lambda>p. same_as B p q) packages = Some p \<longleftrightarrow> p \<in> set packages \<and> same_id B p q"
  using assms find_same [OF assms(1), of q] by (simp add: shared_values_def)

text \<open>C23: what a selector resolves to. Among packages without duplicates, a name resolves exactly when
  one package provides it, and then to that package; a package-qualified command to the installed
  package of that identifier, and a package to its entrypoint. A name that no package provides is
  not found, one that several provide is ambiguous and the error names them all; a package that is
  not installed or has no entrypoint is reported as such.\<close>

theorem command_resolution:
  assumes "no_duplicates B packages" and "shared_values packages sel"
  shows "(resolve_command B packages sel = Inr (p, name) \<longleftrightarrow> p \<in> set packages \<and>
     (case sel of
        NameSel n \<Rightarrow> name = n \<and> provides B n p \<and> (\<forall>q \<in> set packages. provides B n q \<longrightarrow> q = p)
      | RefSel r \<Rightarrow> name = ref_name r \<and> same_id B p (ref_package r)
      | PackageSel q \<Rightarrow> same_id B p q \<and> bin_infer_entrypoint B (pkg_binary p) = Inr name))
   \<and> (resolve_command B packages sel = Inl e \<longrightarrow>
     (case sel of
        NameSel n \<Rightarrow> e = CommandNotFound n \<and> (\<forall>q \<in> set packages. \<not> provides B n q)
          \<or> (\<exists>ps. e = CommandAmbiguous n (map (package_id B) ps) \<and> 2 \<le> length ps
                \<and> set ps = {q \<in> set packages. provides B n q})
      | RefSel r \<Rightarrow> e = PackageNotInstalled (package_id B (ref_package r))
          \<and> (\<forall>q \<in> set packages. \<not> same_id B q (ref_package r))
      | PackageSel q \<Rightarrow> e = PackageNotInstalled (package_id B q) \<and> (\<forall>p \<in> set packages. \<not> same_id B p q)
          \<or> (\<exists>p \<in> set packages. same_id B p q \<and> e = PackageHasNoEntrypoint (package_id B p))))"
proof (cases sel)
  case (NameSel n)
  then show ?thesis
    using resolve_name_Inr [OF assms(1)] resolve_name_Inl [of B packages n e] by (simp del: resolve_command.simps)
next
  case (RefSel r)
  note found = find_shared [OF assms, of "ref_package r", simplified RefSel selected_package.simps, OF refl]
  show ?thesis
    using found by (cases "find (\<lambda>p. same_as B p (ref_package r)) packages") (auto simp: RefSel)
next
  case (PackageSel r)
  note found = find_shared [OF assms, of r, simplified PackageSel selected_package.simps, OF refl]
  show ?thesis
  proof (cases "find (\<lambda>p. same_as B p r) packages")
    case None
    then show ?thesis using found by (auto simp: PackageSel)
  next
    case (Some q)
    then have q: "q \<in> set packages" "same_id B q r" using found by auto
    have "p \<in> set packages \<and> same_id B p r \<longleftrightarrow> p = q"
      using found [of p] Some by auto
    then show ?thesis
      using Some q by (cases "bin_infer_entrypoint B (pkg_binary q)") (auto simp: PackageSel)
  qed
qed

definition demo_packages :: "(string \<times> string list) package list" where
  "demo_packages = [\<lparr>pkg_arc = 1, pkg_binary = (''a'', [''run'', ''a''])\<rparr>, \<lparr>pkg_arc = 2, pkg_binary = (''b'', [''run''])\<rparr>]"

theorem command_resolution_witness:
  "resolve_command listed_binary demo_packages (NameSel ''a'')
     = Inr (\<lparr>pkg_arc = 1, pkg_binary = (''a'', [''run'', ''a''])\<rparr>, ''a'')"
proof -
  have "no_duplicates listed_binary demo_packages" "shared_values demo_packages (NameSel ''a'')"
    by (simp_all add: demo_packages_def same_as_def listed_binary_def shared_values_def)
  note resolved = command_resolution [OF this, THEN conjunct1, THEN iffD2]
  show ?thesis
    by (rule resolved) (simp add: demo_packages_def provides_def listed_binary_def)
qed

section \<open>The environment\<close>

lemma retain_unseen_keys:
  "distinct (map fst (retain_unseen seen env)) \<and> fst ` set (retain_unseen seen env) = fst ` set env - seen"
  by (induction seen env rule: retain_unseen.induct) auto

lemma retain_unseen_lookup:
  "map_of (retain_unseen seen env) k = (if k \<in> seen then None else map_of env k)"
  by (induction seen env rule: retain_unseen.induct) auto

lemma deduplicate_keys: "distinct (map fst (deduplicate_environment env))"
  using retain_unseen_keys [of "{}" "rev env"] by (simp add: deduplicate_environment_def rev_map [symmetric])

lemma map_of_rev: "distinct (map fst xs) \<Longrightarrow> map_of (rev xs) = map_of xs"
  by (rule map_of_inject_set [THEN iffD2]) (auto simp: rev_map [symmetric])

lemma deduplicate_lookup: "map_of (deduplicate_environment env) k = map_of (rev env) k"
proof -
  have "distinct (map fst (retain_unseen {} (rev env)))" using retain_unseen_keys by blast
  then show ?thesis
    by (simp add: deduplicate_environment_def map_of_rev retain_unseen_lookup)
qed

lemma retain_unseen_subseq: "subseq (retain_unseen seen env) env"
  by (induction seen env rule: retain_unseen.induct) auto

lemma subseq_rev: "subseq xs ys \<Longrightarrow> subseq (rev xs) (rev ys)"
proof (induction rule: list_emb.induct)
  case (list_emb_Cons2 x y xs ys)
  then have "subseq (rev xs @ [x]) (rev ys @ [y])" by (intro list_emb_append_mono) auto
  then show ?case by simp
qed (auto intro: subseq_rev_drop_many)

lemma deduplicate_subseq: "subseq (deduplicate_environment env) env"
  using subseq_rev [OF retain_unseen_subseq [of "{}" "rev env"]] by (simp add: deduplicate_environment_def)

lemma start_guest_Inr:
  assumes "start_guest B S M browser client_limit c s = Inr (launch, env, w, stdin)"
  obtains cwd selected name mounted exec_name prepared where
    "ensure_open s = Inr ()" "validate_guest_path (cmd_current_dir c) = Inr cwd"
    "resolve_command B (sb_packages s) (cmd_selector c) = Inr (selected, name)"
    "bin_get_command B (pkg_binary selected) name"
    "launch = make_launch B client_limit c s cwd selected mounted exec_name"
    "so_prepare S launch = Inr prepared" "env = deduplicate_environment prepared"
    "so_build S launch env = Inr w" "attach_terminal c (la_stdio launch) = Inr stdin"
proof -
  have provided: "(if q then Inr () else Inl e) = Inr u \<longleftrightarrow> q" for q u and e :: sdk_error by simp
  show thesis
    using assms unfolding start_guest_def Let_def
    by (simp only: bind_res_Inr_iff map_ok_Inr_iff map_err_Inr_iff split_paired_Ex prod.case provided)
      (elim exE conjE, simp only: prod.inject, elim conjE, rule that, (assumption | simp)+)
qed

text \<open>What the runner promises of the environment it prepares: the defaults of the package's
  annotations come first, the values it was given afterwards.\<close>

definition env_layers :: "('b, 'v, 'm, 't, 'w) spawn_ops \<Rightarrow> ('b \<Rightarrow> (string \<times> byte list) list) \<Rightarrow> bool" where
  "env_layers S defaults \<longleftrightarrow> (\<forall>launch env. so_prepare S launch = Inr env \<longrightarrow>
     env = defaults (la_package launch) @ map (\<lambda>(k, v). (k, bytes_of v)) (la_envs launch))"

lemma map_of_layer:
  assumes "bt_ok m"
  shows "map_of (rev (map (\<lambda>(k, v). (k, g v)) m)) k = map_option g (bt_get m k)"
proof -
  have "map fst (map (\<lambda>(k, v). (k, g v)) m) = bt_keys m" by (auto simp: bt_keys_def)
  then have "map_of (rev (map (\<lambda>(k, v). (k, g v)) m)) = map_of (map (\<lambda>(k, v). (k, g v)) m)"
    using bt_ok_distinct [OF assms] by (intro map_of_rev) simp
  then show ?thesis by (simp add: bt_get_def map_of_map)
qed


section \<open>Launches\<close>


section \<open>A spawn that works, for the witnesses\<close>

definition demo_spawn :: "(string \<times> string list, unit, unit, unit, int option \<times> signal list) spawn_ops" where
  "demo_spawn = \<lparr>so_mappings = (\<lambda>b. []), so_precompile = (\<lambda>b n. Inr ()), so_exec_name = (\<lambda>b n. Inr None),
     so_prepare = (\<lambda>l. Inr ([(''HOME'', [1]), (''PATH'', [2])] @ map (\<lambda>(k, v). (k, bytes_of v)) (la_envs l))),
     so_build = (\<lambda>l env. Inr (None, [])), so_exec = (\<lambda>b n w. Inr ()), so_schedule = (\<lambda>d. Inr ())\<rparr>"

definition demo_mount_ops :: "(unit, unit, unit) mount_ops" where
  "demo_mount_ops = \<lparr>mo_host = (\<lambda>p. Inr ()), mo_overlay = (\<lambda>m. ()), mo_create_dir_all = (\<lambda>p r. Inr ()),
     mo_mount_root = (\<lambda>r. Inr ()), mo_mount = (\<lambda>p m t. Inr ())\<rparr>"

definition demo_open :: "(string \<times> string list, unit, unit, int option \<times> signal list) sandbox" where
  "demo_open = \<lparr>sb_client_closed = False, sb_closed = False, sb_packages = demo_packages,
     sb_workspace = MemoryWorkspace, sb_env = [(''HOME'', ''/h''), (''LANG'', ''C'')],
     sb_mounts = [\<lparr>ms_guest_path = ''/data'', ms_filesystem = (), ms_mode = ReadOnly\<rparr>],
     sb_networking = NoNetwork, sb_processes = [], sb_live = (\<lambda>_. None)\<rparr>"

definition demo_command :: "(string \<times> string list) command" where
  "demo_command = command_env ''LANG'' ''D'' (command_new (NameSel ''a''))"

lemma demo_dir: "validate_guest_path ''/workspace'' = Inr ''/workspace''"
  by code_simp

lemma demo_resolve: "resolve_command listed_binary demo_packages (NameSel ''a'')
    = Inr (\<lparr>pkg_arc = 1, pkg_binary = (''a'', [''run'', ''a''])\<rparr>, ''a'')"
  by code_simp

definition demo_launch :: "(string \<times> string list, unit, unit, unit) launch" where
  "demo_launch = make_launch listed_binary 100 demo_command demo_open ''/workspace''
     \<lparr>pkg_arc = 1, pkg_binary = (''a'', [''run'', ''a''])\<rparr> ([], None) ''a''"

definition demo_selected :: "(string \<times> string list) package" where
  "demo_selected = \<lparr>pkg_arc = 1, pkg_binary = (''a'', [''run'', ''a''])\<rparr>"

lemma demo_get: "bin_get_command listed_binary b name \<longleftrightarrow> name \<in> set (snd b)"
  by (simp add: listed_binary_def)

lemma demo_parts:
  "ensure_open demo_open = Inr ()" "cmd_current_dir demo_command = ''/workspace''"
  "resolve_command listed_binary (sb_packages demo_open) (cmd_selector demo_command) = Inr (demo_selected, ''a'')"
  "apply_local_package_mounts demo_mount_ops (so_mappings demo_spawn b) = Inr ([], None)"
  "bin_get_command listed_binary (pkg_binary demo_selected) ''a''"
  "so_precompile demo_spawn b n = Inr ()" "so_exec_name demo_spawn b n = Inr None"
  "so_build demo_spawn l e = Inr (None, [])" "so_exec demo_spawn b n w = Inr ()"
  by (simp_all add: demo_open_def ensure_open_def demo_command_def command_env_def command_new_def
      demo_resolve [simplified] demo_selected_def apply_local_package_mounts_def demo_spawn_def demo_get)

lemma demo_launch_parts:
  "la_envs demo_launch = [(''HOME'', ''/h''), (''LANG'', ''D'')]"
  "attach_terminal demo_command (la_stdio demo_launch) = Inr False"
  by (simp_all add: demo_launch_def make_launch_def spawn_env_def demo_open_def demo_command_def command_env_def
      command_new_def bt_extend_def attach_terminal_def wire_stdio_def effective_mode_def guest_output_file_def Let_def)

lemma demo_started: "start_guest listed_binary demo_spawn demo_mount_ops False 100 demo_command demo_open
    = Inr (demo_launch, [(''PATH'', [2]), (''HOME'', bytes_of ''/h''), (''LANG'', bytes_of ''D'')], (None, []), False)"
proof -
  have launch: "make_launch listed_binary 100 demo_command demo_open ''/workspace'' demo_selected ([], None) ''a'' = demo_launch"
    by (simp add: demo_launch_def demo_selected_def)
  have prepare: "so_prepare demo_spawn demo_launch = Inr [(''HOME'', [1]), (''PATH'', [2]),
      (''HOME'', bytes_of ''/h''), (''LANG'', bytes_of ''D'')]"
    by (simp add: demo_spawn_def demo_launch_parts)
  have unique: "deduplicate_environment [(''HOME'', [1]), (''PATH'', [2]),
      (''HOME'', bytes_of ''/h''), (''LANG'', bytes_of ''D'')]
      = [(''PATH'', [2]), (''HOME'', bytes_of ''/h''), (''LANG'', bytes_of ''D'')]"
    by (simp add: deduplicate_environment_def)
  show ?thesis
    unfolding start_guest_def demo_parts demo_dir
    by (simp add: demo_parts launch prepare unique demo_launch_parts)
qed



section \<open>Running to completion\<close>

lemma full_pipe_parks:
  assumes "buffered s = capacity s" "active s t" "\<not> closed s" "bs \<noteq> []"
  shows "pcs (solo C Q t 7 (start t (PollWrite bs) s)) t = Parked"
  using assms
  by (cases "queued s t") (simp_all add: solo_def numeral_eq_Suc exec_def goto_def)

text \<open>Running a command to completion. Without a terminal both outputs are captured: no stream is
  left to read and the guest's every write is answered at once in full, so nothing makes it wait.
  With a terminal both outputs are live pipes although \<open>output\<close> reads none of them: once a pipe is
  full, the guest's next write parks.\<close>

theorem output_streams:
  assumes "capacity s = max (cmd_stream_bytes c) 1" and "buffered s = capacity s" and "active s 1"
    and "\<not> closed s" and "bs \<noteq> []"
  shows "(if cmd_terminal c = None
     then io_guest_stdout (wire_stdio limit (output_command c)) = CapturedFile (capture_file_new (capture_new limit))
       \<and> io_guest_stderr (wire_stdio limit (output_command c)) = CapturedFile (capture_file_new (capture_new limit))
       \<and> \<not> io_stdout (wire_stdio limit (output_command c)) \<and> \<not> io_stderr (wire_stdio limit (output_command c))
       \<and> io_stdin (wire_stdio limit (output_command c)) = (cmd_input c \<noteq> [])
       \<and> fst (capture_poll_write (capture_file_new (capture_new limit)) bs) = Ready (Inr (length bs))
     else io_guest_stdout (wire_stdio limit (output_command c)) = RetainedPipe (capacity s) (capture_new limit)
       \<and> io_guest_stderr (wire_stdio limit (output_command c)) = RetainedPipe (capacity s) (capture_new limit)
       \<and> io_stdout (wire_stdio limit (output_command c)) \<and> io_stderr (wire_stdio limit (output_command c))
       \<and> pcs (solo C Q 1 7 (start 1 (PollWrite bs) s)) 1 = Parked)"
  using full_pipe_parks [OF assms(2-5), of C Q] assms(1)
  by (simp add: wire_stdio_def output_command_def effective_mode_def guest_output_file_def capture_poll_write_def Let_def)

definition full_pipe :: "(bool \<times> pipe_message list, nat list) pipe" where
  "full_pipe = (bounded_pipe (False, []) [] 4)\<lparr>buffered := 4\<rparr>"


definition demo_tty_command :: "(string \<times> string list) command" where
  "demo_tty_command = command_stream_bytes 4 (command_terminal terminal_options_default (command_new (NameSel ''sh'')))"

lemma demo_tty_fields: "cmd_terminal demo_tty_command = Some terminal_options_default" "cmd_stream_bytes demo_tty_command = 4"
  by (simp_all add: demo_tty_command_def command_stream_bytes_def command_terminal_def command_new_def)

lemma full_pipe_fields: "buffered full_pipe = 4" "capacity full_pipe = 4" "active full_pipe 1" "\<not> closed full_pipe"
  by (simp_all add: full_pipe_def bounded_pipe_def)

theorem output_streams_witness:
  "io_guest_stdout (wire_stdio 8 (output_command demo_tty_command)) = RetainedPipe 4 (capture_new 8)
    \<and> pcs (solo list_chan list_queue 1 7 (start 1 (PollWrite [7]) full_pipe)) 1 = Parked"
proof -
  have "capacity full_pipe = max (cmd_stream_bytes demo_tty_command) 1" "buffered full_pipe = capacity full_pipe"
    by (simp_all add: full_pipe_fields demo_tty_fields)
  note all = output_streams [OF this full_pipe_fields(3,4), of "[7]" 8 list_chan list_queue]
  show ?thesis
    using all [OF list.distinct(2)] unfolding demo_tty_fields full_pipe_fields
    by (simp only: option.distinct if_False simp_thms)
qed

section \<open>Registration\<close>

text \<open>a successful spawn leaves its process in the sandbox's registry, with the streams its wiring
  provides and no exit requested, so closing the sandbox from then on reaches it; a failed spawn
  leaves no process behind.\<close>

theorem spawn_registers:
  assumes "meanwhile s = s1"
    and "spawn_command B S M browser client_limit base defaults pid meanwhile c s = (r, s2)"
  shows "(case r of
      Inr p \<Rightarrow> sb_live s2 pid = Some (pr_control p) \<and> pid \<in> set (sb_processes s2)
        \<and> ctl_exit (pr_control p) = None \<and> pr_completed p = None \<and> ensure_open s = Inr ()
        \<and> (pr_stdout p \<noteq> None) = io_stdout (wire_stdio (output_limit client_limit c) c)
        \<and> (pr_stderr p \<noteq> None) = io_stderr (wire_stdio (output_limit client_limit c) c)
    | Inl e \<Rightarrow> sb_live s2 = sb_live s1 \<or> sb_live s2 = (sb_live s1)(pid := None))
    \<and> sb_closed s2 = sb_closed s1 \<and> sb_packages s2 = sb_packages s1"
proof (cases "start_guest B S M browser client_limit c s")
  case (Inl e)
  then show ?thesis using assms by (auto simp: spawn_command_def)
next
  case (Inr started)
  obtain launch env w stdin where started: "started = (launch, env, w, stdin)" by (cases started)
  obtain cwd selected mounted exec_name where
    opened: "ensure_open s = Inr ()"
    and launch: "launch = make_launch B client_limit c s cwd selected mounted exec_name"
    using Inr unfolding started by (rule start_guest_Inr) blast
  let ?p = "spawned_process client_limit base defaults c launch w stdin"
  have streams: "(pr_stdout ?p \<noteq> None) = io_stdout (wire_stdio (output_limit client_limit c) c)"
      "(pr_stderr ?p \<noteq> None) = io_stderr (wire_stdio (output_limit client_limit c) c)"
      "ctl_exit (pr_control ?p) = None" "pr_completed ?p = None"
    by (simp_all add: spawned_process_def process_new_def launch make_launch_def)
  define t where "t = register_process pid (pr_control ?p) s1"
  have t: "sb_live t = (sb_live s1)(pid := Some (pr_control ?p))" "pid \<in> set (sb_processes t)"
      "sb_closed t = sb_closed s1" "sb_packages t = sb_packages s1"
    by (simp_all add: t_def register_process_def)
  have run: "(r, s2) = (case cmd_timeout c of None \<Rightarrow> (Inr ?p, t)
      | Some duration \<Rightarrow> (case so_schedule S duration of
          Inl e \<Rightarrow> (Inl (TaskError (''unable to schedule the command deadline: '' @ e)), t\<lparr>sb_live := (sb_live t)(pid := None)\<rparr>)
        | Inr _ \<Rightarrow> (Inr ?p, t)))"
    using assms unfolding spawn_command_def Inr started t_def by (simp add: Let_def)
  show ?thesis
  proof (cases "(r, s2) = (Inr ?p, t)")
    case True
    then show ?thesis using streams t opened by simp
  next
    case False
    then obtain e where "r = Inl e" "s2 = t\<lparr>sb_live := (sb_live t)(pid := None)\<rparr>"
      using run by (auto split: option.splits sum.splits)
    then show ?thesis using t by simp
  qed
qed

lemma demo_no_timeout: "cmd_timeout demo_command = None"
  by (simp add: demo_command_def command_env_def command_new_def)

theorem spawn_registers_witness:
  "\<exists>p s2. spawn_command listed_binary demo_spawn demo_mount_ops False 100 () \<lparr>set_cols = 80, set_rows = 24,
        set_echo = True, set_line_buffering = True, set_line_feeds = True\<rparr> 9 (\<lambda>s. s) demo_command demo_open = (Inr p, s2)
     \<and> sb_live s2 9 = Some (pr_control p) \<and> ctl_exit (pr_control p) = None"
proof -
  define d where "d = \<lparr>set_cols = 80, set_rows = 24, set_echo = True, set_line_buffering = True, set_line_feeds = True\<rparr>"
  obtain p s2 where run: "spawn_command listed_binary demo_spawn demo_mount_ops False 100 () d 9 (\<lambda>s. s) demo_command demo_open
      = (Inr p, s2)"
    using demo_no_timeout by (simp add: spawn_command_def demo_started Let_def)
  from spawn_registers [OF refl run] show ?thesis using run unfolding d_def by auto
qed

end
