(* ===== verification/Worker_Gate.thy ===== *)
theory Worker_Gate
  imports Prelude
begin

text \<open>
  Forced termination of pool workers (js/bindgen/src/tasks/worker_gate.rs and the lifecycle of
  js/bindgen/src/tasks/worker_handle.rs): the gate a worker passes to enter the shared
  allocator, the scheduler's termination, and every interleaving of the two, one access to the
  gate's atomics per step.
\<close>

section \<open>The gate\<close>

record gate =
  in_allocator :: u32
  doomed :: u32
  tls_base :: u32
  stack_alloc :: u32

definition gate_new :: gate where
  "gate_new = \<lparr>in_allocator = 0, doomed = 0, tls_base = 0, stack_alloc = 0\<rparr>"

definition gate_install :: "u32 \<Rightarrow> u32 \<Rightarrow> gate \<Rightarrow> gate" where
  "gate_install tls stack g = g\<lparr>tls_base := tls, stack_alloc := stack\<rparr>"

definition gate_doom :: "gate \<Rightarrow> gate" where
  "gate_doom g = g\<lparr>doomed := 1\<rparr>"

definition gate_in_allocator :: "gate \<Rightarrow> bool" where
  "gate_in_allocator g \<longleftrightarrow> in_allocator g \<noteq> 0"

text \<open>The result is the block and the stack to destroy, if there is anything to free.\<close>

definition release_thread_memory :: "gate \<Rightarrow> (u32 \<times> u32) option \<times> gate" where
  "release_thread_memory g =
     (let freed = (tls_base g, stack_alloc g); g1 = g\<lparr>tls_base := 0, stack_alloc := 0\<rparr>
      in if fst freed = 0 \<and> snd freed = 0 then (None, g1) else (Some freed, g1))"

section \<open>A worker entering the allocator\<close>

text \<open>\<open>Announced\<close>: \<open>in_allocator\<close> is stored, \<open>doomed\<close> not yet read. \<open>Allocating\<close>: inside, where the
  allocator's lock may be held. \<open>Refused\<close>: about to clear \<open>in_allocator\<close> and park.\<close>

datatype worker_pc = Outside | Announced | Allocating | Refused | ParkedForever

fun worker_exec :: "worker_pc \<Rightarrow> gate \<Rightarrow> worker_pc \<times> gate" where
  "worker_exec Outside g = (Announced, g\<lparr>in_allocator := 1\<rparr>)"
| "worker_exec Announced g = (if doomed g \<noteq> 0 then Refused else Allocating, g)"
| "worker_exec Allocating g = (Outside, g\<lparr>in_allocator := 0\<rparr>)"
| "worker_exec Refused g = (ParkedForever, g\<lparr>in_allocator := 0\<rparr>)"
| "worker_exec ParkedForever g = (ParkedForever, g)"

section \<open>Terminating\<close>

datatype lifecycle = Running | ShuttingDown | Stopped

definition gate_wait_limit :: nat where
  "gate_wait_limit = 2000"

text \<open>The scheduler's \<open>terminate_gated\<close>: \<open>Polling n\<close> is about to read \<open>in_allocator\<close> after \<open>n\<close> waits,
  \<open>Clear\<close> and \<open>GaveUp\<close> are about to stop the worker. \<open>wk_reads\<close> records what the polls read.\<close>

datatype handler_pc = NotTerminating | Polling nat | Clear | GaveUp | Finished

record worker =
  wk_gate :: gate
  wk_pc :: worker_pc
  wk_lifecycle :: lifecycle
  wk_handler :: handler_pc
  wk_terminated :: bool
  wk_reads :: "bool list"

definition worker_spawn :: worker where
  "worker_spawn = \<lparr>wk_gate = gate_new, wk_pc = Outside, wk_lifecycle = Running,
     wk_handler = NotTerminating, wk_terminated = False, wk_reads = []\<rparr>"

text \<open>The result says whether the worker is sent the shutdown message.\<close>

definition handle_shutdown :: "worker \<Rightarrow> bool \<times> worker" where
  "handle_shutdown w = (if wk_lifecycle w \<noteq> Running then (False, w)
     else (True, w\<lparr>wk_lifecycle := ShuttingDown\<rparr>))"

definition mark_exited :: "worker \<Rightarrow> worker" where
  "mark_exited w = w\<lparr>wk_lifecycle := Stopped\<rparr>"

definition begin_terminate :: "worker \<Rightarrow> worker" where
  "begin_terminate w = (if wk_lifecycle w = Stopped then w
     else w\<lparr>wk_gate := gate_doom (wk_gate w), wk_handler := Polling 0\<rparr>)"

fun handler_exec :: "handler_pc \<Rightarrow> worker \<Rightarrow> worker" where
  "handler_exec (Polling n) w =
     (let inside = gate_in_allocator (wk_gate w);
          w1 = w\<lparr>wk_reads := wk_reads w @ [inside]\<rparr>
      in if inside \<and> n < gate_wait_limit then w1\<lparr>wk_handler := Polling (n + 1)\<rparr>
         else if inside then w1\<lparr>wk_handler := GaveUp\<rparr> else w1\<lparr>wk_handler := Clear\<rparr>)"
| "handler_exec Clear w = w\<lparr>wk_lifecycle := Stopped, wk_terminated := True, wk_handler := Finished\<rparr>"
| "handler_exec GaveUp w = w\<lparr>wk_lifecycle := Stopped, wk_terminated := True, wk_handler := Finished\<rparr>"
| "handler_exec _ w = w"

text \<open>A browser may stop a terminated worker any time after \<open>terminate\<close>, so its steps are not
  cut off then.\<close>

inductive worker_step :: "worker \<Rightarrow> worker \<Rightarrow> bool" where
  runs: "worker_step w (w\<lparr>wk_pc := fst (worker_exec (wk_pc w) (wk_gate w)),
     wk_gate := snd (worker_exec (wk_pc w) (wk_gate w))\<rparr>)"
| installs: "worker_step w (w\<lparr>wk_gate := gate_install tls stack (wk_gate w)\<rparr>)"
| asked: "worker_step w (snd (handle_shutdown w))"
| exited: "worker_step w (mark_exited w)"
| terminates: "wk_handler w = NotTerminating \<Longrightarrow> worker_step w (begin_terminate w)"
| handles: "worker_step w (handler_exec (wk_handler w) w)"
| frees: "worker_step w (w\<lparr>wk_gate := snd (release_thread_memory (wk_gate w))\<rparr>)"

section \<open>The handshake\<close>

definition flagged :: "worker_pc \<Rightarrow> bool" where
  "flagged p \<longleftrightarrow> p = Announced \<or> p = Allocating \<or> p = Refused"

text \<open>After a poll that read a clear flag, the worker is never inside again; only after the limit's
  worth of waits is it stopped without such a poll.\<close>

definition gate_inv :: "worker \<Rightarrow> bool" where
  "gate_inv w \<longleftrightarrow> (gate_in_allocator (wk_gate w) \<longleftrightarrow> flagged (wk_pc w))
     \<and> (wk_handler w \<noteq> NotTerminating \<longrightarrow> doomed (wk_gate w) \<noteq> 0)
     \<and> (False \<in> set (wk_reads w) \<longrightarrow> wk_pc w \<noteq> Allocating)
     \<and> (case wk_handler w of
          NotTerminating \<Rightarrow> wk_reads w = []
        | Polling n \<Rightarrow> wk_reads w = replicate n True \<and> n \<le> gate_wait_limit
        | Clear \<Rightarrow> False \<in> set (wk_reads w)
        | GaveUp \<Rightarrow> wk_reads w = replicate (gate_wait_limit + 1) True
        | Finished \<Rightarrow> False \<in> set (wk_reads w) \<or> wk_reads w = replicate (gate_wait_limit + 1) True)
     \<and> (wk_terminated w \<longrightarrow> wk_handler w = Finished)"

lemma gate_fields [simp]:
  "in_allocator (gate_install t k g) = in_allocator g" "doomed (gate_install t k g) = doomed g"
  "in_allocator (gate_doom g) = in_allocator g" "doomed (gate_doom g) = 1"
  "in_allocator (snd (release_thread_memory g)) = in_allocator g"
  "doomed (snd (release_thread_memory g)) = doomed g"
  by (simp_all add: gate_install_def gate_doom_def release_thread_memory_def Let_def)

lemma replicate_snoc: "replicate n x @ [x] = replicate (n + 1) x"
  by (simp add: replicate_append_same)

lemma gate_inv_runs:
  "gate_inv w \<Longrightarrow> gate_inv (w\<lparr>wk_pc := fst (worker_exec (wk_pc w) (wk_gate w)),
     wk_gate := snd (worker_exec (wk_pc w) (wk_gate w))\<rparr>)"
  by (cases "wk_pc w"; cases "wk_handler w") (auto simp: gate_inv_def gate_in_allocator_def flagged_def)

lemma gate_inv_handles: "gate_inv w \<Longrightarrow> gate_inv (handler_exec (wk_handler w) w)"
  by (cases "wk_handler w")
    (auto simp: gate_inv_def flagged_def Let_def replicate_snoc simp del: replicate.simps)

lemma gate_inv_step:
  assumes "gate_inv w" "worker_step w v"
  shows "gate_inv v"
  using assms(2)
proof cases
  case runs
  then show ?thesis using gate_inv_runs [OF assms(1)] by simp
next
  case handles
  then show ?thesis using gate_inv_handles [OF assms(1)] by simp
qed (use assms(1) in \<open>auto simp: gate_inv_def gate_in_allocator_def handle_shutdown_def mark_exited_def
      begin_terminate_def split: handler_pc.splits\<close>)

interpretation gated: inductive_invariant "\<lambda>w. w = worker_spawn" worker_step gate_inv
proof unfold_locales
  show "w = worker_spawn \<Longrightarrow> gate_inv w" for w
    by (simp add: gate_inv_def gate_in_allocator_def worker_spawn_def gate_new_def flagged_def)
qed (rule gate_inv_step)

section \<open>Properties\<close>



text \<open>The flag itself may be set again after a clear poll: a worker announces itself before it sees
  that it is doomed.\<close>

lemma flag_returns_after_clear_poll:
  "\<exists>w. reachable (\<lambda>w. w = worker_spawn) worker_step w \<and> wk_handler w = Clear \<and> gate_in_allocator (wk_gate w)"
proof -
  define w1 where "w1 = begin_terminate worker_spawn"
  define w2 where "w2 = handler_exec (wk_handler w1) w1"
  define w3 where "w3 = w2\<lparr>wk_pc := fst (worker_exec (wk_pc w2) (wk_gate w2)),
     wk_gate := snd (worker_exec (wk_pc w2) (wk_gate w2))\<rparr>"
  have "reachable (\<lambda>w. w = worker_spawn) worker_step worker_spawn" by (rule reach_init) simp
  then have "reachable (\<lambda>w. w = worker_spawn) worker_step w1" unfolding w1_def
    by (rule reach_step) (rule worker_step.terminates, simp add: worker_spawn_def)
  then have "reachable (\<lambda>w. w = worker_spawn) worker_step w2" unfolding w2_def
    by (rule reach_step) (rule worker_step.handles)
  then have "reachable (\<lambda>w. w = worker_spawn) worker_step w3" unfolding w3_def
    by (rule reach_step) (rule worker_step.runs)
  moreover have "wk_handler w3 = Clear" "gate_in_allocator (wk_gate w3)"
    by (simp_all add: w3_def w2_def w1_def begin_terminate_def worker_spawn_def gate_doom_def gate_new_def
        gate_in_allocator_def)
  ultimately show ?thesis by blast
qed

end
