(* ===== verification/Scheduler.thy ===== *)
theory Scheduler
  imports Worker_Gate Ordered_Map "HOL-Library.Product_Lexorder"
begin

text \<open>
  The scheduler of the browser's worker pool (js/bindgen/src/tasks/scheduler.rs and the messages
  of scheduler_message.rs): one actor that owns the pool's workers and handles one message at a
  time. Everything it does to the outside is an effect; whether starting a worker or posting a
  message to one succeeds is the parameter \<open>E\<close>, the error of an effect that fails.
\<close>

section \<open>Messages and effects\<close>

text \<open>Tasks \<open>'t\<close>, host values \<open>'v\<close> and WASIX processes \<open>'p\<close> are opaque. A host value is named by a
  registry and a handle, a WASIX thread by a process and a thread number.\<close>

type_synonym capi_key = "nat \<times> int"
type_synonym task_key = "nat \<times> nat"

datatype ('t, 'v, 'p) sched_message =
    MClose "nat option" bool
  | MWorkerFailed
  | MSpawnAsync 't
  | MSpawnBlocking 't
  | MTimer 't
  | MWorkerIdle nat
  | MWorkerBusy nat
  | MWorkerRetired nat
  | MTerminateWasmThread nat nat
  | MForceTerminate nat nat
  | MWorkerExited nat
  | MCapiShare nat nat int 'v
  | MCapiRequest nat nat int
  | MCapiDelete nat nat int
  | MFromWorker nat "('t, 'v, 'p) sched_message"
  | MSpawnWasm task_key 'p 't

datatype 't payload = TimerJob 't | AsyncThunk 't | BlockingThunk 't | SpawnWasmJob 't

fun would_block :: "'t payload \<Rightarrow> bool" where
  "would_block (TimerJob t) = False"
| "would_block (AsyncThunk t) = False"
| "would_block (BlockingThunk t) = True"
| "would_block (SpawnWasmJob t) = True"

datatype ('t, 'v, 'p) sched_effect =
    Started nat bool
  | Posted nat "'t payload" "(capi_key \<times> 'v) list"
  | Collect nat
  | SentCapi nat capi_key 'v
  | SentDrop nat capi_key
  | FreedMemory nat
  | ForceStopped nat
  | GraceTimer nat nat
  | DroppedHandle nat
  | EndedProcess 'p
  | AskedToExit nat

section \<open>State\<close>

text \<open>\<open>next_id\<close> counts the workers started; their 32-bit identifiers wrap.\<close>

record ('t, 'v, 'p) sched =
  idle :: "nat list"
  busy :: "nat list"
  timer_worker :: "nat option"
  retire_wasm_workers :: bool
  retiring :: "(nat, unit) btree"
  pending_capi_transfers :: "(nat, (capi_key, 'v) btree) btree"
  capi_values :: "(capi_key, 'v) btree"
  pending_capi_requests :: "(capi_key, (nat, unit) btree) btree"
  capi_recipients :: "(capi_key, (nat, unit) btree) btree"
  capi_origins :: "(capi_key, nat) btree"
  wasm_workers :: "(task_key, nat \<times> 'p) btree"
  doomed_workers :: "(nat, nat) btree"
  next_doom_generation :: nat
  gates :: "(nat, unit) btree"
  next_id :: nat
  effects :: "('t, 'v, 'p) sched_effect list"

definition sched_new :: "bool \<Rightarrow> ('t, 'v, 'p) sched" where
  "sched_new retire = \<lparr>idle = [], busy = [], timer_worker = None, retire_wasm_workers = retire, retiring = [],
     pending_capi_transfers = [], capi_values = [], pending_capi_requests = [], capi_recipients = [],
     capi_origins = [], wasm_workers = [], doomed_workers = [], next_doom_generation = 0, gates = [],
     next_id = 1, effects = []\<rparr>"

type_synonym ('t, 'v, 'p) sched_env = "('t, 'v, 'p) sched_effect \<Rightarrow> string option"

definition emit :: "('t, 'v, 'p) sched_effect \<Rightarrow> ('t, 'v, 'p) sched \<Rightarrow> ('t, 'v, 'p) sched" where
  "emit e s = s\<lparr>effects := effects s @ [e]\<rparr>"

text \<open>An effect that may fail; a failed one has not happened.\<close>

definition attempt :: "('t, 'v, 'p) sched_env \<Rightarrow> ('t, 'v, 'p) sched_effect \<Rightarrow> ('t, 'v, 'p) sched
    \<Rightarrow> (string + unit) \<times> ('t, 'v, 'p) sched" where
  "attempt E e s = (case E e of Some err \<Rightarrow> (Inl err, s) | None \<Rightarrow> (Inr (), emit e s))"

section \<open>Workers\<close>

definition find_worker :: "nat \<Rightarrow> ('t, 'v, 'p) sched \<Rightarrow> bool" where
  "find_worker w s \<longleftrightarrow> w \<in> set (idle s @ busy s)"

definition release_worker_memory :: "nat \<Rightarrow> ('t, 'v, 'p) sched \<Rightarrow> ('t, 'v, 'p) sched" where
  "release_worker_memory w s =
     (if bt_get (gates s) w = None then s else emit (FreedMemory w) (s\<lparr>gates := bt_remove w (gates s)\<rparr>))"

definition start_worker :: "('t, 'v, 'p) sched_env \<Rightarrow> bool \<Rightarrow> ('t, 'v, 'p) sched
    \<Rightarrow> (string + nat) \<times> ('t, 'v, 'p) sched" where
  "start_worker E retire s =
     (let w = next_id s mod 2 ^ 32; s1 = s\<lparr>next_id := next_id s + 1\<rparr>
      in bind_st (attempt E (Started w retire) s1) (\<lambda>_ s2.
           (Inr w, s2\<lparr>gates := bt_insert w () (gates s2)\<rparr>)))"

definition next_available_worker :: "('t, 'v, 'p) sched_env \<Rightarrow> ('t, 'v, 'p) sched
    \<Rightarrow> (string + nat) \<times> ('t, 'v, 'p) sched" where
  "next_available_worker E s =
     (if idle s \<noteq> [] then (Inr (last (idle s)), s\<lparr>idle := butlast (idle s)\<rparr>) else start_worker E False s)"

text \<open>\<open>move_worker\<close> from one queue to the back of the other.\<close>

definition mark_busy :: "nat \<Rightarrow> ('t, 'v, 'p) sched \<Rightarrow> ('t, 'v, 'p) sched" where
  "mark_busy w s = (if w \<in> set (idle s) then s\<lparr>idle := remove1 w (idle s), busy := busy s @ [w]\<rparr> else s)"

definition mark_idle :: "nat \<Rightarrow> ('t, 'v, 'p) sched \<Rightarrow> ('t, 'v, 'p) sched" where
  "mark_idle w s = (if w \<in> set (busy s) then s\<lparr>busy := remove1 w (busy s), idle := idle s @ [w]\<rparr> else s)"

definition drop_wasm :: "nat \<Rightarrow> ('t, 'v, 'p) sched \<Rightarrow> ('t, 'v, 'p) sched" where
  "drop_wasm w s = s\<lparr>wasm_workers := bt_retain (\<lambda>_ (w', _). w' \<noteq> w) (wasm_workers s)\<rparr>"

fun collect_all :: "('t, 'v, 'p) sched_env \<Rightarrow> nat list \<Rightarrow> ('t, 'v, 'p) sched
    \<Rightarrow> (string + unit) \<times> ('t, 'v, 'p) sched" where
  "collect_all E [] s = (Inr (), s)"
| "collect_all E (w # ws) s = bind_st (attempt E (Collect w) s) (\<lambda>_ s1. collect_all E ws s1)"

definition collect_idle :: "('t, 'v, 'p) sched_env \<Rightarrow> ('t, 'v, 'p) sched \<Rightarrow> (string + unit) \<times> ('t, 'v, 'p) sched" where
  "collect_idle E s = collect_all E (idle s) s"

text \<open>Taking a worker out of the pool with everything routed to it.\<close>

definition remove_worker :: "nat \<Rightarrow> ('t, 'v, 'p) sched \<Rightarrow> bool \<times> ('t, 'v, 'p) sched" where
  "remove_worker w s =
     (let s1 = (drop_wasm w s)\<lparr>retiring := bt_remove w (retiring s),
            pending_capi_requests := bt_retain (\<lambda>_ ws. ws \<noteq> [])
              (map (\<lambda>(k, ws). (k, bt_remove w ws)) (pending_capi_requests s))\<rparr>
      in if w \<in> set (busy s) then (True, s1\<lparr>busy := remove1 w (busy s)\<rparr>)
         else if w \<in> set (idle s) then (True, s1\<lparr>idle := remove1 w (idle s)\<rparr>)
         else (False, s1))"

section \<open>Nested WebAssembly objects\<close>

text \<open>\<open>entry(key).or_default().insert(w)\<close>.\<close>

definition bt_add :: "'k::linorder \<Rightarrow> nat \<Rightarrow> ('k, (nat, unit) btree) btree \<Rightarrow> ('k, (nat, unit) btree) btree" where
  "bt_add k w m = bt_insert k (bt_insert w () (case bt_get m k of None \<Rightarrow> [] | Some ws \<Rightarrow> ws)) m"

definition add_recipient :: "capi_key \<Rightarrow> nat \<Rightarrow> ('t, 'v, 'p) sched \<Rightarrow> ('t, 'v, 'p) sched" where
  "add_recipient k w s = s\<lparr>capi_recipients := bt_add k w (capi_recipients s)\<rparr>"

definition take_capi_transfers :: "nat option \<Rightarrow> bool \<Rightarrow> nat \<Rightarrow> ('t, 'v, 'p) sched
    \<Rightarrow> (capi_key \<times> 'v) list \<times> ('t, 'v, 'p) sched" where
  "take_capi_transfers source blocks destination s =
     (if \<not> blocks then ([], s)
      else case source of
          None \<Rightarrow> ([], s)
        | Some src \<Rightarrow> (case bt_get (pending_capi_transfers s) src of
              None \<Rightarrow> ([], s)
            | Some transfers \<Rightarrow> (transfers, fold (\<lambda>(k, _). add_recipient k destination) transfers
                (s\<lparr>pending_capi_transfers := bt_remove src (pending_capi_transfers s)\<rparr>))))"

fun deliver_all :: "('t, 'v, 'p) sched_env \<Rightarrow> capi_key \<Rightarrow> 'v \<Rightarrow> nat list \<Rightarrow> ('t, 'v, 'p) sched
    \<Rightarrow> (string + unit) \<times> ('t, 'v, 'p) sched" where
  "deliver_all E k v [] s = (Inr (), s)"
| "deliver_all E k v (w # ws) s =
     (if \<not> find_worker w s then deliver_all E k v ws s
      else bind_st (attempt E (SentCapi w k v) s) (\<lambda>_ s1. deliver_all E k v ws (add_recipient k w s1)))"

definition fulfill_capi_requests :: "('t, 'v, 'p) sched_env \<Rightarrow> capi_key \<Rightarrow> ('t, 'v, 'p) sched
    \<Rightarrow> (string + unit) \<times> ('t, 'v, 'p) sched" where
  "fulfill_capi_requests E k s = (case bt_get (capi_values s) k of
     None \<Rightarrow> (Inr (), s)
   | Some v \<Rightarrow> (case bt_get (pending_capi_requests s) k of
         None \<Rightarrow> (Inr (), s)
       | Some ws \<Rightarrow> deliver_all E k v (bt_keys ws)
           (s\<lparr>pending_capi_requests := bt_remove k (pending_capi_requests s)\<rparr>)))"

definition remove_pending_capi_value :: "capi_key \<Rightarrow> ('t, 'v, 'p) sched \<Rightarrow> ('t, 'v, 'p) sched" where
  "remove_pending_capi_value k s = s\<lparr>pending_capi_transfers := bt_retain (\<lambda>_ vs. vs \<noteq> [])
       (map (\<lambda>(src, vs). (src, bt_remove k vs)) (pending_capi_transfers s)),
     capi_values := bt_remove k (capi_values s)\<rparr>"

fun drop_all :: "('t, 'v, 'p) sched_env \<Rightarrow> capi_key \<Rightarrow> nat list \<Rightarrow> ('t, 'v, 'p) sched
    \<Rightarrow> (string + unit) \<times> ('t, 'v, 'p) sched" where
  "drop_all E k [] s = (Inr (), s)"
| "drop_all E k (w # ws) s =
     (if \<not> find_worker w s then drop_all E k ws s
      else bind_st (attempt E (SentDrop w k) s) (\<lambda>_ s1. drop_all E k ws s1))"

section \<open>Posting work\<close>

text \<open>A worker that cannot be sent its work is dropped.\<close>

definition send_to :: "('t, 'v, 'p) sched_env \<Rightarrow> nat \<Rightarrow> 't payload \<Rightarrow> (capi_key \<times> 'v) list
    \<Rightarrow> ('t, 'v, 'p) sched \<Rightarrow> (string + unit) \<times> ('t, 'v, 'p) sched" where
  "send_to E w p transfers s = (case attempt E (Posted w p transfers) s of
     (Inl e, s1) \<Rightarrow> (Inl (''Unable to send a message to worker '' @ nat_digits w @ '': '' @ e),
        emit (DroppedHandle w) s1)
   | (Inr u, s1) \<Rightarrow> (Inr (), s1))"

definition post_message_from :: "('t, 'v, 'p) sched_env \<Rightarrow> nat option \<Rightarrow> 't payload
    \<Rightarrow> ('t, 'v, 'p) sched \<Rightarrow> (string + unit) \<times> ('t, 'v, 'p) sched" where
  "post_message_from E source p s = bind_st (next_available_worker E s) (\<lambda>w s1.
     let (transfers, s2) = take_capi_transfers source (would_block p) w s1
     in bind_st (send_to E w p transfers s2) (\<lambda>_ s3.
          (Inr (), if would_block p then s3\<lparr>busy := busy s3 @ [w]\<rparr> else s3\<lparr>idle := idle s3 @ [w]\<rparr>)))"

definition wasm_worker :: "('t, 'v, 'p) sched_env \<Rightarrow> ('t, 'v, 'p) sched
    \<Rightarrow> (string + nat) \<times> ('t, 'v, 'p) sched" where
  "wasm_worker E s =
     (if retire_wasm_workers s
      then bind_st (start_worker E True s) (\<lambda>w s1. (Inr w, s1\<lparr>retiring := bt_insert w () (retiring s1)\<rparr>))
      else next_available_worker E s)"

definition post_wasm_message_from :: "('t, 'v, 'p) sched_env \<Rightarrow> nat option \<Rightarrow> 't payload \<Rightarrow> task_key \<Rightarrow> 'p
    \<Rightarrow> ('t, 'v, 'p) sched \<Rightarrow> (string + unit) \<times> ('t, 'v, 'p) sched" where
  "post_wasm_message_from E source p key proc s = bind_st (wasm_worker E s) (\<lambda>w s1.
     let (transfers, s2) = take_capi_transfers source True w s1;
         s3 = s2\<lparr>wasm_workers := bt_insert key (w, proc) (wasm_workers s2)\<rparr>
     in bind_st (send_to E w p transfers s3) (\<lambda>_ s4. (Inr (), s4\<lparr>busy := busy s4 @ [w]\<rparr>)))"

section \<open>Messages\<close>

definition terminate_wasm_thread :: "task_key \<Rightarrow> ('t, 'v, 'p) sched \<Rightarrow> ('t, 'v, 'p) sched" where
  "terminate_wasm_thread key s = (case bt_get (wasm_workers s) key of
     None \<Rightarrow> s
   | Some (w, _) \<Rightarrow>
       if bt_get (doomed_workers s) w \<noteq> None then s
       else (let g = next_doom_generation s + 1
             in emit (GraceTimer w g) (s\<lparr>next_doom_generation := g,
                  doomed_workers := bt_insert w g (doomed_workers s)\<rparr>)))"

definition run_timer :: "('t, 'v, 'p) sched_env \<Rightarrow> 't \<Rightarrow> ('t, 'v, 'p) sched \<Rightarrow> (string + unit) \<times> ('t, 'v, 'p) sched" where
  "run_timer E t s = (case timer_worker s of
     Some w \<Rightarrow> attempt E (Posted w (TimerJob t) []) s
   | None \<Rightarrow> bind_st (start_worker E False s) (\<lambda>w s1.
       attempt E (Posted w (TimerJob t) []) (s1\<lparr>timer_worker := Some w\<rparr>)))"

definition force_terminate :: "('t, 'v, 'p) sched_env \<Rightarrow> nat \<Rightarrow> nat \<Rightarrow> ('t, 'v, 'p) sched
    \<Rightarrow> (string + unit) \<times> ('t, 'v, 'p) sched" where
  "force_terminate E w generation s =
     (if bt_get (doomed_workers s) w \<noteq> Some generation then (Inr (), s)
      else case remove_worker w (s\<lparr>doomed_workers := bt_remove w (doomed_workers s)\<rparr>) of
          (False, s1) \<Rightarrow> (Inr (), s1)
        | (True, s1) \<Rightarrow> collect_idle E (emit (ForceStopped w) s1))"

definition worker_idle :: "('t, 'v, 'p) sched_env \<Rightarrow> nat \<Rightarrow> ('t, 'v, 'p) sched \<Rightarrow> (string + unit) \<times> ('t, 'v, 'p) sched" where
  "worker_idle E w s =
     (let s1 = s\<lparr>doomed_workers := bt_remove w (doomed_workers s)\<rparr>
      in if bt_get (retiring s1) w \<noteq> None then (Inr (), s1)
         else let s2 = mark_idle w s1; s3 = drop_wasm w s2
              in if length (wasm_workers s3) \<noteq> length (wasm_workers s2) then collect_idle E s3 else (Inr (), s3))"

definition worker_retired :: "('t, 'v, 'p) sched_env \<Rightarrow> nat \<Rightarrow> ('t, 'v, 'p) sched \<Rightarrow> (string + unit) \<times> ('t, 'v, 'p) sched" where
  "worker_retired E w s =
     (let s1 = s\<lparr>doomed_workers := bt_remove w (doomed_workers s), retiring := bt_remove w (retiring s)\<rparr>
      in if bt_get (retiring s) w = None then
           (if \<not> find_worker w s1 then (Inr (), s1) else (Inl (''unexpected retired worker '' @ nat_digits w), s1))
         else collect_idle E (release_worker_memory w
                (drop_wasm w (s1\<lparr>busy := filter (\<lambda>w'. w' \<noteq> w) (busy s1)\<rparr>))))"

definition capi_share :: "('t, 'v, 'p) sched_env \<Rightarrow> nat \<Rightarrow> capi_key \<Rightarrow> 'v \<Rightarrow> ('t, 'v, 'p) sched
    \<Rightarrow> (string + unit) \<times> ('t, 'v, 'p) sched" where
  "capi_share E source k v s = fulfill_capi_requests E k (s\<lparr>capi_origins := bt_insert k source (capi_origins s),
     capi_values := bt_insert k v (capi_values s),
     pending_capi_transfers := bt_insert source
       (bt_insert k v (case bt_get (pending_capi_transfers s) source of None \<Rightarrow> [] | Some m \<Rightarrow> m))
       (pending_capi_transfers s)\<rparr>)"

definition capi_request :: "('t, 'v, 'p) sched_env \<Rightarrow> nat \<Rightarrow> capi_key \<Rightarrow> ('t, 'v, 'p) sched
    \<Rightarrow> (string + unit) \<times> ('t, 'v, 'p) sched" where
  "capi_request E w k s = fulfill_capi_requests E k
     (s\<lparr>pending_capi_requests := bt_add k w (pending_capi_requests s)\<rparr>)"

definition capi_delete :: "('t, 'v, 'p) sched_env \<Rightarrow> nat \<Rightarrow> capi_key \<Rightarrow> ('t, 'v, 'p) sched
    \<Rightarrow> (string + unit) \<times> ('t, 'v, 'p) sched" where
  "capi_delete E source k s =
     (let s1 = (remove_pending_capi_value k s)\<lparr>pending_capi_requests := bt_remove k (pending_capi_requests s)\<rparr>;
          recipients = (case bt_get (capi_recipients s1) k of None \<Rightarrow> [] | Some ws \<Rightarrow> ws);
          holders = (case bt_get (capi_origins s1) k of None \<Rightarrow> recipients | Some w \<Rightarrow> bt_insert w () recipients);
          s2 = s1\<lparr>capi_recipients := bt_remove k (capi_recipients s1), capi_origins := bt_remove k (capi_origins s1)\<rparr>
      in drop_all E k (bt_keys (bt_remove source holders)) s2)"

fun execute_from :: "('t, 'v, 'p) sched_env \<Rightarrow> nat option \<Rightarrow> ('t, 'v, 'p) sched_message
    \<Rightarrow> ('t, 'v, 'p) sched \<Rightarrow> (string + unit) \<times> ('t, 'v, 'p) sched" where
  "execute_from E source (MTimer t) s = run_timer E t s"
| "execute_from E source (MClose completion drain) s = (Inr (), s)"
| "execute_from E source MWorkerFailed s = (Inr (), s)"
| "execute_from E source (MSpawnAsync t) s = post_message_from E source (AsyncThunk t) s"
| "execute_from E source (MSpawnBlocking t) s = post_message_from E source (BlockingThunk t) s"
| "execute_from E source (MFromWorker w m) s = execute_from E (Some w) m s"
| "execute_from E source (MSpawnWasm key proc t) s = post_wasm_message_from E source (SpawnWasmJob t) key proc s"
| "execute_from E source (MWorkerBusy w) s = (Inr (), mark_busy w s)"
| "execute_from E source (MTerminateWasmThread pid tid) s = (Inr (), terminate_wasm_thread (pid, tid) s)"
| "execute_from E source (MForceTerminate w generation) s = force_terminate E w generation s"
| "execute_from E source (MWorkerExited w) s = (Inr (), release_worker_memory w s)"
| "execute_from E source (MWorkerIdle w) s = worker_idle E w s"
| "execute_from E source (MWorkerRetired w) s = worker_retired E w s"
| "execute_from E source (MCapiShare w reg h v) s = capi_share E w (reg, h) v s"
| "execute_from E source (MCapiRequest w reg h) s = capi_request E w (reg, h) s"
| "execute_from E source (MCapiDelete w reg h) s = capi_delete E w (reg, h) s"

definition execute :: "('t, 'v, 'p) sched_env \<Rightarrow> ('t, 'v, 'p) sched_message \<Rightarrow> ('t, 'v, 'p) sched
    \<Rightarrow> (string + unit) \<times> ('t, 'v, 'p) sched" where
  "execute E m s = execute_from E None m s"

definition blocking_tasks_are_idle :: "('t, 'v, 'p) sched \<Rightarrow> bool" where
  "blocking_tasks_are_idle s \<longleftrightarrow> busy s = []"

section \<open>The actor\<close>

text \<open>The loop reads messages until it is to shut down; the result holds the messages it has not read,
  the completions to answer and the state, or \<open>None\<close> while it still waits for a message.\<close>

fun run_loop :: "('t, 'v, 'p) sched_env \<Rightarrow> ('t, 'v, 'p) sched_message list \<Rightarrow> nat list \<Rightarrow> ('t, 'v, 'p) sched
    \<Rightarrow> (('t, 'v, 'p) sched_message list \<times> nat list \<times> ('t, 'v, 'p) sched) option" where
  "run_loop E [] cs s = None"
| "run_loop E (m # ms) cs s = (case m of
     MWorkerFailed \<Rightarrow> Some (ms, cs, fold (\<lambda>(_, (_, p)). emit (EndedProcess p)) (wasm_workers s) s)
   | MClose completion drain \<Rightarrow>
       (let cs' = cs @ (case completion of None \<Rightarrow> [] | Some c \<Rightarrow> [c])
        in if \<not> drain \<or> blocking_tasks_are_idle s then Some (ms, cs', s) else run_loop E ms cs' s)
   | _ \<Rightarrow>
       (let s1 = snd (execute E m s)
        in if cs \<noteq> [] \<and> blocking_tasks_are_idle s1 then Some (ms, cs, s1) else run_loop E ms cs s1))"

text \<open>Shutting down: \<open>waiting\<close> are the workers asked to exit that have not reported it. The messages
  are those received before the deadline.\<close>

record ('t, 'v, 'p) shutdown_state =
  sd_waiting :: "nat list"
  sd_exited :: "nat list"
  sd_completions :: "nat list"
  sd_sched :: "('t, 'v, 'p) sched"

fun shutdown_loop :: "('t, 'v, 'p) sched_message list \<Rightarrow> ('t, 'v, 'p) shutdown_state \<Rightarrow> ('t, 'v, 'p) shutdown_state" where
  "shutdown_loop [] d = d"
| "shutdown_loop (m # ms) d =
     (if sd_waiting d = [] then d
      else shutdown_loop ms (case m of
          MWorkerExited w \<Rightarrow> d\<lparr>sd_waiting := filter (\<lambda>w'. w' \<noteq> w) (sd_waiting d),
              sd_exited := (if w \<in> set (sd_waiting d) then sd_exited d @ [w] else sd_exited d),
              sd_sched := release_worker_memory w (sd_sched d)\<rparr>
        | MClose (Some c) drain \<Rightarrow> d\<lparr>sd_completions := sd_completions d @ [c]\<rparr>
        | _ \<Rightarrow> d))"

definition pool :: "('t, 'v, 'p) sched \<Rightarrow> nat list" where
  "pool s = idle s @ busy s @ (case timer_worker s of None \<Rightarrow> [] | Some w \<Rightarrow> [w])"

text \<open>At the end the workers still waiting are force-terminated, in the order of their identifiers.\<close>

definition shutdown :: "('t, 'v, 'p) sched_message list \<Rightarrow> nat list \<Rightarrow> ('t, 'v, 'p) sched
    \<Rightarrow> ('t, 'v, 'p) shutdown_state" where
  "shutdown ms cs s =
     (let d = shutdown_loop ms \<lparr>sd_waiting = sort (remdups (pool s)), sd_exited = [], sd_completions = cs,
            sd_sched = (fold (\<lambda>w. emit (AskedToExit w)) (pool s) s)\<lparr>idle := [], busy := [], timer_worker := None\<rparr>\<rparr>
      in d\<lparr>sd_sched := fold (\<lambda>w. emit (ForceStopped w)) (sd_waiting d) (sd_sched d)\<rparr>)"

text \<open>The mailbox records only the first failure of a worker; \<open>close_and_wait\<close> reports it.\<close>

definition worker_failed :: "nat \<Rightarrow> string \<Rightarrow> string option \<Rightarrow> string option" where
  "worker_failed w message failure = (case failure of
     Some f \<Rightarrow> Some f
   | None \<Rightarrow> Some (''worker '' @ nat_digits w @ '' failed: '' @ message))"

definition close_and_wait :: "string option \<Rightarrow> string + unit" where
  "close_and_wait failure = (case failure of Some message \<Rightarrow> Inl message | None \<Rightarrow> Inr ())"

end
