(* ===== verification/Scheduler_Safety.thy ===== *)
theory Scheduler_Safety
  imports Scheduler
begin

text \<open>
  What the scheduler guarantees for every sequence of messages, whatever effects fail: the
  invariant of its state, where work goes, when a worker is force-terminated, and that shutting
  down stops every worker.
\<close>

section \<open>The invariant\<close>

fun freed_by :: "('t, 'v, 'p) sched_effect \<Rightarrow> nat list" where
  "freed_by (FreedMemory w) = [w]"
| "freed_by _ = []"

definition freed :: "('t, 'v, 'p) sched \<Rightarrow> nat list" where
  "freed s = concat (map freed_by (effects s))"

text \<open>Every worker is in one place only, its memory is freed once, and every doom is older than the
  next.\<close>

definition pool_ok :: "('t, 'v, 'p) sched \<Rightarrow> bool" where
  "pool_ok s \<longleftrightarrow> distinct (pool s) \<and> (\<forall>w \<in> set (pool s). w < next_id s)
     \<and> distinct (freed s) \<and> (\<forall>w \<in> set (freed s). w < next_id s)
     \<and> (\<forall>w \<in> set (bt_keys (gates s)). w < next_id s \<and> w \<notin> set (freed s))
     \<and> (\<forall>(w, g) \<in> set (doomed_workers s). g \<le> next_doom_generation s)"

text \<open>A value waiting to travel with a task is still published, and no request waits for a value that
  is.\<close>

definition capi_ok :: "('t, 'v, 'p) sched \<Rightarrow> bool" where
  "capi_ok s \<longleftrightarrow>
     (\<forall>(src, m) \<in> set (pending_capi_transfers s). \<forall>k \<in> set (bt_keys m). k \<in> set (bt_keys (capi_values s)))
   \<and> (\<forall>k \<in> set (bt_keys (pending_capi_requests s)). k \<notin> set (bt_keys (capi_values s)))"

lemma emit_fields [simp]:
  "idle (emit e s) = idle s" "busy (emit e s) = busy s" "timer_worker (emit e s) = timer_worker s"
  "retiring (emit e s) = retiring s" "pending_capi_transfers (emit e s) = pending_capi_transfers s"
  "capi_values (emit e s) = capi_values s" "pending_capi_requests (emit e s) = pending_capi_requests s"
  "wasm_workers (emit e s) = wasm_workers s" "doomed_workers (emit e s) = doomed_workers s"
  "next_doom_generation (emit e s) = next_doom_generation s" "gates (emit e s) = gates s"
  "next_id (emit e s) = next_id s" "effects (emit e s) = effects s @ [e]"
  "retire_wasm_workers (emit e s) = retire_wasm_workers s"
  by (simp_all add: emit_def)

lemma freed_emit [simp]: "freed (emit e s) = freed s @ freed_by e"
  by (simp add: freed_def)

lemma snd_attempt: "snd (attempt E e s) = (if E e = None then emit e s else s)"
  by (simp add: attempt_def split: option.split)

lemma fst_attempt: "fst (attempt E e s) = (case E e of None \<Rightarrow> Inr () | Some err \<Rightarrow> Inl err)"
  by (simp add: attempt_def split: option.split)

lemma attempt_cases:
  obtains (failed) err where "attempt E e s = (Inl err, s)" | (happened) "attempt E e s = (Inr (), emit e s)"
  by (cases "E e") (auto simp: attempt_def)

lemma pool_ok_cong:
  assumes "idle t = idle s" "busy t = busy s" "timer_worker t = timer_worker s" "next_id t = next_id s"
    "gates t = gates s" "freed t = freed s" "doomed_workers t = doomed_workers s"
    "next_doom_generation t = next_doom_generation s"
  shows "pool_ok t = pool_ok s"
  using assms by (simp add: pool_ok_def pool_def)

lemma capi_ok_cong:
  assumes "pending_capi_transfers t = pending_capi_transfers s" "capi_values t = capi_values s"
    "pending_capi_requests t = pending_capi_requests s"
  shows "capi_ok t = capi_ok s"
  using assms by (simp add: capi_ok_def)

text \<open>Broadcasts and deliveries only add effects of their own.\<close>

fun quiet_effect :: "('t, 'v, 'p) sched_effect \<Rightarrow> bool" where
  "quiet_effect (Collect w) = True"
| "quiet_effect (SentCapi w k v) = True"
| "quiet_effect (SentDrop w k) = True"
| "quiet_effect _ = False"

lemma quiet_frees: "list_all quiet_effect es \<Longrightarrow> e \<in> set es \<Longrightarrow> freed_by e = []"
  by (cases e) (auto simp: list_all_iff)

definition quiet_change :: "('t, 'v, 'p) sched \<Rightarrow> ('t, 'v, 'p) sched \<Rightarrow> bool" where
  "quiet_change s t \<longleftrightarrow> (\<exists>es rs. t = s\<lparr>effects := effects s @ es, capi_recipients := rs\<rparr> \<and> list_all quiet_effect es)"

lemma quiet_refl [simp]: "quiet_change s s"
  by (auto simp: quiet_change_def intro!: exI [of _ "[]"] exI [of _ "capi_recipients s"])

lemma quiet_trans: "quiet_change s t \<Longrightarrow> quiet_change t u \<Longrightarrow> quiet_change s u"
  unfolding quiet_change_def
proof (elim exE conjE)
  fix es rs es' rs'
  assume "t = s\<lparr>effects := effects s @ es, capi_recipients := rs\<rparr>" "list_all quiet_effect es"
    "u = t\<lparr>effects := effects t @ es', capi_recipients := rs'\<rparr>" "list_all quiet_effect es'"
  then show "\<exists>es rs. u = s\<lparr>effects := effects s @ es, capi_recipients := rs\<rparr> \<and> list_all quiet_effect es"
    by (intro exI [of _ "es @ es'"] exI [of _ rs']) simp
qed

lemma quiet_emit: "quiet_effect e \<Longrightarrow> quiet_change s (emit e s)"
  unfolding quiet_change_def emit_def
  by (rule exI [of _ "[e]"], rule exI [of _ "capi_recipients s"]) simp

lemma quiet_attempt: "quiet_effect e \<Longrightarrow> quiet_change s (snd (attempt E e s))"
  by (simp add: snd_attempt quiet_emit)

lemma quiet_recipient: "quiet_change s (add_recipient k w s)"
  unfolding quiet_change_def add_recipient_def by (rule exI [of _ "[]"]) auto

lemma quiet_bind:
  "quiet_change s (snd r) \<Longrightarrow> (\<And>a. quiet_change (snd r) (snd (k a (snd r)))) \<Longrightarrow> quiet_change s (snd (bind_st r k))"
  by (auto simp: bind_st_split split: sum.split intro: quiet_trans)

lemma quiet_attempt_then:
  assumes "quiet_effect e" "\<And>t. quiet_change t (snd (k () t))"
  shows "quiet_change s (snd (bind_st (attempt E e s) k))"
  by (rule quiet_bind [OF quiet_attempt [OF assms(1)]]) (simp add: assms(2))

lemma quiet_collect_all: "quiet_change s (snd (collect_all E ws s))"
proof (induction ws arbitrary: s)
  case (Cons w ws)
  show ?case unfolding collect_all.simps
    by (rule quiet_attempt_then [OF _ Cons.IH]) simp
qed simp

lemma quiet_drop_all: "quiet_change s (snd (drop_all E k ws s))"
proof (induction ws arbitrary: s)
  case (Cons w ws)
  have "quiet_change s (snd (bind_st (attempt E (SentDrop w k) s) (\<lambda>_ s1. drop_all E k ws s1)))"
    by (rule quiet_attempt_then [OF _ Cons.IH]) simp
  then show ?case using Cons.IH by simp
qed simp

lemma quiet_deliver_all: "quiet_change s (snd (deliver_all E k v ws s))"
proof (induction ws arbitrary: s)
  case (Cons w ws)
  have "quiet_change s (snd (bind_st (attempt E (SentCapi w k v) s) (\<lambda>_ s1. deliver_all E k v ws (add_recipient k w s1))))"
    by (rule quiet_attempt_then [OF _ quiet_trans [OF quiet_recipient Cons.IH]]) simp
  then show ?case using Cons.IH by simp
qed simp

lemma quiet_fields:
  assumes "quiet_change s t"
  shows "idle t = idle s" "busy t = busy s" "timer_worker t = timer_worker s" "next_id t = next_id s"
    "gates t = gates s" "freed t = freed s" "doomed_workers t = doomed_workers s"
    "next_doom_generation t = next_doom_generation s"
    "pending_capi_transfers t = pending_capi_transfers s" "capi_values t = capi_values s"
    "pending_capi_requests t = pending_capi_requests s" "retiring t = retiring s"
    "wasm_workers t = wasm_workers s"
  using assms quiet_frees by (auto simp: quiet_change_def freed_def)

lemma quiet_ok:
  assumes "quiet_change s t"
  shows "pool_ok t = pool_ok s" "capi_ok t = capi_ok s"
  by (rule pool_ok_cong capi_ok_cong; simp add: quiet_fields [OF assms])+

section \<open>Starting and finding workers\<close>

definition fresh_worker :: "nat \<Rightarrow> ('t, 'v, 'p) sched \<Rightarrow> bool" where
  "fresh_worker w s \<longleftrightarrow> w \<notin> set (pool s) \<and> w < next_id s"

lemma freed_change [simp]:
  "freed (s\<lparr>idle := q\<rparr>) = freed s" "freed (s\<lparr>busy := q\<rparr>) = freed s"
  "freed (s\<lparr>timer_worker := tw\<rparr>) = freed s" "freed (s\<lparr>gates := gs\<rparr>) = freed s"
  "freed (s\<lparr>next_id := n\<rparr>) = freed s" "freed (s\<lparr>doomed_workers := ds\<rparr>) = freed s"
  "freed (s\<lparr>next_doom_generation := g\<rparr>) = freed s" "freed (s\<lparr>retiring := rs\<rparr>) = freed s"
  "freed (s\<lparr>wasm_workers := ww\<rparr>) = freed s" "freed (s\<lparr>pending_capi_transfers := pt\<rparr>) = freed s"
  "freed (s\<lparr>pending_capi_requests := pr\<rparr>) = freed s" "freed (s\<lparr>capi_values := cv\<rparr>) = freed s"
  "freed (s\<lparr>capi_origins := co\<rparr>) = freed s" "freed (s\<lparr>capi_recipients := cr\<rparr>) = freed s"
  by (simp_all add: freed_def)

lemma start_worker_cases:
  obtains (failed) err where "start_worker E retire s = (Inl err, s\<lparr>next_id := next_id s + 1\<rparr>)"
  | (started) "start_worker E retire s = (Inr (next_id s mod 2 ^ 32),
      (emit (Started (next_id s mod 2 ^ 32) retire) (s\<lparr>next_id := next_id s + 1\<rparr>))
        \<lparr>gates := bt_insert (next_id s mod 2 ^ 32) () (gates s)\<rparr>)"
  by (cases "E (Started (next_id s mod 2 ^ 32) retire)") (auto simp: start_worker_def Let_def attempt_def)

lemma pool_ok_start:
  assumes "pool_ok s" "next_id (snd (start_worker E retire s)) \<le> 2 ^ 32"
  shows "pool_ok (snd (start_worker E retire s))"
    and "fst (start_worker E retire s) = Inr w \<Longrightarrow> w = next_id s \<and> fresh_worker w (snd (start_worker E retire s))"
proof -
  have small: "next_id s mod 2 ^ 32 = next_id s"
    using assms(2) by (cases rule: start_worker_cases [of E retire s]) (auto intro!: mod_less)
  show "pool_ok (snd (start_worker E retire s))" using assms(1)
    by (cases rule: start_worker_cases [of E retire s])
      (auto simp: pool_ok_def small pool_def set_bt_keys_insert less_SucI simp del: power_numeral)
  show "w = next_id s \<and> fresh_worker w (snd (start_worker E retire s))"
    if "fst (start_worker E retire s) = Inr w" using assms(1) that
    by (cases rule: start_worker_cases [of E retire s])
      (auto simp: pool_ok_def small pool_def fresh_worker_def simp del: power_numeral)
qed

lemma pool_ok_next:
  assumes "pool_ok s" "next_id (snd (next_available_worker E s)) \<le> 2 ^ 32"
  shows "pool_ok (snd (next_available_worker E s))"
    and "fst (next_available_worker E s) = Inr w \<Longrightarrow> fresh_worker w (snd (next_available_worker E s))"
proof -
  have split: "pool_ok (s\<lparr>idle := q\<rparr>) \<and> fresh_worker v (s\<lparr>idle := q\<rparr>)" if "idle s = q @ [v]" for q v
    using assms(1) that by (auto simp: pool_ok_def pool_def fresh_worker_def)
  show "pool_ok (snd (next_available_worker E s))"
    using assms pool_ok_start(1) split by (cases "idle s" rule: rev_cases) (simp_all add: next_available_worker_def)
  show "fresh_worker w (snd (next_available_worker E s))" if "fst (next_available_worker E s) = Inr w"
    using assms that pool_ok_start(2) [of s E False w] split
    by (cases "idle s" rule: rev_cases) (auto simp: next_available_worker_def simp del: power_numeral)
qed

lemma pool_ok_add:
  assumes "pool_ok s" "fresh_worker w s"
  shows "busy s = q \<Longrightarrow> pool_ok (s\<lparr>busy := q @ [w]\<rparr>)" "idle s = q \<Longrightarrow> pool_ok (s\<lparr>idle := q @ [w]\<rparr>)"
    "timer_worker s = None \<Longrightarrow> pool_ok (s\<lparr>timer_worker := Some w\<rparr>)"
  using assms by (auto simp: pool_ok_def pool_def fresh_worker_def split: option.splits)

lemma capi_ok_change [simp]:
  "capi_ok (s\<lparr>idle := q\<rparr>) = capi_ok s" "capi_ok (s\<lparr>busy := q\<rparr>) = capi_ok s"
  "capi_ok (s\<lparr>timer_worker := tw\<rparr>) = capi_ok s" "capi_ok (s\<lparr>gates := gs\<rparr>) = capi_ok s"
  "capi_ok (s\<lparr>doomed_workers := ds\<rparr>) = capi_ok s" "capi_ok (s\<lparr>next_doom_generation := g\<rparr>) = capi_ok s"
  "capi_ok (s\<lparr>retiring := rs\<rparr>) = capi_ok s" "capi_ok (s\<lparr>wasm_workers := ww\<rparr>) = capi_ok s"
  "capi_ok (s\<lparr>next_id := n\<rparr>) = capi_ok s" "capi_ok (emit e s) = capi_ok s"
  by (simp_all add: capi_ok_def)

lemma pool_ok_change [simp]:
  "pool_ok (s\<lparr>retiring := rs\<rparr>) = pool_ok s" "pool_ok (s\<lparr>wasm_workers := ww\<rparr>) = pool_ok s"
  "pool_ok (s\<lparr>pending_capi_requests := pr\<rparr>) = pool_ok s" "pool_ok (s\<lparr>capi_values := cv\<rparr>) = pool_ok s"
  "pool_ok (s\<lparr>pending_capi_transfers := pt\<rparr>) = pool_ok s" "pool_ok (s\<lparr>capi_origins := co\<rparr>) = pool_ok s"
  "pool_ok (s\<lparr>capi_recipients := cr\<rparr>) = pool_ok s"
  "freed_by e = [] \<Longrightarrow> pool_ok (emit e s) = pool_ok s"
  by (simp_all add: pool_ok_def pool_def)

lemma fresh_worker_change [simp]:
  "fresh_worker w (s\<lparr>retiring := rs\<rparr>) = fresh_worker w s" "fresh_worker w (s\<lparr>wasm_workers := ww\<rparr>) = fresh_worker w s"
  "fresh_worker w (emit e s) = fresh_worker w s"
  by (simp_all add: fresh_worker_def pool_def)

section \<open>Each message keeps the invariant\<close>

lemma take_transfers_shape:
  "\<exists>rs ts. snd (take_capi_transfers source blocks w s)
     = s\<lparr>pending_capi_transfers := ts, capi_recipients := rs\<rparr> \<and> set ts \<subseteq> set (pending_capi_transfers s)"
proof -
  have add: "\<exists>rs. fold (\<lambda>(k, _). add_recipient k w) kvs t = t\<lparr>capi_recipients := rs\<rparr>"
    for kvs :: "(capi_key \<times> 'v) list" and t :: "('t, 'v, 'p) sched"
  proof (induction kvs arbitrary: t)
    case Nil
    show ?case by (rule exI [of _ "capi_recipients t"]) simp
  next
    case (Cons kv kvs)
    then obtain rs where "fold (\<lambda>(k, _). add_recipient k w) kvs (add_recipient (fst kv) w t)
        = (add_recipient (fst kv) w t)\<lparr>capi_recipients := rs\<rparr>" by blast
    moreover have "add_recipient (fst kv) w t = t\<lparr>capi_recipients := bt_add (fst kv) w (capi_recipients t)\<rparr>"
      by (simp add: add_recipient_def)
    ultimately show ?case by (cases kv) (auto intro!: exI [of _ rs])
  qed
  show ?thesis
  proof (cases "\<not> blocks \<or> source = None \<or> bt_get (pending_capi_transfers s) (the source) = None")
    case True
    then have "snd (take_capi_transfers source blocks w s) = s"
      by (auto simp: take_capi_transfers_def split: option.splits)
    then show ?thesis by (intro exI [of _ "capi_recipients s"] exI [of _ "pending_capi_transfers s"]) simp
  next
    case False
    then obtain src transfers where src: "blocks" "source = Some src"
      "bt_get (pending_capi_transfers s) src = Some transfers" by auto
    obtain rs where "fold (\<lambda>(k, _). add_recipient k w) transfers
        (s\<lparr>pending_capi_transfers := bt_remove src (pending_capi_transfers s)\<rparr>)
        = s\<lparr>pending_capi_transfers := bt_remove src (pending_capi_transfers s), capi_recipients := rs\<rparr>"
      using add by blast
    then show ?thesis using src
      by (intro exI [of _ rs] exI [of _ "bt_remove src (pending_capi_transfers s)"])
        (auto simp: take_capi_transfers_def bt_remove_def)
  qed
qed

lemma take_transfers_fields:
  assumes "t = snd (take_capi_transfers source blocks w s)"
  shows "idle t = idle s" "busy t = busy s" "timer_worker t = timer_worker s" "next_id t = next_id s"
    "gates t = gates s" "freed t = freed s" "doomed_workers t = doomed_workers s"
    "next_doom_generation t = next_doom_generation s" "effects t = effects s" "retiring t = retiring s"
    "wasm_workers t = wasm_workers s" "capi_values t = capi_values s"
    "pending_capi_requests t = pending_capi_requests s" "pool t = pool s"
    "fresh_worker v t = fresh_worker v s"
    "pool_ok t = pool_ok s" "capi_ok s \<Longrightarrow> capi_ok t" "retire_wasm_workers t = retire_wasm_workers s"
proof -
  obtain rs ts where shape: "t = s\<lparr>pending_capi_transfers := ts, capi_recipients := rs\<rparr>"
      "set ts \<subseteq> set (pending_capi_transfers s)"
    using take_transfers_shape [of source blocks w s] assms by blast
  then show "idle t = idle s" "busy t = busy s" "timer_worker t = timer_worker s" "next_id t = next_id s"
    "gates t = gates s" "freed t = freed s" "doomed_workers t = doomed_workers s"
    "next_doom_generation t = next_doom_generation s" "effects t = effects s" "retiring t = retiring s"
    "wasm_workers t = wasm_workers s" "capi_values t = capi_values s"
    "pending_capi_requests t = pending_capi_requests s" "pool t = pool s"
    "fresh_worker v t = fresh_worker v s"
    "pool_ok t = pool_ok s" "retire_wasm_workers t = retire_wasm_workers s"
    by (simp_all add: pool_ok_def pool_def fresh_worker_def freed_def)
  show "capi_ok s \<Longrightarrow> capi_ok t" using shape by (fastforce simp: capi_ok_def)
qed

lemma start_worker_fields:
  "t = snd (start_worker E retire s) \<Longrightarrow>
    idle t = idle s \<and> busy t = busy s \<and> timer_worker t = timer_worker s \<and> next_id t = next_id s + 1
    \<and> capi_ok t = capi_ok s \<and> freed t = freed s \<and> wasm_workers t = wasm_workers s
    \<and> doomed_workers t = doomed_workers s \<and> next_doom_generation t = next_doom_generation s"
  by (cases rule: start_worker_cases [of E retire s]) (auto simp: capi_ok_def)

lemma next_worker_fields:
  "t = snd (next_available_worker E s) \<Longrightarrow>
    busy t = busy s \<and> timer_worker t = timer_worker s \<and> next_id s \<le> next_id t
    \<and> capi_ok t = capi_ok s \<and> freed t = freed s \<and> wasm_workers t = wasm_workers s
    \<and> doomed_workers t = doomed_workers s \<and> next_doom_generation t = next_doom_generation s"
  using start_worker_fields [of "snd (start_worker E False s)" E False s]
  by (auto simp: next_available_worker_def capi_ok_def)

lemma send_to_cases:
  obtains (failed) err where "E (Posted w p transfers) = Some err"
      "send_to E w p transfers s = (Inl (''Unable to send a message to worker '' @ nat_digits w @ '': '' @ err),
        emit (DroppedHandle w) s)"
  | (sent) "E (Posted w p transfers) = None"
      "send_to E w p transfers s = (Inr (), emit (Posted w p transfers) s)"
  by (cases "E (Posted w p transfers)") (auto simp: send_to_def attempt_def)

text \<open>A worker found or started is outside the pool until its work has been posted.\<close>

lemma post_shape:
  assumes "pool_ok s" "next_id (snd (post_message_from E source p s)) \<le> 2 ^ 32"
  shows "pool_ok (snd (post_message_from E source p s))"
    "capi_ok s \<Longrightarrow> capi_ok (snd (post_message_from E source p s))"
proof -
  obtain r s1 where found: "next_available_worker E s = (r, s1)" by (cases "next_available_worker E s")
  note kept = next_worker_fields [of s1 E s, simplified found, simplified]
  have "pool_ok (snd (post_message_from E source p s))
      \<and> (capi_ok s \<longrightarrow> capi_ok (snd (post_message_from E source p s)))"
  proof (cases r)
    case (Inl e)
    then show ?thesis using assms pool_ok_next(1) [of s E] found kept
      by (simp add: post_message_from_def)
  next
    case (Inr w)
    define s2 where "s2 = snd (take_capi_transfers source (would_block p) w s1)"
    define transfers where "transfers = fst (take_capi_transfers source (would_block p) w s1)"
    note took = take_transfers_fields [OF s2_def]
    have s3: "post_message_from E source p s = bind_st (send_to E w p transfers s2) (\<lambda>_ s3.
          (Inr (), if would_block p then s3\<lparr>busy := busy s3 @ [w]\<rparr> else s3\<lparr>idle := idle s3 @ [w]\<rparr>))"
      by (simp add: post_message_from_def found Inr s2_def transfers_def split_beta)
    then have "next_id s1 \<le> 2 ^ 32" using assms(2) took
      by (cases rule: send_to_cases [of E w p transfers s2]) (auto split: if_splits)
    then have "pool_ok s2" "fresh_worker w s2"
      using pool_ok_next(1) [of s E] pool_ok_next(2) [of s E w] assms(1) by (auto simp: found Inr took simp del: power_numeral)
    then show ?thesis unfolding s3 using took(17) kept
      by (cases rule: send_to_cases [of E w p transfers s2]) (auto simp: pool_ok_add)
  qed
  then show "pool_ok (snd (post_message_from E source p s))"
    "capi_ok s \<Longrightarrow> capi_ok (snd (post_message_from E source p s))" by auto
qed

lemma wasm_worker_ok:
  assumes "pool_ok s" "next_id (snd (wasm_worker E s)) \<le> 2 ^ 32"
  shows "pool_ok (snd (wasm_worker E s))"
    and "fst (wasm_worker E s) = Inr w \<Longrightarrow> fresh_worker w (snd (wasm_worker E s))"
proof -
  have starts: "next_id (snd (wasm_worker E s)) = next_id (snd (start_worker E True s))" if "retire_wasm_workers s"
    using that by (cases rule: start_worker_cases [of E True s]) (simp_all add: wasm_worker_def)
  show "pool_ok (snd (wasm_worker E s))"
  proof (cases "retire_wasm_workers s")
    case True
    have "pool_ok (snd (start_worker E True s))" using assms starts [OF True] pool_ok_start(1) by metis
    then show ?thesis using True
      by (cases "start_worker E True s"; cases "fst (start_worker E True s)") (auto simp: wasm_worker_def)
  next
    case False
    then show ?thesis using assms pool_ok_next(1) by (simp add: wasm_worker_def)
  qed
  show "fresh_worker w (snd (wasm_worker E s))" if "fst (wasm_worker E s) = Inr w"
  proof (cases "retire_wasm_workers s")
    case True
    have "fst (start_worker E True s) = Inr v \<Longrightarrow> fresh_worker v (snd (start_worker E True s))" for v
      using assms starts [OF True] pool_ok_start(2) by metis
    then show ?thesis using True that
      by (cases "start_worker E True s"; cases "fst (start_worker E True s)") (auto simp: wasm_worker_def)
  next
    case False
    then show ?thesis using assms that pool_ok_next(2) by (simp add: wasm_worker_def)
  qed
qed

lemma wasm_worker_fields:
  "t = snd (wasm_worker E s) \<Longrightarrow>
    busy t = busy s \<and> timer_worker t = timer_worker s \<and> next_id s \<le> next_id t
    \<and> capi_ok t = capi_ok s \<and> freed t = freed s \<and> wasm_workers t = wasm_workers s
    \<and> doomed_workers t = doomed_workers s \<and> next_doom_generation t = next_doom_generation s"
  using start_worker_fields [of "snd (start_worker E True s)" E True s]
    next_worker_fields [of "snd (next_available_worker E s)" E s]
  by (cases "start_worker E True s"; cases "fst (start_worker E True s)") (auto simp: wasm_worker_def)

lemma post_wasm_shape:
  assumes "pool_ok s" "next_id (snd (post_wasm_message_from E source p key proc s)) \<le> 2 ^ 32"
  shows "pool_ok (snd (post_wasm_message_from E source p key proc s))"
    "capi_ok s \<Longrightarrow> capi_ok (snd (post_wasm_message_from E source p key proc s))"
proof -
  obtain r s1 where found: "wasm_worker E s = (r, s1)" by (cases "wasm_worker E s")
  note kept = wasm_worker_fields [of s1 E s, simplified found, simplified]
  have "pool_ok (snd (post_wasm_message_from E source p key proc s))
      \<and> (capi_ok s \<longrightarrow> capi_ok (snd (post_wasm_message_from E source p key proc s)))"
  proof (cases r)
    case (Inl e)
    then show ?thesis using assms wasm_worker_ok(1) [of s E] found kept
      by (simp add: post_wasm_message_from_def)
  next
    case (Inr w)
    define s2 where "s2 = snd (take_capi_transfers source True w s1)"
    define transfers where "transfers = fst (take_capi_transfers source True w s1)"
    define s3 where "s3 = s2\<lparr>wasm_workers := bt_insert key (w, proc) (wasm_workers s2)\<rparr>"
    note took = take_transfers_fields [OF s2_def]
    have post: "post_wasm_message_from E source p key proc s = bind_st (send_to E w p transfers s3) (\<lambda>_ s4.
          (Inr (), s4\<lparr>busy := busy s4 @ [w]\<rparr>))"
      by (simp add: post_wasm_message_from_def found Inr s2_def s3_def transfers_def split_beta Let_def)
    then have "next_id s1 \<le> 2 ^ 32" using assms(2) took
      by (cases rule: send_to_cases [of E w p transfers s3]) (auto simp: s3_def)
    then have "pool_ok s3" "fresh_worker w s3"
      using wasm_worker_ok(1) [of s E] wasm_worker_ok(2) [of s E w] assms(1)
      by (auto simp: found Inr took s3_def simp del: power_numeral)
    moreover have "capi_ok s \<longrightarrow> capi_ok s3" using kept took(17) by (simp add: s3_def)
    ultimately show ?thesis unfolding post
      by (cases rule: send_to_cases [of E w p transfers s3]) (auto simp: pool_ok_add)
  qed
  then show "pool_ok (snd (post_wasm_message_from E source p key proc s))"
    "capi_ok s \<Longrightarrow> capi_ok (snd (post_wasm_message_from E source p key proc s))" by auto
qed

lemma run_timer_shape:
  assumes "pool_ok s" "next_id (snd (run_timer E t s)) \<le> 2 ^ 32"
  shows "pool_ok (snd (run_timer E t s))" "capi_ok s \<Longrightarrow> capi_ok (snd (run_timer E t s))"
proof -
  have "pool_ok (snd (run_timer E t s)) \<and> (capi_ok s \<longrightarrow> capi_ok (snd (run_timer E t s)))"
  proof (cases "timer_worker s")
    case None
    show ?thesis
    proof (cases rule: start_worker_cases [of E False s])
      case failed
      then show ?thesis using assms None pool_ok_start(1) [of s E False]
        by (simp add: run_timer_def)
    next
      case started
      define w where "w = next_id s mod 2 ^ 32"
      define s1 where "s1 = snd (start_worker E False s)"
      have timer: "run_timer E t s = attempt E (Posted w (TimerJob t) []) (s1\<lparr>timer_worker := Some w\<rparr>)"
        unfolding run_timer_def s1_def started None w_def by simp
      then have "next_id s1 \<le> 2 ^ 32"
        using assms(2) by (simp add: snd_attempt split: if_splits)
      then have ok: "pool_ok s1" "fresh_worker w s1"
        using pool_ok_start(1) [of s E False] pool_ok_start(2) [of s E False w] assms(1)
        unfolding s1_def w_def started by (auto simp del: power_numeral)
      have "timer_worker s1 = None" "capi_ok s1 = capi_ok s"
        using start_worker_fields [OF s1_def] None by simp_all
      then show ?thesis unfolding timer using pool_ok_add(3) [OF ok] by (simp add: snd_attempt)
    qed
  next
    case (Some w)
    then show ?thesis using assms(1) by (simp add: run_timer_def snd_attempt)
  qed
  then show "pool_ok (snd (run_timer E t s))" "capi_ok s \<Longrightarrow> capi_ok (snd (run_timer E t s))" by auto
qed

lemma pool_ok_mark: "pool_ok s \<Longrightarrow> pool_ok (mark_busy w s)" "pool_ok s \<Longrightarrow> pool_ok (mark_idle w s)"
  by (auto simp: mark_busy_def mark_idle_def pool_ok_def pool_def dest: notin_set_remove1 set_remove1_subset [THEN subsetD])

lemma pool_ok_release: "pool_ok s \<Longrightarrow> pool_ok (release_worker_memory w s)"
  using bt_get_None [of "gates s" w]
  by (auto simp: release_worker_memory_def pool_ok_def pool_def bt_keys_remove)

lemma capi_ok_release: "capi_ok (release_worker_memory w s) = capi_ok s"
  by (simp add: release_worker_memory_def)

lemma pool_ok_doomed:
  "pool_ok s \<Longrightarrow> pool_ok (s\<lparr>doomed_workers := bt_remove w (doomed_workers s)\<rparr>)"
  by (auto simp: pool_ok_def pool_def bt_remove_def)

lemma pool_ok_terminate: "pool_ok s \<Longrightarrow> pool_ok (terminate_wasm_thread key s)"
proof (cases "\<exists>w p. bt_get (wasm_workers s) key = Some (w, p) \<and> bt_get (doomed_workers s) w = None")
  case True
  then obtain w p where w: "bt_get (wasm_workers s) key = Some (w, p)" "bt_get (doomed_workers s) w = None" by blast
  let ?s = "s\<lparr>next_doom_generation := next_doom_generation s + 1,
    doomed_workers := bt_insert w (next_doom_generation s + 1) (doomed_workers s)\<rparr>"
  assume ok: "pool_ok s"
  have "\<forall>(v, g) \<in> set (doomed_workers ?s). g \<le> next_doom_generation ?s"
    using ok set_bt_insert [of w "next_doom_generation s + 1" "doomed_workers s"]
    by (fastforce simp: pool_ok_def)
  then have "pool_ok ?s" using ok by (simp add: pool_ok_def pool_def)
  then show ?thesis by (simp add: terminate_wasm_thread_def w Let_def)
qed (auto simp: terminate_wasm_thread_def split: option.splits)

lemma capi_ok_terminate: "capi_ok (terminate_wasm_thread key s) = capi_ok s"
  by (auto simp: terminate_wasm_thread_def Let_def split: option.split)

lemma pool_ok_remove: "pool_ok s \<Longrightarrow> pool_ok (snd (remove_worker w s))"
  by (auto simp: remove_worker_def drop_wasm_def Let_def pool_ok_def pool_def
      dest: notin_set_remove1 set_remove1_subset [THEN subsetD])

lemma requests_removed:
  "set (bt_keys (bt_retain Q (map (\<lambda>(k, ws). (k, f ws)) m))) \<subseteq> set (bt_keys m)"
  by (auto simp: bt_keys_def bt_retain_def rev_image_eqI)

lemma capi_ok_remove: "capi_ok s \<Longrightarrow> capi_ok (snd (remove_worker w s))"
  using requests_removed [of "\<lambda>_ ws. ws \<noteq> []" "bt_remove w" "pending_capi_requests s"]
  by (auto simp: remove_worker_def drop_wasm_def Let_def capi_ok_def)

lemma ok_collect_idle [simp]:
  "pool_ok (snd (collect_idle E s)) = pool_ok s" "capi_ok (snd (collect_idle E s)) = capi_ok s"
  "next_id (snd (collect_idle E s)) = next_id s"
  unfolding collect_idle_def
  using quiet_ok [OF quiet_collect_all] quiet_fields(4) [OF quiet_collect_all] by blast+

lemma force_terminate_shape:
  "pool_ok s \<Longrightarrow> pool_ok (snd (force_terminate E w g s))"
  "capi_ok s \<Longrightarrow> capi_ok (snd (force_terminate E w g s))"
  using pool_ok_remove [OF pool_ok_doomed, of s w w]
    capi_ok_remove [of "s\<lparr>doomed_workers := bt_remove w (doomed_workers s)\<rparr>" w]
  by (auto simp: force_terminate_def split: prod.split bool.split)

lemma worker_idle_shape:
  "pool_ok s \<Longrightarrow> pool_ok (snd (worker_idle E w s))" "capi_ok s \<Longrightarrow> capi_ok (snd (worker_idle E w s))"
  using pool_ok_mark(2) [OF pool_ok_doomed, of s w w] pool_ok_doomed [of s w]
  by (auto simp: worker_idle_def Let_def drop_wasm_def mark_idle_def)

lemma worker_retired_shape:
  "pool_ok s \<Longrightarrow> pool_ok (snd (worker_retired E w s))" "capi_ok s \<Longrightarrow> capi_ok (snd (worker_retired E w s))"
proof -
  have "pool_ok (s\<lparr>busy := filter Q (busy s)\<rparr>)" if "pool_ok s" for s :: "('t, 'v, 'p) sched" and Q
    using that by (auto simp: pool_ok_def pool_def)
  from this [of "s\<lparr>doomed_workers := bt_remove w (doomed_workers s), retiring := bt_remove w (retiring s)\<rparr>"
      "\<lambda>w'. w' \<noteq> w"]
  show "pool_ok s \<Longrightarrow> pool_ok (snd (worker_retired E w s))"
    using pool_ok_doomed [of s w]
    by (auto simp: worker_retired_def Let_def drop_wasm_def intro!: pool_ok_release)
  show "capi_ok s \<Longrightarrow> capi_ok (snd (worker_retired E w s))"
    by (auto simp: worker_retired_def Let_def drop_wasm_def capi_ok_release)
qed

text \<open>Publishing and requesting may each leave one key both published and waited for, which serving
  the requests resolves.\<close>

lemma fulfill_quiet:
  "quiet_change (s\<lparr>pending_capi_requests := pending_capi_requests (snd (fulfill_capi_requests E k s))\<rparr>)
     (snd (fulfill_capi_requests E k s))"
proof (cases "bt_get (capi_values s) k = None \<or> bt_get (pending_capi_requests s) k = None")
  case True
  then show ?thesis by (auto simp: fulfill_capi_requests_def split: option.split)
next
  case False
  then obtain v ws where found: "bt_get (capi_values s) k = Some v" "bt_get (pending_capi_requests s) k = Some ws"
    by auto
  let ?s = "s\<lparr>pending_capi_requests := bt_remove k (pending_capi_requests s)\<rparr>"
  have "quiet_change ?s (snd (deliver_all E k v (bt_keys ws) ?s))" by (rule quiet_deliver_all)
  then show ?thesis using quiet_fields(11) [of ?s] by (simp add: fulfill_capi_requests_def found)
qed

lemma deliver_requests [simp]: "pending_capi_requests (snd (deliver_all E k v ws s)) = pending_capi_requests s"
  by (rule quiet_fields(11) [OF quiet_deliver_all])

lemma fulfill_requests:
  "pending_capi_requests (snd (fulfill_capi_requests E k s)) =
     (if bt_get (capi_values s) k = None \<or> bt_get (pending_capi_requests s) k = None
      then pending_capi_requests s else bt_remove k (pending_capi_requests s))"
  by (auto simp: fulfill_capi_requests_def split: option.split)

lemma fulfill_ok:
  assumes "\<forall>(src, m) \<in> set (pending_capi_transfers s). \<forall>k \<in> set (bt_keys m). k \<in> set (bt_keys (capi_values s))"
    "\<forall>k' \<in> set (bt_keys (pending_capi_requests s)). k' \<noteq> k \<longrightarrow> k' \<notin> set (bt_keys (capi_values s))"
  shows "capi_ok (snd (fulfill_capi_requests E k s))"
proof -
  let ?t = "s\<lparr>pending_capi_requests := pending_capi_requests (snd (fulfill_capi_requests E k s))\<rparr>"
  have "capi_ok ?t"
  proof (cases "bt_get (capi_values s) k = None \<or> bt_get (pending_capi_requests s) k = None")
    case True
    then show ?thesis using assms unfolding fulfill_requests
      by (auto simp: capi_ok_def bt_get_None)
  next
    case False
    then show ?thesis using assms unfolding fulfill_requests
      by (auto simp: capi_ok_def bt_keys_remove)
  qed
  then show ?thesis using quiet_ok(2) [OF fulfill_quiet] by metis
qed

lemma fulfill_pool [simp]:
  "pool_ok (snd (fulfill_capi_requests E k s)) = pool_ok s"
  "next_id (snd (fulfill_capi_requests E k s)) = next_id s"
  using quiet_ok(1) [OF fulfill_quiet] quiet_fields(4) [OF fulfill_quiet] by simp_all

lemma capi_share_shape:
  "pool_ok (snd (capi_share E w k v s)) = pool_ok s" "next_id (snd (capi_share E w k v s)) = next_id s"
  "capi_ok s \<Longrightarrow> capi_ok (snd (capi_share E w k v s))"
proof -
  assume ok: "capi_ok s"
  let ?old = "case bt_get (pending_capi_transfers s) w of None \<Rightarrow> [] | Some m \<Rightarrow> m"
  have old: "\<forall>k' \<in> set (bt_keys ?old). k' \<in> set (bt_keys (capi_values s))"
  proof (cases "bt_get (pending_capi_transfers s) w")
    case (Some m)
    then have "(w, m) \<in> set (pending_capi_transfers s)" by (rule bt_get_SomeD)
    then show ?thesis using ok Some by (fastforce simp: capi_ok_def)
  qed (simp add: bt_keys_def)
  have "\<forall>(src, m) \<in> set (bt_insert w (bt_insert k v ?old) (pending_capi_transfers s)).
      \<forall>k' \<in> set (bt_keys m). k' = k \<or> k' \<in> set (bt_keys (capi_values s))"
    using ok old set_bt_insert [of w "bt_insert k v ?old" "pending_capi_transfers s"]
    by (fastforce simp: capi_ok_def set_bt_keys_insert)
  then show "capi_ok (snd (capi_share E w k v s))" unfolding capi_share_def
    by (intro fulfill_ok) (use ok in \<open>auto simp: set_bt_keys_insert capi_ok_def\<close>)
qed (simp_all add: capi_share_def)

lemma capi_request_shape:
  "pool_ok (snd (capi_request E w k s)) = pool_ok s" "next_id (snd (capi_request E w k s)) = next_id s"
  "capi_ok s \<Longrightarrow> capi_ok (snd (capi_request E w k s))"
proof -
  assume ok: "capi_ok s"
  show "capi_ok (snd (capi_request E w k s))" unfolding capi_request_def
    by (intro fulfill_ok) (use ok in \<open>auto simp: set_bt_keys_insert capi_ok_def bt_add_def\<close>)
qed (simp_all add: capi_request_def)

lemma drop_all_ok [simp]:
  "pool_ok (snd (drop_all E k ws s)) = pool_ok s" "capi_ok (snd (drop_all E k ws s)) = capi_ok s"
  "next_id (snd (drop_all E k ws s)) = next_id s"
  using quiet_ok [OF quiet_drop_all] quiet_fields(4) [OF quiet_drop_all] by blast+

lemma capi_delete_shape:
  "pool_ok (snd (capi_delete E w k s)) = pool_ok s" "next_id (snd (capi_delete E w k s)) = next_id s"
  "capi_ok s \<Longrightarrow> capi_ok (snd (capi_delete E w k s))"
proof -
  assume ok: "capi_ok s"
  have "\<exists>m'. (src, m') \<in> set (pending_capi_transfers s) \<and> m = bt_remove k m'"
    if "(src, m) \<in> set (bt_retain (\<lambda>_ vs. vs \<noteq> []) (map (\<lambda>(src, vs). (src, bt_remove k vs)) (pending_capi_transfers s)))"
    for src m
    using that by (auto simp: bt_retain_def)
  then show "capi_ok (snd (capi_delete E w k s))" using ok
    unfolding capi_delete_def Let_def drop_all_ok
    by (fastforce simp: remove_pending_capi_value_def capi_ok_def bt_keys_remove)
qed (simp_all add: capi_delete_def Let_def remove_pending_capi_value_def)

lemma next_id_change:
  "next_id s \<le> next_id (snd (post_message_from E source p s))"
  "next_id s \<le> next_id (snd (post_wasm_message_from E source p key proc s))"
  "next_id s \<le> next_id (snd (run_timer E t s))"
proof -
  show "next_id s \<le> next_id (snd (post_message_from E source p s))"
    unfolding post_message_from_def
  proof (rule bind_st_keeps)
    show "next_id s \<le> next_id (snd (next_available_worker E s))"
      using next_worker_fields [OF refl, of E s] by blast
    show "next_id s \<le> next_id (snd (let (transfers, s2) = take_capi_transfers source (would_block p) w s1
      in bind_st (send_to E w p transfers s2) (\<lambda>_ s3.
          (Inr (), if would_block p then s3\<lparr>busy := busy s3 @ [w]\<rparr> else s3\<lparr>idle := idle s3 @ [w]\<rparr>))))"
      if "next_id s \<le> next_id s1" for w s1
      using that take_transfers_fields(4) [OF refl, of source "would_block p" w s1]
      by (cases "take_capi_transfers source (would_block p) w s1")
        (auto intro!: bind_st_keeps simp: send_to_def attempt_def split: option.split)
  qed
  show "next_id s \<le> next_id (snd (post_wasm_message_from E source p key proc s))"
    unfolding post_wasm_message_from_def
  proof (rule bind_st_keeps)
    show "next_id s \<le> next_id (snd (wasm_worker E s))"
      using wasm_worker_fields [OF refl, of E s] by blast
    show "next_id s \<le> next_id (snd (let (transfers, s2) = take_capi_transfers source True w s1;
         s3 = s2\<lparr>wasm_workers := bt_insert key (w, proc) (wasm_workers s2)\<rparr>
     in bind_st (send_to E w p transfers s3) (\<lambda>_ s4. (Inr (), s4\<lparr>busy := busy s4 @ [w]\<rparr>))))"
      if "next_id s \<le> next_id s1" for w s1
      using that take_transfers_fields(4) [OF refl, of source True w s1]
      by (cases "take_capi_transfers source True w s1")
        (auto intro!: bind_st_keeps simp: send_to_def attempt_def Let_def split: option.split)
  qed
  show "next_id s \<le> next_id (snd (run_timer E t s))"
    by (cases rule: start_worker_cases [of E False s])
      (auto simp: run_timer_def snd_attempt split: option.split)
qed

lemma next_id_others [simp]:
  "next_id (snd (force_terminate E w g s)) = next_id s" "next_id (snd (worker_idle E w s)) = next_id s"
  "next_id (snd (worker_retired E w s)) = next_id s" "next_id (terminate_wasm_thread key s) = next_id s"
  "next_id (mark_busy w s) = next_id s" "next_id (release_worker_memory w s) = next_id s"
  by (auto simp: force_terminate_def remove_worker_def drop_wasm_def Let_def worker_idle_def mark_idle_def
      worker_retired_def release_worker_memory_def terminate_wasm_thread_def mark_busy_def
      split: prod.split bool.split option.split)

lemma execute_from_next: "next_id s \<le> next_id (snd (execute_from E source m s))"
  by (induction m arbitrary: source) (auto simp: next_id_change capi_share_shape capi_request_shape capi_delete_shape)

lemma execute_from_ok:
  assumes "pool_ok s" "capi_ok s" "next_id (snd (execute_from E source m s)) \<le> 2 ^ 32"
  shows "pool_ok (snd (execute_from E source m s)) \<and> capi_ok (snd (execute_from E source m s))"
  using assms
proof (induction m arbitrary: source)
  case (MWorkerBusy w)
  then show ?case using pool_ok_mark(1) [of s w] by (auto simp: mark_busy_def)
qed (auto simp: post_shape post_wasm_shape run_timer_shape force_terminate_shape worker_idle_shape
    worker_retired_shape capi_share_shape capi_request_shape capi_delete_shape pool_ok_terminate
    capi_ok_terminate pool_ok_release capi_ok_release)

definition run_messages :: "(('t, 'v, 'p) sched_env \<times> ('t, 'v, 'p) sched_message) list
    \<Rightarrow> ('t, 'v, 'p) sched \<Rightarrow> ('t, 'v, 'p) sched" where
  "run_messages ms s = fold (\<lambda>(E, m) s. snd (execute E m s)) ms s"

lemma run_messages_simps [simp]:
  "run_messages [] s = s" "run_messages ((E, m) # ms) s = run_messages ms (snd (execute E m s))"
  "run_messages (ms @ ms') s = run_messages ms' (run_messages ms s)"
  by (simp_all add: run_messages_def)

lemma run_messages_next: "next_id s \<le> next_id (run_messages ms s)"
proof (induction ms arbitrary: s)
  case (Cons a ms)
  have "next_id s \<le> next_id (snd (execute (fst a) (snd a) s))"
    unfolding execute_def by (rule execute_from_next)
  also have "\<dots> \<le> next_id (run_messages ms (snd (execute (fst a) (snd a) s)))" by (rule Cons.IH)
  finally show ?case by (cases a) simp
qed simp

lemma run_messages_ok:
  assumes "pool_ok s" "capi_ok s" "next_id (run_messages ms s) \<le> 2 ^ 32"
  shows "pool_ok (run_messages ms s) \<and> capi_ok (run_messages ms s)"
  using assms
proof (induction ms arbitrary: s)
  case (Cons a ms)
  obtain E m where a: "a = (E, m)" by (cases a)
  have "next_id (snd (execute E m s)) \<le> 2 ^ 32"
    using Cons.prems(3) run_messages_next [of "snd (execute E m s)" ms] by (simp add: a)
  then have "pool_ok (snd (execute E m s)) \<and> capi_ok (snd (execute E m s))"
    using Cons.prems(1,2) unfolding execute_def by (intro execute_from_ok)
  then show ?case using Cons.IH [of "snd (execute E m s)"] Cons.prems(3) by (simp add: a)
qed simp

lemma sched_new_ok: "pool_ok (sched_new r)" "capi_ok (sched_new r)"
  by (simp_all add: pool_ok_def capi_ok_def sched_new_def pool_def freed_def bt_keys_def)

section \<open>Properties\<close>

text \<open>C27: the scheduler's bookkeeping holds for every sequence of messages, whichever effects fail,
  while the 32-bit worker numbers have not wrapped: every worker is in one place of the pool, once;
  its memory is freed at most once, and a worker whose gate is kept has not been freed; a value
  waiting to travel with a task is still published; and nobody waits for a value that is
  published.\<close>

theorem scheduler_invariant:
  assumes "next_id (run_messages ms (sched_new r)) \<le> 2 ^ 32"
  defines "s \<equiv> run_messages ms (sched_new r)"
  shows "distinct (pool s) \<and> distinct (freed s) \<and> set (bt_keys (gates s)) \<inter> set (freed s) = {}
    \<and> (\<forall>(src, m) \<in> set (pending_capi_transfers s). set (bt_keys m) \<subseteq> set (bt_keys (capi_values s)))
    \<and> set (bt_keys (pending_capi_requests s)) \<inter> set (bt_keys (capi_values s)) = {}"
proof -
  have "pool_ok s" "capi_ok s"
    using run_messages_ok [OF sched_new_ok assms(1)] by (simp_all add: s_def)
  then show ?thesis unfolding pool_ok_def capi_ok_def by blast
qed

text \<open>A worker running guest code retires, its memory is freed, and a value is published and
  requested meanwhile.\<close>

definition sample_messages :: "((nat, nat, nat) sched_env \<times> (nat, nat, nat) sched_message) list" where
  "sample_messages = [(\<lambda>_. None, MSpawnWasm (1, 1) 7 10), (\<lambda>_. None, MCapiRequest 1 3 11),
     (\<lambda>_. None, MFromWorker 1 (MCapiShare 1 3 11 5)), (\<lambda>_. None, MFromWorker 1 (MSpawnBlocking 12)),
     (\<lambda>_. None, MWorkerRetired 1), (\<lambda>_. None, MWorkerIdle 2), (\<lambda>_. None, MTimer 4)]"

lemmas sched_eval = run_messages_def execute_def post_wasm_message_from_def wasm_worker_def start_worker_def
  attempt_def emit_def post_message_from_def next_available_worker_def take_capi_transfers_def send_to_def
  capi_request_def capi_share_def bt_add_def fulfill_capi_requests_def bt_get_def find_worker_def
  add_recipient_def bt_keys_def worker_retired_def worker_idle_def mark_idle_def drop_wasm_def bt_remove_def
  bt_retain_def release_worker_memory_def collect_idle_def run_timer_def terminate_wasm_thread_def
  force_terminate_def remove_worker_def capi_delete_def remove_pending_capi_value_def mark_busy_def

lemma sample_runs:
  "freed (run_messages sample_messages (sched_new True)) = [1]"
  "pool (run_messages sample_messages (sched_new True)) = [2, 3]"
  "next_id (run_messages sample_messages (sched_new True)) = 4"
  by (simp_all add: sample_messages_def sched_eval sched_new_def freed_def pool_def less_prod_def)

theorem scheduler_invariant_witness:
  "freed (run_messages sample_messages (sched_new True)) = [1]
   \<and> pool (run_messages sample_messages (sched_new True)) = [2, 3]
   \<and> distinct (pool (run_messages sample_messages (sched_new True)))"
  using scheduler_invariant [of sample_messages True] sample_runs by simp

end
