(* ===== verification/Scheduler_Dispatch.thy ===== *)
theory Scheduler_Dispatch
  imports Scheduler_Safety
begin

text \<open>
  Where the scheduler's effects come from: work is posted to workers that are free, a worker is
  force-terminated only while the doom its timer was started for stands, and shutting down leaves no
  worker running.
\<close>

section \<open>Added effects\<close>

definition adds :: "(('t, 'v, 'p) sched_effect \<Rightarrow> bool) \<Rightarrow> ('t, 'v, 'p) sched \<Rightarrow> ('t, 'v, 'p) sched \<Rightarrow> bool" where
  "adds Q s t \<longleftrightarrow> (\<exists>es. effects t = effects s @ es \<and> list_all Q es)"

lemma adds_none: "effects t = effects s \<Longrightarrow> adds Q s t"
  by (simp add: adds_def)

lemma adds_one: "effects t = effects s @ [e] \<Longrightarrow> Q e \<Longrightarrow> adds Q s t"
  by (simp add: adds_def)

lemma adds_trans: "adds Q s t \<Longrightarrow> adds Q t u \<Longrightarrow> adds Q s u"
  by (auto simp: adds_def)

lemma adds_quiet: "quiet_change s t \<Longrightarrow> adds quiet_effect s t"
  by (auto simp: adds_def quiet_change_def)

lemma adds_weaken: "adds P s t \<Longrightarrow> (\<And>e. P e \<Longrightarrow> Q e) \<Longrightarrow> adds Q s t"
  by (auto simp: adds_def list_all_iff)

lemma adds_from: "adds Q s t \<Longrightarrow> effects u = effects s \<Longrightarrow> adds Q u t"
  by (simp add: adds_def)

definition new_effects :: "('t, 'v, 'p) sched \<Rightarrow> ('t, 'v, 'p) sched \<Rightarrow> ('t, 'v, 'p) sched_effect list" where
  "new_effects s t = drop (length (effects s)) (effects t)"

lemma adds_new: "adds Q s t \<Longrightarrow> e \<in> set (new_effects s t) \<Longrightarrow> Q e"
  by (auto simp: adds_def new_effects_def list_all_iff)

lemma adds_all: "adds Q s t \<Longrightarrow> set (effects t) = set (effects s) \<union> set (new_effects s t)"
  by (auto simp: adds_def new_effects_def)

text \<open>The effects of posting work, and of everything else.\<close>

fun work_effect :: "('t, 'v, 'p) sched_effect \<Rightarrow> bool" where
  "work_effect (Started w r) = True"
| "work_effect (Posted w p ts) = True"
| "work_effect (DroppedHandle w) = True"
| "work_effect _ = False"

fun upkeep_effect :: "('t, 'v, 'p) sched_effect \<Rightarrow> bool" where
  "upkeep_effect (FreedMemory w) = True"
| "upkeep_effect e = quiet_effect e"

lemma quiet_upkeep: "quiet_effect e \<Longrightarrow> upkeep_effect e"
  by (cases e) auto

lemma adds_collect: "adds upkeep_effect s (snd (collect_idle E s))"
  unfolding collect_idle_def by (rule adds_weaken [OF adds_quiet [OF quiet_collect_all] quiet_upkeep])

lemma adds_drop: "adds upkeep_effect s (snd (drop_all E k ws s))"
  by (rule adds_weaken [OF adds_quiet [OF quiet_drop_all] quiet_upkeep])

lemma adds_fulfill: "adds upkeep_effect s (snd (fulfill_capi_requests E k s))"
proof -
  define t where "t = s\<lparr>pending_capi_requests := pending_capi_requests (snd (fulfill_capi_requests E k s))\<rparr>"
  have "adds quiet_effect t (snd (fulfill_capi_requests E k s))"
    unfolding t_def by (rule adds_quiet [OF fulfill_quiet])
  then show ?thesis by (rule adds_from [OF adds_weaken [OF _ quiet_upkeep]]) (simp_all add: t_def)
qed

lemma adds_release: "adds upkeep_effect s (release_worker_memory w s)"
  unfolding release_worker_memory_def
  by (cases "bt_get (gates s) w") (auto intro: adds_none adds_one)

lemma adds_upkeep:
  "adds upkeep_effect s (snd (worker_idle E w s))" "adds upkeep_effect s (snd (worker_retired E w s))"
  "adds upkeep_effect s (snd (capi_share E w k v s))" "adds upkeep_effect s (snd (capi_request E w k s))"
  "adds upkeep_effect s (snd (capi_delete E w k s))" "adds upkeep_effect s (mark_busy w s)"
proof -
  have collects: "adds upkeep_effect s (snd (collect_idle E t))" if "effects s = effects t" for t
    by (rule adds_from [OF adds_collect that])
  show "adds upkeep_effect s (snd (worker_idle E w s))"
    by (auto simp: worker_idle_def Let_def drop_wasm_def mark_idle_def collects adds_none)
  show "adds upkeep_effect s (snd (worker_retired E w s))"
    unfolding worker_retired_def Let_def
    by (auto simp: drop_wasm_def intro!: adds_none adds_trans [OF adds_from [OF adds_release] adds_collect])
  show "adds upkeep_effect s (snd (capi_share E w k v s))" "adds upkeep_effect s (snd (capi_request E w k s))"
    unfolding capi_share_def capi_request_def by (rule adds_from [OF adds_fulfill], simp)+
  show "adds upkeep_effect s (snd (capi_delete E w k s))"
    unfolding capi_delete_def Let_def by (rule adds_from [OF adds_drop]) (simp add: remove_pending_capi_value_def)
  show "adds upkeep_effect s (mark_busy w s)" by (rule adds_none) (simp add: mark_busy_def)
qed

lemma adds_terminate: "set (new_effects s (terminate_wasm_thread key s)) \<subseteq> {GraceTimer w (next_doom_generation s + 1) | w. True}"
  by (auto simp: terminate_wasm_thread_def new_effects_def Let_def emit_def split: option.splits if_splits)

section \<open>Where work goes\<close>

fun unwrap :: "('t, 'v, 'p) sched_message \<Rightarrow> ('t, 'v, 'p) sched_message" where
  "unwrap (MFromWorker w m) = unwrap m"
| "unwrap m = m"

lemma execute_unwrap: "\<exists>source'. execute_from E source m s = execute_from E source' (unwrap m) s"
  by (induction m arbitrary: source) auto

lemma unwrap_not_wrapped: "unwrap m \<noteq> MFromWorker w m'"
  by (induction m) auto

lemma found_worker:
  assumes "pool_ok s" "next_id t \<le> 2 ^ 32"
    and "next_available_worker E s = (Inr w, t) \<or> wasm_worker E s = (Inr w, t)"
  shows "w \<notin> set (busy s) \<and> timer_worker s \<noteq> Some w \<and> (w \<in> set (idle s) \<or> w \<notin> set (pool s))
    \<and> (\<forall>v p ts. Posted v p ts \<notin> set (new_effects s t)) \<and> adds work_effect s t"
proof -
  have starts: "w = next_id s \<and> (\<forall>v p ts. Posted v p ts \<notin> set (new_effects s t')) \<and> adds work_effect s t'"
    if "start_worker E retire s = (Inr w, t')" "next_id t' \<le> 2 ^ 32" for retire t'
    using pool_ok_start(2) [OF assms(1), of E retire w] that
    by (cases rule: start_worker_cases [of E retire s])
      (auto simp: new_effects_def adds_def simp del: power_numeral)
  have new: "next_id s \<notin> set (pool s)" using assms(1) by (auto simp: pool_ok_def)
  then have apart: "next_id s \<notin> set (busy s)" "timer_worker s \<noteq> Some (next_id s)"
    by (auto simp: pool_def)
  have recent: ?thesis if "idle s = q @ [w]" "t = s\<lparr>idle := q\<rparr>" for q
    using assms(1) that by (auto simp: pool_ok_def pool_def new_effects_def adds_def)
  have avail: ?thesis if "next_available_worker E s = (Inr w, t)"
    using that recent starts [of False t] assms(2) new apart
    by (cases "idle s" rule: rev_cases) (auto simp: next_available_worker_def simp del: power_numeral)
  have retires: ?thesis if retired: "wasm_worker E s = (Inr w, t)" "retire_wasm_workers s"
  proof -
    obtain t' where t': "start_worker E True s = (Inr w, t')" "t = t'\<lparr>retiring := bt_insert w () (retiring t')\<rparr>"
      using retired by (auto simp: wasm_worker_def bind_st_Inr)
    then show ?thesis using starts [of True t'] assms(2) new apart
      by (auto simp: new_effects_def adds_def simp del: power_numeral)
  qed
  show ?thesis using assms(3) avail retires by (auto simp: wasm_worker_def split: if_splits)
qed

lemma new_effects_via:
  assumes "adds Q s t" "effects u = effects t @ es"
  shows "new_effects s u = new_effects s t @ es"
  using assms by (auto simp: new_effects_def adds_def)

definition dispatched :: "nat \<Rightarrow> 't payload \<Rightarrow> ('t, 'v, 'p) sched \<Rightarrow> ('t, 'v, 'p) sched \<Rightarrow> bool" where
  "dispatched w p s t \<longleftrightarrow> w \<notin> set (busy s) \<and> timer_worker s \<noteq> Some w \<and> (w \<in> set (idle s) \<or> w \<notin> set (pool s))
     \<and> timer_worker t = timer_worker s \<and> (if would_block p then w \<in> set (busy t) \<and> w \<notin> set (idle t)
          else w \<in> set (idle t) \<and> w \<notin> set (busy t))"

lemma pool_apart: "pool_ok s \<Longrightarrow> w \<in> set (idle s) \<Longrightarrow> w \<notin> set (busy s)"
  by (auto simp: pool_ok_def pool_def)

lemma post_dispatch:
  assumes "pool_ok s" "next_id (snd (post_message_from E source p s)) \<le> 2 ^ 32"
    and "Posted w p' ts \<in> set (new_effects s (snd (post_message_from E source p s)))"
  shows "p' = p \<and> dispatched w p s (snd (post_message_from E source p s))"
proof -
  define t where "t = snd (post_message_from E source p s)"
  have ok: "pool_ok t" using post_shape(1) assms(1,2) unfolding t_def by blast
  obtain r s1 where found: "next_available_worker E s = (r, s1)" by (cases "next_available_worker E s")
  note kept = next_worker_fields [of s1 E s, simplified found, simplified]
  have quiet: "Posted v q us \<notin> set (new_effects s s1)" if "r = Inl e" for v q us e
    using found that by (cases rule: start_worker_cases [of E False s])
      (auto simp: next_available_worker_def new_effects_def split: if_splits)
  show ?thesis
  proof (cases r)
    case (Inl e)
    then show ?thesis using assms(3) quiet by (simp add: post_message_from_def found)
  next
    case (Inr v)
    define s2 where "s2 = snd (take_capi_transfers source (would_block p) v s1)"
    define transfers where "transfers = fst (take_capi_transfers source (would_block p) v s1)"
    note took = take_transfers_fields [OF s2_def]
    have t: "t = snd (bind_st (send_to E v p transfers s2) (\<lambda>_ s3.
          (Inr (), if would_block p then s3\<lparr>busy := busy s3 @ [v]\<rparr> else s3\<lparr>idle := idle s3 @ [v]\<rparr>)))"
      by (simp add: t_def post_message_from_def found Inr s2_def transfers_def split_beta)
    have bound: "next_id s1 \<le> 2 ^ 32" using assms(2) took unfolding t_def [symmetric] t
      by (cases rule: send_to_cases [of E v p transfers s2]) (auto split: if_splits)
    have origin: "v \<notin> set (busy s) \<and> timer_worker s \<noteq> Some v \<and> (v \<in> set (idle s) \<or> v \<notin> set (pool s))
        \<and> (\<forall>v p ts. Posted v p ts \<notin> set (new_effects s s1)) \<and> adds work_effect s s1"
      using found_worker [OF assms(1) bound] found Inr by blast
    show ?thesis
    proof (cases rule: send_to_cases [of E v p transfers s2])
      case (failed err)
      have "new_effects s t = new_effects s s1 @ [DroppedHandle v]"
        by (rule new_effects_via) (use origin took in \<open>auto simp: t failed\<close>)
      then show ?thesis using assms(3) origin by (simp add: t_def)
    next
      case sent
      have "new_effects s t = new_effects s s1 @ [Posted v p transfers]"
        by (rule new_effects_via) (use origin took in \<open>auto simp: t sent\<close>)
      then have "w = v" "p' = p" using assms(3) origin by (auto simp: t_def)
      moreover have "timer_worker t = timer_worker s" "if would_block p then v \<in> set (busy t) else v \<in> set (idle t)"
        using took kept by (auto simp: t sent)
      ultimately show ?thesis
        using origin ok pool_apart [of t v] unfolding t_def [symmetric] dispatched_def by auto
    qed
  qed
qed

lemma post_wasm_dispatch:
  assumes "pool_ok s" "next_id (snd (post_wasm_message_from E source p key proc s)) \<le> 2 ^ 32"
    and "Posted w p' ts \<in> set (new_effects s (snd (post_wasm_message_from E source p key proc s)))"
    and "would_block p"
  shows "p' = p \<and> dispatched w p s (snd (post_wasm_message_from E source p key proc s))"
proof -
  define t where "t = snd (post_wasm_message_from E source p key proc s)"
  have ok: "pool_ok t" unfolding t_def by (rule post_wasm_shape(1) [OF assms(1,2)])
  obtain r s1 where found: "wasm_worker E s = (r, s1)" by (cases "wasm_worker E s")
  note kept = wasm_worker_fields [of s1 E s, simplified found, simplified]
  have quiet: "Posted v q us \<notin> set (new_effects s s1)" if "r = Inl e" for v q us e
    using found that by (cases rule: start_worker_cases [of E False s]; cases rule: start_worker_cases [of E True s])
      (auto simp: next_available_worker_def wasm_worker_def new_effects_def split: if_splits)
  show ?thesis
  proof (cases r)
    case (Inl e)
    then show ?thesis using assms(3) quiet by (simp add: post_wasm_message_from_def found)
  next
    case (Inr v)
    define s2 where "s2 = snd (take_capi_transfers source True v s1)"
    define transfers where "transfers = fst (take_capi_transfers source True v s1)"
    define s3 where "s3 = s2\<lparr>wasm_workers := bt_insert key (v, proc) (wasm_workers s2)\<rparr>"
    have took: "effects s3 = effects s1" "timer_worker s3 = timer_worker s1" "next_id s3 = next_id s1"
      using take_transfers_fields [OF s2_def] by (simp_all add: s3_def)
    have t: "t = snd (bind_st (send_to E v p transfers s3) (\<lambda>_ s4. (Inr (), s4\<lparr>busy := busy s4 @ [v]\<rparr>)))"
      by (simp add: t_def post_wasm_message_from_def found Inr s2_def s3_def transfers_def split_beta Let_def)
    have bound: "next_id s1 \<le> 2 ^ 32" using assms(2) took unfolding t_def [symmetric] t
      by (cases rule: send_to_cases [of E v p transfers s3]) auto
    have origin: "v \<notin> set (busy s) \<and> timer_worker s \<noteq> Some v \<and> (v \<in> set (idle s) \<or> v \<notin> set (pool s))
        \<and> (\<forall>v p ts. Posted v p ts \<notin> set (new_effects s s1)) \<and> adds work_effect s s1"
      using found_worker [OF assms(1) bound] found Inr by blast
    show ?thesis
    proof (cases rule: send_to_cases [of E v p transfers s3])
      case (failed err)
      have "new_effects s t = new_effects s s1 @ [DroppedHandle v]"
        by (rule new_effects_via) (use origin took in \<open>auto simp: t failed\<close>)
      then show ?thesis using assms(3) origin by (simp add: t_def)
    next
      case sent
      have "new_effects s t = new_effects s s1 @ [Posted v p transfers]"
        by (rule new_effects_via) (use origin took in \<open>auto simp: t sent\<close>)
      then have "w = v" "p' = p" using assms(3) origin by (auto simp: t_def)
      moreover have "timer_worker t = timer_worker s" "v \<in> set (busy t)"
        using took kept by (auto simp: t sent)
      ultimately show ?thesis
        using origin ok pool_apart [of t v] assms(4) unfolding t_def [symmetric] dispatched_def by auto
    qed
  qed
qed

lemma timer_dispatch:
  assumes "pool_ok (snd (run_timer E t s))" "Posted w p ts \<in> set (new_effects s (snd (run_timer E t s)))"
  shows "p = TimerJob t \<and> timer_worker (snd (run_timer E t s)) = Some w \<and> w \<notin> set (idle (snd (run_timer E t s)))
    \<and> w \<notin> set (busy (snd (run_timer E t s)))"
proof -
  have "p = TimerJob t \<and> timer_worker (snd (run_timer E t s)) = Some w"
    using assms(2) by (cases rule: start_worker_cases [of E False s]; cases "timer_worker s")
      (auto simp: run_timer_def new_effects_def snd_attempt split: if_splits)
  then show ?thesis using assms(1) by (auto simp: pool_ok_def pool_def)
qed

lemma remove_worker_effects [simp]: "effects (snd (remove_worker w s)) = effects s"
  by (simp add: remove_worker_def drop_wasm_def Let_def)

lemma force_terminate_effects:
  "new_effects s (snd (force_terminate E w g s)) =
    (if bt_get (doomed_workers s) w = Some g \<and> w \<in> set (idle s @ busy s)
     then ForceStopped w # drop (Suc (length (effects s))) (effects (snd (force_terminate E w g s))) else [])
   \<and> (\<forall>e \<in> set (drop (Suc (length (effects s))) (effects (snd (force_terminate E w g s)))). upkeep_effect e)"
proof (cases "bt_get (doomed_workers s) w = Some g \<and> w \<in> set (idle s @ busy s)")
  case True
  define s1 where "s1 = snd (remove_worker w (s\<lparr>doomed_workers := bt_remove w (doomed_workers s)\<rparr>))"
  have "fst (remove_worker w (s\<lparr>doomed_workers := bt_remove w (doomed_workers s)\<rparr>))"
    using True by (auto simp: remove_worker_def drop_wasm_def Let_def)
  then have force: "force_terminate E w g s = collect_idle E (emit (ForceStopped w) s1)"
    using True by (simp add: force_terminate_def s1_def split_beta split: bool.split)
  obtain es where "effects (snd (force_terminate E w g s)) = effects s @ [ForceStopped w] @ es" "list_all upkeep_effect es"
    using adds_collect [of "emit (ForceStopped w) s1" E] by (auto simp: adds_def force s1_def)
  then show ?thesis using True by (auto simp: new_effects_def list_all_iff)
next
  case False
  then have "force_terminate E w g s = (Inr (), s) \<or>
      force_terminate E w g s = (Inr (), snd (remove_worker w (s\<lparr>doomed_workers := bt_remove w (doomed_workers s)\<rparr>)))"
    by (auto simp: force_terminate_def remove_worker_def drop_wasm_def Let_def)
  then show ?thesis using False by (auto simp: new_effects_def)
qed

lemma upkeep_only:
  assumes "\<And>k t. unwrap m \<noteq> MSpawnAsync t" "\<And>t. unwrap m \<noteq> MSpawnBlocking t" "\<And>k p t. unwrap m \<noteq> MSpawnWasm k p t"
    "\<And>t. unwrap m \<noteq> MTimer t" "\<And>w g. unwrap m \<noteq> MForceTerminate w g" "\<And>p t. unwrap m \<noteq> MTerminateWasmThread p t"
  shows "adds upkeep_effect s (snd (execute E m s))"
proof -
  obtain src where "execute E m s = execute_from E src (unwrap m) s"
    using execute_unwrap [of E None m s] by (auto simp: execute_def)
  then show ?thesis using assms unwrap_not_wrapped [of m]
    by (cases "unwrap m") (auto simp: adds_upkeep adds_release intro: adds_none)
qed

section \<open>Properties\<close>

text \<open>C28: work goes to free workers only. Whenever handling a message posts a job to a worker, a timer
  goes to the pool's timer worker, which runs nothing else, and any other job to a worker that was
  not busy and is not the timer worker, either idle or new; afterwards a worker given a job that blocks is among the busy ones and
  otherwise among the idle ones, never both.\<close>

theorem work_goes_to_free_workers:
  fixes r :: bool and m :: "('t, 'v, 'p) sched_message" and E :: "('t, 'v, 'p) sched_env"
    and ms :: "(('t, 'v, 'p) sched_env \<times> ('t, 'v, 'p) sched_message) list"
  defines "s \<equiv> run_messages ms (sched_new r)"
  defines "s' \<equiv> snd (execute E m s)"
  assumes "next_id s' \<le> 2 ^ 32" "Posted w p ts \<in> set (new_effects s s')"
  shows "(case p of
      TimerJob t \<Rightarrow> timer_worker s' = Some w \<and> w \<notin> set (idle s') \<and> w \<notin> set (busy s')
    | _ \<Rightarrow> dispatched w p s s')"
proof -
  have "next_id s \<le> 2 ^ 32"
    using assms(3) execute_from_next [of s E None m] by (simp add: s'_def execute_def)
  then have ok: "pool_ok s" "capi_ok s"
    using run_messages_ok [OF sched_new_ok, of ms r] by (auto simp: s_def)
  obtain src where run: "execute E m s = execute_from E src (unwrap m) s"
    using execute_unwrap [of E None m s] by (auto simp: execute_def)
  note posted = assms(3,4) [unfolded s'_def run]
  have end_ok: "pool_ok s'" using execute_from_ok [OF ok] assms(3) by (auto simp: s'_def execute_def)
  show ?thesis
  proof (cases "unwrap m")
    case (MSpawnAsync t)
    then show ?thesis using post_dispatch [OF ok(1), of E src "AsyncThunk t" w p ts] posted
      unfolding s'_def run by (auto split: payload.split)
  next
    case (MSpawnBlocking t)
    then show ?thesis using post_dispatch [OF ok(1), of E src "BlockingThunk t" w p ts] posted
      unfolding s'_def run by (auto split: payload.split)
  next
    case (MSpawnWasm key proc t)
    then show ?thesis using post_wasm_dispatch [OF ok(1), of E src "SpawnWasmJob t" key proc w p ts] posted
      unfolding s'_def run by (auto split: payload.split)
  next
    case (MTimer t)
    then show ?thesis using timer_dispatch [of E t s w p ts] posted end_ok
      unfolding s'_def run by auto
  next
    case (MForceTerminate v g)
    then show ?thesis using posted force_terminate_effects [of s E v g]
      by (auto split: if_splits)
  next
    case (MTerminateWasmThread a b)
    then show ?thesis using posted adds_terminate [of s "(a, b)"] by auto
  qed (use unwrap_not_wrapped [of m] adds_new [OF upkeep_only [of m s E], of "Posted w p ts"] posted run in auto)
qed

lemma sample_dispatch:
  "next_id (snd (execute (\<lambda>_. None) (MSpawnBlocking 20) (run_messages sample_messages (sched_new True)))) \<le> 2 ^ 32"
  "Posted 2 (BlockingThunk 20) [] \<in> set (new_effects (run_messages sample_messages (sched_new True))
     (snd (execute (\<lambda>_. None) (MSpawnBlocking 20) (run_messages sample_messages (sched_new True)))))"
  by (simp_all add: sample_messages_def sched_eval sched_new_def less_prod_def new_effects_def)

theorem work_goes_to_free_workers_witness:
  "dispatched 2 (BlockingThunk 20) (run_messages sample_messages (sched_new True))
     (snd (execute (\<lambda>_. None) (MSpawnBlocking 20) (run_messages sample_messages (sched_new True))))"
  using work_goes_to_free_workers [OF sample_dispatch] by simp

section \<open>Dooms\<close>

definition dooms_ok :: "('t, 'v, 'p) sched \<Rightarrow> bool" where
  "dooms_ok s \<longleftrightarrow> (\<forall>w g. GraceTimer w g \<in> set (effects s) \<longrightarrow> g \<le> next_doom_generation s)
     \<and> (\<forall>w g. bt_get (doomed_workers s) w = Some g \<longrightarrow> GraceTimer w g \<in> set (effects s))"

lemma dooms_quiet:
  assumes "quiet_change s t"
  shows "doomed_workers t = doomed_workers s" "next_doom_generation t = next_doom_generation s"
  using quiet_fields(7,8) [OF assms] .

lemma dooms_collect [simp]:
  "doomed_workers (snd (collect_idle E s)) = doomed_workers s"
  "next_doom_generation (snd (collect_idle E s)) = next_doom_generation s"
  "doomed_workers (snd (drop_all E k ws s)) = doomed_workers s"
  "next_doom_generation (snd (drop_all E k ws s)) = next_doom_generation s"
  "doomed_workers (snd (fulfill_capi_requests E k s)) = doomed_workers s"
  "next_doom_generation (snd (fulfill_capi_requests E k s)) = next_doom_generation s"
  using dooms_quiet [OF quiet_collect_all] dooms_quiet [OF quiet_drop_all] dooms_quiet [OF fulfill_quiet]
  by (simp_all add: collect_idle_def)

lemma dooms_send [simp]:
  "doomed_workers (snd (send_to E w p ts s)) = doomed_workers s"
  "next_doom_generation (snd (send_to E w p ts s)) = next_doom_generation s"
  by (simp_all add: send_to_def attempt_def split: option.split)

lemma posts_keep_dooms:
  "doomed_workers (snd (post_message_from E source p s)) = doomed_workers s
    \<and> next_doom_generation (snd (post_message_from E source p s)) = next_doom_generation s"
  "doomed_workers (snd (post_wasm_message_from E source p key proc s)) = doomed_workers s
    \<and> next_doom_generation (snd (post_wasm_message_from E source p key proc s)) = next_doom_generation s"
  "doomed_workers (snd (run_timer E t s)) = doomed_workers s
    \<and> next_doom_generation (snd (run_timer E t s)) = next_doom_generation s"
proof -
  note took = take_transfers_fields(7,8) [OF refl]
  show "doomed_workers (snd (post_message_from E source p s)) = doomed_workers s
    \<and> next_doom_generation (snd (post_message_from E source p s)) = next_doom_generation s"
    using next_worker_fields [OF refl, of E s]
    by (simp add: post_message_from_def bind_st_split split_beta took split: sum.split)
  show "doomed_workers (snd (post_wasm_message_from E source p key proc s)) = doomed_workers s
    \<and> next_doom_generation (snd (post_wasm_message_from E source p key proc s)) = next_doom_generation s"
    using wasm_worker_fields [OF refl, of E s]
    by (simp add: post_wasm_message_from_def bind_st_split split_beta Let_def took split: sum.split)
  show "doomed_workers (snd (run_timer E t s)) = doomed_workers s
    \<and> next_doom_generation (snd (run_timer E t s)) = next_doom_generation s"
    by (cases rule: start_worker_cases [of E False s]) (auto simp: run_timer_def snd_attempt split: option.split)
qed

lemma adds_bind:
  "adds Q s (snd r) \<Longrightarrow> (\<And>a. adds Q (snd r) (snd (k a (snd r)))) \<Longrightarrow> adds Q s (snd (bind_st r k))"
  by (auto simp: bind_st_split split: sum.split intro: adds_trans)

lemma adds_start: "adds work_effect s (snd (start_worker E retire s))"
  by (cases rule: start_worker_cases [of E retire s]) (auto simp: adds_def)

lemma adds_posts:
  "adds work_effect s (snd (post_message_from E source p s))"
  "adds work_effect s (snd (post_wasm_message_from E source p key proc s))"
  "adds work_effect s (snd (run_timer E t s))"
proof -
  have avail: "adds work_effect s (snd (next_available_worker E s))"
    using adds_start by (auto simp: next_available_worker_def intro: adds_none)
  have wasm: "adds work_effect s (snd (wasm_worker E s))"
  proof (cases "retire_wasm_workers s")
    case True
    have "adds work_effect s (snd (bind_st (start_worker E True s)
        (\<lambda>w s1. (Inr w, s1\<lparr>retiring := bt_insert w () (retiring s1)\<rparr>))))"
      by (rule adds_bind [OF adds_start]) (auto intro: adds_none)
    then show ?thesis using True by (simp add: wasm_worker_def)
  next
    case False
    then show ?thesis using avail by (simp add: wasm_worker_def)
  qed
  have sends: "adds work_effect t (snd (send_to E w p ts t))" for w p ts t
    by (cases rule: send_to_cases [of E w p ts t]) (auto simp: adds_def)
  note took = take_transfers_fields(9) [OF refl]
  show "adds work_effect s (snd (post_message_from E source p s))"
    unfolding post_message_from_def split_beta Let_def
    by (rule adds_bind [OF avail]) (rule adds_bind [OF adds_from [OF sends]], auto simp: took intro: adds_none)
  show "adds work_effect s (snd (post_wasm_message_from E source p key proc s))"
    unfolding post_wasm_message_from_def split_beta Let_def
    by (rule adds_bind [OF wasm]) (rule adds_bind [OF adds_from [OF sends]], auto simp: took intro: adds_none)
  show "adds work_effect s (snd (run_timer E t s))"
    by (cases rule: start_worker_cases [of E False s])
      (auto simp: run_timer_def snd_attempt adds_def split: option.split)
qed

lemma upkeep_dooms:
  "bt_get (doomed_workers (snd (worker_idle E v s))) w = (if w = v then None else bt_get (doomed_workers s) w)"
  "bt_get (doomed_workers (snd (worker_retired E v s))) w = (if w = v then None else bt_get (doomed_workers s) w)"
  "doomed_workers (snd (capi_share E v k x s)) = doomed_workers s"
  "doomed_workers (snd (capi_request E v k s)) = doomed_workers s"
  "doomed_workers (snd (capi_delete E v k s)) = doomed_workers s"
  "doomed_workers (mark_busy v s) = doomed_workers s" "doomed_workers (release_worker_memory v s) = doomed_workers s"
  "next_doom_generation (snd (worker_idle E v s)) = next_doom_generation s"
  "next_doom_generation (snd (worker_retired E v s)) = next_doom_generation s"
  "next_doom_generation (snd (capi_share E v k x s)) = next_doom_generation s"
  "next_doom_generation (snd (capi_request E v k s)) = next_doom_generation s"
  "next_doom_generation (snd (capi_delete E v k s)) = next_doom_generation s"
  "next_doom_generation (mark_busy v s) = next_doom_generation s"
  "next_doom_generation (release_worker_memory v s) = next_doom_generation s"
  by (auto simp: worker_idle_def worker_retired_def Let_def drop_wasm_def mark_idle_def release_worker_memory_def
      capi_share_def capi_request_def capi_delete_def remove_pending_capi_value_def mark_busy_def)

lemma force_dooms:
  "bt_get (doomed_workers (snd (force_terminate E v g s))) w =
     (if w = v \<and> bt_get (doomed_workers s) v = Some g then None else bt_get (doomed_workers s) w)"
  "next_doom_generation (snd (force_terminate E v g s)) = next_doom_generation s"
  by (auto simp: force_terminate_def remove_worker_def drop_wasm_def Let_def split: prod.split bool.split)

lemma no_timers:
  "adds work_effect s t \<Longrightarrow> GraceTimer w g \<notin> set (new_effects s t)"
  "adds upkeep_effect s t \<Longrightarrow> GraceTimer w g \<notin> set (new_effects s t)"
  using adds_new by fastforce+

lemmas no_timer_effects = no_timers(1) [OF adds_posts(1)] no_timers(1) [OF adds_posts(2)] no_timers(1) [OF adds_posts(3)]
  no_timers(2) [OF adds_upkeep(1)] no_timers(2) [OF adds_upkeep(2)] no_timers(2) [OF adds_upkeep(3)]
  no_timers(2) [OF adds_upkeep(4)] no_timers(2) [OF adds_upkeep(5)] no_timers(2) [OF adds_upkeep(6)]
  no_timers(2) [OF adds_release]

lemma execute_from_dooms:
  "next_doom_generation s \<le> next_doom_generation (snd (execute_from E source m s))
   \<and> (bt_get (doomed_workers (snd (execute_from E source m s))) w = Some g \<longrightarrow>
        bt_get (doomed_workers s) w = Some g
        \<or> g = next_doom_generation s + 1 \<and> GraceTimer w g \<in> set (new_effects s (snd (execute_from E source m s))))
   \<and> (GraceTimer w g \<in> set (new_effects s (snd (execute_from E source m s))) \<longrightarrow>
        g \<le> next_doom_generation (snd (execute_from E source m s)))"
proof (induction m arbitrary: source)
  case (MTerminateWasmThread a b)
  then show ?case
    by (auto simp: terminate_wasm_thread_def Let_def new_effects_def emit_def bt_get_insert split: option.split)
next
  case (MForceTerminate v g)
  then show ?case using force_terminate_effects [of s E v g] by (auto simp: force_dooms split: if_splits)
next
  case (MClose c d)
  then show ?case by (simp add: new_effects_def)
next
  case MWorkerFailed
  then show ?case by (simp add: new_effects_def)
qed (auto simp: no_timer_effects posts_keep_dooms upkeep_dooms split: if_splits)

lemma adds_any: "adds Q s t \<Longrightarrow> adds (\<lambda>_. True) s t"
  by (erule adds_weaken) simp

lemmas any_effects = adds_any [OF adds_posts(1)] adds_any [OF adds_posts(2)] adds_any [OF adds_posts(3)]
  adds_any [OF adds_upkeep(1)] adds_any [OF adds_upkeep(2)] adds_any [OF adds_upkeep(3)]
  adds_any [OF adds_upkeep(4)] adds_any [OF adds_upkeep(5)] adds_any [OF adds_upkeep(6)]
  adds_any [OF adds_release]

lemma execute_from_adds: "adds (\<lambda>_. True) s (snd (execute_from E source m s))"
proof (induction m arbitrary: source)
  case (MTerminateWasmThread a b)
  then show ?case
    by (auto simp: terminate_wasm_thread_def Let_def adds_def emit_def list_all_iff split: option.split)
next
  case (MForceTerminate w g)
  define s1 where "s1 = snd (remove_worker w (s\<lparr>doomed_workers := bt_remove w (doomed_workers s)\<rparr>))"
  have "snd (force_terminate E w g s) = s \<or> snd (force_terminate E w g s) = s1
      \<or> snd (force_terminate E w g s) = snd (collect_idle E (emit (ForceStopped w) s1))"
    by (auto simp: force_terminate_def s1_def split: prod.split bool.split)
  moreover have "effects s1 = effects s" by (simp add: s1_def)
  ultimately have "adds (\<lambda>_. True) s (snd (force_terminate E w g s))"
    using adds_collect [of "emit (ForceStopped w) s1" E] by (auto simp: adds_def list_all_iff)
  then show ?case by simp
qed (auto simp: any_effects intro: adds_none)

lemma dooms_ok_run: "dooms_ok s \<Longrightarrow> dooms_ok (run_messages ms s)"
proof (induction ms arbitrary: s)
  case (Cons a ms)
  obtain E m where a: "a = (E, m)" by (cases a)
  let ?t = "snd (execute E m s)"
  have effs: "set (effects ?t) = set (effects s) \<union> set (new_effects s ?t)"
    unfolding execute_def by (rule adds_all [OF execute_from_adds])
  have "dooms_ok ?t"
    using Cons.prems execute_from_dooms [of s E None m, folded execute_def]
    unfolding dooms_ok_def effs by (meson Un_iff order_trans)
  then show ?case using Cons.IH a by simp
qed simp

lemma sched_new_dooms: "dooms_ok (sched_new r)"
  by (simp add: dooms_ok_def sched_new_def)

definition lifted :: "nat \<Rightarrow> nat \<Rightarrow> ('t, 'v, 'p) sched \<Rightarrow> bool" where
  "lifted w g s \<longleftrightarrow> bt_get (doomed_workers s) w \<noteq> Some g \<and> g \<le> next_doom_generation s"

lemma lifted_run: "lifted w g s \<Longrightarrow> lifted w g (run_messages ms s)"
proof (induction ms arbitrary: s)
  case (Cons a ms)
  obtain E m where a: "a = (E, m)" by (cases a)
  have "lifted w g (snd (execute E m s))"
    using Cons.prems execute_from_dooms [of s E None m w g, folded execute_def]
    by (auto simp: lifted_def)
  then show ?case using Cons.IH a by simp
qed simp

text \<open>C29: only a worker whose thread was killed, and that has not reported since, is force-terminated.
  Whenever a worker is stopped by force, the message handled is the end of a grace period started for
  it and its doom still stands; and once the worker has reported idle or retired, or has been stopped,
  the end of that grace period does nothing, whatever happened in between, another doom of the same
  worker included.\<close>

theorem only_standing_dooms_terminate:
  fixes s :: "('t, 'v, 'p) sched"
  assumes "s = run_messages ms (sched_new r)"
  shows "(\<forall>w E m. ForceStopped w \<in> set (new_effects s (snd (execute E m s))) \<longrightarrow>
        (\<exists>g. unwrap m = MForceTerminate w g \<and> bt_get (doomed_workers s) w = Some g
          \<and> GraceTimer w g \<in> set (effects s) \<and> w \<in> set (idle s @ busy s)))
    \<and> (\<forall>w g E m ms' E'. GraceTimer w g \<in> set (effects s)
        \<and> m \<in> {MWorkerIdle w, MWorkerRetired w, MForceTerminate w g} \<longrightarrow>
        execute E' (MForceTerminate w g) (run_messages ((E, m) # ms') s) = (Inr (), run_messages ((E, m) # ms') s))"
proof (intro conjI allI impI)
  fix w E and m :: "('t, 'v, 'p) sched_message"
  assume stop: "ForceStopped w \<in> set (new_effects s (snd (execute E m s)))"
  have doomed: "dooms_ok s" using dooms_ok_run [OF sched_new_dooms] assms by blast
  obtain src where run: "execute E m s = execute_from E src (unwrap m) s"
    using execute_unwrap [of E None m s] by (auto simp: execute_def)
  have "\<exists>g. unwrap m = MForceTerminate w g \<and> bt_get (doomed_workers s) w = Some g \<and> w \<in> set (idle s @ busy s)"
  proof (cases "unwrap m")
    case (MForceTerminate v g)
    then show ?thesis using stop force_terminate_effects [of s E v g] unfolding run
      by (force split: if_splits)
  next
    case (MTerminateWasmThread a b)
    then show ?thesis using stop adds_terminate [of s "(a, b)"] unfolding run by auto
  qed (use stop unwrap_not_wrapped [of m] adds_new [OF adds_posts(1), of "ForceStopped w"]
      adds_new [OF adds_posts(2), of "ForceStopped w"] adds_new [OF adds_posts(3), of "ForceStopped w"]
      adds_new [OF upkeep_only [of m s E], of "ForceStopped w"] run in auto)
  then show "\<exists>g. unwrap m = MForceTerminate w g \<and> bt_get (doomed_workers s) w = Some g
      \<and> GraceTimer w g \<in> set (effects s) \<and> w \<in> set (idle s @ busy s)"
    using doomed unfolding dooms_ok_def by blast
next
  fix w g E ms' E' and m :: "('t, 'v, 'p) sched_message"
  assume given: "GraceTimer w g \<in> set (effects s) \<and> m \<in> {MWorkerIdle w, MWorkerRetired w, MForceTerminate w g}"
  have "dooms_ok s" using dooms_ok_run [OF sched_new_dooms] assms by blast
  then have "g \<le> next_doom_generation s" using given by (auto simp: dooms_ok_def)
  then have "lifted w g (snd (execute E m s))" using given
    by (auto simp: lifted_def execute_def upkeep_dooms force_dooms split: if_splits)
  then have "lifted w g (run_messages ms' (snd (execute E m s)))" by (rule lifted_run)
  then show "execute E' (MForceTerminate w g) (run_messages ((E, m) # ms') s) = (Inr (), run_messages ((E, m) # ms') s)"
    by (simp add: execute_def force_terminate_def lifted_def)
qed

definition killed_messages :: "((nat, nat, nat) sched_env \<times> (nat, nat, nat) sched_message) list" where
  "killed_messages = [(\<lambda>_. None, MSpawnWasm (1, 1) 7 10), (\<lambda>_. None, MTerminateWasmThread 1 1)]"

lemma killed_timer: "GraceTimer 1 1 \<in> set (effects (run_messages killed_messages (sched_new False)))"
  by (simp add: killed_messages_def sched_eval sched_new_def)

theorem only_standing_dooms_terminate_witness:
  "execute (\<lambda>_. None) (MForceTerminate 1 1) (run_messages [(\<lambda>_. None, MWorkerIdle 1), (\<lambda>_. None, MTerminateWasmThread 1 1)]
       (run_messages killed_messages (sched_new False)))
     = (Inr (), run_messages [(\<lambda>_. None, MWorkerIdle 1), (\<lambda>_. None, MTerminateWasmThread 1 1)]
       (run_messages killed_messages (sched_new False)))"
  using only_standing_dooms_terminate [OF refl, of killed_messages False] killed_timer by blast

section \<open>Shutting down\<close>

fun close_of :: "('t, 'v, 'p) sched_message \<Rightarrow> nat list" where
  "close_of (MClose (Some c) d) = [c]"
| "close_of _ = []"

lemma effects_asked [simp]: "effects (fold (\<lambda>w. emit (f w)) ws s) = effects s @ map f ws"
  by (induction ws arbitrary: s) auto

lemma fields_asked [simp]:
  "gates (fold (\<lambda>w. emit (f w)) ws s) = gates s" "idle (fold (\<lambda>w. emit (f w)) ws s) = idle s"
  "busy (fold (\<lambda>w. emit (f w)) ws s) = busy s" "timer_worker (fold (\<lambda>w. emit (f w)) ws s) = timer_worker s"
  by (induction ws arbitrary: s) auto

lemma release_fields [simp]:
  "idle (release_worker_memory w s) = idle s" "busy (release_worker_memory w s) = busy s"
  "timer_worker (release_worker_memory w s) = timer_worker s"
  by (simp_all add: release_worker_memory_def)

lemma loop_waiting: "sd_waiting (shutdown_loop ms d) = filter (\<lambda>w. MWorkerExited w \<notin> set ms) (sd_waiting d)"
proof (induction ms arbitrary: d)
  case (Cons m ms)
  show ?case
  proof (cases "\<exists>w. m = MWorkerExited w")
    case True
    then show ?thesis using Cons.IH by (auto simp: conj_commute)
  next
    case False
    then show ?thesis using Cons.IH by (cases m) (auto split: option.split intro!: filter_cong)
  qed
qed simp

lemma loop_exited:
  "set (sd_exited (shutdown_loop ms d)) = set (sd_exited d) \<union> {w \<in> set (sd_waiting d). MWorkerExited w \<in> set ms}"
proof (induction ms arbitrary: d)
  case (Cons m ms)
  show ?case
  proof (cases "\<exists>w. m = MWorkerExited w")
    case True
    then show ?thesis using Cons.IH by (auto split: if_splits)
  next
    case False
    then show ?thesis using Cons.IH by (cases m) (auto split: option.split)
  qed
qed simp

lemma loop_completions:
  "\<exists>n. sd_completions (shutdown_loop ms d) = sd_completions d @ concat (map close_of (take n ms))
    \<and> (n < length ms \<longrightarrow> sd_waiting (shutdown_loop ms d) = [])"
proof (induction ms arbitrary: d)
  case (Cons m ms)
  show ?case
  proof (cases "sd_waiting d = []")
    case True
    then show ?thesis by (intro exI [of _ 0]) simp
  next
    case False
    define d1 where "d1 = (case m of
          MWorkerExited w \<Rightarrow> d\<lparr>sd_waiting := filter (\<lambda>w'. w' \<noteq> w) (sd_waiting d),
              sd_exited := (if w \<in> set (sd_waiting d) then sd_exited d @ [w] else sd_exited d),
              sd_sched := release_worker_memory w (sd_sched d)\<rparr>
        | MClose (Some c) drain \<Rightarrow> d\<lparr>sd_completions := sd_completions d @ [c]\<rparr>
        | _ \<Rightarrow> d)"
    have first: "sd_completions d1 = sd_completions d @ close_of m"
      by (cases m) (auto simp: d1_def split: option.split)
    obtain n where "sd_completions (shutdown_loop ms d1) = sd_completions d1 @ concat (map close_of (take n ms))"
        "n < length ms \<longrightarrow> sd_waiting (shutdown_loop ms d1) = []"
      using Cons.IH by blast
    moreover have "shutdown_loop (m # ms) d = shutdown_loop ms d1" using False by (simp add: d1_def)
    ultimately show ?thesis using first by (intro exI [of _ "Suc n"]) simp
  qed
qed (simp add: exI [of _ 0])

definition frees_only :: "('t, 'v, 'p) sched \<Rightarrow> ('t, 'v, 'p) sched \<Rightarrow> bool" where
  "frees_only s t \<longleftrightarrow> pool t = pool s \<and> adds (\<lambda>e. \<exists>w. e = FreedMemory w) s t
     \<and> set (bt_keys (gates t)) \<subseteq> set (bt_keys (gates s))
     \<and> (\<forall>w \<in> set (bt_keys (gates s)). w \<in> set (bt_keys (gates t)) \<or> FreedMemory w \<in> set (new_effects s t))"

lemma frees_only_refl: "frees_only s s"
  by (simp add: frees_only_def adds_def)

lemma frees_only_release: "frees_only s (release_worker_memory w s)"
  by (auto simp: frees_only_def pool_def release_worker_memory_def adds_def new_effects_def bt_keys_remove)

lemma release_gates: "w \<notin> set (bt_keys (gates (release_worker_memory w s)))"
  using bt_get_None [of "gates s" w] by (auto simp: release_worker_memory_def bt_keys_remove)

lemma frees_only_trans: "frees_only s t \<Longrightarrow> frees_only t u \<Longrightarrow> frees_only s u"
  by (fastforce simp: frees_only_def adds_def new_effects_def)

lemma loop_frees:
  "frees_only (sd_sched d) (sd_sched (shutdown_loop ms d))
   \<and> (\<forall>w \<in> set (sd_waiting d). MWorkerExited w \<in> set ms \<longrightarrow>
        w \<notin> set (bt_keys (gates (sd_sched (shutdown_loop ms d)))))"
proof (induction ms arbitrary: d)
  case (Cons m ms)
  show ?case
  proof (cases "\<exists>w. m = MWorkerExited w")
    case True
    then obtain w where m: "m = MWorkerExited w" by blast
    define d1 where "d1 = d\<lparr>sd_waiting := filter (\<lambda>w'. w' \<noteq> w) (sd_waiting d),
              sd_exited := (if w \<in> set (sd_waiting d) then sd_exited d @ [w] else sd_exited d),
              sd_sched := release_worker_memory w (sd_sched d)\<rparr>"
    have later: "frees_only (sd_sched d1) (sd_sched (shutdown_loop ms d1))" using Cons.IH by blast
    have "frees_only (sd_sched d) (sd_sched (shutdown_loop ms d1))"
      by (rule frees_only_trans [OF _ later]) (simp add: d1_def frees_only_release)
    moreover have "w \<notin> set (bt_keys (gates (sd_sched (shutdown_loop ms d1))))"
      using later release_gates [of w "sd_sched d"] by (auto simp: frees_only_def d1_def)
    moreover have "v \<notin> set (bt_keys (gates (sd_sched (shutdown_loop ms d1))))"
      if "v \<in> set (sd_waiting d)" "v \<noteq> w" "MWorkerExited v \<in> set ms" for v
      using Cons.IH [of d1] that by (simp add: d1_def)
    moreover have "shutdown_loop (m # ms) d = (if sd_waiting d = [] then d else shutdown_loop ms d1)"
      by (simp add: m d1_def)
    ultimately show ?thesis using frees_only_refl unfolding m by auto
  next
    case False
    have "shutdown_loop (m # ms) d = (if sd_waiting d = [] then d else shutdown_loop ms (d\<lparr>sd_completions := sd_completions d @ close_of m\<rparr>))"
      using False by (cases m) (auto split: option.split)
    then show ?thesis
      using False frees_only_refl Cons.IH [of "d\<lparr>sd_completions := sd_completions d @ close_of m\<rparr>"] by auto
  qed
qed (simp add: frees_only_refl)

text \<open>C30: shutting down leaves no worker running. Every worker of the pool is asked to exit; the ones
  that report it before the deadline have their memory freed, and exactly the others are stopped by
  force; the pool is empty afterwards, and a client that asked to wait is answered unless every worker
  had exited before its request was read.\<close>

theorem shutdown_stops_every_worker:
  fixes s :: "('t, 'v, 'p) sched" and ms :: "('t, 'v, 'p) sched_message list" and cs :: "nat list"
  defines "d \<equiv> shutdown ms cs s"
  shows "pool (sd_sched d) = []
    \<and> (\<forall>w. AskedToExit w \<in> set (new_effects s (sd_sched d)) \<longleftrightarrow> w \<in> set (pool s))
    \<and> (\<forall>w. ForceStopped w \<in> set (new_effects s (sd_sched d)) \<longleftrightarrow> w \<in> set (pool s) \<and> MWorkerExited w \<notin> set ms)
    \<and> (\<forall>w. w \<in> set (sd_exited d) \<longleftrightarrow> w \<in> set (pool s) \<and> MWorkerExited w \<in> set ms)
    \<and> (\<forall>w \<in> set (bt_keys (gates s)). w \<in> set (sd_exited d) \<longrightarrow> FreedMemory w \<in> set (new_effects s (sd_sched d)))
    \<and> (\<exists>n. sd_completions d = cs @ concat (map close_of (take n ms))
        \<and> (n < length ms \<longrightarrow> (\<forall>w \<in> set (pool s). MWorkerExited w \<in> set ms)))"
proof -
  define d0 where "d0 = \<lparr>sd_waiting = sort (remdups (pool s)), sd_exited = [], sd_completions = cs,
      sd_sched = (fold (\<lambda>w. emit (AskedToExit w)) (pool s) s)\<lparr>idle := [], busy := [], timer_worker := None\<rparr>\<rparr>"
  define e where "e = shutdown_loop ms d0"
  have d: "d = e\<lparr>sd_sched := fold (\<lambda>w. emit (ForceStopped w)) (sd_waiting e) (sd_sched e)\<rparr>"
    by (simp add: d_def shutdown_def Let_def e_def d0_def)
  have waiting: "set (sd_waiting e) = {w \<in> set (pool s). MWorkerExited w \<notin> set ms}"
    by (auto simp: e_def loop_waiting d0_def)
  have exited: "set (sd_exited e) = {w \<in> set (pool s). MWorkerExited w \<in> set ms}"
    by (auto simp: e_def loop_exited d0_def)
  have frees: "frees_only (sd_sched d0) (sd_sched e)"
    and gone: "\<forall>w \<in> set (pool s). MWorkerExited w \<in> set ms \<longrightarrow> w \<notin> set (bt_keys (gates (sd_sched e)))"
    using loop_frees [of d0 ms] by (auto simp: e_def d0_def)
  obtain es where es: "effects (sd_sched e) = effects s @ map AskedToExit (pool s) @ es"
      "\<forall>x \<in> set es. \<exists>w. x = FreedMemory w"
    using frees by (auto simp: frees_only_def adds_def d0_def list_all_iff)
  have freed: "\<forall>w \<in> set (bt_keys (gates s)). w \<in> set (bt_keys (gates (sd_sched e))) \<or> FreedMemory w \<in> set es"
    using frees es(1) by (simp add: frees_only_def new_effects_def d0_def)
  have new: "new_effects s (sd_sched d) = map AskedToExit (pool s) @ es @ map ForceStopped (sd_waiting e)"
    by (simp add: new_effects_def d es(1))
  obtain n where n: "sd_completions e = cs @ concat (map close_of (take n ms))"
      "n < length ms \<longrightarrow> sd_waiting e = []"
    using loop_completions [of ms d0] by (auto simp: e_def d0_def)
  have "pool (sd_sched d) = []"
    using frees by (simp add: d frees_only_def pool_def d0_def)
  moreover have "\<forall>w. AskedToExit w \<in> set (new_effects s (sd_sched d)) \<longleftrightarrow> w \<in> set (pool s)"
    using es(2) by (auto simp: new)
  moreover have "\<forall>w. ForceStopped w \<in> set (new_effects s (sd_sched d)) \<longleftrightarrow> w \<in> set (pool s) \<and> MWorkerExited w \<notin> set ms"
    using es(2) waiting by (auto simp: new)
  moreover have "\<forall>w. w \<in> set (sd_exited d) \<longleftrightarrow> w \<in> set (pool s) \<and> MWorkerExited w \<in> set ms"
    using exited by (auto simp: d)
  moreover have "\<forall>w \<in> set (bt_keys (gates s)). w \<in> set (sd_exited d) \<longrightarrow> FreedMemory w \<in> set (new_effects s (sd_sched d))"
    using freed gone exited unfolding new by (auto simp: d)
  moreover have "\<exists>n. sd_completions d = cs @ concat (map close_of (take n ms))
        \<and> (n < length ms \<longrightarrow> (\<forall>w \<in> set (pool s). MWorkerExited w \<in> set ms))"
    using n waiting by (intro exI [of _ n]) (auto simp: d)
  ultimately show ?thesis by blast
qed

lemma sample_gates: "bt_keys (gates (run_messages sample_messages (sched_new True))) = [2, 3]"
  by (simp add: sample_messages_def sched_eval sched_new_def less_prod_def)

theorem shutdown_stops_every_worker_witness:
  "FreedMemory 2 \<in> set (new_effects (run_messages sample_messages (sched_new True))
      (sd_sched (shutdown [MClose (Some 4) True, MWorkerExited 2] [9] (run_messages sample_messages (sched_new True)))))
   \<and> ForceStopped 3 \<in> set (new_effects (run_messages sample_messages (sched_new True))
      (sd_sched (shutdown [MClose (Some 4) True, MWorkerExited 2] [9] (run_messages sample_messages (sched_new True)))))"
  using shutdown_stops_every_worker [of "[MClose (Some 4) True, MWorkerExited 2]" "[9]"
      "run_messages sample_messages (sched_new True)"]
  by (simp add: sample_runs sample_gates)

section \<open>Threads of different processes under one number\<close>

text \<open>Process and thread numbers repeat across the sandboxes that share the pool, and the second of
  two threads with the same numbers replaces the first: killing the first dooms the worker of the
  second, and the first worker is then never force-terminated.\<close>

definition repeated_numbers :: "((nat, nat, nat) sched_env \<times> (nat, nat, nat) sched_message) list" where
  "repeated_numbers = [(\<lambda>_. None, MSpawnWasm (1, 1) 7 10), (\<lambda>_. None, MSpawnWasm (1, 1) 8 11)]"

lemma repeated_task_key_misdirects:
  "busy (run_messages repeated_numbers (sched_new False)) = [1, 2]"
  "wasm_workers (run_messages repeated_numbers (sched_new False)) = [((1, 1), (2, 8))]"
  "doomed_workers (run_messages (repeated_numbers @ [(\<lambda>_. None, MTerminateWasmThread 1 1)]) (sched_new False)) = [(2, 1)]"
  by (simp_all add: repeated_numbers_def sched_eval sched_new_def)

end
