(* ===== verification/Http_Exchange.thy ===== *)
theory Http_Exchange
  imports Utf8
begin

text \<open>
  The browser's HTTP ingress (js/bindgen/src/browser_http.rs): a request the service worker forwards
  is presented to the guest as an accepted TCP socket, and what the guest writes is parsed as an
  HTTP/1.1 response. The header parser (httparse) and the building of the response (the http crate)
  are parameters. The code runs on wasm32, whose \<open>usize\<close> has 32 bits.
\<close>

section \<open>Numbers in text\<close>

definition wasm_usize_max :: nat where
  "wasm_usize_max = 2 ^ 32 - 1"

definition digit_value :: "byte \<Rightarrow> nat option" where
  "digit_value b = (let n = unat b in
     if 48 \<le> n \<and> n \<le> 57 then Some (n - 48)
     else if 97 \<le> n \<and> n \<le> 122 then Some (n - 87)
     else if 65 \<le> n \<and> n \<le> 90 then Some (n - 55)
     else None)"

fun radix_value :: "nat \<Rightarrow> nat \<Rightarrow> byte list \<Rightarrow> nat option" where
  "radix_value radix acc [] = (if acc \<le> wasm_usize_max then Some acc else None)"
| "radix_value radix acc (b # bs) = (case digit_value b of
     None \<Rightarrow> None
   | Some d \<Rightarrow> if d < radix then radix_value radix (acc * radix + d) bs else None)"

text \<open>\<open>usize::from_str_radix\<close>: one leading plus sign is allowed.\<close>

definition from_str_radix :: "nat \<Rightarrow> byte list \<Rightarrow> nat option" where
  "from_str_radix radix bs = (case bs of
     [] \<Rightarrow> None
   | b # rest \<Rightarrow> if b = 43 \<and> rest \<noteq> [] then radix_value radix 0 rest else radix_value radix 0 bs)"

section \<open>Chunked bodies\<close>

fun crlf_at :: "byte list \<Rightarrow> nat option" where
  "crlf_at (a # b # bs) = (if a = 13 \<and> b = 10 then Some 0 else map_option Suc (crlf_at (b # bs)))"
| "crlf_at _ = None"

definition crlf :: "byte list" where
  "crlf = [13, 10]"

fun has_blank_line :: "byte list \<Rightarrow> bool" where
  "has_blank_line (a # bs) = (take 4 (a # bs) = crlf @ crlf \<or> has_blank_line bs)"
| "has_blank_line [] = False"

datatype network_error = InvalidData | NotConnected | WouldBlock | ConnectionRefused | ConnectionAborted
  | AddressInUse | UnsupportedNet | InvalidFd | LockNet | ConnectionReset | TimedOutNet | AddressNotAvailable
  | BrokenPipeNet | PermissionDeniedNet | IOErrorNet

text \<open>\<open>Panicked\<close>: a slice taken out of range.\<close>

datatype net_fail = NetError network_error | Panicked

definition chunk_size :: "byte list \<Rightarrow> nat option" where
  "chunk_size line =
     (if utf8_valid line then from_str_radix 16 (trim_text (takeWhile (\<lambda>b. b \<noteq> 59) line)) else None)"

text \<open>The sum \<open>size + 2\<close> wraps at 32 bits: the length check then compares with the wrapped sum, and the
  slice that follows is out of range.\<close>

function decode_from :: "byte list \<Rightarrow> byte list \<Rightarrow> net_fail + byte list option" where
  "decode_from decoded bs = (case crlf_at bs of
     None \<Rightarrow> Inr None
   | Some line_end \<Rightarrow> (case chunk_size (take line_end bs) of
       None \<Rightarrow> Inl (NetError InvalidData)
     | Some n \<Rightarrow> (let rest = drop (line_end + 2) bs in
         if n = 0 then
           (if has_blank_line rest \<or> take 2 rest = crlf then Inr (Some decoded) else Inr None)
         else if length rest < (n + 2) mod 2 ^ 32 then Inr None
         else if 2 ^ 32 \<le> n + 2 then Inl Panicked
         else if take 2 (drop n rest) \<noteq> crlf then Inl (NetError InvalidData)
         else decode_from (decoded @ take n rest) (drop (n + 2) rest))))"
  by pat_completeness auto
termination
proof (relation "measure (\<lambda>(_, bs). length bs)")
  fix decoded bs :: "byte list" and line_end n :: nat and rest
  assume "crlf_at bs = Some line_end" "rest = drop (line_end + 2) bs" "n \<noteq> 0"
  then show "((decoded @ take n rest, drop (n + 2) rest), decoded, bs) \<in> measure (\<lambda>(_, bs). length bs)"
    by (cases bs) auto
qed simp

declare decode_from.simps [simp del]

definition decode_chunked :: "byte list \<Rightarrow> net_fail + byte list option" where
  "decode_chunked bs = decode_from [] bs"

section \<open>Parsing a response\<close>

text \<open>What the header parser says of the bytes so far; \<open>HpComplete\<close> holds the length of the head, the
  status and the headers in order.\<close>

type_synonym headers = "(string \<times> byte list) list"

datatype http_parse = HpInvalid | HpPartial | HpComplete nat "nat option" headers

record 'r http_lib =
  hl_parse :: "byte list \<Rightarrow> http_parse"
  hl_response :: "nat \<Rightarrow> headers \<Rightarrow> byte list \<Rightarrow> 'r option"

definition lower_byte :: "byte \<Rightarrow> byte" where
  "lower_byte b = (if 65 \<le> b \<and> b \<le> 90 then b + 32 else b)"

definition same_name :: "string \<Rightarrow> string \<Rightarrow> bool" where
  "same_name a b \<longleftrightarrow> map lower_byte (bytes_of a) = map lower_byte (bytes_of b)"

fun contains_bytes :: "byte list \<Rightarrow> byte list \<Rightarrow> bool" where
  "contains_bytes pat [] = (pat = [])"
| "contains_bytes pat (b # bs) = (take (length pat) (b # bs) = pat \<or> contains_bytes pat bs)"

definition content_length :: "headers \<Rightarrow> net_fail + nat option" where
  "content_length hs = (case find (\<lambda>(name, _). same_name name ''content-length'') hs of
     None \<Rightarrow> Inr None
   | Some (_, value) \<Rightarrow> (case (if utf8_valid value then from_str_radix 10 (trim_text value) else None) of
         None \<Rightarrow> Inl (NetError InvalidData)
       | Some n \<Rightarrow> Inr (Some n)))"

definition is_chunked :: "headers \<Rightarrow> bool" where
  "is_chunked hs \<longleftrightarrow> list_ex (\<lambda>(name, value). same_name name ''transfer-encoding'' \<and> utf8_valid value
     \<and> contains_bytes (bytes_of ''chunked'') (map lower_byte value)) hs"

definition no_body :: "string \<Rightarrow> nat \<Rightarrow> bool" where
  "no_body meth status \<longleftrightarrow> meth = ''HEAD'' \<or> (100 \<le> status \<and> status < 200) \<or> status = 204 \<or> status = 304"

definition response_body :: "bool \<Rightarrow> bool \<Rightarrow> bool \<Rightarrow> nat option \<Rightarrow> byte list \<Rightarrow> net_fail + byte list option" where
  "response_body eof bodiless chunked len body =
     (if bodiless then Inr (Some [])
      else if chunked then (case decode_chunked body of
          Inl e \<Rightarrow> Inl e
        | Inr (Some d) \<Rightarrow> Inr (Some d)
        | Inr None \<Rightarrow> if \<not> eof then Inr None else Inl (NetError InvalidData))
      else (case len of
          Some n \<Rightarrow> if length body < n then (if eof then Inl (NetError InvalidData) else Inr None)
                    else Inr (Some (take n body))
        | None \<Rightarrow> if eof then Inr (Some body) else Inr None))"

definition forwarded_headers :: "headers \<Rightarrow> headers" where
  "forwarded_headers hs = filter (\<lambda>(name, _). \<not> same_name name ''connection''
     \<and> \<not> same_name name ''transfer-encoding'' \<and> \<not> same_name name ''host'') hs"

definition parse_response :: "'r http_lib \<Rightarrow> byte list \<Rightarrow> string \<Rightarrow> bool \<Rightarrow> net_fail + 'r option" where
  "parse_response L bs meth eof = (case hl_parse L bs of
     HpInvalid \<Rightarrow> Inl (NetError InvalidData)
   | HpPartial \<Rightarrow> if eof then Inl (NetError InvalidData) else Inr None
   | HpComplete header_bytes code hs \<Rightarrow> (case code of
       None \<Rightarrow> Inl (NetError InvalidData)
     | Some status \<Rightarrow> bind_res (content_length hs) (\<lambda>len.
         bind_res (response_body eof (no_body meth status) (is_chunked hs) len (drop header_bytes bs)) (\<lambda>body.
           case body of
             None \<Rightarrow> Inr None
           | Some b \<Rightarrow> (case hl_response L status (forwarded_headers hs) b of
               None \<Rightarrow> Inl (NetError InvalidData)
             | Some r \<Rightarrow> Inr (Some r))))))"

section \<open>The request the guest reads\<close>

text \<open>The header map of the http crate is a parameter: removing, replacing and iterating.\<close>

record 'h header_map =
  hm_remove :: "string \<Rightarrow> 'h \<Rightarrow> 'h"
  hm_insert :: "string \<Rightarrow> byte list \<Rightarrow> 'h \<Rightarrow> 'h"
  hm_iter :: "'h \<Rightarrow> headers"

record 'h request =
  rq_method :: string
  rq_path_and_query :: "string option"
  rq_headers :: 'h
  rq_body :: "byte list"

definition request_headers :: "'h header_map \<Rightarrow> 'h request \<Rightarrow> 'h" where
  "request_headers H r =
     (let hs = hm_insert H ''connection'' (bytes_of ''close'') (hm_remove H ''connection'' (rq_headers r))
      in if rq_body r = [] then hs
         else hm_insert H ''content-length'' (bytes_of (nat_digits (length (rq_body r)))) hs)"

definition serialize_request :: "'h header_map \<Rightarrow> 'h request \<Rightarrow> byte list" where
  "serialize_request H r = bytes_of (rq_method r) @ bytes_of '' ''
     @ bytes_of (case rq_path_and_query r of None \<Rightarrow> ''/'' | Some p \<Rightarrow> p) @ bytes_of '' HTTP/1.1'' @ crlf
     @ concat (map (\<lambda>(name, value). bytes_of name @ bytes_of '': '' @ value @ crlf) (hm_iter H (request_headers H r)))
     @ crlf @ rq_body r"

section \<open>The socket\<close>

datatype interest = Readable | Writable | ClosedInterest | ErrorInterest

text \<open>\<open>sk_response\<close> holds the bytes the guest has written, whether the browser's request still waits for
  its answer, and the method; \<open>sk_answers\<close> records what that request was answered with and
  \<open>sk_handler\<close> the interests pushed to the installed handler.\<close>

record 'r http_socket =
  sk_request :: "(byte list \<times> nat) option"
  sk_response :: "(byte list \<times> bool \<times> string) option"
  sk_handler :: "interest list option"
  sk_answers :: "(network_error + 'r) list"

definition socket_new :: "'h header_map \<Rightarrow> 'h request \<Rightarrow> 'r http_socket" where
  "socket_new H r = \<lparr>sk_request = Some (serialize_request H r, 0), sk_response = Some ([], True, rq_method r),
     sk_handler = None, sk_answers = []\<rparr>"

definition readable_bytes :: "'r http_socket \<Rightarrow> nat" where
  "readable_bytes s = (case sk_request s of None \<Rightarrow> 0 | Some (bs, offset) \<Rightarrow> length bs - offset)"

text \<open>The result says whether the code panicked.\<close>

definition finish_response :: "'r http_lib \<Rightarrow> bool \<Rightarrow> 'r http_socket \<Rightarrow> bool \<times> 'r http_socket" where
  "finish_response L eof s = (case sk_response s of
     None \<Rightarrow> (False, s)
   | Some (bs, waits, meth) \<Rightarrow>
       if \<not> waits then (False, s)
       else (let s1 = s\<lparr>sk_response := Some (bs, False, meth)\<rparr>
             in case parse_response L bs meth eof of
                  Inr (Some r) \<Rightarrow> (False, s1\<lparr>sk_answers := sk_answers s @ [Inr r]\<rparr>)
                | Inr None \<Rightarrow> (False, s)
                | Inl (NetError e) \<Rightarrow> (False, s1\<lparr>sk_answers := sk_answers s @ [Inl e]\<rparr>)
                | Inl Panicked \<Rightarrow> (True, s1)))"

definition remove_handler :: "'r http_socket \<Rightarrow> 'r http_socket" where
  "remove_handler s = s\<lparr>sk_handler := None\<rparr>"

definition poll_read_ready :: "'r http_socket \<Rightarrow> nat poll" where
  "poll_read_ready s = (if readable_bytes s > 0 then Ready (readable_bytes s) else Pending)"

definition poll_write_ready :: "'r http_socket \<Rightarrow> nat poll" where
  "poll_write_ready s = Ready (if sk_response s \<noteq> None then 64 * 1024 else 0)"

definition socket_opened :: "'r http_socket \<Rightarrow> bool" where
  "socket_opened s \<longleftrightarrow> sk_response s \<noteq> None"

definition set_handler :: "'r http_socket \<Rightarrow> 'r http_socket" where
  "set_handler s = s\<lparr>sk_handler := Some ((if readable_bytes s > 0 then [Readable] else [])
     @ (if sk_response s \<noteq> None then [Writable] else []))\<rparr>"

definition try_send :: "'r http_lib \<Rightarrow> byte list \<Rightarrow> 'r http_socket \<Rightarrow> (net_fail + nat) \<times> 'r http_socket" where
  "try_send L data s = (case sk_response s of
     None \<Rightarrow> (Inl (NetError NotConnected), s)
   | Some (bs, waits, meth) \<Rightarrow>
       (case finish_response L False (s\<lparr>sk_response := Some (bs @ data, waits, meth)\<rparr>) of
          (True, s1) \<Rightarrow> (Inl Panicked, s1)
        | (False, s1) \<Rightarrow> (Inr (length data), s1)))"

definition try_recv :: "nat \<Rightarrow> bool \<Rightarrow> 'r http_socket \<Rightarrow> (network_error + byte list) \<times> 'r http_socket" where
  "try_recv capacity peek s = (case sk_request s of
     None \<Rightarrow> (Inl WouldBlock, s)
   | Some (bs, offset) \<Rightarrow>
       (let count = min (length bs - offset) capacity; got = take count (drop offset bs)
        in if peek then (Inr got, s)
           else if offset + count = length bs then (Inr got, s\<lparr>sk_request := None\<rparr>)
           else (Inr got, s\<lparr>sk_request := Some (bs, offset + count)\<rparr>)))"

datatype shutdown_how = ShutRead | ShutWrite | ShutBoth

definition shutdown_socket :: "'r http_lib \<Rightarrow> shutdown_how \<Rightarrow> 'r http_socket \<Rightarrow> bool \<times> 'r http_socket" where
  "shutdown_socket L how s =
     (let s1 = (if how = ShutWrite then s else s\<lparr>sk_request := None\<rparr>)
      in if how = ShutRead then (False, s1)
         else (case finish_response L True s1 of
             (True, s2) \<Rightarrow> (True, s2)
           | (False, s2) \<Rightarrow> (False, s2\<lparr>sk_response := None\<rparr>)))"

definition socket_closed :: "'r http_socket \<Rightarrow> bool" where
  "socket_closed s \<longleftrightarrow> sk_response s = None"

definition drop_socket :: "'r http_lib \<Rightarrow> 'r http_socket \<Rightarrow> bool \<times> 'r http_socket" where
  "drop_socket L s = finish_response L True s"

text \<open>What the browser gets: the answer, or that the connection is gone when the socket was dropped
  without one.\<close>

definition browser_answer :: "'r http_socket \<Rightarrow> network_error + 'r" where
  "browser_answer s = (case sk_answers s of [] \<Rightarrow> Inl NotConnected | a # _ \<Rightarrow> a)"

end
