(* ===== verification/Http_Safety.thy ===== *)
theory Http_Safety
  imports Http_Exchange
begin

text \<open>
  What the HTTP ingress promises: chunked bodies are decoded exactly, and the browser gets the same
  response however the guest splits its writes.
\<close>

section \<open>Line ends\<close>

lemma crlf_at_append: "crlf_at bs = Some i \<Longrightarrow> crlf_at (bs @ x) = Some i"
  by (induction bs arbitrary: i rule: crlf_at.induct) (auto split: if_splits)

lemma crlf_at_bound: "crlf_at bs = Some i \<Longrightarrow> i + 2 \<le> length bs"
  by (induction bs arbitrary: i rule: crlf_at.induct) (auto split: if_splits)

lemma crlf_at_take: "crlf_at bs = Some i \<Longrightarrow> k < i + 2 \<Longrightarrow> crlf_at (take k bs) = None"
proof (induction bs arbitrary: i k rule: crlf_at.induct)
  case (1 a b bs)
  consider "k = 0" | "k = 1" | m where "k = Suc (Suc m)"
    by (metis One_nat_def not0_implies_Suc)
  then show ?case
  proof cases
    case 3
    have "crlf_at (take (Suc m) (b # bs)) = None"
      if "\<not> (a = 13 \<and> b = 10)" "crlf_at (b # bs) = Some z" "Suc m < z + 2" for z
      using "1.IH" that by blast
    then show ?thesis using "1.prems" 3 by (auto split: if_splits)
  qed simp_all
qed auto

lemma crlf_at_line: "crlf_at line = None \<Longrightarrow> crlf_at (line @ crlf @ x) = Some (length line)"
proof (induction line rule: crlf_at.induct)
  case (1 a b bs)
  then show ?case by (auto split: if_splits)
qed (auto simp: crlf_def)

lemma take_length_eq: "take (length p) bs = p \<longleftrightarrow> (\<exists>q. bs = p @ q)"
  by (metis append_eq_conv_conj append_take_drop_id)

lemma has_blank_line_iff: "has_blank_line bs \<longleftrightarrow> (\<exists>p q. bs = p @ crlf @ crlf @ q)"
proof (induction bs)
  case Nil
  then show ?case by (simp add: crlf_def)
next
  case (Cons a bs)
  have "take 4 (a # bs) = crlf @ crlf \<longleftrightarrow> (\<exists>q. a # bs = crlf @ crlf @ q)"
    using take_length_eq [of "crlf @ crlf" "a # bs"] by (simp add: crlf_def numeral_eq_Suc)
  moreover have "(\<exists>p q. a # bs = p @ crlf @ crlf @ q) \<longleftrightarrow>
      (\<exists>q. a # bs = crlf @ crlf @ q) \<or> (\<exists>p q. bs = p @ crlf @ crlf @ q)"
    by (metis (no_types, lifting) append_Cons append_Nil append_eq_Cons_conv)
  ultimately show ?case using Cons by simp
qed

lemma has_blank_line_append: "has_blank_line bs \<Longrightarrow> has_blank_line (bs @ x)"
  unfolding has_blank_line_iff by fastforce

lemma has_blank_line_short: "length bs < 4 \<Longrightarrow> \<not> has_blank_line bs"
  by (auto simp: has_blank_line_iff crlf_def)

lemma take_crlf_append: "take 2 bs = crlf \<Longrightarrow> take 2 (bs @ x) = crlf"
  using take_length_eq [of crlf] by (fastforce simp: crlf_def)

section \<open>Decoding chunks\<close>

definition decode_chunk :: "byte list \<Rightarrow> nat \<Rightarrow> byte list \<Rightarrow> net_fail + byte list option" where
  "decode_chunk d n rest =
     (if n = 0 then (if has_blank_line rest \<or> take 2 rest = crlf then Inr (Some d) else Inr None)
      else if length rest < (n + 2) mod 2 ^ 32 then Inr None
      else if 2 ^ 32 \<le> n + 2 then Inl Panicked
      else if take 2 (drop n rest) \<noteq> crlf then Inl (NetError InvalidData)
      else decode_from (d @ take n rest) (drop (n + 2) rest))"

lemma decode_line:
  assumes "crlf_at bs = Some i"
  shows "decode_from d bs = (case chunk_size (take i bs) of
     None \<Rightarrow> Inl (NetError InvalidData) | Some n \<Rightarrow> decode_chunk d n (drop (i + 2) bs))"
  using assms by (simp add: decode_from.simps [of d bs] decode_chunk_def Let_def split: option.split)

lemma decode_no_line: "crlf_at bs = None \<Longrightarrow> decode_from d bs = Inr None"
  by (simp add: decode_from.simps [of d bs])

text \<open>What is decided of a body does not change when more bytes arrive.\<close>

lemma decode_from_append:
  "decode_from d bs \<noteq> Inr None \<Longrightarrow> decode_from d (bs @ x) = decode_from d bs"
proof (induction d bs rule: decode_from.induct)
  case (1 d bs)
  then obtain i where i: "crlf_at bs = Some i"
    using decode_no_line [of bs d] by (cases "crlf_at bs") auto
  note bound = crlf_at_bound [OF i]
  define rest where "rest = drop (i + 2) bs"
  have "take i (bs @ x) = take i bs" "drop (i + 2) (bs @ x) = rest @ x"
    using bound by (simp_all add: rest_def)
  then have more: "decode_from d (bs @ x) = (case chunk_size (take i bs) of
     None \<Rightarrow> Inl (NetError InvalidData) | Some n \<Rightarrow> decode_chunk d n (rest @ x))"
    unfolding decode_line [OF crlf_at_append [OF i]] by presburger
  have "decode_chunk d n (rest @ x) = decode_chunk d n rest"
    if n: "chunk_size (take i bs) = Some n" and decided: "decode_chunk d n rest \<noteq> Inr None" for n
  proof (cases "n \<noteq> 0 \<and> n + 2 < 2 ^ 32 \<and> n + 2 \<le> length rest \<and> take 2 (drop n rest) = crlf")
    case True
    then have "decode_from (d @ take n rest) (drop (n + 2) rest) \<noteq> Inr None"
      using decided by (simp add: decode_chunk_def)
    then have "decode_from (d @ take n rest) (drop (n + 2) rest @ x) = decode_from (d @ take n rest) (drop (n + 2) rest)"
      using "1.IH" [OF i n rest_def] True by simp
    then show ?thesis using True by (simp add: decode_chunk_def)
  next
    case other: False
    define w where "w = (n + 2) mod 2 ^ 32"
    show ?thesis
    proof (cases "n = 0")
      case True
      then show ?thesis using decided has_blank_line_append [of rest x] take_crlf_append [of rest x]
        by (simp add: decode_chunk_def split: if_splits)
    next
      case pos: False
      have long: "\<not> length rest < w" using decided pos by (auto simp: decode_chunk_def w_def)
      show ?thesis
      proof (cases "2 ^ 32 \<le> n + 2")
        case True
        then show ?thesis using pos long unfolding decode_chunk_def w_def [symmetric] by simp
      next
        case False
        then have w: "w = n + 2" by (simp add: w_def)
        then have len: "n + 2 \<le> length rest" using long by simp
        moreover have "take 2 (drop n rest) \<noteq> crlf" using other pos False long w by auto
        ultimately show ?thesis using pos long False unfolding decode_chunk_def w_def [symmetric] by (simp add: w)
      qed
    qed
  qed
  then show ?case using "1.prems" unfolding more decode_line [OF i] rest_def
    by (cases "chunk_size (take i bs)") simp_all
qed

text \<open>A body of chunks: each chunk is its size line and its data, the last one has size zero.\<close>

definition chunk_ok :: "byte list \<times> byte list \<Rightarrow> bool" where
  "chunk_ok c \<longleftrightarrow> crlf_at (fst c) = None \<and> chunk_size (fst c) = Some (length (snd c)) \<and> snd c \<noteq> []
     \<and> length (snd c) + 2 < 2 ^ 32"

definition chunked_body :: "(byte list \<times> byte list) list \<Rightarrow> byte list \<Rightarrow> byte list" where
  "chunked_body cs final = concat (map (\<lambda>(line, data). line @ crlf @ data @ crlf) cs) @ final @ crlf @ crlf"

lemma chunked_body_simps [simp]:
  "chunked_body [] final = final @ crlf @ crlf"
  "chunked_body ((line, data) # cs) final = line @ crlf @ (data @ crlf @ chunked_body cs final)"
  by (simp_all add: chunked_body_def)

lemma decode_sized:
  assumes "crlf_at line = None" "chunk_size line = Some n"
  shows "decode_from d (line @ crlf @ x) = decode_chunk d n x"
proof -
  have "take (length line) (line @ crlf @ x) = line" "drop (length line + 2) (line @ crlf @ x) = x"
    by (simp_all add: crlf_def)
  then show ?thesis using decode_line [OF crlf_at_line [OF assms(1)]] assms(2) by (metis option.simps(5))
qed

lemma decode_one_chunk:
  assumes "chunk_ok (line, data)"
  shows "decode_from d (line @ crlf @ data @ crlf @ rest) = decode_from (d @ data) rest"
proof -
  have "decode_from d (line @ crlf @ data @ crlf @ rest) = decode_chunk d (length data) (data @ crlf @ rest)"
    using assms decode_sized by (simp add: chunk_ok_def)
  moreover have "take 2 (drop (length data) (data @ crlf @ rest)) = crlf"
      "drop (length data + 2) (data @ crlf @ rest) = rest" by (simp_all add: crlf_def)
  ultimately show ?thesis using assms
    unfolding decode_chunk_def chunk_ok_def by (simp add: crlf_def)
qed

lemma decode_chunk_early:
  assumes "chunk_ok (line, data)" "k < length line + 2 + length data + 2"
  shows "decode_from d (take k (line @ crlf @ data @ crlf @ rest)) = Inr None"
proof (cases "k < length line + 2")
  case True
  have "crlf_at (line @ crlf @ data @ crlf @ rest) = Some (length line)"
    using assms(1) crlf_at_line unfolding chunk_ok_def by (metis fst_conv)
  then show ?thesis using True by (intro decode_no_line crlf_at_take)
next
  case False
  then have cut: "take k (line @ crlf @ data @ crlf @ rest) = line @ crlf @ take (k - (length line + 2)) (data @ crlf @ rest)"
    by (simp add: crlf_def take_Cons' split: if_splits)
  have "length (take (k - (length line + 2)) (data @ crlf @ rest)) < length data + 2"
    using assms(2) False by simp
  moreover have "decode_from d (line @ crlf @ take (k - (length line + 2)) (data @ crlf @ rest))
      = decode_chunk d (length data) (take (k - (length line + 2)) (data @ crlf @ rest))"
    using assms(1) decode_sized [of line "length data"] by (simp add: chunk_ok_def del: take_append)
  ultimately show ?thesis using assms(1) unfolding cut decode_chunk_def chunk_ok_def by simp
qed

lemma decode_final:
  assumes "crlf_at final = None" "chunk_size final = Some 0"
  shows "decode_from d (final @ crlf @ crlf) = Inr (Some d)"
    and "k < length final + 4 \<Longrightarrow> decode_from d (take k (final @ crlf @ crlf)) = Inr None"
proof -
  have whole: "decode_from d (final @ crlf @ x) = decode_chunk d 0 x" for x
    using assms by (rule decode_sized)
  then show "decode_from d (final @ crlf @ crlf) = Inr (Some d)"
    by (simp add: decode_chunk_def crlf_def)
  assume k: "k < length final + 4"
  show "decode_from d (take k (final @ crlf @ crlf)) = Inr None"
  proof (cases "k < length final + 2")
    case True
    then show ?thesis
      using crlf_at_line [OF assms(1), of crlf] by (intro decode_no_line crlf_at_take)
  next
    case False
    then have cut: "take k (final @ crlf @ crlf) = final @ crlf @ take (k - (length final + 2)) crlf"
      by (simp add: crlf_def take_Cons' split: if_splits)
    have "length (take (k - (length final + 2)) crlf) < 2" using k False by (simp add: crlf_def)
    then have "take 2 (take (k - (length final + 2)) crlf) \<noteq> crlf \<and> \<not> has_blank_line (take (k - (length final + 2)) crlf)"
      using has_blank_line_short by (fastforce simp: crlf_def)
    then show ?thesis unfolding cut whole by (simp add: decode_chunk_def)
  qed
qed

lemma decode_chunks:
  assumes "\<forall>c \<in> set cs. chunk_ok c" "crlf_at final = None" "chunk_size final = Some 0"
  shows "decode_from d (chunked_body cs final) = Inr (Some (d @ concat (map snd cs)))"
    and "k < length (chunked_body cs final) \<Longrightarrow> decode_from d (take k (chunked_body cs final)) = Inr None"
proof -
  show "decode_from d (chunked_body cs final) = Inr (Some (d @ concat (map snd cs)))"
    using assms
  proof (induction cs arbitrary: d)
    case (Cons c cs)
    then show ?case by (cases c) (simp add: decode_one_chunk)
  qed (simp add: decode_final)
  show "k < length (chunked_body cs final) \<Longrightarrow> decode_from d (take k (chunked_body cs final)) = Inr None"
    using assms
  proof (induction cs arbitrary: d k)
    case Nil
    then show ?case using decode_final(2) [of final k d] by (simp add: crlf_def)
  next
    case (Cons c cs)
    obtain line data where c: "c = (line, data)" by (cases c)
    let ?n = "length line + 2 + length data + 2"
    show ?case
    proof (cases "k < ?n")
      case True
      then show ?thesis using Cons.prems decode_chunk_early [of line data k d "chunked_body cs final"] by (simp add: c)
    next
      case False
      then have "take k (chunked_body (c # cs) final) = line @ crlf @ data @ crlf @ take (k - ?n) (chunked_body cs final)"
        by (simp add: c crlf_def take_Cons' split: if_splits)
      moreover have "decode_from (d @ data) (take (k - ?n) (chunked_body cs final)) = Inr None"
        using Cons.prems False by (intro Cons.IH) (auto simp: c crlf_def)
      ultimately show ?thesis using Cons.prems(2) decode_one_chunk [of line data] by (simp add: c)
    qed
  qed
qed

section \<open>Parsing while the response arrives\<close>

text \<open>What a header parser over a growing buffer promises: it consumes part of what it was given, and
  more bytes do not change a verdict.\<close>

definition incremental_parser :: "'r http_lib \<Rightarrow> bool" where
  "incremental_parser L \<longleftrightarrow> (\<forall>bs x. hl_parse L bs \<noteq> HpPartial \<longrightarrow> hl_parse L (bs @ x) = hl_parse L bs)
     \<and> (\<forall>bs n code hs. hl_parse L bs = HpComplete n code hs \<longrightarrow> n \<le> length bs)"

lemma response_body_append:
  assumes "response_body False bodiless chunked len body \<noteq> Inr None"
  shows "response_body eof bodiless chunked len (body @ x) = response_body False bodiless chunked len body"
proof -
  have "decode_chunked (body @ x) = decode_chunked body" if "decode_chunked body \<noteq> Inr None"
    using that unfolding decode_chunked_def by (rule decode_from_append)
  then show ?thesis using assms
    by (auto simp: response_body_def split: sum.splits option.splits if_splits)
qed

lemma parse_response_append:
  assumes "incremental_parser L" "parse_response L bs meth False \<noteq> Inr None"
  shows "parse_response L (bs @ x) meth eof = parse_response L bs meth False"
proof (cases "hl_parse L bs")
  case HpInvalid
  then have "hl_parse L (bs @ x) = HpInvalid"
    using assms(1) unfolding incremental_parser_def by (metis http_parse.distinct(1))
  then show ?thesis using HpInvalid by (simp add: parse_response_def)
next
  case HpPartial
  then show ?thesis using assms(2) by (simp add: parse_response_def)
next
  case (HpComplete n code hs)
  then have same: "hl_parse L (bs @ x) = HpComplete n code hs" and "n \<le> length bs"
    using assms(1) unfolding incremental_parser_def by (metis http_parse.distinct(5), metis)
  then have cut: "drop n (bs @ x) = drop n bs @ x" by simp
  show ?thesis
  proof (cases "code = None \<or> (\<exists>e. content_length hs = Inl e)")
    case True
    then show ?thesis using HpComplete same by (cases code) (auto simp: parse_response_def)
  next
    case False
    then obtain status len where found: "code = Some status" "content_length hs = Inr len"
      by (cases "content_length hs") auto
    have "response_body False (no_body meth status) (is_chunked hs) len (drop n bs) \<noteq> Inr None"
      using assms(2) HpComplete found by (auto simp: parse_response_def)
    then show ?thesis
      using response_body_append HpComplete same found unfolding parse_response_def by (simp add: cut)
  qed
qed

lemma parse_response_eof: "parse_response L bs meth True \<noteq> Inr None"
  by (auto simp: parse_response_def response_body_def bind_res_Inr_iff split: http_parse.splits option.splits sum.splits if_splits)

section \<open>The answer\<close>

text \<open>What the guest may do with the socket before it ends the response.\<close>

datatype socket_op = OpSend "byte list" | OpRecv nat bool | OpSetHandler | OpRemoveHandler | OpShutRead

fun socket_exec :: "'r http_lib \<Rightarrow> socket_op \<Rightarrow> 'r http_socket \<Rightarrow> 'r http_socket" where
  "socket_exec L (OpSend data) s = snd (try_send L data s)"
| "socket_exec L (OpRecv n peek) s = snd (try_recv n peek s)"
| "socket_exec L OpSetHandler s = set_handler s"
| "socket_exec L OpRemoveHandler s = remove_handler s"
| "socket_exec L OpShutRead s = snd (shutdown_socket L ShutRead s)"

definition guest_bytes :: "socket_op list \<Rightarrow> byte list" where
  "guest_bytes ops = concat (map (\<lambda>op. case op of OpSend data \<Rightarrow> data | _ \<Rightarrow> []) ops)"

text \<open>The answer for a whole response.\<close>

definition whole_answer :: "'r http_lib \<Rightarrow> byte list \<Rightarrow> string \<Rightarrow> network_error + 'r" where
  "whole_answer L bs meth = (case parse_response L bs meth True of
     Inr (Some r) \<Rightarrow> Inr r | Inl (NetError e) \<Rightarrow> Inl e | _ \<Rightarrow> Inl NotConnected)"

text \<open>Of the bytes written so far, either nothing is decided and nothing was answered, or the answer
  was that of the whole.\<close>

definition answering :: "'r http_lib \<Rightarrow> string \<Rightarrow> byte list \<Rightarrow> 'r http_socket \<Rightarrow> bool" where
  "answering L meth bs s \<longleftrightarrow> (\<exists>waits. sk_response s = Some (bs, waits, meth)
     \<and> (if waits then sk_answers s = []
        else (\<forall>x. parse_response L (bs @ x) meth True \<noteq> Inl Panicked \<longrightarrow> sk_answers s = [whole_answer L (bs @ x) meth])))"

lemma answering_send:
  assumes "incremental_parser L" "answering L meth bs s"
  shows "answering L meth (bs @ data) (snd (try_send L data s))"
proof -
  obtain waits where s: "sk_response s = Some (bs, waits, meth)"
    and before: "if waits then sk_answers s = []
        else (\<forall>x. parse_response L (bs @ x) meth True \<noteq> Inl Panicked \<longrightarrow> sk_answers s = [whole_answer L (bs @ x) meth])"
    using assms(2) by (auto simp: answering_def)
  show ?thesis
  proof (cases waits)
    case False
    then show ?thesis using s before
      by (auto simp: answering_def try_send_def finish_response_def)
  next
    case True
    define verdict where "verdict = parse_response L (bs @ data) meth False"
    have later: "verdict \<noteq> Inr None \<Longrightarrow> parse_response L ((bs @ data) @ x) meth True = verdict" for x
      unfolding verdict_def by (rule parse_response_append [OF assms(1)])
    show ?thesis
    proof (cases "verdict = Inr None")
      case undecided: True
      then show ?thesis using s before True
        by (auto simp: answering_def try_send_def finish_response_def verdict_def)
    next
      case False
      then show ?thesis using s before True later
        by (auto simp: answering_def try_send_def finish_response_def verdict_def whole_answer_def Let_def
            split: sum.splits option.splits net_fail.splits prod.splits bool.splits)
    qed
  qed
qed

lemma answering_request: "answering L meth bs (s\<lparr>sk_request := q\<rparr>) = answering L meth bs s"
  by (simp add: answering_def)

lemma answering_others:
  "answering L meth bs (snd (try_recv n peek s)) = answering L meth bs s"
  "answering L meth bs (set_handler s) = answering L meth bs s"
  "answering L meth bs (remove_handler s) = answering L meth bs s"
  "answering L meth bs (snd (shutdown_socket L ShutRead s)) = answering L meth bs s"
  by (auto simp: answering_def try_recv_def set_handler_def remove_handler_def shutdown_socket_def Let_def
      split: option.split)

lemma answering_run:
  assumes "incremental_parser L" "answering L meth bs s"
  shows "answering L meth (bs @ guest_bytes ops) (fold (socket_exec L) ops s)"
  using assms(2)
proof (induction ops arbitrary: bs s)
  case (Cons op ops)
  have "answering L meth (bs @ guest_bytes [op]) (socket_exec L op s)"
    using answering_send [OF assms(1) Cons.prems] Cons.prems
    by (cases op) (auto simp: guest_bytes_def answering_others)
  then show ?case using Cons.IH [of "bs @ guest_bytes [op]"] by (simp add: guest_bytes_def)
qed (simp add: guest_bytes_def)

lemma answering_end:
  assumes "answering L meth bs s" "parse_response L bs meth True \<noteq> Inl Panicked"
  shows "fst (finish_response L True s) = False \<and> sk_answers (snd (finish_response L True s)) = [whole_answer L bs meth]"
proof -
  obtain waits where s: "sk_response s = Some (bs, waits, meth)"
    and before: "if waits then sk_answers s = []
        else (\<forall>x. parse_response L (bs @ x) meth True \<noteq> Inl Panicked \<longrightarrow> sk_answers s = [whole_answer L (bs @ x) meth])"
    using assms(1) by (auto simp: answering_def)
  show ?thesis
  proof (cases waits)
    case True
    then show ?thesis using s before assms(2) parse_response_eof [of L bs meth]
      by (auto simp: finish_response_def whole_answer_def Let_def split: sum.splits option.splits net_fail.splits)
  next
    case False
    then have "\<forall>x. parse_response L (bs @ x) meth True \<noteq> Inl Panicked \<longrightarrow> sk_answers s = [whole_answer L (bs @ x) meth]"
      using before by simp
    from this [rule_format, of "[]"] show ?thesis using s False assms(2) by (simp add: finish_response_def)
  qed
qed

section \<open>Properties\<close>

text \<open>C33: chunked bodies are decoded exactly. For every body of chunks whose size lines, with their
  extensions, name the sizes of the data, the decoder returns the data of the chunks, and of no proper
  prefix of the body does it return or report anything: a body that is still arriving is neither cut
  short nor refused.\<close>

theorem chunked_body_decoded:
  assumes "\<forall>c \<in> set cs. chunk_ok c" "crlf_at final = None" "chunk_size final = Some 0"
  shows "decode_chunked (chunked_body cs final) = Inr (Some (concat (map snd cs)))
    \<and> (\<forall>k < length (chunked_body cs final). decode_chunked (take k (chunked_body cs final)) = Inr None)"
  using decode_chunks [OF assms] by (simp add: decode_chunked_def)

lemma sample_sizes:
  "chunk_size [53, 59, 120] = Some 5" "chunk_size [48] = Some 0"
  by (simp_all add: chunk_size_def utf8_valid_def utf8_groups.simps utf8_next_def byte_at_def trim_text_def
      white_space_def from_str_radix_def digit_value_def wasm_usize_max_def Let_def)

theorem chunked_body_decoded_witness:
  "decode_chunked ([53, 59, 120] @ crlf @ bytes_of ''hello'' @ crlf @ [48] @ crlf @ crlf) = Inr (Some (bytes_of ''hello''))"
  using chunked_body_decoded [of "[([53, 59, 120], bytes_of ''hello'')]" "[48]"] sample_sizes
  by (simp add: chunk_ok_def bytes_of_def)

text \<open>C34: the browser gets the answer that parsing the whole response gives, however the guest splits
  its writes and whatever else it does with the socket in between: exactly one answer, once the guest
  ends the response by shutting the socket down or dropping it.\<close>

theorem answer_independent_of_splitting:
  assumes "incremental_parser L" "how \<noteq> ShutRead"
    and "parse_response L (guest_bytes ops) (rq_method r) True \<noteq> Inl Panicked"
  shows "sk_answers (snd (drop_socket L (fold (socket_exec L) ops (socket_new H r))))
      = [whole_answer L (guest_bytes ops) (rq_method r)]
    \<and> sk_answers (snd (drop_socket L (snd (shutdown_socket L how (fold (socket_exec L) ops (socket_new H r))))))
      = [whole_answer L (guest_bytes ops) (rq_method r)]"
proof -
  define s where "s = fold (socket_exec L) ops (socket_new H r :: 'a http_socket)"
  have start: "answering L (rq_method r) [] (socket_new H r)"
    by (auto simp: answering_def socket_new_def intro: exI [of _ True])
  have s: "answering L (rq_method r) (guest_bytes ops) s"
    using answering_run [OF assms(1) start, of ops] by (simp add: s_def)
  define s1 where "s1 = (if how = ShutWrite then s else s\<lparr>sk_request := None\<rparr>)"
  define t where "t = snd (finish_response L True s1)"
  have s1: "answering L (rq_method r) (guest_bytes ops) s1"
    using s by (simp add: s1_def answering_request)
  have fin: "finish_response L True s1 = (False, t)" "sk_answers t = [whole_answer L (guest_bytes ops) (rq_method r)]"
    using answering_end [OF s1 assms(3)] by (simp_all add: t_def prod_eq_iff)
  have "shutdown_socket L how s = (False, t\<lparr>sk_response := None\<rparr>)"
    using assms(2) unfolding shutdown_socket_def Let_def s1_def [symmetric] fin by simp
  then show ?thesis
    using answering_end [OF s assms(3)] fin(2)
    unfolding s_def [symmetric] by (simp add: drop_socket_def finish_response_def [of L True "t\<lparr>sk_response := None\<rparr>"])
qed

text \<open>A parser of responses whose head is a status line.\<close>

definition plain_lib :: "(nat \<times> headers \<times> byte list) http_lib" where
  "plain_lib = \<lparr>hl_parse = (\<lambda>bs. case crlf_at bs of None \<Rightarrow> HpPartial
       | Some i \<Rightarrow> HpComplete (i + 2) (Some 200) [(''transfer-encoding'', bytes_of ''chunked'')]),
     hl_response = (\<lambda>status hs body. Some (status, hs, body))\<rparr>"

definition plain_request :: "unit request" where
  "plain_request = \<lparr>rq_method = ''GET'', rq_path_and_query = None, rq_headers = (), rq_body = []\<rparr>"

definition no_headers :: "unit header_map" where
  "no_headers = \<lparr>hm_remove = (\<lambda>_ h. h), hm_insert = (\<lambda>_ _ h. h), hm_iter = (\<lambda>_. [])\<rparr>"

lemma plain_incremental: "incremental_parser plain_lib"
  by (auto simp: incremental_parser_def plain_lib_def crlf_at_append dest: crlf_at_bound split: option.splits)

definition split_writes :: "socket_op list" where
  "split_writes = [OpSend (bytes_of ''HTTP/1.1 200'' @ [13]), OpRecv 4 False, OpSend [10, 53, 59, 120],
     OpSend (crlf @ bytes_of ''hello'' @ crlf @ [48]), OpShutRead, OpSend (crlf @ crlf)]"

lemma split_bytes: "guest_bytes split_writes = (bytes_of ''HTTP/1.1 200'' @ crlf) @ chunked_body [([53, 59, 120], bytes_of ''hello'')] [48]"
  by (simp add: guest_bytes_def split_writes_def crlf_def)

lemma split_parsed:
  "parse_response plain_lib (guest_bytes split_writes) ''GET'' True = Inr (Some (200, [], bytes_of ''hello''))"
proof -
  have "hl_parse plain_lib (guest_bytes split_writes) = HpComplete 14 (Some 200) [(''transfer-encoding'', bytes_of ''chunked'')]"
    unfolding split_bytes by (simp add: plain_lib_def crlf_def bytes_of_def byte_of_char_def)
  moreover have "drop 14 (guest_bytes split_writes) = chunked_body [([53, 59, 120], bytes_of ''hello'')] [48]"
    unfolding split_bytes by (simp add: crlf_def bytes_of_def)
  moreover have "is_chunked [(''transfer-encoding'', bytes_of ''chunked'')]" "content_length [(''transfer-encoding'', bytes_of ''chunked'')] = Inr None"
      "forwarded_headers [(''transfer-encoding'', bytes_of ''chunked'')] = []"
    by (simp_all add: is_chunked_def content_length_def forwarded_headers_def same_name_def bytes_of_def byte_of_char_def
        lower_byte_def utf8_valid_def utf8_groups.simps utf8_next_def byte_at_def Let_def)
  ultimately show ?thesis
    using decode_chunks(1) [of "[([53, 59, 120], bytes_of ''hello'')]" "[48]" "[]"] sample_sizes
    by (simp add: decode_chunked_def chunk_ok_def bytes_of_def parse_response_def response_body_def no_body_def plain_lib_def)
qed

theorem answer_independent_of_splitting_witness:
  "sk_answers (snd (drop_socket plain_lib (fold (socket_exec plain_lib) split_writes (socket_new no_headers plain_request))))
    = [Inr (200, [], bytes_of ''hello'')]"
  using answer_independent_of_splitting [OF plain_incremental, of ShutWrite split_writes plain_request no_headers] split_parsed
  by (simp add: plain_request_def whole_answer_def)

section \<open>Chunk sizes that overflow\<close>

text \<open>A guest that announces a chunk of \<open>ffffffff\<close> bytes makes the code slice out of range.\<close>

lemma oversized_chunk_panics:
  "decode_chunked (bytes_of ''ffffffff'' @ crlf @ [0]) = Inl Panicked"
proof -
  have "chunk_size (bytes_of ''ffffffff'') = Some 4294967295"
    by (simp add: chunk_size_def bytes_of_def byte_of_char_def utf8_valid_def utf8_groups.simps utf8_next_def
        byte_at_def trim_text_def white_space_def from_str_radix_def digit_value_def wasm_usize_max_def Let_def)
  moreover have "crlf_at (bytes_of ''ffffffff'') = None" by (simp add: bytes_of_def byte_of_char_def)
  ultimately show ?thesis unfolding decode_chunked_def
    by (simp add: decode_sized decode_chunk_def)
qed

end
