(* ===== verification/Browser_Net.thy ===== *)
theory Browser_Net
  imports Http_Exchange "HOL-Library.AList"
begin

text \<open>
  The in-memory TCP network of browser sandboxes (js/bindgen/src/browser_http.rs): networks of one
  client, their listeners and bound sockets, and how a connection finds its listener. Networks and
  listeners are numbered; an operation, which holds the network's lock, is one step. The host's
  network behind a sandbox is a parameter.
\<close>

section \<open>Addresses\<close>

datatype ip_addr = V4 "32 word" | V6 "128 word"

type_synonym sock_addr = "ip_addr \<times> nat"

definition localhost4 :: ip_addr where
  "localhost4 = V4 0x7f000001"

definition localhost6 :: ip_addr where
  "localhost6 = V6 1"

fun is_loopback :: "ip_addr \<Rightarrow> bool" where
  "is_loopback (V4 a) \<longleftrightarrow> drop_bit 24 a = 127"
| "is_loopback (V6 a) \<longleftrightarrow> a = 1"

fun is_unspecified :: "ip_addr \<Rightarrow> bool" where
  "is_unspecified (V4 a) \<longleftrightarrow> a = 0"
| "is_unspecified (V6 a) \<longleftrightarrow> a = 0"

fun is_ipv4 :: "ip_addr \<Rightarrow> bool" where
  "is_ipv4 (V4 a) = True"
| "is_ipv4 (V6 a) = False"

definition normalize_listener_address :: "sock_addr \<Rightarrow> sock_addr" where
  "normalize_listener_address a =
     (if is_unspecified (fst a) then (if is_ipv4 (fst a) then localhost4 else localhost6, snd a) else a)"

definition listener_addresses :: "sock_addr \<Rightarrow> bool \<Rightarrow> sock_addr list" where
  "listener_addresses a only_v6 = normalize_listener_address a
     # (if \<not> is_ipv4 (fst a) \<and> is_unspecified (fst a) \<and> \<not> only_v6 then [(localhost4, snd a)] else [])"

section \<open>State\<close>

text \<open>\<open>ls_alive\<close>: the guest still holds the listener; networks and other sandboxes hold weak references.
  The backlog holds the connections not yet accepted, each with the address of its other end.\<close>

record listener =
  ls_alive :: bool
  ls_closed :: bool
  ls_backlog :: "(nat \<times> sock_addr) list"
  ls_handler :: "interest list option"
  ls_wakers :: "nat list"
  ls_woken :: "nat list"
  ls_local :: sock_addr

record network =
  nw_alive :: bool
  nw_group :: nat
  nw_listeners :: "(sock_addr \<times> nat) list"
  nw_bound :: "sock_addr list"
  nw_ips :: "(ip_addr \<times> nat) list"
  nw_peers :: "nat list option"
  nw_closed :: bool
  nw_has_egress :: bool
  nw_loopback_egress :: bool
  nw_next_port :: nat

record net_world =
  networks :: "nat \<Rightarrow> network"
  net_count :: nat
  group_of :: "nat \<Rightarrow> nat list"
  listeners :: "nat \<Rightarrow> listener"
  listener_count :: nat
  next_socket :: nat

definition update_net :: "nat \<Rightarrow> (network \<Rightarrow> network) \<Rightarrow> net_world \<Rightarrow> net_world" where
  "update_net n f w = w\<lparr>networks := (networks w)(n := f (networks w n))\<rparr>"

definition update_listener :: "nat \<Rightarrow> (listener \<Rightarrow> listener) \<Rightarrow> net_world \<Rightarrow> net_world" where
  "update_listener l f w = w\<lparr>listeners := (listeners w)(l := f (listeners w l))\<rparr>"

text \<open>\<open>upgrade\<close> of a weak reference found under an address.\<close>

definition live_listener :: "net_world \<Rightarrow> nat \<Rightarrow> sock_addr \<Rightarrow> nat option" where
  "live_listener w n a = (case map_of (nw_listeners (networks w n)) a of
     None \<Rightarrow> None
   | Some l \<Rightarrow> if ls_alive (listeners w l) then Some l else None)"

section \<open>Networks\<close>

definition create_network :: "nat \<Rightarrow> bool \<Rightarrow> net_world \<Rightarrow> nat \<times> net_world" where
  "create_network g egress w =
     (let n = net_count w
      in (n, w\<lparr>networks := (networks w)(n := \<lparr>nw_alive = True, nw_group = g, nw_listeners = [], nw_bound = [],
            nw_ips = [], nw_peers = None, nw_closed = False, nw_has_egress = egress, nw_loopback_egress = False,
            nw_next_port = 49152\<rparr>),
          net_count := n + 1,
          group_of := (group_of w)(g := filter (\<lambda>m. nw_alive (networks w m)) (group_of w g) @ [n])\<rparr>))"

definition drop_network :: "nat \<Rightarrow> net_world \<Rightarrow> net_world" where
  "drop_network n = update_net n (\<lambda>nw. nw\<lparr>nw_alive := False\<rparr>)"

definition allow_loopback_egress :: "nat \<Rightarrow> net_world \<Rightarrow> (network_error + unit) \<times> net_world" where
  "allow_loopback_egress n w =
     (if nw_closed (networks w n) then (Inl NotConnected, w)
      else if \<not> nw_has_egress (networks w n) then (Inl UnsupportedNet, w)
      else (Inr (), update_net n (\<lambda>nw. nw\<lparr>nw_loopback_egress := True\<rparr>) w))"

definition restrict_peers :: "nat \<Rightarrow> net_world \<Rightarrow> (network_error + unit) \<times> net_world" where
  "restrict_peers n w =
     (if nw_closed (networks w n) then (Inl NotConnected, w)
      else (Inr (), update_net n (\<lambda>nw. nw\<lparr>nw_peers := Some []\<rparr>) w))"

definition add_peer :: "nat \<Rightarrow> nat \<Rightarrow> net_world \<Rightarrow> (network_error + unit) \<times> net_world" where
  "add_peer n peer w =
     (if nw_closed (networks w peer) then (Inl NotConnected, w)
      else (Inr (), update_net n (\<lambda>nw. nw\<lparr>nw_peers :=
        Some ((case nw_peers nw of None \<Rightarrow> [] | Some ps \<Rightarrow> ps) @ [peer])\<rparr>) w))"

definition push_interests :: "interest list \<Rightarrow> interest list option \<Rightarrow> interest list option" where
  "push_interests is = map_option (\<lambda>h. h @ is)"

definition close_listener :: "listener \<Rightarrow> listener" where
  "close_listener l = l\<lparr>ls_closed := True, ls_backlog := [],
     ls_handler := push_interests [Readable, ClosedInterest] (ls_handler l),
     ls_woken := ls_woken l @ ls_wakers l, ls_wakers := []\<rparr>"

definition close_network :: "nat \<Rightarrow> net_world \<Rightarrow> net_world" where
  "close_network n w = fold (\<lambda>(_, l) w. if ls_alive (listeners w l) then update_listener l close_listener w else w)
     (nw_listeners (networks w n))
     (update_net n (\<lambda>nw. nw\<lparr>nw_closed := True, nw_listeners := [], nw_bound := [], nw_peers := Some []\<rparr>) w)"

definition close_group :: "nat \<Rightarrow> net_world \<Rightarrow> net_world" where
  "close_group g w = fold close_network (filter (\<lambda>n. nw_alive (networks w n)) (group_of w g)) w"

text \<open>Observers do not wait for a network that is locked.\<close>

definition retain_live :: "nat \<Rightarrow> net_world \<Rightarrow> net_world" where
  "retain_live n w = update_net n (\<lambda>nw. nw\<lparr>nw_listeners :=
     filter (\<lambda>(_, l). ls_alive (listeners w l)) (nw_listeners nw)\<rparr>) w"

definition has_listener :: "bool \<Rightarrow> nat \<Rightarrow> nat \<Rightarrow> net_world \<Rightarrow> bool \<times> net_world" where
  "has_listener contended n port w =
     (if contended then (False, w)
      else let w1 = retain_live n w
           in (list_ex (\<lambda>(a, _). snd a = port) (nw_listeners (networks w1 n)), w1))"

definition listening_ports :: "bool \<Rightarrow> nat \<Rightarrow> net_world \<Rightarrow> nat list option \<times> net_world" where
  "listening_ports contended n w =
     (if contended then (None, w)
      else let w1 = retain_live n w
           in (Some (remdups_adj (sort (map (\<lambda>(a, _). snd a) (nw_listeners (networks w1 n))))), w1))"

section \<open>Listeners\<close>

definition new_listener :: "sock_addr \<Rightarrow> net_world \<Rightarrow> nat \<times> net_world" where
  "new_listener a w = (listener_count w, w\<lparr>listeners := (listeners w)(listener_count w :=
       \<lparr>ls_alive = True, ls_closed = False, ls_backlog = [], ls_handler = None, ls_wakers = [], ls_woken = [],
        ls_local = a\<rparr>), listener_count := listener_count w + 1\<rparr>)"

definition listener_push :: "nat \<Rightarrow> nat \<Rightarrow> sock_addr \<Rightarrow> net_world \<Rightarrow> (network_error + unit) \<times> net_world" where
  "listener_push l socket peer w =
     (if ls_closed (listeners w l) then (Inl ConnectionRefused, w)
      else (Inr (), update_listener l (\<lambda>s. s\<lparr>ls_backlog := ls_backlog s @ [(socket, peer)],
        ls_handler := push_interests [Readable] (ls_handler s),
        ls_woken := ls_woken s @ ls_wakers s, ls_wakers := []\<rparr>) w))"

definition listener_remove_handler :: "nat \<Rightarrow> net_world \<Rightarrow> net_world" where
  "listener_remove_handler l = update_listener l (\<lambda>s. s\<lparr>ls_handler := None\<rparr>)"

definition listener_poll_read_ready :: "nat \<Rightarrow> nat \<Rightarrow> net_world \<Rightarrow> (network_error + nat) poll \<times> net_world" where
  "listener_poll_read_ready l waker w = (let s = listeners w l in
     if ls_closed s then (Ready (Inl ConnectionAborted), w)
     else if ls_backlog s \<noteq> [] then (Ready (Inr (length (ls_backlog s))), w)
     else (Pending, update_listener l (\<lambda>s. if waker \<in> set (ls_wakers s) then s
        else s\<lparr>ls_wakers := ls_wakers s @ [waker]\<rparr>) w))"

definition try_accept :: "nat \<Rightarrow> net_world \<Rightarrow> (network_error + nat \<times> sock_addr) \<times> net_world" where
  "try_accept l w = (if ls_closed (listeners w l) then (Inl ConnectionAborted, w)
     else (case ls_backlog (listeners w l) of
         [] \<Rightarrow> (Inl WouldBlock, w)
       | c # rest \<Rightarrow> (Inr c, update_listener l (\<lambda>s. s\<lparr>ls_backlog := rest\<rparr>) w)))"

definition listener_set_handler :: "nat \<Rightarrow> net_world \<Rightarrow> net_world" where
  "listener_set_handler l = update_listener l (\<lambda>s. s\<lparr>ls_handler := Some (
     (if ls_closed s \<or> ls_backlog s \<noteq> [] then [Readable] else []) @ (if ls_closed s then [ClosedInterest] else []))\<rparr>)"

definition drop_listener :: "nat \<Rightarrow> net_world \<Rightarrow> net_world" where
  "drop_listener l = update_listener l (\<lambda>s. s\<lparr>ls_alive := False, ls_backlog := []\<rparr>)"

section \<open>Listening and binding\<close>

definition address_taken :: "net_world \<Rightarrow> nat \<Rightarrow> sock_addr \<Rightarrow> bool" where
  "address_taken w n a \<longleftrightarrow> a \<in> set (nw_bound (networks w n)) \<or> live_listener w n a \<noteq> None"

definition register :: "nat \<Rightarrow> sock_addr list \<Rightarrow> nat \<Rightarrow> net_world \<Rightarrow> net_world" where
  "register n addresses l = update_net n (\<lambda>nw. nw\<lparr>nw_listeners :=
     fold (\<lambda>a. AList.update a l) addresses (nw_listeners nw)\<rparr>)"

definition listen_tcp :: "nat \<Rightarrow> sock_addr \<Rightarrow> bool \<Rightarrow> net_world \<Rightarrow> (network_error + nat) \<times> net_world" where
  "listen_tcp n address only_v6 w =
     (let addresses = listener_addresses address only_v6
      in if nw_closed (networks w n) then (Inl NotConnected, w)
         else if list_ex (address_taken w n) addresses then (Inl AddressInUse, w)
         else let (l, w1) = new_listener (hd addresses) w in (Inr l, register n addresses l w1))"

record bound_socket =
  bs_network :: nat
  bs_addresses :: "sock_addr list"
  bs_reserved :: bool
  bs_ttl :: nat

definition bind_tcp :: "nat \<Rightarrow> sock_addr \<Rightarrow> bool \<Rightarrow> net_world \<Rightarrow> (network_error + bound_socket) \<times> net_world" where
  "bind_tcp n address only_v6 w =
     (let addresses = listener_addresses address only_v6
      in if nw_closed (networks w n) then (Inl NotConnected, w)
         else if list_ex (address_taken w n) addresses then (Inl AddressInUse, w)
         else (Inr \<lparr>bs_network = n, bs_addresses = addresses, bs_reserved = True, bs_ttl = 64\<rparr>,
               update_net n (\<lambda>nw. nw\<lparr>nw_bound := nw_bound nw @ addresses\<rparr>) w))"

definition unbind :: "nat \<Rightarrow> sock_addr list \<Rightarrow> net_world \<Rightarrow> net_world" where
  "unbind n addresses = update_net n (\<lambda>nw. nw\<lparr>nw_bound := filter (\<lambda>a. a \<notin> set addresses) (nw_bound nw)\<rparr>)"

definition bound_release :: "bound_socket \<Rightarrow> net_world \<Rightarrow> bound_socket \<times> net_world" where
  "bound_release b w =
     (if bs_reserved b then (b\<lparr>bs_reserved := False\<rparr>, unbind (bs_network b) (bs_addresses b) w) else (b, w))"

definition bound_listen :: "bound_socket \<Rightarrow> net_world \<Rightarrow> (network_error + nat) \<times> bound_socket \<times> net_world" where
  "bound_listen b w =
     (if \<not> bs_reserved b then (Inl InvalidFd, b, w)
      else if \<not> list_all (\<lambda>a. a \<in> set (nw_bound (networks w (bs_network b)))) (bs_addresses b) then (Inl InvalidFd, b, w)
      else let (l, w1) = new_listener (hd (bs_addresses b)) w
           in (Inr l, b\<lparr>bs_reserved := False\<rparr>,
               register (bs_network b) (bs_addresses b) l (unbind (bs_network b) (bs_addresses b) w1)))"

section \<open>Connecting\<close>

text \<open>A connection: its socket, the listener it reached and the two addresses.\<close>

record connection =
  cn_socket :: nat
  cn_listener :: nat
  cn_local :: sock_addr
  cn_peer :: sock_addr

definition local_address :: "network \<Rightarrow> sock_addr \<Rightarrow> sock_addr \<Rightarrow> sock_addr \<times> nat" where
  "local_address nw local peer =
     (let port = (if snd local = 0 then nw_next_port nw else snd local);
          next = (if snd local \<noteq> 0 then nw_next_port nw
                  else if nw_next_port nw = u16_max then 49152 else nw_next_port nw + 1)
      in ((if is_unspecified (fst local) then (if is_ipv4 (fst peer) then localhost4 else localhost6) else fst local,
           port), next))"

text \<open>The other networks a connection may reach, in the order they are looked at.\<close>

definition peer_candidates :: "net_world \<Rightarrow> nat \<Rightarrow> nat list" where
  "peer_candidates w n = (case nw_peers (networks w n) of
     Some ps \<Rightarrow> filter (\<lambda>m. nw_alive (networks w m) \<and> m \<noteq> n \<and> \<not> nw_closed (networks w m)) ps
   | None \<Rightarrow> filter (\<lambda>m. nw_alive (networks w m) \<and> m \<noteq> n \<and> \<not> nw_closed (networks w m)
        \<and> nw_peers (networks w m) = None) (group_of w (nw_group (networks w n))))"

fun find_peer :: "net_world \<Rightarrow> sock_addr \<Rightarrow> nat option \<Rightarrow> nat list \<Rightarrow> network_error + nat" where
  "find_peer w a found [] = (case found of None \<Rightarrow> Inl ConnectionRefused | Some l \<Rightarrow> Inr l)"
| "find_peer w a found (m # ms) = (case live_listener w m a of
     None \<Rightarrow> find_peer w a found ms
   | Some l \<Rightarrow> if found \<noteq> None then Inl AddressInUse else find_peer w a (Some l) ms)"

definition open_connection :: "nat \<Rightarrow> sock_addr \<Rightarrow> sock_addr \<Rightarrow> net_world \<Rightarrow> (network_error + connection) \<times> net_world" where
  "open_connection l local peer w =
     (let c = next_socket w; w1 = w\<lparr>next_socket := c + 1\<rparr>
      in bind_st (listener_push l c local w1) (\<lambda>_ w2.
           (Inr \<lparr>cn_socket = c, cn_listener = l, cn_local = local, cn_peer = peer\<rparr>, w2)))"

definition connect_local :: "nat \<Rightarrow> sock_addr \<Rightarrow> sock_addr \<Rightarrow> net_world \<Rightarrow> (network_error + connection) \<times> net_world" where
  "connect_local n local peer w =
     (if nw_closed (networks w n) then (Inl ConnectionRefused, w)
      else let (local1, next) = local_address (networks w n) local peer;
               w1 = update_net n (\<lambda>nw. nw\<lparr>nw_next_port := next\<rparr>) w;
               target = (case live_listener w1 n peer of
                   Some l \<Rightarrow> Inr l
                 | None \<Rightarrow> find_peer w1 peer None (peer_candidates w1 n))
           in (case target of Inl e \<Rightarrow> (Inl e, w1) | Inr l \<Rightarrow> open_connection l local1 peer w1))"

text \<open>What connecting gives: a connection inside the browser, or whatever the host's network gives.\<close>

datatype 'c tcp_result = LocalConnection connection | HostConnection 'c

definition connect_tcp :: "(sock_addr \<Rightarrow> sock_addr \<Rightarrow> network_error + 'c) \<Rightarrow> nat \<Rightarrow> sock_addr \<Rightarrow> sock_addr \<Rightarrow> net_world
    \<Rightarrow> (network_error + 'c tcp_result) \<times> net_world" where
  "connect_tcp host n local peer w =
     (if nw_closed (networks w n) then (Inl NotConnected, w)
      else if is_loopback (fst peer) \<and> \<not> nw_loopback_egress (networks w n)
      then bind_st (connect_local n local peer w) (\<lambda>c w1. (Inr (LocalConnection c), w1))
      else if \<not> nw_has_egress (networks w n) then (Inl UnsupportedNet, w)
      else (map_ok HostConnection (host local peer), w))"

definition bound_connect :: "bound_socket \<Rightarrow> sock_addr \<Rightarrow> net_world
    \<Rightarrow> (network_error + connection) \<times> bound_socket \<times> net_world" where
  "bound_connect b peer w =
     (if \<not> bs_reserved b then (Inl InvalidFd, b, w)
      else if \<not> is_loopback (fst peer) then (Inl UnsupportedNet, b, w)
      else if nw_loopback_egress (networks w (bs_network b)) then (Inl UnsupportedNet, b, w)
      else (case connect_local (bs_network b) (hd (bs_addresses b)) peer w of
          (Inl e, w1) \<Rightarrow> (Inl e, b, w1)
        | (Inr c, w1) \<Rightarrow> (Inr c, bound_release b w1)))"

text \<open>The host connects by port; the map is searched in the order \<open>order\<close> gives.\<close>

definition port_listener :: "((sock_addr \<times> nat) list \<Rightarrow> (sock_addr \<times> nat) list) \<Rightarrow> net_world \<Rightarrow> nat \<Rightarrow> nat
    \<Rightarrow> (sock_addr \<times> nat) option" where
  "port_listener order w n port = find (\<lambda>(a, l). snd a = port \<and> ls_alive (listeners w l)) (order (nw_listeners (networks w n)))"

definition connect_port :: "((sock_addr \<times> nat) list \<Rightarrow> (sock_addr \<times> nat) list) \<Rightarrow> nat \<Rightarrow> nat \<Rightarrow> net_world
    \<Rightarrow> (network_error + connection) \<times> net_world" where
  "connect_port order n port w = (case port_listener order w n port of
     None \<Rightarrow> (Inl ConnectionRefused, w)
   | Some (address, l) \<Rightarrow> open_connection l (if is_ipv4 (fst address) then localhost4 else localhost6, 50000) address w)"

text \<open>\<open>handle\<close> up to the point where it waits for the answer of its socket.\<close>

definition handle_request :: "((sock_addr \<times> nat) list \<Rightarrow> (sock_addr \<times> nat) list) \<Rightarrow> nat \<Rightarrow> nat \<Rightarrow> net_world
    \<Rightarrow> (network_error + connection) \<times> net_world" where
  "handle_request order n port w = (case port_listener order w n port of
     None \<Rightarrow> (Inl ConnectionRefused, w)
   | Some (address, l) \<Rightarrow> open_connection l (if is_ipv4 (fst address) then V4 0x7f000064 else localhost6, 50000) address w)"

section \<open>Addresses of the network and names\<close>

definition dhcp_acquire :: "nat \<Rightarrow> net_world \<Rightarrow> ip_addr list \<times> net_world" where
  "dhcp_acquire n w = ([localhost4, localhost6],
     update_net n (\<lambda>nw. nw\<lparr>nw_ips := [(localhost4, 32), (localhost6, 128)]\<rparr>) w)"

definition ip_add :: "nat \<Rightarrow> ip_addr \<Rightarrow> nat \<Rightarrow> net_world \<Rightarrow> net_world" where
  "ip_add n ip prefix = update_net n (\<lambda>nw. nw\<lparr>nw_ips := nw_ips nw @ [(ip, prefix)]\<rparr>)"

definition ip_remove :: "nat \<Rightarrow> ip_addr \<Rightarrow> net_world \<Rightarrow> net_world" where
  "ip_remove n ip = update_net n (\<lambda>nw. nw\<lparr>nw_ips := filter (\<lambda>(i, _). i \<noteq> ip) (nw_ips nw)\<rparr>)"

definition ip_clear :: "nat \<Rightarrow> net_world \<Rightarrow> net_world" where
  "ip_clear n = update_net n (\<lambda>nw. nw\<lparr>nw_ips := []\<rparr>)"

definition ip_list :: "nat \<Rightarrow> net_world \<Rightarrow> (ip_addr \<times> nat) list" where
  "ip_list n w = nw_ips (networks w n)"

text \<open>Parsing an address literal and the host's resolver are parameters.\<close>

definition resolve_name :: "(string \<Rightarrow> ip_addr option) \<Rightarrow> (string \<Rightarrow> network_error + ip_addr list) \<Rightarrow> nat \<Rightarrow> string
    \<Rightarrow> net_world \<Rightarrow> network_error + ip_addr list" where
  "resolve_name parse_ip host_resolve n name w =
     (if same_name (rev (dropWhile (\<lambda>c. c = CHR ''.'') (rev name))) ''localhost'' then Inr [localhost4, localhost6]
      else (case parse_ip name of
          Some ip \<Rightarrow> Inr [ip]
        | None \<Rightarrow> if nw_has_egress (networks w n) then host_resolve name else Inl UnsupportedNet))"

end
