(* ===== verification/Net_Safety.thy ===== *)
theory Net_Safety
  imports Browser_Net
begin

text \<open>
  What the browser network promises: where a connection may end, and that a guest's listener keeps
  its addresses, whatever the other sandboxes do.
\<close>

section \<open>Runs\<close>

text \<open>Everything guests, other sandboxes and the host do to the networks. Bound sockets are numbered in the
  order of their binding.\<close>

datatype net_op =
    OpCreate nat bool
  | OpDropNetwork nat
  | OpAllowLoopback nat
  | OpRestrict nat
  | OpAddPeer nat nat
  | OpClose nat
  | OpCloseGroup nat
  | OpHasListener bool nat nat
  | OpListeningPorts bool nat
  | OpListen nat sock_addr bool
  | OpBind nat sock_addr bool
  | OpBoundListen nat
  | OpBoundConnect nat sock_addr
  | OpBoundRelease nat
  | OpConnect nat sock_addr sock_addr
  | OpConnectPort nat nat
  | OpHandle nat nat
  | OpAccept nat
  | OpPoll nat nat
  | OpListenerHandler nat bool
  | OpDropListener nat
  | OpIps nat

record net_sys =
  ns_world :: net_world
  ns_bound :: "bound_socket list"

definition in_world :: "(net_world \<Rightarrow> net_world) \<Rightarrow> net_sys \<Rightarrow> net_sys" where
  "in_world f s = s\<lparr>ns_world := f (ns_world s)\<rparr>"

definition on_bound :: "nat \<Rightarrow> (bound_socket \<Rightarrow> net_world \<Rightarrow> bound_socket \<times> net_world) \<Rightarrow> net_sys \<Rightarrow> net_sys" where
  "on_bound i f s = (if i < length (ns_bound s) then (case f (ns_bound s ! i) (ns_world s) of
     (b, w) \<Rightarrow> \<lparr>ns_world = w, ns_bound = (ns_bound s)[i := b]\<rparr>) else s)"

fun net_exec :: "((sock_addr \<times> nat) list \<Rightarrow> (sock_addr \<times> nat) list) \<Rightarrow> net_op \<Rightarrow> net_sys \<Rightarrow> net_sys" where
  "net_exec ord (OpCreate g egress) s = in_world (\<lambda>w. snd (create_network g egress w)) s"
| "net_exec ord (OpDropNetwork n) s = in_world (drop_network n) s"
| "net_exec ord (OpAllowLoopback n) s = in_world (\<lambda>w. snd (allow_loopback_egress n w)) s"
| "net_exec ord (OpRestrict n) s = in_world (\<lambda>w. snd (restrict_peers n w)) s"
| "net_exec ord (OpAddPeer n m) s = in_world (\<lambda>w. snd (add_peer n m w)) s"
| "net_exec ord (OpClose n) s = in_world (close_network n) s"
| "net_exec ord (OpCloseGroup g) s = in_world (close_group g) s"
| "net_exec ord (OpHasListener contended n port) s = in_world (\<lambda>w. snd (has_listener contended n port w)) s"
| "net_exec ord (OpListeningPorts contended n) s = in_world (\<lambda>w. snd (listening_ports contended n w)) s"
| "net_exec ord (OpListen n a v6) s =
     (if n < net_count (ns_world s) then in_world (\<lambda>w. snd (listen_tcp n a v6 w)) s else s)"
| "net_exec ord (OpBind n a v6) s = (if n \<ge> net_count (ns_world s) then s else case bind_tcp n a v6 (ns_world s) of
     (Inl e, w) \<Rightarrow> s\<lparr>ns_world := w\<rparr> | (Inr b, w) \<Rightarrow> \<lparr>ns_world = w, ns_bound = ns_bound s @ [b]\<rparr>)"
| "net_exec ord (OpBoundListen i) s = on_bound i (\<lambda>b w. snd (bound_listen b w)) s"
| "net_exec ord (OpBoundConnect i peer) s = on_bound i (\<lambda>b w. snd (bound_connect b peer w)) s"
| "net_exec ord (OpBoundRelease i) s = on_bound i bound_release s"
| "net_exec ord (OpConnect n a peer) s = in_world (\<lambda>w. snd (connect_tcp (\<lambda>_ _. Inr ()) n a peer w)) s"
| "net_exec ord (OpConnectPort n port) s = in_world (\<lambda>w. snd (connect_port ord n port w)) s"
| "net_exec ord (OpHandle n port) s = in_world (\<lambda>w. snd (handle_request ord n port w)) s"
| "net_exec ord (OpAccept l) s = in_world (\<lambda>w. snd (try_accept l w)) s"
| "net_exec ord (OpPoll l waker) s = in_world (\<lambda>w. snd (listener_poll_read_ready l waker w)) s"
| "net_exec ord (OpListenerHandler l on) s = in_world (if on then listener_set_handler l else listener_remove_handler l) s"
| "net_exec ord (OpDropListener l) s = in_world (drop_listener l) s"
| "net_exec ord (OpIps n) s = in_world (\<lambda>w. ip_clear n (snd (dhcp_acquire n w))) s"

section \<open>The invariant\<close>

text \<open>An address is bound or listened on, not both; a listener is registered in one network, and is open
  while it is.\<close>

definition net_ok :: "net_world \<Rightarrow> bool" where
  "net_ok w \<longleftrightarrow>
     (\<forall>n a. a \<in> set (nw_bound (networks w n)) \<longrightarrow> live_listener w n a = None)
   \<and> (\<forall>n a l. map_of (nw_listeners (networks w n)) a = Some l \<longrightarrow> l < listener_count w \<and> \<not> ls_closed (listeners w l))
   \<and> (\<forall>n m a b l. map_of (nw_listeners (networks w n)) a = Some l \<and> map_of (nw_listeners (networks w m)) b = Some l \<longrightarrow> n = m)
   \<and> (\<forall>n. distinct (map fst (nw_listeners (networks w n))))
   \<and> (\<forall>g n. n \<in> set (group_of w g) \<longrightarrow> n < net_count w \<and> nw_group (networks w n) = g)
   \<and> (\<forall>n. net_count w \<le> n \<longrightarrow> nw_listeners (networks w n) = [] \<and> nw_bound (networks w n) = [])"

text \<open>What most operations leave alone: which listener is registered where, and which listeners are
  alive or closed.\<close>

definition same_listening :: "net_world \<Rightarrow> net_world \<Rightarrow> bool" where
  "same_listening w v \<longleftrightarrow> (\<forall>n. nw_listeners (networks v n) = nw_listeners (networks w n)
       \<and> nw_bound (networks v n) = nw_bound (networks w n) \<and> nw_group (networks v n) = nw_group (networks w n))
     \<and> (\<forall>l. ls_alive (listeners v l) = ls_alive (listeners w l) \<and> ls_closed (listeners v l) = ls_closed (listeners w l))
     \<and> listener_count v = listener_count w \<and> net_count v = net_count w \<and> group_of v = group_of w"

lemma same_listening_live: "same_listening w v \<Longrightarrow> live_listener v = live_listener w"
  by (intro ext) (simp add: same_listening_def live_listener_def split: option.split)

lemma same_listening_ok: "same_listening w v \<Longrightarrow> net_ok v = net_ok w"
  using same_listening_live [of w v] by (simp add: same_listening_def net_ok_def)

lemma same_listening_refl [simp]: "same_listening w w"
  by (simp add: same_listening_def)

lemma same_listening_trans: "same_listening u v \<Longrightarrow> same_listening v w \<Longrightarrow> same_listening u w"
  by (simp add: same_listening_def)

lemma same_update_net:
  "(\<And>nw. nw_listeners (f nw) = nw_listeners nw \<and> nw_bound (f nw) = nw_bound nw \<and> nw_group (f nw) = nw_group nw) \<Longrightarrow> same_listening w (update_net n f w)"
  by (simp add: same_listening_def update_net_def)

lemma same_update_listener:
  "(\<And>s. ls_alive (f s) = ls_alive s \<and> ls_closed (f s) = ls_closed s) \<Longrightarrow> same_listening w (update_listener l f w)"
  by (simp add: same_listening_def update_listener_def)

lemma same_push: "same_listening w (snd (listener_push l c peer w))"
  unfolding listener_push_def by (auto intro!: same_update_listener)

lemma same_open: "same_listening w (snd (open_connection l a peer w))"
proof -
  have "same_listening w (w\<lparr>next_socket := next_socket w + 1\<rparr>)" by (simp add: same_listening_def)
  moreover have "same_listening v (snd (bind_st (listener_push l c a v) (\<lambda>_ w2. (Inr (k c), w2))))" for c v and k :: "nat \<Rightarrow> connection"
    using same_push [of v l c a] by (auto simp: bind_st_split split: sum.split)
  ultimately show ?thesis unfolding open_connection_def Let_def by (rule same_listening_trans)
qed

lemma same_connect_local: "same_listening w (snd (connect_local n a peer w))"
  unfolding connect_local_def
  by (auto simp: Let_def split_beta split: sum.split
      intro: same_update_net same_listening_trans [OF same_update_net same_open])

section \<open>Each operation\<close>

definition listening_grows :: "net_world \<Rightarrow> net_world \<Rightarrow> bool" where
  "listening_grows w v \<longleftrightarrow> net_ok v \<and> (\<forall>n a l. live_listener w n a = Some l \<longrightarrow> live_listener v n a = Some l)
     \<and> net_count w \<le> net_count v \<and> (\<forall>n < net_count w. nw_group (networks v n) = nw_group (networks w n))"

lemma grows_same: "net_ok w \<Longrightarrow> same_listening w v \<Longrightarrow> listening_grows w v"
  using same_listening_ok [of w v] same_listening_live [of w v]
  by (simp add: listening_grows_def same_listening_def)

lemma grows_trans: "listening_grows u v \<Longrightarrow> listening_grows v w \<Longrightarrow> listening_grows u w"
  by (auto simp: listening_grows_def)

lemma grows_ok: "listening_grows w v \<Longrightarrow> net_ok v"
  by (simp add: listening_grows_def)

lemma grows_create:
  assumes "net_ok w"
  shows "listening_grows w (snd (create_network g egress w))"
proof -
  define v where "v = snd (create_network g egress w)"
  have fresh: "nw_listeners (networks w (net_count w)) = []" "nw_bound (networks w (net_count w)) = []"
    using assms by (simp_all add: net_ok_def)
  have nets: "nw_listeners (networks v m) = nw_listeners (networks w m)" "nw_bound (networks v m) = nw_bound (networks w m)"
      "listeners v = listeners w" "listener_count v = listener_count w" "net_count v = net_count w + 1"
      "m < net_count w \<Longrightarrow> nw_group (networks v m) = nw_group (networks w m)"
      "nw_group (networks v (net_count w)) = g" for m
    using fresh by (auto simp: v_def create_network_def Let_def)
  have groups: "m \<in> set (group_of v g') \<Longrightarrow> m \<in> set (group_of w g') \<or> (m = net_count w \<and> g' = g)" for m g'
    by (auto simp: v_def create_network_def Let_def split: if_splits)
  have live: "live_listener v = live_listener w"
    by (intro ext) (simp add: live_listener_def nets split: option.split)
  have member: "m < net_count v \<and> nw_group (networks v m) = g'" if "m \<in> set (group_of v g')" for m g'
    using groups [OF that]
  proof
    assume "m \<in> set (group_of w g')"
    then have "m < net_count w" "nw_group (networks w m) = g'" using assms by (auto simp: net_ok_def)
    then show ?thesis by (simp add: nets)
  qed (simp add: nets)
  have empty: "nw_listeners (networks w m) = [] \<and> nw_bound (networks w m) = []" if "net_count v \<le> m" for m
    using that assms by (simp add: net_ok_def nets)
  show ?thesis using assms member empty nets(6)
    unfolding listening_grows_def net_ok_def live v_def [symmetric] nets(1-4) by (simp add: nets(5))
qed

lemma grows_unbind: "net_ok w \<Longrightarrow> listening_grows w (unbind n addresses w)"
proof -
  assume ok: "net_ok w"
  have live: "live_listener (unbind n addresses w) = live_listener w"
    by (intro ext) (simp add: live_listener_def unbind_def update_net_def split: option.split)
  have same: "nw_listeners (networks (unbind n addresses w) m) = nw_listeners (networks w m)"
    "listeners (unbind n addresses w) = listeners w" "listener_count (unbind n addresses w) = listener_count w"
    "net_count (unbind n addresses w) = net_count w" "group_of (unbind n addresses w) = group_of w"
    "nw_group (networks (unbind n addresses w) m) = nw_group (networks w m)" for m
    by (simp_all add: unbind_def update_net_def)
  have fewer: "set (nw_bound (networks (unbind n addresses w) m)) \<subseteq> set (nw_bound (networks w m))" for m
    by (auto simp: unbind_def update_net_def)
  then have none: "nw_bound (networks w m) = [] \<Longrightarrow> nw_bound (networks (unbind n addresses w) m) = []" for m
    by (metis set_empty subset_empty)
  show ?thesis using ok fewer none unfolding listening_grows_def net_ok_def live same by blast
qed

lemma map_of_filter_value:
  assumes "distinct (map fst ls)"
  shows "map_of (filter (\<lambda>(_, l). P l) ls) a = (case map_of ls a of None \<Rightarrow> None | Some l \<Rightarrow> if P l then Some l else None)"
  using assms
proof (induction ls)
  case (Cons kv ls)
  obtain k l where kv: "kv = (k, l)" by (cases kv)
  have "map_of ls k = None" using Cons.prems by (simp add: kv map_of_eq_None_iff)
  then show ?case using Cons by (auto simp: kv)
qed simp

lemma retain_listeners:
  "nw_listeners (networks (retain_live n w) m) =
     (if m = n then filter (\<lambda>(_, l). ls_alive (listeners w l)) (nw_listeners (networks w n)) else nw_listeners (networks w m))"
  "nw_bound (networks (retain_live n w) m) = nw_bound (networks w m)" "listeners (retain_live n w) = listeners w"
  "listener_count (retain_live n w) = listener_count w" "net_count (retain_live n w) = net_count w"
  "group_of (retain_live n w) = group_of w" "nw_group (networks (retain_live n w) m) = nw_group (networks w m)"
  by (simp_all add: retain_live_def update_net_def)

lemma grows_retain:
  assumes "net_ok w"
  shows "listening_grows w (retain_live n w)"
proof -
  have d: "distinct (map fst (nw_listeners (networks w m)))" for m using assms by (simp add: net_ok_def)
  note filtered = map_of_filter_value [OF d, of "\<lambda>l. ls_alive (listeners w l)"]
  have live: "live_listener (retain_live n w) = live_listener w"
    by (intro ext) (simp add: live_listener_def retain_listeners filtered split: option.split)
  have reg: "map_of (nw_listeners (networks (retain_live n w) m)) a = Some l \<Longrightarrow> map_of (nw_listeners (networks w m)) a = Some l" for m a l
    unfolding retain_listeners by (simp add: filtered split: if_splits option.splits)
  have dist: "distinct (map fst (nw_listeners (networks (retain_live n w) m)))" for m
    unfolding retain_listeners using d distinct_map_filter [OF d] by simp
  have empty: "nw_listeners (networks w m) = [] \<Longrightarrow> nw_listeners (networks (retain_live n w) m) = []" for m
    by (auto simp: retain_listeners)
  show ?thesis unfolding listening_grows_def net_ok_def live retain_listeners(2-)
    using assms reg dist empty unfolding net_ok_def by blast
qed

lemma map_of_register:
  "map_of (fold (\<lambda>a. AList.update a l) addresses ls) a = (if a \<in> set addresses then Some l else map_of ls a)"
  by (induction addresses arbitrary: ls) (auto simp: update_conv')

lemma distinct_register:
  "distinct (map fst ls) \<Longrightarrow> distinct (map fst (fold (\<lambda>a. AList.update a l) addresses ls))"
  by (induction addresses arbitrary: ls) (auto simp: distinct_update)

text \<open>A new listener takes addresses nobody listens on or has bound.\<close>

lemma grows_register:
  assumes "net_ok w" "n < net_count w \<or> addresses = []"
    and "\<forall>a \<in> set addresses. live_listener w n a = None \<and> a \<notin> set (nw_bound (networks w n))"
  shows "listening_grows w (register n addresses (listener_count w) (snd (new_listener x w)))"
proof -
  define v where "v = register n addresses (listener_count w) (snd (new_listener x w))"
  have regs: "map_of (nw_listeners (networks v m)) a =
      (if m = n \<and> a \<in> set addresses then Some (listener_count w) else map_of (nw_listeners (networks w m)) a)" for m a
    by (auto simp: v_def register_def update_net_def new_listener_def map_of_register)
  have states: "ls_alive (listeners v l) = (l = listener_count w \<or> ls_alive (listeners w l))"
      "ls_closed (listeners v l) = (l \<noteq> listener_count w \<and> ls_closed (listeners w l))" for l
    by (auto simp: v_def register_def update_net_def new_listener_def)
  have old: "map_of (nw_listeners (networks w m)) a = Some l \<Longrightarrow> l < listener_count w \<and> \<not> ls_closed (listeners w l)" for m a l
    using assms(1) unfolding net_ok_def by blast
  have counts: "listener_count v = listener_count w + 1" "net_count v = net_count w"
      "nw_bound (networks v m) = nw_bound (networks w m)" "group_of v = group_of w"
      "nw_group (networks v m) = nw_group (networks w m)" for m
    by (auto simp: v_def register_def update_net_def new_listener_def)
  have live: "live_listener v m a = (if m = n \<and> a \<in> set addresses then Some (listener_count w) else live_listener w m a)" for m a
    using old [of m a] by (auto simp: live_listener_def regs states split: option.split)
  have dist: "distinct (map fst (nw_listeners (networks v m)))" for m
  proof -
    have "distinct (map fst (nw_listeners (networks w m)))" using assms(1) by (simp add: net_ok_def)
    then show ?thesis
      using distinct_register by (auto simp: v_def register_def update_net_def new_listener_def)
  qed
  have empty: "net_count w \<le> m \<Longrightarrow> nw_listeners (networks v m) = []" for m
    using assms(1,2) by (auto simp: v_def register_def update_net_def new_listener_def net_ok_def)
  have "net_ok v" unfolding net_ok_def
  proof (intro conjI allI impI)
    show "live_listener v m a = None" if "a \<in> set (nw_bound (networks v m))" for m a
    proof -
      have "live_listener w m a = None" using that assms(1) unfolding counts net_ok_def by blast
      moreover have "\<not> (m = n \<and> a \<in> set addresses)" using that assms(3) by (auto simp: counts)
      ultimately show ?thesis unfolding live by simp
    qed
    show "l < listener_count v" "\<not> ls_closed (listeners v l)"
      if "map_of (nw_listeners (networks v m)) a = Some l" for m a l
      using that old [of m a l] by (auto simp: regs counts states split: if_splits)
    show "m = m'" if "map_of (nw_listeners (networks v m)) a = Some l \<and> map_of (nw_listeners (networks v m')) b = Some l"
      for m m' a b l
    proof -
      have "map_of (nw_listeners (networks w m)) a = Some l \<Longrightarrow> map_of (nw_listeners (networks w m')) b = Some l \<Longrightarrow> m = m'"
        using assms(1) unfolding net_ok_def by blast
      then show ?thesis using that old [of m a l] old [of m' b l] by (auto simp: regs split: if_splits)
    qed
    show "distinct (map fst (nw_listeners (networks v m)))" for m by (rule dist)
    show "m < net_count v" "nw_group (networks v m) = g" if "m \<in> set (group_of v g)" for m g
      using that assms(1) by (auto simp: counts net_ok_def)
    show "nw_listeners (networks v m) = []" "nw_bound (networks v m) = []" if "net_count v \<le> m" for m
      using that empty assms(1) by (auto simp: counts net_ok_def)
  qed
  then show ?thesis using live assms(3) unfolding listening_grows_def v_def [symmetric] counts
    by (auto split: if_splits)
qed

section \<open>Closing and dropping\<close>

text \<open>What stops a network's listener from being found: dropping it and closing its network or client.\<close>

definition stops :: "net_world \<Rightarrow> net_op \<Rightarrow> nat \<Rightarrow> nat \<Rightarrow> bool" where
  "stops w op n l \<longleftrightarrow> op = OpDropListener l \<or> op = OpClose n \<or> op = OpCloseGroup (nw_group (networks w n))"

lemma closes_listeners:
  fixes entries :: "(sock_addr \<times> nat) list" and w :: net_world
  defines "v \<equiv> fold (\<lambda>(_, l) w. if ls_alive (listeners w l) then update_listener l close_listener w else w) entries w"
  shows "networks v = networks w \<and> net_count v = net_count w \<and> group_of v = group_of w \<and> listener_count v = listener_count w
    \<and> (\<forall>l. ls_alive (listeners v l) = ls_alive (listeners w l))
    \<and> (\<forall>l. l \<notin> snd ` set entries \<longrightarrow> ls_closed (listeners v l) = ls_closed (listeners w l))"
  unfolding v_def
proof (induction entries arbitrary: w)
  case (Cons e entries)
  obtain a l where e: "e = (a, l)" by (cases e)
  let ?w = "if ls_alive (listeners w l) then update_listener l close_listener w else w"
  have "networks ?w = networks w \<and> net_count ?w = net_count w \<and> group_of ?w = group_of w \<and> listener_count ?w = listener_count w
    \<and> (\<forall>l. ls_alive (listeners ?w l) = ls_alive (listeners w l))
    \<and> (\<forall>l'. l' \<noteq> l \<longrightarrow> ls_closed (listeners ?w l') = ls_closed (listeners w l'))"
    by (simp add: update_listener_def close_listener_def)
  then show ?case using Cons [of ?w] by (simp add: e)
qed simp

lemma close_network_keeps:
  assumes "net_ok w"
  shows "net_ok (close_network n w) \<and> (\<forall>m a l. m \<noteq> n \<and> live_listener w m a = Some l \<longrightarrow> live_listener (close_network n w) m a = Some l)
    \<and> net_count (close_network n w) = net_count w \<and> (\<forall>m. nw_group (networks (close_network n w) m) = nw_group (networks w m))
    \<and> group_of (close_network n w) = group_of w"
proof -
  define u where "u = update_net n (\<lambda>nw. nw\<lparr>nw_closed := True, nw_listeners := [], nw_bound := [], nw_peers := Some []\<rparr>) w"
  define v where "v = close_network n w"
  note closes = closes_listeners [of "nw_listeners (networks w n)" u, folded close_network_def u_def]
  have v: "v = fold (\<lambda>(_, l) w. if ls_alive (listeners w l) then update_listener l close_listener w else w)
      (nw_listeners (networks w n)) u"
    by (simp add: v_def close_network_def u_def)
  have nets: "nw_listeners (networks v m) = (if m = n then [] else nw_listeners (networks w m))"
      "nw_bound (networks v m) = (if m = n then [] else nw_bound (networks w m))"
      "nw_group (networks v m) = nw_group (networks w m)" "net_count v = net_count w" "group_of v = group_of w"
      "listener_count v = listener_count w" "ls_alive (listeners v l) = ls_alive (listeners w l)" for m l
    using closes unfolding v by (simp_all add: u_def update_net_def)
  have closed: "ls_closed (listeners v l) = ls_closed (listeners w l)" if "l \<notin> snd ` set (nw_listeners (networks w n))" for l
    using closes that unfolding v by (simp add: u_def update_net_def)
  have live: "live_listener v m a = (if m = n then None else live_listener w m a)" for m a
    by (simp add: live_listener_def nets split: option.split)
  have other: "l \<notin> snd ` set (nw_listeners (networks w n))" if "m \<noteq> n" "map_of (nw_listeners (networks w m)) a = Some l" for m a l
  proof
    assume "l \<in> snd ` set (nw_listeners (networks w n))"
    then obtain b where "(b, l) \<in> set (nw_listeners (networks w n))" by auto
    moreover have "distinct (map fst (nw_listeners (networks w n)))" using assms by (simp add: net_ok_def)
    ultimately have "map_of (nw_listeners (networks w n)) b = Some l" by (rule map_of_is_SomeI [rotated])
    then show False using that assms unfolding net_ok_def by blast
  qed
  have "net_ok v" unfolding net_ok_def
  proof (intro conjI allI impI)
    show "live_listener v m a = None" if "a \<in> set (nw_bound (networks v m))" for m a
    proof (cases "m = n")
      case False
      then have "a \<in> set (nw_bound (networks w m))" using that by (simp add: nets)
      then have "live_listener w m a = None" using assms unfolding net_ok_def by blast
      then show ?thesis unfolding live by simp
    qed (simp add: live)
    show "l < listener_count v" "\<not> ls_closed (listeners v l)"
      if "map_of (nw_listeners (networks v m)) a = Some l" for m a l
    proof -
      have m: "m \<noteq> n" "map_of (nw_listeners (networks w m)) a = Some l" using that by (auto simp: nets split: if_splits)
      then have "l < listener_count w \<and> \<not> ls_closed (listeners w l)" using assms unfolding net_ok_def by blast
      then show "l < listener_count v" "\<not> ls_closed (listeners v l)"
        using closed [OF other [OF m]] by (simp_all add: nets)
    qed
    show "m = m'" if "map_of (nw_listeners (networks v m)) a = Some l \<and> map_of (nw_listeners (networks v m')) b = Some l"
      for m m' a b l
    proof -
      have "map_of (nw_listeners (networks w m)) a = Some l" "map_of (nw_listeners (networks w m')) b = Some l"
        using that by (auto simp: nets split: if_splits)
      then show ?thesis using assms unfolding net_ok_def by blast
    qed
    show "distinct (map fst (nw_listeners (networks v m)))" for m using assms by (simp add: nets net_ok_def)
    show "m < net_count v" "nw_group (networks v m) = g" if "m \<in> set (group_of v g)" for m g
      using that assms by (auto simp: nets net_ok_def)
    show "nw_listeners (networks v m) = []" "nw_bound (networks v m) = []" if "net_count v \<le> m" for m
      using that assms by (auto simp: nets net_ok_def)
  qed
  then show ?thesis unfolding v_def [symmetric] using live nets by simp
qed

lemma drop_listener_keeps:
  assumes "net_ok w"
  shows "net_ok (drop_listener l w) \<and> (\<forall>m a k. k \<noteq> l \<and> live_listener w m a = Some k \<longrightarrow> live_listener (drop_listener l w) m a = Some k)
    \<and> net_count (drop_listener l w) = net_count w \<and> (\<forall>m. nw_group (networks (drop_listener l w) m) = nw_group (networks w m))"
proof -
  have live: "live_listener (drop_listener l w) m a = (if live_listener w m a = Some l then None else live_listener w m a)" for m a
    by (auto simp: live_listener_def drop_listener_def update_listener_def split: option.split)
  have same: "networks (drop_listener l w) = networks w" "ls_closed (listeners (drop_listener l w) k) = ls_closed (listeners w k)"
    "listener_count (drop_listener l w) = listener_count w" "net_count (drop_listener l w) = net_count w"
    "group_of (drop_listener l w) = group_of w" for k
    by (simp_all add: drop_listener_def update_listener_def)
  have "net_ok (drop_listener l w)"
    using assms unfolding net_ok_def same live by (smt (verit))
  then show ?thesis using live same by auto
qed

lemma net_ok_bound: "net_ok w \<Longrightarrow> a \<in> set (nw_bound (networks w n)) \<Longrightarrow> live_listener w n a = None"
  unfolding net_ok_def by blast

lemma grows_listen:
  assumes "net_ok w" "n < net_count w"
  shows "listening_grows w (snd (listen_tcp n address only_v6 w))"
proof (cases "nw_closed (networks w n) \<or> list_ex (address_taken w n) (listener_addresses address only_v6)")
  case True
  then have "snd (listen_tcp n address only_v6 w) = w" by (auto simp: listen_tcp_def Let_def)
  then show ?thesis using assms(1) by (simp add: grows_same)
next
  case False
  then have "\<forall>a \<in> set (listener_addresses address only_v6). live_listener w n a = None \<and> a \<notin> set (nw_bound (networks w n))"
    by (simp add: list_ex_iff address_taken_def)
  then show ?thesis using False grows_register [OF assms(1), of n] assms(2)
    by (auto simp: listen_tcp_def Let_def split_beta new_listener_def)
qed

lemma grows_bind:
  assumes "net_ok w" "n < net_count w"
  shows "listening_grows w (snd (bind_tcp n address only_v6 w))"
proof (cases "nw_closed (networks w n) \<or> list_ex (address_taken w n) (listener_addresses address only_v6)")
  case True
  then have "snd (bind_tcp n address only_v6 w) = w" by (auto simp: bind_tcp_def Let_def)
  then show ?thesis using assms(1) by (simp add: grows_same)
next
  case False
  let ?as = "listener_addresses address only_v6"
  define v where "v = update_net n (\<lambda>nw. nw\<lparr>nw_bound := nw_bound nw @ ?as\<rparr>) w"
  have free: "live_listener w n a = None" if "a \<in> set ?as" for a
    using that False by (auto simp: list_ex_iff address_taken_def)
  have live: "live_listener v = live_listener w"
    by (intro ext) (simp add: live_listener_def v_def update_net_def split: option.split)
  have bound: "a \<in> set (nw_bound (networks v m)) \<Longrightarrow> a \<in> set (nw_bound (networks w m)) \<or> (m = n \<and> a \<in> set ?as)" for m a
    by (auto simp: v_def update_net_def split: if_splits)
  have apart: "live_listener w m a = None" if "a \<in> set (nw_bound (networks v m))" for m a
    using bound [OF that]
  proof
    assume "a \<in> set (nw_bound (networks w m))"
    then show ?thesis by (rule net_ok_bound [OF assms(1)])
  qed (simp add: free)
  have same: "nw_listeners (networks v m) = nw_listeners (networks w m)" "listeners v = listeners w"
      "listener_count v = listener_count w" "net_count v = net_count w" "group_of v = group_of w"
      "nw_group (networks v m) = nw_group (networks w m)" for m
    by (simp_all add: v_def update_net_def)
  have empty: "nw_bound (networks v m) = []" if "net_count w \<le> m" for m
    using that assms by (auto simp: v_def update_net_def net_ok_def)
  have "listening_grows w v"
    using assms(1) apart empty unfolding listening_grows_def net_ok_def live same by blast
  then show ?thesis using False by (simp add: bind_tcp_def Let_def v_def)
qed

lemma grows_bound_listen:
  assumes "net_ok w"
  shows "listening_grows w (snd (snd (bound_listen b w)))"
proof (cases "bs_reserved b \<and> list_all (\<lambda>a. a \<in> set (nw_bound (networks w (bs_network b)))) (bs_addresses b)")
  case True
  define n where "n = bs_network b"
  define u where "u = unbind n (bs_addresses b) w"
  have u: "net_ok u" "listening_grows w u" using grows_unbind [OF assms] by (simp_all add: u_def listening_grows_def)
  have taken: "a \<in> set (nw_bound (networks w n))" if "a \<in> set (bs_addresses b)" for a
    using True that by (simp add: list_all_iff n_def)
  have "live_listener u n a = None \<and> a \<notin> set (nw_bound (networks u n))" if "a \<in> set (bs_addresses b)" for a
  proof -
    have "live_listener w n a = None" using taken [OF that] assms unfolding net_ok_def by blast
    then show ?thesis using that by (auto simp: u_def live_listener_def unbind_def update_net_def split: option.splits)
  qed
  moreover have "n < net_count u \<or> bs_addresses b = []"
  proof (cases "bs_addresses b")
    case (Cons a as)
    then have "nw_bound (networks w n) \<noteq> []" using taken [of a] by auto
    then have "\<not> net_count w \<le> n" using assms unfolding net_ok_def by blast
    then show ?thesis by (simp add: u_def unbind_def update_net_def)
  qed simp
  ultimately have grow: "listening_grows u (register n (bs_addresses b) (listener_count u) (snd (new_listener (hd (bs_addresses b)) u)))"
    by (intro grows_register [OF u(1)]) blast+
  have "unbind n (bs_addresses b) (snd (new_listener x w)) = snd (new_listener x u)" "fst (new_listener x w) = listener_count u" for x
    by (simp_all add: u_def unbind_def new_listener_def update_net_def)
  then have "snd (snd (bound_listen b w)) = register n (bs_addresses b) (listener_count u) (snd (new_listener (hd (bs_addresses b)) u))"
    using True by (simp add: bound_listen_def split_beta n_def)
  then show ?thesis using grows_trans [OF u(2) grow] by simp
next
  case False
  then have "snd (snd (bound_listen b w)) = w" by (auto simp: bound_listen_def)
  then show ?thesis using assms by (simp add: grows_same)
qed

lemma grows_release: "net_ok w \<Longrightarrow> listening_grows w (snd (bound_release b w))"
  using grows_unbind by (auto simp: bound_release_def grows_same)

lemma grows_bound_connect:
  assumes "net_ok w"
  shows "listening_grows w (snd (snd (bound_connect b peer w)))"
proof -
  have conn: "listening_grows w (snd (connect_local (bs_network b) (hd (bs_addresses b)) peer w))"
    by (rule grows_same [OF assms same_connect_local])
  then have "listening_grows w (snd (bound_release b (snd (connect_local (bs_network b) (hd (bs_addresses b)) peer w))))"
    using grows_trans grows_release grows_ok by blast
  then show ?thesis using conn assms
    by (auto simp: bound_connect_def grows_same split: prod.split sum.split)
qed

lemma same_connect_tcp: "same_listening w (snd (connect_tcp host n a peer w))"
  using same_connect_local by (auto simp: connect_tcp_def bind_st_split split: sum.split)

lemma same_host: "same_listening w (snd (connect_port ord n port w))" "same_listening w (snd (handle_request ord n port w))"
  using same_open by (auto simp: connect_port_def handle_request_def split: option.split)

lemma same_others:
  "same_listening w (drop_network n w)" "same_listening w (snd (allow_loopback_egress n w))"
  "same_listening w (snd (restrict_peers n w))" "same_listening w (snd (add_peer n m w))"
  "same_listening w (snd (try_accept l w))" "same_listening w (snd (listener_poll_read_ready l waker w))"
  "same_listening w (listener_set_handler l w)" "same_listening w (listener_remove_handler l w)"
  "same_listening w (ip_clear n (snd (dhcp_acquire n w)))"
  by (auto simp: drop_network_def allow_loopback_egress_def restrict_peers_def add_peer_def try_accept_def
      listener_poll_read_ready_def listener_set_handler_def listener_remove_handler_def ip_clear_def dhcp_acquire_def
      Let_def split: list.split if_splits intro!: same_update_net same_update_listener same_listening_trans [OF same_update_net same_update_net])

section \<open>Runs keep the invariant\<close>

definition step_keeps :: "net_world \<Rightarrow> net_op \<Rightarrow> net_world \<Rightarrow> bool" where
  "step_keeps w op v \<longleftrightarrow> net_ok v \<and> net_count w \<le> net_count v
     \<and> (\<forall>n < net_count w. nw_group (networks v n) = nw_group (networks w n))
     \<and> (\<forall>n a l. live_listener w n a = Some l \<and> \<not> stops w op n l \<longrightarrow> live_listener v n a = Some l)"

lemma grows_keeps: "listening_grows w v \<Longrightarrow> step_keeps w op v"
  by (simp add: listening_grows_def step_keeps_def)

lemma close_all_keeps:
  assumes "net_ok w"
  shows "net_ok (fold close_network ns w)
    \<and> (\<forall>m a l. m \<notin> set ns \<and> live_listener w m a = Some l \<longrightarrow> live_listener (fold close_network ns w) m a = Some l)
    \<and> net_count (fold close_network ns w) = net_count w
    \<and> (\<forall>m. nw_group (networks (fold close_network ns w) m) = nw_group (networks w m))"
  using assms
proof (induction ns arbitrary: w)
  case (Cons n ns)
  then show ?case using close_network_keeps [OF Cons.prems, of n] Cons.IH [of "close_network n w"] by auto
qed simp

lemma step_keeps_close: "net_ok w \<Longrightarrow> step_keeps w (OpClose n) (close_network n w)"
  using close_network_keeps [of w n] by (auto simp: step_keeps_def stops_def)

lemma step_keeps_group:
  assumes "net_ok w"
  shows "step_keeps w (OpCloseGroup g) (close_group g w)"
proof -
  have "m \<notin> set (filter (\<lambda>n. nw_alive (networks w n)) (group_of w g))" if "g \<noteq> nw_group (networks w m)" for m
    using that assms by (auto simp: net_ok_def)
  then show ?thesis
    using close_all_keeps [OF assms, of "filter (\<lambda>n. nw_alive (networks w n)) (group_of w g)"]
    by (auto simp: step_keeps_def stops_def close_group_def)
qed

lemma step_keeps_drop: "net_ok w \<Longrightarrow> step_keeps w (OpDropListener l) (drop_listener l w)"
  using drop_listener_keeps [of w l] by (auto simp: step_keeps_def stops_def)

lemma grows_bind_sys:
  assumes "net_ok (ns_world s)"
  shows "listening_grows (ns_world s) (ns_world (net_exec ord (OpBind n a v6) s))"
proof (cases "n < net_count (ns_world s)")
  case True
  obtain r w where bind: "bind_tcp n a v6 (ns_world s) = (r, w)" by (cases "bind_tcp n a v6 (ns_world s)")
  then have "listening_grows (ns_world s) w" using grows_bind [OF assms True, of a v6] by simp
  then show ?thesis using True bind by (cases r) simp_all
qed (simp add: grows_same assms)

lemma on_bound_world:
  assumes "net_ok (ns_world s)" "\<And>b. listening_grows (ns_world s) (snd (f b (ns_world s)))"
  shows "listening_grows (ns_world s) (ns_world (on_bound i f s))"
  using assms by (auto simp: on_bound_def grows_same split: prod.split) (metis snd_conv)

lemma net_exec_keeps:
  assumes "net_ok (ns_world s)"
  shows "step_keeps (ns_world s) op (ns_world (net_exec ord op s))"
proof (cases op)
  case (OpBind n a v6)
  then show ?thesis using grows_keeps [OF grows_bind_sys [OF assms]] by simp
next
  case (OpBoundListen i)
  show ?thesis unfolding OpBoundListen net_exec.simps
    by (intro grows_keeps on_bound_world assms grows_bound_listen)
next
  case (OpBoundConnect i peer)
  show ?thesis unfolding OpBoundConnect net_exec.simps
    by (intro grows_keeps on_bound_world assms grows_bound_connect)
next
  case (OpBoundRelease i)
  show ?thesis unfolding OpBoundRelease net_exec.simps
    by (intro grows_keeps on_bound_world assms grows_release)
next
  case (OpHasListener contended n port)
  have "listening_grows (ns_world s) (snd (has_listener contended n port (ns_world s)))"
    using grows_retain [OF assms] grows_same [OF assms] by (simp add: has_listener_def Let_def)
  then show ?thesis by (simp add: OpHasListener in_world_def grows_keeps)
next
  case (OpListeningPorts contended n)
  have "listening_grows (ns_world s) (snd (listening_ports contended n (ns_world s)))"
    using grows_retain [OF assms] grows_same [OF assms] by (simp add: listening_ports_def Let_def)
  then show ?thesis by (simp add: OpListeningPorts in_world_def grows_keeps)
qed (simp_all add: in_world_def grows_keeps [OF grows_same [OF assms same_others(1)]]
    grows_keeps [OF grows_same [OF assms same_others(2)]] grows_keeps [OF grows_same [OF assms same_others(3)]]
    grows_keeps [OF grows_same [OF assms same_others(4)]] grows_keeps [OF grows_same [OF assms same_others(5)]]
    grows_keeps [OF grows_same [OF assms same_others(6)]] grows_keeps [OF grows_same [OF assms same_others(7)]]
    grows_keeps [OF grows_same [OF assms same_others(8)]] grows_keeps [OF grows_same [OF assms same_others(9)]]
    grows_keeps [OF grows_same [OF assms same_connect_tcp]] grows_keeps [OF grows_same [OF assms same_host(1)]]
    grows_keeps [OF grows_same [OF assms same_host(2)]] grows_keeps [OF grows_create [OF assms]]
    grows_keeps [OF grows_listen [OF assms]] grows_keeps [OF grows_same [OF assms same_listening_refl]]
    step_keeps_close [OF assms] step_keeps_group [OF assms] step_keeps_drop [OF assms])

definition net_start :: net_sys where
  "net_start = \<lparr>ns_world = \<lparr>networks = (\<lambda>_. \<lparr>nw_alive = False, nw_group = 0, nw_listeners = [], nw_bound = [], nw_ips = [],
       nw_peers = None, nw_closed = True, nw_has_egress = False, nw_loopback_egress = False, nw_next_port = 49152\<rparr>),
     net_count = 0, group_of = (\<lambda>_. []), listeners = (\<lambda>_. \<lparr>ls_alive = False, ls_closed = True, ls_backlog = [],
       ls_handler = None, ls_wakers = [], ls_woken = [], ls_local = (localhost4, 0)\<rparr>), listener_count = 0, next_socket = 0\<rparr>,
     ns_bound = []\<rparr>"

definition net_run :: "((sock_addr \<times> nat) list \<Rightarrow> (sock_addr \<times> nat) list) \<Rightarrow> net_op list \<Rightarrow> net_sys \<Rightarrow> net_sys" where
  "net_run ord ops s = fold (net_exec ord) ops s"

lemma net_start_ok: "net_ok (ns_world net_start)"
  by (simp add: net_ok_def net_start_def live_listener_def)

lemma net_run_ok: "net_ok (ns_world s) \<Longrightarrow> net_ok (ns_world (net_run ord ops s))"
  unfolding net_run_def using net_exec_keeps by (induction ops arbitrary: s) (auto simp: step_keeps_def)

lemma net_run_live:
  assumes "net_ok (ns_world s)" "n < net_count (ns_world s)" "live_listener (ns_world s) n a = Some l"
    and "\<forall>op \<in> set ops. op \<noteq> OpDropListener l \<and> op \<noteq> OpClose n \<and> op \<noteq> OpCloseGroup (nw_group (networks (ns_world s) n))"
  shows "live_listener (ns_world (net_run ord ops s)) n a = Some l"
  using assms
proof (induction ops arbitrary: s)
  case (Cons op ops)
  let ?t = "net_exec ord op s"
  have step: "step_keeps (ns_world s) op (ns_world ?t)" by (rule net_exec_keeps [OF Cons.prems(1)])
  have "\<not> stops (ns_world s) op n l" using Cons.prems(4) by (auto simp: stops_def)
  then have "live_listener (ns_world ?t) n a = Some l" using step Cons.prems(3) unfolding step_keeps_def by blast
  moreover have "net_ok (ns_world ?t)" "n < net_count (ns_world ?t)"
      "nw_group (networks (ns_world ?t) n) = nw_group (networks (ns_world s) n)"
    using step Cons.prems(2) by (auto simp: step_keeps_def)
  ultimately show ?case using Cons.IH [of ?t] Cons.prems(4) by (simp add: net_run_def)
qed (simp add: net_run_def)

section \<open>Finding a listener\<close>

lemma find_peer_found: "find_peer w a (Some l) ms = Inr l' \<longleftrightarrow> l' = l \<and> (\<forall>m \<in> set ms. live_listener w m a = None)"
  by (induction ms) (auto split: option.splits)

lemma find_peer_unique:
  "find_peer w a None ms = Inr l \<Longrightarrow>
    \<exists>m \<in> set ms. live_listener w m a = Some l \<and> (\<forall>m' \<in> set ms. live_listener w m' a \<noteq> None \<longrightarrow> m' = m)"
  by (induction ms) (auto simp: find_peer_found split: option.splits)

definition may_reach :: "net_world \<Rightarrow> nat \<Rightarrow> nat \<Rightarrow> bool" where
  "may_reach w n m \<longleftrightarrow> m \<noteq> n \<and> nw_alive (networks w m) \<and> \<not> nw_closed (networks w m)
     \<and> (case nw_peers (networks w n) of
          Some ps \<Rightarrow> m \<in> set ps
        | None \<Rightarrow> nw_peers (networks w m) = None \<and> m \<in> set (group_of w (nw_group (networks w n))))"

lemma peer_candidates_iff: "m \<in> set (peer_candidates w n) \<longleftrightarrow> may_reach w n m"
  by (auto simp: peer_candidates_def may_reach_def split: option.split)

lemma open_connection_result:
  assumes "open_connection l local peer w = (Inr c, v)"
  shows "cn_listener c = l \<and> cn_local c = local \<and> cn_peer c = peer \<and> \<not> ls_closed (listeners w l)
    \<and> ls_backlog (listeners v l) = ls_backlog (listeners w l) @ [(cn_socket c, local)]"
  using assms by (auto simp: open_connection_def Let_def bind_st_Inr listener_push_def update_listener_def split: if_splits)

definition next_port :: "nat \<Rightarrow> sock_addr \<Rightarrow> sock_addr \<Rightarrow> net_world \<Rightarrow> net_world" where
  "next_port n local peer w = update_net n (\<lambda>nw. nw\<lparr>nw_next_port := snd (local_address (networks w n) local peer)\<rparr>) w"

lemma next_port_same [simp]:
  "live_listener (next_port n local peer w) m a = live_listener w m a"
  "may_reach (next_port n local peer w) k m = may_reach w k m"
  "listeners (next_port n local peer w) = listeners w"
  by (auto simp: next_port_def update_net_def live_listener_def may_reach_def split: option.split)

lemma connect_local_eq:
  "connect_local n local peer w = (if nw_closed (networks w n) then (Inl ConnectionRefused, w)
     else (case (case live_listener w n peer of Some l \<Rightarrow> Inr l
         | None \<Rightarrow> find_peer (next_port n local peer w) peer None (peer_candidates (next_port n local peer w) n)) of
       Inl e \<Rightarrow> (Inl e, next_port n local peer w)
     | Inr l \<Rightarrow> open_connection l (fst (local_address (networks w n) local peer)) peer (next_port n local peer w)))"
  unfolding connect_local_def Let_def split_beta next_port_def [symmetric] by simp

lemma open_connection_ok: "\<not> ls_closed (listeners w l) \<Longrightarrow> \<exists>c v. open_connection l local peer w = (Inr c, v)"
  by (simp add: open_connection_def Let_def listener_push_def)

lemma connect_local_result:
  assumes "connect_local n local peer w = (Inr c, v)"
  shows "\<not> nw_closed (networks w n) \<and> cn_peer c = peer
    \<and> ls_backlog (listeners v (cn_listener c)) = ls_backlog (listeners w (cn_listener c)) @ [(cn_socket c, cn_local c)]
    \<and> (live_listener w n peer = Some (cn_listener c)
       \<or> live_listener w n peer = None \<and> (\<exists>m. may_reach w n m \<and> live_listener w m peer = Some (cn_listener c)
           \<and> (\<forall>m'. may_reach w n m' \<and> live_listener w m' peer \<noteq> None \<longrightarrow> m' = m)))"
proof -
  define u where "u = next_port n local peer w"
  have u: "live_listener u m a = live_listener w m a" "may_reach u n m = may_reach w n m" "listeners u = listeners w" for m a
    by (simp_all add: u_def)
  define target where "target = (case live_listener w n peer of
      Some l \<Rightarrow> Inr l | None \<Rightarrow> find_peer u peer None (peer_candidates u n))"
  have l: "\<exists>l. target = Inr l \<and> open_connection l (fst (local_address (networks w n) local peer)) peer u = (Inr c, v)"
    using assms unfolding connect_local_eq u_def [symmetric] target_def [symmetric]
    by (cases target) (auto split: if_splits)
  then obtain l where l: "target = Inr l" "open_connection l (fst (local_address (networks w n) local peer)) peer u = (Inr c, v)"
    by blast
  have "\<not> nw_closed (networks w n)" using assms by (auto simp: connect_local_def)
  moreover note open_connection_result [OF l(2)]
  moreover have "live_listener w n peer = Some l \<or> live_listener w n peer = None
      \<and> (\<exists>m. may_reach w n m \<and> live_listener w m peer = Some l
           \<and> (\<forall>m'. may_reach w n m' \<and> live_listener w m' peer \<noteq> None \<longrightarrow> m' = m))"
  proof (cases "live_listener w n peer")
    case None
    then have "find_peer u peer None (peer_candidates u n) = Inr l" using l(1) by (simp add: target_def)
    then obtain m where "m \<in> set (peer_candidates u n)" "live_listener u m peer = Some l"
        "\<forall>m' \<in> set (peer_candidates u n). live_listener u m' peer \<noteq> None \<longrightarrow> m' = m"
      using find_peer_unique by blast
    then have "may_reach w n m \<and> live_listener w m peer = Some l
        \<and> (\<forall>m'. may_reach w n m' \<and> live_listener w m' peer \<noteq> None \<longrightarrow> m' = m)"
      unfolding peer_candidates_iff Ball_def u by blast
    with None show ?thesis by blast
  next
    case (Some l')
    then show ?thesis using l(1) by (simp add: target_def)
  qed
  ultimately show ?thesis by (simp add: u)
qed

lemma listen_tcp_live:
  assumes "listen_tcp n address only_v6 w = (Inr l, v)" "a \<in> set (listener_addresses address only_v6)"
  shows "live_listener v n a = Some l"
proof -
  let ?as = "listener_addresses address only_v6"
  have "l = listener_count w \<and> v = register n ?as (listener_count w) (snd (new_listener (hd ?as) w))"
    using assms(1) by (auto simp: listen_tcp_def Let_def split_beta new_listener_def split: if_splits)
  then show ?thesis using assms(2)
    by (simp add: live_listener_def register_def update_net_def map_of_register new_listener_def)
qed

section \<open>Properties\<close>

text \<open>C35: a guest's connection cannot leave what its sandbox was given. Connecting succeeds either with the
  host's network, and then the sandbox has one and the destination is not loopback unless loopback
  egress was granted, or with a live listener inside the browser, and then the destination is
  loopback, loopback egress was not granted, and the listener belongs to the guest's own network or,
  when that has none at the address, to the only network it may reach that has one: an explicit peer, or
  without explicit peers an open network of the same client that has none either.\<close>

theorem connection_confined:
  assumes "connect_tcp host n local peer w = (Inr r, v)"
  shows "\<not> nw_closed (networks w n) \<and> (case r of
      HostConnection h \<Rightarrow> nw_has_egress (networks w n) \<and> host local peer = Inr h
        \<and> (is_loopback (fst peer) \<longrightarrow> nw_loopback_egress (networks w n))
    | LocalConnection c \<Rightarrow> is_loopback (fst peer) \<and> \<not> nw_loopback_egress (networks w n)
        \<and> (live_listener w n peer = Some (cn_listener c)
           \<or> live_listener w n peer = None \<and> (\<exists>m. may_reach w n m \<and> live_listener w m peer = Some (cn_listener c)
               \<and> (\<forall>m'. may_reach w n m' \<and> live_listener w m' peer \<noteq> None \<longrightarrow> m' = m)))
        \<and> ls_backlog (listeners v (cn_listener c)) = ls_backlog (listeners w (cn_listener c)) @ [(cn_socket c, cn_local c)])"
proof (cases r)
  case (LocalConnection c)
  then have local: "connect_local n local peer w = (Inr c, v)" "is_loopback (fst peer)" "\<not> nw_loopback_egress (networks w n)"
    using assms by (auto simp: connect_tcp_def bind_st_Inr map_ok_Inr_iff split: if_splits)
  then show ?thesis using connect_local_result [OF local(1)] LocalConnection by simp
next
  case (HostConnection h)
  then show ?thesis using assms
    by (auto simp: connect_tcp_def bind_st_Inr map_ok_Inr_iff split: if_splits)
qed

text \<open>Nobody takes a listener's address. Once a guest listens on an address, then whatever guests,
  other sandboxes and the host do next, as long as the guest keeps the listener and neither its network nor
  its client is closed, a connection from its network to one of the listener's loopback addresses
  reaches that listener.\<close>

theorem listener_keeps_address:
  fixes ops later :: "net_op list" and ord :: "(sock_addr \<times> nat) list \<Rightarrow> (sock_addr \<times> nat) list"
    and w :: net_world
  defines "s \<equiv> net_run ord ops net_start"
  assumes "n < net_count (ns_world s)" "listen_tcp n address only_v6 (ns_world s) = (Inr l, w)"
    and "\<forall>op \<in> set later. op \<noteq> OpDropListener l \<and> op \<noteq> OpClose n \<and> op \<noteq> OpCloseGroup (nw_group (networks w n))"
  defines "t \<equiv> ns_world (net_run ord later (s\<lparr>ns_world := w\<rparr>))"
  assumes "a \<in> set (listener_addresses address only_v6)" "is_loopback (fst a)"
    and "\<not> nw_closed (networks t n)" "\<not> nw_loopback_egress (networks t n)"
  shows "\<exists>c v. connect_tcp host n local a t = (Inr (LocalConnection c), v) \<and> cn_listener c = l
    \<and> ls_backlog (listeners v l) = ls_backlog (listeners t l) @ [(cn_socket c, cn_local c)]"
proof -
  have ok: "net_ok (ns_world s)" unfolding s_def by (rule net_run_ok [OF net_start_ok])
  have grown: "listening_grows (ns_world s) w" using grows_listen [OF ok assms(2), of address only_v6] assms(3) by simp
  have start: "live_listener w n a = Some l" by (rule listen_tcp_live [OF assms(3,6)])
  have live: "live_listener t n a = Some l" unfolding t_def
  proof (rule net_run_live)
    show "net_ok (ns_world (s\<lparr>ns_world := w\<rparr>))" "n < net_count (ns_world (s\<lparr>ns_world := w\<rparr>))"
      using grown assms(2) by (simp_all add: listening_grows_def)
  qed (use assms(4) start in simp_all)
  have "net_ok t" unfolding t_def using grown by (intro net_run_ok) (simp add: listening_grows_def)
  moreover have "map_of (nw_listeners (networks t n)) a = Some l"
    using live by (simp add: live_listener_def split: option.splits if_splits)
  ultimately have unclosed: "\<not> ls_closed (listeners t l)" unfolding net_ok_def by blast
  have "connect_local n local a t = open_connection l (fst (local_address (networks t n) local a)) a (next_port n local a t)"
    using live assms(8) by (simp add: connect_local_eq)
  moreover obtain c v where conn: "open_connection l (fst (local_address (networks t n) local a)) a (next_port n local a t) = (Inr c, v)"
    using open_connection_ok [of "next_port n local a t" l "fst (local_address (networks t n) local a)" a] unclosed
    unfolding next_port_same by blast
  moreover have "cn_listener c = l" "ls_backlog (listeners v l) = ls_backlog (listeners t l) @ [(cn_socket c, cn_local c)]"
    using open_connection_result [OF conn] by simp_all
  ultimately show ?thesis using assms(7-9) by (simp add: connect_tcp_def)
qed

text \<open>Two sandboxes of a client: the first listens on every address, the second finds it.\<close>

definition two_networks :: "net_op list" where
  "two_networks = [OpCreate 0 False, OpCreate 0 False]"

definition rival_ops :: "net_op list" where
  "rival_ops = [OpBind 0 (V4 0, 80) False, OpListen 1 (localhost4, 80) False, OpCloseGroup 5,
     OpConnect 1 (V4 0, 0) (localhost6, 80)]"

lemmas net_eval = net_run_def net_start_def in_world_def create_network_def Let_def listen_tcp_def bind_tcp_def
  listener_addresses_def normalize_listener_address_def address_taken_def live_listener_def new_listener_def
  register_def update_net_def localhost4_def localhost6_def close_group_def connect_tcp_def connect_local_def
  local_address_def peer_candidates_def open_connection_def listener_push_def update_listener_def

definition listening_world :: net_world where
  "listening_world = snd (listen_tcp 0 (V6 0, 80) False (ns_world (net_run id two_networks net_start)))"

lemma two_networks_run:
  "0 < net_count (ns_world (net_run id two_networks net_start))"
  "listen_tcp 0 (V6 0, 80) False (ns_world (net_run id two_networks net_start)) = (Inr 0, listening_world)"
  "nw_group (networks listening_world 0) = 0"
  "\<not> nw_closed (networks (ns_world (net_run id rival_ops ((net_run id two_networks net_start)\<lparr>ns_world := listening_world\<rparr>))) 0)"
  "\<not> nw_loopback_egress (networks (ns_world (net_run id rival_ops ((net_run id two_networks net_start)\<lparr>ns_world := listening_world\<rparr>))) 0)"
  by (simp_all add: two_networks_def rival_ops_def listening_world_def net_eval)

lemma listening_connects:
  "live_listener listening_world 1 (localhost6, 80) = None"
  "fst (connect_tcp (\<lambda>_ _. Inl UnsupportedNet :: network_error + unit) 1 (V4 0, 0) (localhost6, 80) listening_world)
     = Inr (LocalConnection \<lparr>cn_socket = 0, cn_listener = 0, cn_local = (localhost6, 49152), cn_peer = (localhost6, 80)\<rparr>)"
  by (simp_all add: two_networks_def listening_world_def net_eval)

theorem connection_confined_witness:
  "\<exists>m. may_reach listening_world 1 m \<and> live_listener listening_world m (localhost6, 80) = Some 0"
proof -
  obtain v where "connect_tcp (\<lambda>_ _. Inl UnsupportedNet :: network_error + unit) 1 (V4 0, 0) (localhost6, 80) listening_world
     = (Inr (LocalConnection \<lparr>cn_socket = 0, cn_listener = 0, cn_local = (localhost6, 49152), cn_peer = (localhost6, 80)\<rparr>), v)"
    using listening_connects(2) by (metis prod.collapse)
  from connection_confined [OF this] listening_connects(1) show ?thesis by auto
qed

theorem listener_keeps_address_witness:
  "\<exists>c v. connect_tcp (\<lambda>_ _. Inl UnsupportedNet :: network_error + unit) 0 (V4 0, 0) (localhost4, 80)
      (ns_world (net_run id rival_ops ((net_run id two_networks net_start)\<lparr>ns_world := listening_world\<rparr>)))
    = (Inr (LocalConnection c), v) \<and> cn_listener c = 0"
proof -
  have "(localhost4, 80) \<in> set (listener_addresses (V6 0, 80) False)"
    by (simp add: listener_addresses_def normalize_listener_address_def)
  moreover have "is_loopback localhost4" by (simp add: localhost4_def)
  moreover have "\<forall>op \<in> set rival_ops. op \<noteq> OpDropListener 0 \<and> op \<noteq> OpClose 0 \<and> op \<noteq> OpCloseGroup (nw_group (networks listening_world 0))"
    by (simp add: two_networks_run(3) rival_ops_def)
  ultimately show ?thesis
    using listener_keeps_address [OF two_networks_run(1,2), of rival_ops "(localhost4, 80)"] two_networks_run(4,5) by fastforce
qed

section \<open>A peer added twice\<close>

text \<open>Adding the same peer twice makes every connection to it fail as ambiguous.\<close>

lemma peer_added_twice:
  "fst (connect_local 1 (V4 0, 0) (localhost6, 80) (snd (add_peer 1 0 listening_world))) \<noteq> Inl AddressInUse
   \<and> fst (connect_local 1 (V4 0, 0) (localhost6, 80) (snd (add_peer 1 0 (snd (add_peer 1 0 listening_world))))) = Inl AddressInUse"
  by (simp add: two_networks_def listening_world_def net_eval add_peer_def)

end
