(* ===== verification/Package_Progress.thy ===== *)
theory Package_Progress
  imports Packages Ordered_Map
begin

text \<open>
  Progress of a package load (rust/src/package_progress.rs): the byte counts of one download, the
  progress of an operation over all its packages with its snapshots, the loop that reports them to an
  observer while it drives the work and watches for cancellation, and the loader that lets concurrent
  callers share one acquisition of a package. The packages' identifiers and hashes are third-party
  types, known by their texts; \<open>f64\<close> arithmetic is a parameter.
\<close>

section \<open>Download progress\<close>

datatype load_phase = Resolving | Downloading | Loading | LoadReady

record 'f f64_ops =
  f_hundred :: 'f
  f_of_u64 :: "nat \<Rightarrow> 'f"
  f_mul :: "'f \<Rightarrow> 'f \<Rightarrow> 'f"
  f_div :: "'f \<Rightarrow> 'f \<Rightarrow> 'f"

record 'f download_progress =
  dp_downloaded :: nat
  dp_total :: "nat option"
  dp_percent :: "'f option"

definition download_new :: "'f f64_ops \<Rightarrow> nat \<Rightarrow> nat option \<Rightarrow> 'f download_progress" where
  "download_new F downloaded total_bytes =
     (let known = (case total_bytes of Some t \<Rightarrow> if downloaded \<le> t then Some t else None | None \<Rightarrow> None)
      in \<lparr>dp_downloaded = downloaded, dp_total = known,
          dp_percent = map_option (\<lambda>t. if t = 0 then f_hundred F
            else f_div F (f_mul F (f_hundred F) (f_of_u64 F downloaded)) (f_of_u64 F t)) known\<rparr>)"

lemma download_new_sel [simp]:
  "dp_downloaded (download_new F d t) = d"
  "dp_total (download_new F d t) = Some n \<longleftrightarrow> t = Some n \<and> d \<le> n"
  "dp_total (download_new F d t) = None \<longleftrightarrow> (\<forall>n. t = Some n \<longrightarrow> n < d)"
  by (auto simp: download_new_def Let_def split: option.split)

record 'f package_progress =
  pp_id :: string
  pp_phase :: load_phase
  pp_cached :: bool
  pp_download :: "'f download_progress"

record 'f load_report =
  lr_phase :: load_phase
  lr_download :: "'f download_progress"
  lr_packages :: "'f package_progress list"

section \<open>The progress of one operation\<close>

text \<open>What the code reads of the resolver's types: the texts of identifiers and hashes, a
  summary's identifier and hash, and a resolution's root, command and filesystem packages with its
  graph of nodes.\<close>

record ('i, 'h) names =
  show_id :: "'i \<Rightarrow> string"
  show_hash :: "'h \<Rightarrow> string"

record ('i, 'h) package_summary =
  sum_id :: 'i
  sum_hash :: 'h

record ('i, 'h) resolved_node =
  node_id :: 'i
  node_dist :: "'h option"

record ('i, 'h) resolution =
  res_root :: 'i
  res_command_packages :: "'i list"
  res_mount_packages :: "'i list"
  res_graph :: "'i \<Rightarrow> ('i, 'h) resolved_node option"

datatype download_phase = PD_Downloading | PD_Loading | PD_Ready

record download_update =
  du_phase :: download_phase
  du_downloaded :: nat
  du_total :: "nat option"
  du_cached :: bool

record 'f progress_state =
  ps_resolving :: usize
  ps_packages :: "(string, 'f package_progress) btree"

definition progress_new :: "usize \<Rightarrow> 'f progress_state" where
  "progress_new roots = \<lparr>ps_resolving = roots, ps_packages = []\<rparr>"

definition local_key :: "string \<Rightarrow> string" where
  "local_key i = ''local:'' @ i"

definition progress_local ::
    "'f f64_ops \<Rightarrow> ('b, 'i) binary_ops \<Rightarrow> 'b package \<Rightarrow> bool \<Rightarrow> 'f progress_state \<Rightarrow> 'f progress_state" where
  "progress_local F B p cached st =
     st\<lparr>ps_resolving := ps_resolving st - 1,
        ps_packages := bt_or_insert (local_key (package_id B p))
          \<lparr>pp_id = package_id B p, pp_phase = LoadReady, pp_cached = cached, pp_download = download_new F 0 (Some 0)\<rparr>
          (ps_packages st)\<rparr>"

text \<open>\<open>register\<close> hands out the entry and the state that holds it.\<close>

definition register ::
    "'f f64_ops \<Rightarrow> ('i, 'h) names \<Rightarrow> ('i, 'h) package_summary \<Rightarrow> 'f progress_state \<Rightarrow>
     'f package_progress \<times> 'f progress_state" where
  "register F N s st =
     (let key = show_hash N (sum_hash s);
          fresh = \<lparr>pp_id = show_id N (sum_id s), pp_phase = Resolving, pp_cached = False,
                   pp_download = download_new F 0 None\<rparr>
      in case bt_get (ps_packages st) key of
           Some entry \<Rightarrow> (entry, st)
         | None \<Rightarrow> (fresh, st\<lparr>ps_packages := bt_insert key fresh (ps_packages st)\<rparr>))"

fun phase_of :: "download_phase \<Rightarrow> load_phase" where
  "phase_of PD_Downloading = Downloading"
| "phase_of PD_Loading = Loading"
| "phase_of PD_Ready = LoadReady"

definition progress_update ::
    "'f f64_ops \<Rightarrow> ('i, 'h) names \<Rightarrow> ('i, 'h) package_summary \<Rightarrow> download_update \<Rightarrow> 'f progress_state \<Rightarrow>
     'f progress_state" where
  "progress_update F N s u st =
     (let (entry, st1) = register F N s st
      in st1\<lparr>ps_packages := bt_insert (show_hash N (sum_hash s))
           (entry\<lparr>pp_phase := phase_of (du_phase u), pp_cached := du_cached u,
                  pp_download := download_new F (du_downloaded u) (du_total u)\<rparr>)
           (ps_packages st1)\<rparr>)"

text \<open>The packages of a resolution in the order \<open>ids\<close> of a hash set's iteration. The graph has to
  know every one of them: indexing it with another panics (\<open>None\<close>).\<close>

fun register_ids ::
    "'f f64_ops \<Rightarrow> ('i, 'h) names \<Rightarrow> ('i, 'h) resolution \<Rightarrow> 'i list \<Rightarrow> 'f progress_state \<Rightarrow> 'f progress_state option" where
  "register_ids F N R [] st = Some st"
| "register_ids F N R (i # ids) st =
     (if i = res_root R then register_ids F N R ids st
      else case res_graph R i of
        None \<Rightarrow> None
      | Some node \<Rightarrow> register_ids F N R ids
          (case node_dist node of
             None \<Rightarrow> st
           | Some h \<Rightarrow> snd (register F N \<lparr>sum_id = node_id node, sum_hash = h\<rparr> st)))"

definition progress_resolved ::
    "'f f64_ops \<Rightarrow> ('i, 'h) names \<Rightarrow> ('i list \<Rightarrow> 'i list) \<Rightarrow> ('i, 'h) package_summary option \<Rightarrow> ('i, 'h) resolution \<Rightarrow>
     'f progress_state \<Rightarrow> 'f progress_state option" where
  "progress_resolved F N order root R st =
     (let st1 = st\<lparr>ps_resolving := ps_resolving st - 1\<rparr>;
          i = show_id N (res_root R);
          st2 = (case root of
              Some s \<Rightarrow> snd (register F N s st1)
            | None \<Rightarrow> st1\<lparr>ps_packages := bt_or_insert (local_key i)
                \<lparr>pp_id = i, pp_phase = Loading, pp_cached = False, pp_download = download_new F 0 (Some 0)\<rparr>
                (ps_packages st1)\<rparr>)
      in register_ids F N R (order (res_command_packages R @ res_mount_packages R)) st2)"

section \<open>Snapshots\<close>

definition received_bytes :: "'f package_progress list \<Rightarrow> nat" where
  "received_bytes ps = fold (\<lambda>p r. u64_saturating_add r (dp_downloaded (pp_download p))) ps 0"

definition total_bytes :: "'f package_progress list \<Rightarrow> nat option" where
  "total_bytes ps = fold (\<lambda>p t. Option.bind t (\<lambda>sum. Option.bind (dp_total (pp_download p)) (u64_checked_add sum))) ps (Some 0)"

definition snapshot :: "'f f64_ops \<Rightarrow> bool \<Rightarrow> 'f progress_state \<Rightarrow> 'f load_report" where
  "snapshot F ready st =
     (let ps = bt_values (ps_packages st);
          packages = (if ready then map (\<lambda>p. p\<lparr>pp_phase := LoadReady\<rparr>) ps else ps);
          total = (if 0 < ps_resolving st then None else total_bytes ps);
          phase = (if ready then LoadReady
                   else if 0 < ps_resolving st then Resolving
                   else if list_ex (\<lambda>p. pp_phase p = Downloading \<or> pp_phase p = Resolving) packages then Downloading
                   else Loading)
      in \<lparr>lr_phase = phase, lr_download = download_new F (received_bytes ps) total, lr_packages = packages\<rparr>)"

text \<open>The states an operation can be in: every sequence of the loader's reports, in any order.\<close>

inductive progress_reached ::
    "'f f64_ops \<Rightarrow> ('b, 'j) binary_ops \<Rightarrow> ('i, 'h) names \<Rightarrow> 'f progress_state \<Rightarrow> bool"
  for F :: "'f f64_ops" and B :: "('b, 'j) binary_ops" and N :: "('i, 'h) names" where
  reached_new: "progress_reached F B N (progress_new roots)"
| reached_local: "progress_reached F B N st \<Longrightarrow> progress_reached F B N (progress_local F B p cached st)"
| reached_resolved:
    "progress_reached F B N st \<Longrightarrow> progress_resolved F N order root R st = Some st' \<Longrightarrow> progress_reached F B N st'"
| reached_update: "progress_reached F B N st \<Longrightarrow> progress_reached F B N (progress_update F N s u st)"

text \<open>Every entry's count stays within its known total, and the entries are sorted by key.\<close>

definition entry_ok :: "'f package_progress \<Rightarrow> bool" where
  "entry_ok p \<longleftrightarrow> (\<forall>n. dp_total (pp_download p) = Some n \<longrightarrow> dp_downloaded (pp_download p) \<le> n)"

definition progress_ok :: "'f progress_state \<Rightarrow> bool" where
  "progress_ok st \<longleftrightarrow> bt_ok (ps_packages st) \<and> (\<forall>p \<in> set (bt_values (ps_packages st)). entry_ok p)"

lemma entry_ok_new: "pp_download p = download_new F d t \<Longrightarrow> entry_ok p"
  by (simp add: entry_ok_def)

lemma progress_okI:
  "bt_ok m \<Longrightarrow> (\<And>p. p \<in> set (bt_values m) \<Longrightarrow> entry_ok p) \<Longrightarrow> ps_packages st = m \<Longrightarrow> progress_ok st"
  by (auto simp: progress_ok_def)

lemma progress_ok_insert:
  "progress_ok st \<Longrightarrow> entry_ok e \<Longrightarrow> ps_packages st' = bt_insert k e (ps_packages st) \<Longrightarrow> progress_ok st'"
  using set_bt_values_insert [of k e "ps_packages st"] by (auto simp: progress_ok_def bt_ok_insert)

lemma progress_ok_or_insert:
  "progress_ok st \<Longrightarrow> entry_ok e \<Longrightarrow> ps_packages st' = bt_or_insert k e (ps_packages st) \<Longrightarrow> progress_ok st'"
  using set_bt_values_or_insert [of k e "ps_packages st"] by (auto simp: progress_ok_def bt_ok_or_insert)

lemma register_ok:
  assumes "progress_ok st"
  shows "progress_ok (snd (register F N s st))"
proof (cases "bt_get (ps_packages st) (show_hash N (sum_hash s))")
  case None
  then show ?thesis
    by (intro progress_ok_insert [OF assms, where k = "show_hash N (sum_hash s)" and e = "fst (register F N s st)"])
      (auto simp: register_def Let_def intro: entry_ok_new)
qed (use assms in \<open>auto simp: register_def Let_def\<close>)

lemma register_ids_ok: "progress_ok st \<Longrightarrow> register_ids F N R ids st = Some st' \<Longrightarrow> progress_ok st'"
proof (induction ids arbitrary: st)
  case (Cons i ids)
  show ?case
  proof (cases "i = res_root R")
    case False
    then obtain node where node: "res_graph R i = Some node"
      using Cons.prems by (auto split: option.splits)
    have "progress_ok (case node_dist node of None \<Rightarrow> st
        | Some h \<Rightarrow> snd (register F N \<lparr>sum_id = node_id node, sum_hash = h\<rparr> st))"
      using Cons.prems(1) by (simp add: register_ok split: option.split)
    from Cons.IH [OF this] show ?thesis using Cons.prems(2) False node by simp
  qed (use Cons in auto)
qed simp

lemma progress_update_ok: "progress_ok st \<Longrightarrow> progress_ok (progress_update F N s u st)"
  by (rule progress_ok_insert [OF register_ok [where F = F and N = N and s = s],
        where e = "fst (register F N s st)\<lparr>pp_phase := phase_of (du_phase u), pp_cached := du_cached u,
          pp_download := download_new F (du_downloaded u) (du_total u)\<rparr>" and k = "show_hash N (sum_hash s)"])
    (auto simp: progress_update_def entry_ok_def split: prod.split)

lemma progress_ok_resolving: "progress_ok (st\<lparr>ps_resolving := n\<rparr>) = progress_ok st"
  by (simp add: progress_ok_def)

lemma progress_local_ok: "progress_ok st \<Longrightarrow> progress_ok (progress_local F B p cached st)"
  by (rule progress_ok_or_insert [where st = st and k = "local_key (package_id B p)" and e = "\<lparr>pp_id = package_id B p, pp_phase = LoadReady, pp_cached = cached,
        pp_download = download_new F 0 (Some 0)\<rparr>"])
    (simp_all add: progress_local_def entry_ok_new)

lemma progress_resolved_ok:
  assumes ok: "progress_ok st" and res: "progress_resolved F N order root R st = Some st'"
  shows "progress_ok st'"
proof -
  define st1 where "st1 = st\<lparr>ps_resolving := ps_resolving st - 1\<rparr>"
  define e where "e = \<lparr>pp_id = show_id N (res_root R), pp_phase = Loading, pp_cached = False, pp_download = download_new F 0 (Some 0)\<rparr>"
  have st1: "progress_ok st1" using ok by (simp add: st1_def progress_ok_resolving)
  have root: "progress_ok (st1\<lparr>ps_packages := bt_or_insert (local_key (show_id N (res_root R))) e (ps_packages st1)\<rparr>)"
    by (rule progress_ok_or_insert [OF st1]) (simp_all add: e_def entry_ok_new)
  have "progress_ok (case root of Some s \<Rightarrow> snd (register F N s st1)
      | None \<Rightarrow> st1\<lparr>ps_packages := bt_or_insert (local_key (show_id N (res_root R))) e (ps_packages st1)\<rparr>)"
    using root by (simp add: register_ok [OF st1] split: option.split)
  from register_ids_ok [OF this, of F N R "order (res_command_packages R @ res_mount_packages R)"] res
  show ?thesis by (simp add: progress_resolved_def Let_def st1_def e_def cong: option.case_cong)
qed

lemma progress_reached_ok: "progress_reached F B N st \<Longrightarrow> progress_ok st"
  by (induction rule: progress_reached.induct)
    (simp_all add: progress_local_ok progress_update_ok progress_resolved_ok,
     simp add: progress_ok_def progress_new_def bt_values_def)

section \<open>What a snapshot says\<close>

definition bytes_of_all :: "'f package_progress list \<Rightarrow> nat" where
  "bytes_of_all ps = sum_list (map (\<lambda>p. dp_downloaded (pp_download p)) ps)"

definition totals_known :: "'f package_progress list \<Rightarrow> bool" where
  "totals_known ps \<longleftrightarrow> list_all (\<lambda>p. dp_total (pp_download p) \<noteq> None) ps"

definition totals_of_all :: "'f package_progress list \<Rightarrow> nat" where
  "totals_of_all ps = sum_list (map (\<lambda>p. case dp_total (pp_download p) of Some n \<Rightarrow> n | None \<Rightarrow> 0) ps)"

lemma received_bytes_sum: "received_bytes ps = min (bytes_of_all ps) u64_max"
proof -
  have "fold (\<lambda>p r. u64_saturating_add r (dp_downloaded (pp_download p))) ps r = min (r + bytes_of_all ps) u64_max"
    if "r \<le> u64_max" for r
    using that by (induction ps arbitrary: r) (auto simp: bytes_of_all_def u64_saturating_add_def min_def)
  then show ?thesis by (simp add: received_bytes_def)
qed

lemma total_bytes_sum:
  "total_bytes ps = (if totals_known ps \<and> totals_of_all ps \<le> u64_max then Some (totals_of_all ps) else None)"
proof -
  let ?add = "\<lambda>p t. Option.bind t (\<lambda>sum. Option.bind (dp_total (pp_download p)) (u64_checked_add sum))"
  have none: "fold ?add ps None = None" for ps :: "'a package_progress list"
    by (induction ps) auto
  have "fold ?add ps (Some a) =
      (if totals_known ps \<and> a + totals_of_all ps \<le> u64_max then Some (a + totals_of_all ps) else None)"
    if "a \<le> u64_max" for a
    using that
  proof (induction ps arbitrary: a)
    case (Cons p ps)
    show ?case
    proof (cases "dp_total (pp_download p)")
      case None
      then show ?thesis by (simp add: none totals_known_def)
    next
      case (Some n)
      have "u64_checked_add a n = (if a + n \<le> u64_max then Some (a + n) else None)"
        by (simp add: u64_checked_add_def)
      with Some show ?thesis
        using Cons.IH [of "a + n"] Cons.prems none [of ps]
        by (auto simp: totals_known_def totals_of_all_def)
    qed
  qed (simp add: totals_known_def totals_of_all_def)
  from this [of 0] show ?thesis by (simp add: total_bytes_def)
qed

lemma bytes_within_totals:
  "totals_known ps \<Longrightarrow> (\<And>p. p \<in> set ps \<Longrightarrow> entry_ok p) \<Longrightarrow> bytes_of_all ps \<le> totals_of_all ps"
proof (induction ps)
  case (Cons p ps)
  then have "entry_ok p" "bytes_of_all ps \<le> totals_of_all ps" by (auto simp: totals_known_def)
  then show ?case using Cons.prems(1)
    by (auto simp: totals_known_def bytes_of_all_def totals_of_all_def entry_ok_def split: option.splits intro: add_mono)
qed (simp add: bytes_of_all_def)

lemma snapshot_sel:
  "lr_download (snapshot F ready st) = download_new F (received_bytes (bt_values (ps_packages st)))
     (if 0 < ps_resolving st then None else total_bytes (bt_values (ps_packages st)))"
  "lr_phase (snapshot F ready st) = LoadReady \<longleftrightarrow> ready"
  "map pp_id (lr_packages (snapshot F ready st)) = map pp_id (bt_values (ps_packages st))"
  "ready \<Longrightarrow> list_all (\<lambda>p. pp_phase p = LoadReady) (lr_packages (snapshot F ready st))"
  by (simp_all add: snapshot_def Let_def comp_def list_all_iff)

text \<open>The aggregate of a load is the sum over its packages: the received bytes are their sum (capped at
  the largest 64-bit number), and a total is given exactly when nothing is left to resolve, every
  package's own total is known and their sum is a 64-bit number; the total is then that sum and no less
  than what was received. This holds after every sequence of the loader's reports.\<close>

theorem snapshot_aggregate:
  assumes "progress_reached F B N st"
  shows "dp_downloaded (lr_download (snapshot F ready st)) = min (bytes_of_all (bt_values (ps_packages st))) u64_max \<and>
    (\<forall>t. dp_total (lr_download (snapshot F ready st)) = Some t \<longleftrightarrow>
       ps_resolving st = 0 \<and> totals_known (bt_values (ps_packages st)) \<and>
       t = totals_of_all (bt_values (ps_packages st)) \<and> t \<le> u64_max \<and>
       bytes_of_all (bt_values (ps_packages st)) \<le> t)"
proof -
  let ?ps = "bt_values (ps_packages st)"
  have "totals_known ?ps \<Longrightarrow> bytes_of_all ?ps \<le> totals_of_all ?ps"
    using progress_reached_ok [OF assms] by (intro bytes_within_totals) (auto simp: progress_ok_def)
  then show ?thesis
    by (auto simp: snapshot_sel(1) received_bytes_sum total_bytes_sum split: if_splits)
qed

section \<open>Cancellation and options\<close>

text \<open>A cancellation token holds one flag; cancelling sets it.\<close>

record cancellation =
  cancelled_flag :: bool

definition cancellation_new :: cancellation where
  "cancellation_new = \<lparr>cancelled_flag = False\<rparr>"

definition cancel :: "cancellation \<Rightarrow> cancellation" where
  "cancel c = c\<lparr>cancelled_flag := True\<rparr>"

definition is_cancelled :: "cancellation \<Rightarrow> bool" where
  "is_cancelled c \<longleftrightarrow> cancelled_flag c"

interpretation cancellation: sticky_flag is_cancelled "{cancel}"
  by unfold_locales (simp add: is_cancelled_def cancel_def)

record load_options =
  lo_observer :: bool
  lo_cancellation :: "cancellation option"

definition load_options_default :: load_options where
  "load_options_default = \<lparr>lo_observer = False, lo_cancellation = None\<rparr>"

definition on_progress :: "load_options \<Rightarrow> load_options" where
  "on_progress opts = opts\<lparr>lo_observer := True\<rparr>"

definition with_cancellation :: "cancellation \<Rightarrow> load_options \<Rightarrow> load_options" where
  "with_cancellation c opts = opts\<lparr>lo_cancellation := Some c\<rparr>"

section \<open>Observing a load\<close>

text \<open>What one turn of the select loop meets: the token when its branch is polled, the work's result
  when it is ready, the progress as it is after the work was polled, what the change channel answers, and
  the time in milliseconds. The branches are polled in this order.\<close>

datatype change_poll = NoChange | Changed | ChannelClosed

record ('f, 'r) select_turn =
  st_token :: cancellation
  st_result :: "(sdk_error + 'r) option"
  st_progress :: "'f progress_state"
  st_change :: change_poll
  st_now :: nat

definition phase_changed :: "'f load_report \<Rightarrow> 'f load_report \<Rightarrow> bool" where
  "phase_changed new prev \<longleftrightarrow>
     lr_phase new \<noteq> lr_phase prev \<or>
     list_ex (\<lambda>p. case find (\<lambda>old. pp_id old = pp_id p) (lr_packages prev) of
         None \<Rightarrow> True
       | Some old \<Rightarrow> pp_phase old \<noteq> pp_phase p) (lr_packages new)"

text \<open>The token a turn sees; without one in the options it is a fresh one that nobody cancels.\<close>

definition turn_cancelled :: "load_options \<Rightarrow> ('f, 'r) select_turn \<Rightarrow> bool" where
  "turn_cancelled opts t \<longleftrightarrow> lo_cancellation opts \<noteq> None \<and> is_cancelled (st_token t)"

text \<open>The reports, each with its time, and the result, \<open>None\<close> while the load is under way.\<close>

fun observe_loop ::
    "'f f64_ops \<Rightarrow> load_options \<Rightarrow> 'f load_report \<Rightarrow> nat \<Rightarrow> ('f, 'r) select_turn list \<Rightarrow>
     (nat \<times> 'f load_report) list \<times> (sdk_error + 'r) option" where
  "observe_loop F opts prev sent_at [] = ([], None)"
| "observe_loop F opts prev sent_at (t # ts) =
     (if turn_cancelled opts t then ([], Some (Inl Cancelled))
      else case st_result t of
        Some r \<Rightarrow> (if is_ok r then [(st_now t, snapshot F True (st_progress t))] else [], Some r)
      | None \<Rightarrow> (case st_change t of
          Changed \<Rightarrow>
            (let new = snapshot F False (st_progress t)
             in if phase_changed new prev \<or> 100 \<le> st_now t - sent_at
                then (let (reports, res) = observe_loop F opts new (st_now t) ts in ((st_now t, new) # reports, res))
                else observe_loop F opts prev sent_at ts)
        | _ \<Rightarrow> observe_loop F opts prev sent_at ts))"

fun plain_loop :: "load_options \<Rightarrow> ('f, 'r) select_turn list \<Rightarrow> (sdk_error + 'r) option" where
  "plain_loop opts [] = None"
| "plain_loop opts (t # ts) =
     (if turn_cancelled opts t then Some (Inl Cancelled)
      else case st_result t of Some r \<Rightarrow> Some r | None \<Rightarrow> plain_loop opts ts)"

definition observe ::
    "'f f64_ops \<Rightarrow> load_options \<Rightarrow> 'f progress_state option \<Rightarrow> nat \<Rightarrow> ('f, 'r) select_turn list \<Rightarrow>
     (nat \<times> 'f load_report) list \<times> (sdk_error + 'r) option" where
  "observe F opts progress now ts =
     (if (case lo_cancellation opts of Some c \<Rightarrow> is_cancelled c | None \<Rightarrow> False) then ([], Some (Inl Cancelled))
      else case progress of
        Some st \<Rightarrow>
          (if lo_observer opts
           then let initial = snapshot F False st;
                    (reports, res) = observe_loop F opts initial now ts
                in ((now, initial) # reports, res)
           else ([], plain_loop opts ts))
      | None \<Rightarrow> ([], plain_loop opts ts))"

lemma observe_loop_result: "snd (observe_loop F opts prev sent ts) = plain_loop opts ts"
  by (induction F opts prev sent ts rule: observe_loop.induct)
    (auto simp: Let_def split: option.split change_poll.split prod.split)

text \<open>How a sequence of reports ends: its last one says ready exactly when the load succeeded.\<close>

definition ready_only_at_end :: "(nat \<times> 'f load_report) list \<Rightarrow> (sdk_error + 'r) option \<Rightarrow> bool" where
  "ready_only_at_end reports res \<longleftrightarrow>
     list_all (\<lambda>r. lr_phase (snd r) \<noteq> LoadReady) (butlast reports) \<and>
     (reports \<noteq> [] \<longrightarrow> (lr_phase (snd (last reports)) = LoadReady \<longleftrightarrow> (\<exists>v. res = Some (Inr v)))) \<and>
     (\<forall>v. res = Some (Inr v) \<longrightarrow> reports \<noteq> [] \<and>
        list_all (\<lambda>p. pp_phase p = LoadReady) (lr_packages (snd (last reports))))"

lemma ready_only_at_end_Cons:
  "ready_only_at_end rs res \<Longrightarrow> lr_phase (snd r) \<noteq> LoadReady \<Longrightarrow> ready_only_at_end (r # rs) res"
  by (auto simp: ready_only_at_end_def)

lemma observe_loop_ready:
  "observe_loop F opts prev sent ts = (reports, res) \<Longrightarrow> ready_only_at_end reports res"
proof (induction ts arbitrary: prev sent reports res)
  case (Cons t ts)
  let ?new = "snapshot F False (st_progress t)"
  consider (stop) "turn_cancelled opts t" | (result) r where "\<not> turn_cancelled opts t" "st_result t = Some r"
    | (report) "\<not> turn_cancelled opts t" "st_result t = None" "st_change t = Changed"
        "phase_changed ?new prev \<or> 100 \<le> st_now t - sent"
    | (skip) "\<not> turn_cancelled opts t" "st_result t = None"
        "\<not> (st_change t = Changed \<and> (phase_changed ?new prev \<or> 100 \<le> st_now t - sent))"
    by blast
  then show ?case
  proof cases
    case (result r)
    then have "reports = (if is_ok r then [(st_now t, snapshot F True (st_progress t))] else [])" "res = Some r"
      using Cons.prems by auto
    then show ?thesis by (cases r) (auto simp: ready_only_at_end_def snapshot_sel)
  next
    case report
    obtain rs res' where rs: "observe_loop F opts ?new (st_now t) ts = (rs, res')" by fastforce
    then have "reports = (st_now t, ?new) # rs" "res = res'"
      using Cons.prems report by (auto simp: Let_def)
    with Cons.IH [OF rs] show ?thesis
      by (simp add: ready_only_at_end_Cons snapshot_sel)
  next
    case skip
    then have "observe_loop F opts prev sent ts = (reports, res)"
      using Cons.prems by (cases "st_change t") (auto simp: Let_def)
    then show ?thesis by (rule Cons.IH)
  qed (use Cons.prems in \<open>auto simp: ready_only_at_end_def\<close>)
qed (auto simp: ready_only_at_end_def)

text \<open>Reports follow each other because a phase changed or because a tenth of a second passed.\<close>

abbreviation worth_reporting :: "nat \<times> 'f load_report \<Rightarrow> nat \<times> 'f load_report \<Rightarrow> bool" where
  "worth_reporting a b \<equiv> phase_changed (snd b) (snd a) \<or> 100 \<le> fst b - fst a"

lemma observe_loop_spaced:
  "observe_loop F opts prev sent ts = (reports, res) \<Longrightarrow> lr_phase prev \<noteq> LoadReady \<Longrightarrow>
   successively worth_reporting ((sent, prev) # reports)"
proof (induction ts arbitrary: prev sent reports res)
  case (Cons t ts)
  let ?new = "snapshot F False (st_progress t)"
  consider (stop) "turn_cancelled opts t" | (result) r where "\<not> turn_cancelled opts t" "st_result t = Some r"
    | (report) "\<not> turn_cancelled opts t" "st_result t = None" "st_change t = Changed"
        "phase_changed ?new prev \<or> 100 \<le> st_now t - sent"
    | (skip) "\<not> turn_cancelled opts t" "st_result t = None"
        "\<not> (st_change t = Changed \<and> (phase_changed ?new prev \<or> 100 \<le> st_now t - sent))"
    by blast
  then show ?case
  proof cases
    case (result r)
    then have "reports = (if is_ok r then [(st_now t, snapshot F True (st_progress t))] else [])"
      using Cons.prems by auto
    moreover have "phase_changed (snapshot F True (st_progress t)) prev"
      using Cons.prems(2) snapshot_sel(2) [of F True "st_progress t"] by (auto simp: phase_changed_def)
    ultimately show ?thesis by (cases r) auto
  next
    case report
    obtain rs res' where rs: "observe_loop F opts ?new (st_now t) ts = (rs, res')" by fastforce
    then have "reports = (st_now t, ?new) # rs"
      using Cons.prems report by (auto simp: Let_def)
    moreover have "successively worth_reporting ((st_now t, ?new) # rs)"
      by (rule Cons.IH [OF rs]) (simp add: snapshot_sel)
    ultimately show ?thesis using report by simp
  next
    case skip
    then have "observe_loop F opts prev sent ts = (reports, res)"
      using Cons.prems(1) by (cases "st_change t") (auto simp: Let_def)
    then show ?thesis using Cons.prems(2) by (rule Cons.IH)
  qed (use Cons.prems in auto)
qed simp

text \<open>After a change was seen the last report shows the current phases.\<close>

lemma observe_loop_current:
  assumes "observe_loop F opts prev sent (ts @ [t]) = (reports, None)" "st_change t = Changed"
  defines "now_shown \<equiv> snapshot F False (st_progress t)"
  shows "snd (last ((sent, prev) # reports)) = now_shown \<or>
    \<not> phase_changed now_shown (snd (last ((sent, prev) # reports)))"
  using assms(1)
proof (induction ts arbitrary: prev sent reports)
  case Nil
  then show ?case using assms(2)
    by (auto simp: Let_def now_shown_def split: if_splits option.splits prod.splits)
next
  case (Cons u us)
  let ?new = "snapshot F False (st_progress u)"
  have live: "\<not> turn_cancelled opts u" "st_result u = None"
    using Cons.prems by (auto split: if_splits option.splits)
  show ?case
  proof (cases "st_change u = Changed \<and> (phase_changed ?new prev \<or> 100 \<le> st_now u - sent)")
    case True
    obtain rs res' where rs: "observe_loop F opts ?new (st_now u) (us @ [t]) = (rs, res')" by fastforce
    then have "reports = (st_now u, ?new) # rs" "res' = None"
      using Cons.prems live True by (auto simp: Let_def)
    with Cons.IH [of ?new "st_now u" rs] rs show ?thesis by simp
  next
    case False
    then have "observe_loop F opts prev sent (us @ [t]) = (reports, None)"
      using Cons.prems live by (cases "st_change u") (auto simp: Let_def)
    then show ?thesis by (rule Cons.IH)
  qed
qed

text \<open>C14: Observing a load does not change its outcome, and what the observer is told is honest: ready is
  reported exactly once, as the last report of a load that succeeded (never after a cancellation or a
  failure), with every package ready; a load that was already cancelled reports nothing; two successive
  reports differ in a phase or are a tenth of a second apart; and when a change was seen, the last report
  shows the current phases.\<close>

theorem observed_reports:
  assumes "observe F (on_progress opts) (Some st) now ts = (reports, res)"
  shows "res = snd (observe F opts None now ts) \<and>
    (if (\<exists>c. lo_cancellation opts = Some c \<and> is_cancelled c) then reports = [] \<and> res = Some (Inl Cancelled)
     else reports \<noteq> [] \<and> hd reports = (now, snapshot F False st) \<and>
       ready_only_at_end reports res \<and> successively worth_reporting reports \<and>
       (\<forall>ts' t. ts = ts' @ [t] \<and> res = None \<and> st_change t = Changed \<longrightarrow>
          snd (last reports) = snapshot F False (st_progress t) \<or>
          \<not> phase_changed (snapshot F False (st_progress t)) (snd (last reports))))"
proof (cases "\<exists>c. lo_cancellation opts = Some c \<and> is_cancelled c")
  case True
  then show ?thesis using assms by (auto simp: observe_def on_progress_def)
next
  case False
  let ?first = "snapshot F False st"
  have tc: "turn_cancelled (on_progress opts) t = turn_cancelled opts t" for t :: "('a, 'b) select_turn"
    by (simp add: turn_cancelled_def on_progress_def)
  have plain: "plain_loop (on_progress opts) ts = plain_loop opts ts" for ts :: "('a, 'b) select_turn list"
    by (induction ts) (auto simp: tc split: option.split)
  obtain rs where rs: "observe_loop F (on_progress opts) ?first now ts = (rs, res)" "reports = (now, ?first) # rs"
    using assms False by (auto simp: observe_def on_progress_def Let_def split: prod.splits option.splits if_splits)
  have "res = snd (observe F opts None now ts)"
    using observe_loop_result [of F "on_progress opts" ?first now ts] rs(1) False
    by (auto simp: observe_def plain split: option.split)
  moreover have "ready_only_at_end reports res"
    unfolding rs(2) by (rule ready_only_at_end_Cons [OF observe_loop_ready [OF rs(1)]]) (simp add: snapshot_sel)
  moreover have "successively worth_reporting reports"
    unfolding rs(2) by (rule observe_loop_spaced [OF rs(1)]) (simp add: snapshot_sel)
  moreover have "snd (last reports) = snapshot F False (st_progress t) \<or>
      \<not> phase_changed (snapshot F False (st_progress t)) (snd (last reports))"
    if "ts = ts' @ [t]" "res = None" "st_change t = Changed" for ts' t
    using observe_loop_current [of F "on_progress opts" ?first now ts' t rs] rs that by simp
  ultimately show ?thesis using False rs(2) by auto
qed

section \<open>Sharing acquisitions\<close>

text \<open>An acquisition is the shared future of one download with the channel of its updates; callers
  hold it, the table of flights refers to it weakly. \<open>upgrade\<close> is the weak reference's upgrade, a
  parameter: it succeeds exactly while a caller holds the future. \<open>aq_asked\<close> counts how often the inner
  loader was asked.\<close>

record ('h, 'c) acquisition =
  aq_hash :: 'h
  aq_asked :: nat
  aq_update :: "download_update option"
  aq_result :: "(string + 'c) option"

record ('f, 'i, 'h) load_caller =
  cl_summary :: "('i, 'h) package_summary"
  cl_acq :: nat
  cl_progress :: "'f progress_state option"

record ('f, 'i, 'h, 'c) shared_loader =
  ld_flights :: "'h \<Rightarrow> nat option"
  ld_acqs :: "nat \<Rightarrow> ('h, 'c) acquisition option"
  ld_next :: nat
  ld_callers :: "nat \<Rightarrow> ('f, 'i, 'h) load_caller option"
  ld_returned :: "nat \<Rightarrow> (nat \<times> (string + 'c)) option"

type_synonym ('f, 'i, 'h) upgrade = "(nat \<Rightarrow> ('f, 'i, 'h) load_caller option) \<Rightarrow> nat \<Rightarrow> bool"

definition weak_upgrade :: "('f, 'i, 'h) upgrade \<Rightarrow> bool" where
  "weak_upgrade upgrade \<longleftrightarrow> (\<forall>callers n. upgrade callers n \<longleftrightarrow> (\<exists>c k. callers c = Some k \<and> cl_acq k = n))"

definition loader_new :: "('f, 'i, 'h, 'c) shared_loader" where
  "loader_new = \<lparr>ld_flights = Map.empty, ld_acqs = Map.empty, ld_next = 0, ld_callers = Map.empty, ld_returned = Map.empty\<rparr>"

text \<open>Joining a live flight or starting a new one, in one step under the lock of the table.\<close>

definition load_begin ::
    "('f, 'i, 'h) upgrade \<Rightarrow> nat \<Rightarrow> ('i, 'h) package_summary \<Rightarrow> 'f progress_state option \<Rightarrow>
     ('f, 'i, 'h, 'c) shared_loader \<Rightarrow> ('f, 'i, 'h, 'c) shared_loader" where
  "load_begin upgrade c s progress L =
     (let alive = upgrade (ld_callers L);
          join = (\<lambda>n. (ld_callers L)(c \<mapsto> \<lparr>cl_summary = s, cl_acq = n, cl_progress = progress\<rparr>));
          found = (case ld_flights L (sum_hash s) of Some n \<Rightarrow> if alive n then Some n else None | None \<Rightarrow> None)
      in case found of
           Some n \<Rightarrow> L\<lparr>ld_callers := join n\<rparr>
         | None \<Rightarrow>
             (let n = ld_next L;
                  kept = (\<lambda>h. case ld_flights L h of Some m \<Rightarrow> if alive m then Some m else None | None \<Rightarrow> None)
              in L\<lparr>ld_flights := kept(sum_hash s \<mapsto> n),
                   ld_acqs := (ld_acqs L)(n \<mapsto> \<lparr>aq_hash = sum_hash s, aq_asked = 0, aq_update = None, aq_result = None\<rparr>),
                   ld_next := n + 1, ld_callers := join n\<rparr>))"

text \<open>A caller takes the latest update of its acquisition into its progress.\<close>

definition note_update ::
    "'f f64_ops \<Rightarrow> ('i, 'h) names \<Rightarrow> download_update option \<Rightarrow> ('f, 'i, 'h) load_caller \<Rightarrow> ('f, 'i, 'h) load_caller" where
  "note_update F N u k =
     (case u of None \<Rightarrow> k
      | Some u' \<Rightarrow> k\<lparr>cl_progress := map_option (progress_update F N (cl_summary k) u') (cl_progress k)\<rparr>)"

definition final_update :: "download_update option \<Rightarrow> download_update" where
  "final_update u = (case u of Some u' \<Rightarrow> u'
     | None \<Rightarrow> \<lparr>du_phase = PD_Ready, du_downloaded = 0, du_total = Some 0, du_cached = False\<rparr>)"

text \<open>One turn of a caller's loop in which the shared future is polled: the first poll asks the inner
  loader; once the result is there the caller returns it, after a last update of its progress, which the
  observer's report reads.\<close>

definition caller_poll ::
    "'f f64_ops \<Rightarrow> ('i, 'h) names \<Rightarrow> nat \<Rightarrow> ('f, 'i, 'h, 'c) shared_loader \<Rightarrow>
     ('f, 'i, 'h, 'c) shared_loader \<times> (('f, 'i, 'h) load_caller \<times> (string + 'c)) option" where
  "caller_poll F N c L =
     (case ld_callers L c of
        None \<Rightarrow> (L, None)
      | Some k \<Rightarrow>
          (case ld_acqs L (cl_acq k) of
             None \<Rightarrow> (L, None)
           | Some a \<Rightarrow>
               (let k1 = note_update F N (aq_update a) k
                in case aq_result a of
                     None \<Rightarrow> (L\<lparr>ld_acqs := (ld_acqs L)(cl_acq k \<mapsto>
                                 a\<lparr>aq_asked := (if aq_asked a = 0 then 1 else aq_asked a)\<rparr>),
                               ld_callers := (ld_callers L)(c \<mapsto> k1)\<rparr>, None)
                   | Some r \<Rightarrow> (L\<lparr>ld_callers := (ld_callers L)(c := None),
                                ld_returned := (ld_returned L)(c \<mapsto> (cl_acq k, r))\<rparr>,
                              Some (note_update F N (Some (final_update (aq_update a))) k1, r)))))"

definition caller_drop :: "nat \<Rightarrow> ('f, 'i, 'h, 'c) shared_loader \<Rightarrow> ('f, 'i, 'h, 'c) shared_loader" where
  "caller_drop c L = L\<lparr>ld_callers := (ld_callers L)(c := None)\<rparr>"

inductive loader_step ::
    "('f, 'i, 'h) upgrade \<Rightarrow> 'f f64_ops \<Rightarrow> ('i, 'h) names \<Rightarrow>
     ('f, 'i, 'h, 'c) shared_loader \<Rightarrow> ('f, 'i, 'h, 'c) shared_loader \<Rightarrow> bool"
  for upgrade F N where
  ls_begin: "ld_callers L c = None \<Longrightarrow> ld_returned L c = None \<Longrightarrow>
     loader_step upgrade F N L (load_begin upgrade c s progress L)"
| ls_poll: "loader_step upgrade F N L (fst (caller_poll F N c L))"
| ls_drop: "loader_step upgrade F N L (caller_drop c L)"
| ls_inner_update: "ld_acqs L n = Some a \<Longrightarrow> aq_asked a \<noteq> 0 \<Longrightarrow> aq_result a = None \<Longrightarrow>
     loader_step upgrade F N L (L\<lparr>ld_acqs := (ld_acqs L)(n \<mapsto> a\<lparr>aq_update := Some u\<rparr>)\<rparr>)"
| ls_inner_done: "ld_acqs L n = Some a \<Longrightarrow> aq_asked a \<noteq> 0 \<Longrightarrow> aq_result a = None \<Longrightarrow>
     loader_step upgrade F N L (L\<lparr>ld_acqs := (ld_acqs L)(n \<mapsto> a\<lparr>aq_result := Some r\<rparr>)\<rparr>)"

definition acqs_ok :: "('f, 'i, 'h, 'c) shared_loader \<Rightarrow> bool" where
  "acqs_ok L \<longleftrightarrow> (\<forall>n a. ld_acqs L n = Some a \<longrightarrow>
     n < ld_next L \<and> aq_asked a \<le> 1 \<and> (aq_result a \<noteq> None \<longrightarrow> aq_asked a = 1))"

definition flight_of :: "('f, 'i, 'h, 'c) shared_loader \<Rightarrow> 'h \<Rightarrow> nat \<Rightarrow> bool" where
  "flight_of L h n \<longleftrightarrow> ld_flights L h = Some n \<and> (\<exists>a. ld_acqs L n = Some a \<and> aq_hash a = h)"

definition loader_inv :: "('f, 'i, 'h, 'c) shared_loader \<Rightarrow> bool" where
  "loader_inv L \<longleftrightarrow> acqs_ok L \<and>
     (\<forall>h n. ld_flights L h = Some n \<longrightarrow> flight_of L h n) \<and>
     (\<forall>c k. ld_callers L c = Some k \<longrightarrow> flight_of L (sum_hash (cl_summary k)) (cl_acq k)) \<and>
     (\<forall>c n r. ld_returned L c = Some (n, r) \<longrightarrow> (\<exists>a. ld_acqs L n = Some a \<and> aq_result a = Some r))"

lemma loader_invD:
  assumes "loader_inv L"
  shows "acqs_ok L" "ld_flights L h = Some n \<Longrightarrow> flight_of L h n"
    "ld_callers L c = Some k \<Longrightarrow> flight_of L (sum_hash (cl_summary k)) (cl_acq k)"
    "ld_returned L c = Some (n, r) \<Longrightarrow> \<exists>a. ld_acqs L n = Some a \<and> aq_result a = Some r"
  using assms unfolding loader_inv_def by blast+

lemma acqs_okD:
  assumes "acqs_ok L" "ld_acqs L n = Some a"
  shows "n < ld_next L" "aq_asked a \<le> 1" "aq_result a \<noteq> None \<Longrightarrow> aq_asked a = 1"
  using assms unfolding acqs_ok_def by blast+

lemma note_update_sel [simp]:
  "cl_summary (note_update F N u k) = cl_summary k" "cl_acq (note_update F N u k) = cl_acq k"
  by (simp_all add: note_update_def split: option.split)

lemma load_begin_join:
  assumes "ld_flights L (sum_hash s) = Some n" "upgrade (ld_callers L) n"
  shows "load_begin upgrade c s p L =
    L\<lparr>ld_callers := (ld_callers L)(c \<mapsto> \<lparr>cl_summary = s, cl_acq = n, cl_progress = p\<rparr>)\<rparr>"
  using assms by (simp add: load_begin_def Let_def)

lemma load_begin_inv:
  assumes inv: "loader_inv L" and up: "weak_upgrade upgrade"
  shows "loader_inv (load_begin upgrade c s progress L)"
proof (cases "\<exists>n. ld_flights L (sum_hash s) = Some n \<and> upgrade (ld_callers L) n")
  case True
  then obtain n where n: "ld_flights L (sum_hash s) = Some n" "upgrade (ld_callers L) n" by blast
  show ?thesis
    unfolding load_begin_join [where L = L and upgrade = upgrade and s = s and n = n, OF n]
    using inv loader_invD(2) [OF inv n(1)]
    by (simp add: loader_inv_def acqs_ok_def flight_of_def)
next
  case False
  let ?L = "load_begin upgrade c s progress L" and ?n = "ld_next L"
  have new: "ld_acqs ?L = (ld_acqs L)(?n \<mapsto> \<lparr>aq_hash = sum_hash s, aq_asked = 0, aq_update = None, aq_result = None\<rparr>)"
      "ld_next ?L = ?n + 1" "ld_returned ?L = ld_returned L"
      "ld_callers ?L = (ld_callers L)(c \<mapsto> \<lparr>cl_summary = s, cl_acq = ?n, cl_progress = progress\<rparr>)"
      "ld_flights ?L = (\<lambda>h. case ld_flights L h of Some m \<Rightarrow> if upgrade (ld_callers L) m then Some m else None | None \<Rightarrow> None)(sum_hash s \<mapsto> ?n)"
    using False by (auto simp: load_begin_def Let_def split: option.split)
  have old: "n \<noteq> ?n" if "ld_acqs L n = Some a" for n a
    using acqs_okD(1) [OF loader_invD(1) [OF inv] that] by simp
  have "acqs_ok ?L"
    using loader_invD(1) [OF inv] by (auto simp: acqs_ok_def new less_Suc_eq)
  moreover have "flight_of ?L h m" if "ld_flights ?L h = Some m" for h m
  proof (cases "h = sum_hash s")
    case False
    then have "flight_of L h m" using that loader_invD(2) [OF inv, of h m]
      by (auto simp: new split: option.splits if_splits)
    then show ?thesis using that old by (auto simp: flight_of_def new)
  qed (use that in \<open>auto simp: flight_of_def new\<close>)
  moreover have "flight_of ?L (sum_hash (cl_summary k)) (cl_acq k)" if k: "ld_callers ?L d = Some k" for d k
  proof (cases "d = c")
    case False
    then have d: "ld_callers L d = Some k" using k by (simp add: new)
    then have fl: "flight_of L (sum_hash (cl_summary k)) (cl_acq k)" by (rule loader_invD(3) [OF inv])
    have "upgrade (ld_callers L) (cl_acq k)" using up d by (auto simp: weak_upgrade_def)
    moreover from this have "sum_hash (cl_summary k) \<noteq> sum_hash s"
      using fl \<open>\<not> (\<exists>n. ld_flights L (sum_hash s) = Some n \<and> upgrade (ld_callers L) n)\<close> by (auto simp: flight_of_def)
    ultimately show ?thesis using fl old by (auto simp: flight_of_def new)
  qed (use k in \<open>auto simp: flight_of_def new\<close>)
  moreover have "\<exists>a. ld_acqs ?L m = Some a \<and> aq_result a = Some r" if "ld_returned ?L d = Some (m, r)" for d m r
    using loader_invD(4) [OF inv, of d m r] that old by (auto simp: new)
  ultimately show ?thesis unfolding loader_inv_def by blast
qed

text \<open>Steps that change one acquisition without its hash, and callers without their acquisition.\<close>

lemma loader_inv_acq:
  assumes inv: "loader_inv L" and a: "ld_acqs L n = Some a"
    and b: "aq_hash b = aq_hash a" "aq_asked b \<le> 1" "aq_result b \<noteq> None \<Longrightarrow> aq_asked b = 1"
      "aq_result a = None \<or> aq_result b = aq_result a"
  shows "loader_inv (L\<lparr>ld_acqs := (ld_acqs L)(n \<mapsto> b)\<rparr>)"
proof -
  let ?L = "L\<lparr>ld_acqs := (ld_acqs L)(n \<mapsto> b)\<rparr>"
  have "acqs_ok ?L"
    using loader_invD(1) [OF inv] acqs_okD(1) [OF loader_invD(1) [OF inv] a] b by (auto simp: acqs_ok_def)
  moreover have fl: "flight_of ?L h m = flight_of L h m" for h m
    using a b(1) by (auto simp: flight_of_def)
  moreover have "\<exists>a'. ld_acqs ?L m = Some a' \<and> aq_result a' = Some r" if "ld_returned L d = Some (m, r)" for d m r
    using loader_invD(4) [OF inv that] a b(4) by (cases "m = n") auto
  ultimately show ?thesis using inv unfolding loader_inv_def fl by simp
qed

lemma loader_inv_callers:
  assumes inv: "loader_inv L"
    and k: "\<And>d k. callers d = Some k \<Longrightarrow> \<exists>d' k'. ld_callers L d' = Some k' \<and> cl_summary k' = cl_summary k \<and> cl_acq k' = cl_acq k"
  shows "loader_inv (L\<lparr>ld_callers := callers\<rparr>)"
proof -
  have "flight_of L (sum_hash (cl_summary k)) (cl_acq k)" if "callers d = Some k" for d k
    using k [OF that] loader_invD(3) [OF inv] by metis
  then show ?thesis using inv by (simp add: loader_inv_def acqs_ok_def flight_of_def)
qed

lemma caller_drop_inv: "loader_inv L \<Longrightarrow> loader_inv (caller_drop c L)"
  unfolding caller_drop_def by (rule loader_inv_callers) (auto split: if_splits)

lemma caller_poll_inv:
  assumes inv: "loader_inv L"
  shows "loader_inv (fst (caller_poll F N c L))"
proof (cases "ld_callers L c")
  case (Some k)
  then obtain a where a: "ld_acqs L (cl_acq k) = Some a"
    using loader_invD(3) [OF inv] by (auto simp: flight_of_def)
  note ok = acqs_okD [OF loader_invD(1) [OF inv] a]
  show ?thesis
  proof (cases "aq_result a")
    case None
    let ?b = "a\<lparr>aq_asked := (if aq_asked a = 0 then 1 else aq_asked a)\<rparr>"
    let ?callers = "(ld_callers L)(c \<mapsto> note_update F N (aq_update a) k)"
    have "loader_inv (L\<lparr>ld_acqs := (ld_acqs L)(cl_acq k \<mapsto> ?b)\<rparr>)"
      by (rule loader_inv_acq [OF inv a]) (use ok(2) None in auto)
    then have "loader_inv (L\<lparr>ld_acqs := (ld_acqs L)(cl_acq k \<mapsto> ?b)\<rparr>\<lparr>ld_callers := ?callers\<rparr>)"
    proof (rule loader_inv_callers)
      fix d k' assume "?callers d = Some k'"
      then have "ld_callers L d = Some (if d = c then k else k')"
          "cl_summary (if d = c then k else k') = cl_summary k'" "cl_acq (if d = c then k else k') = cl_acq k'"
        using Some by (auto split: if_splits)
      then show "\<exists>d' k''. ld_callers (L\<lparr>ld_acqs := (ld_acqs L)(cl_acq k \<mapsto> ?b)\<rparr>) d' = Some k'' \<and>
          cl_summary k'' = cl_summary k' \<and> cl_acq k'' = cl_acq k'"
        by (intro exI [of _ d] exI [of _ "if d = c then k else k'"]) simp
    qed
    moreover have "fst (caller_poll F N c L) = L\<lparr>ld_acqs := (ld_acqs L)(cl_acq k \<mapsto> ?b)\<rparr>\<lparr>ld_callers := ?callers\<rparr>"
      using Some a None by (simp add: caller_poll_def Let_def)
    ultimately show ?thesis by (simp only:)
  next
    case r: (Some r)
    have "loader_inv (L\<lparr>ld_callers := (ld_callers L)(c := None)\<rparr>)"
      by (rule loader_inv_callers [OF inv]) (auto split: if_splits)
    then have "loader_inv (L\<lparr>ld_callers := (ld_callers L)(c := None), ld_returned := (ld_returned L)(c \<mapsto> (cl_acq k, r))\<rparr>)"
      using a r by (simp add: loader_inv_def acqs_ok_def flight_of_def)
    then show ?thesis using Some a r by (simp add: caller_poll_def Let_def)
  qed
qed (use inv in \<open>simp add: caller_poll_def\<close>)

lemma loader_step_inv:
  assumes "loader_step upgrade F N L L'" "loader_inv L" "weak_upgrade upgrade"
  shows "loader_inv L'"
  using assms
proof (induction rule: loader_step.induct)
  case (ls_inner_update L n a u)
  then show ?case
    by (intro loader_inv_acq [where a = a]) (auto dest: acqs_okD [OF loader_invD(1)])
next
  case (ls_inner_done L n a r)
  then show ?case
    using acqs_okD(2) [OF loader_invD(1), of L n a] by (intro loader_inv_acq [where a = a]) auto
qed (auto intro: load_begin_inv caller_poll_inv caller_drop_inv)

text \<open>C13: Concurrent loads of one package share one acquisition: in every reachable state of the loader two
  callers that wait for the same hash hold the same acquisition, which is of that hash; the inner loader
  is asked at most once per acquisition; and every caller that returned got its acquisition's result, so
  callers that shared it agree.\<close>

theorem loads_share_acquisition:
  assumes "weak_upgrade upgrade" "reachable (\<lambda>L. L = loader_new) (loader_step upgrade F N) L"
  shows "(\<forall>c d k k'. ld_callers L c = Some k \<and> ld_callers L d = Some k' \<and>
       sum_hash (cl_summary k) = sum_hash (cl_summary k') \<longrightarrow> cl_acq k = cl_acq k') \<and>
    (\<forall>c k. ld_callers L c = Some k \<longrightarrow>
       (\<exists>a. ld_acqs L (cl_acq k) = Some a \<and> aq_hash a = sum_hash (cl_summary k))) \<and>
    (\<forall>n a. ld_acqs L n = Some a \<longrightarrow> aq_asked a \<le> 1) \<and>
    (\<forall>c d n r r'. ld_returned L c = Some (n, r) \<and> ld_returned L d = Some (n, r') \<longrightarrow> r = r')"
proof -
  have start: "loader_inv loader_new" by (simp add: loader_inv_def acqs_ok_def loader_new_def)
  have inv: "loader_inv L"
    using assms(2) by (induction rule: reachable.induct) (auto simp: start intro: loader_step_inv [OF _ _ assms(1)])
  have "cl_acq k = cl_acq k'"
    if "ld_callers L c = Some k" "ld_callers L d = Some k'" "sum_hash (cl_summary k) = sum_hash (cl_summary k')" for c d k k'
    using loader_invD(3) [OF inv that(1)] loader_invD(3) [OF inv that(2)] that(3) by (simp add: flight_of_def)
  moreover have "\<exists>a. ld_acqs L (cl_acq k) = Some a \<and> aq_hash a = sum_hash (cl_summary k)" if "ld_callers L c = Some k" for c k
    using loader_invD(3) [OF inv that] by (simp add: flight_of_def)
  moreover have "r = r'" if "ld_returned L c = Some (n, r)" "ld_returned L d = Some (n, r')" for c d n r r'
    using loader_invD(4) [OF inv that(1)] loader_invD(4) [OF inv that(2)] by auto
  ultimately show ?thesis using acqs_okD(2) [OF loader_invD(1) [OF inv]] by blast
qed

section \<open>Witnesses\<close>

text \<open>Arithmetic on natural numbers, and identifiers and hashes that are texts.\<close>

definition nat_f64 :: "nat f64_ops" where
  "nat_f64 = \<lparr>f_hundred = 100, f_of_u64 = (\<lambda>n. n), f_mul = (*), f_div = (div)\<rparr>"

definition text_names :: "(string, string) names" where
  "text_names = \<lparr>show_id = (\<lambda>i. i), show_hash = (\<lambda>h. h)\<rparr>"

definition demo_summary :: "(string, string) package_summary" where
  "demo_summary = \<lparr>sum_id = ''python'', sum_hash = ''ab12''\<rparr>"

definition demo_update :: download_update where
  "demo_update = \<lparr>du_phase = PD_Downloading, du_downloaded = 20, du_total = Some 90, du_cached = False\<rparr>"

definition demo_progress :: "nat progress_state" where
  "demo_progress = progress_update nat_f64 text_names demo_summary demo_update (progress_new 0)"

lemma demo_progress_eq:
  "demo_progress = \<lparr>ps_resolving = 0, ps_packages = [(''ab12'', \<lparr>pp_id = ''python'', pp_phase = Downloading,
     pp_cached = False, pp_download = download_new nat_f64 20 (Some 90)\<rparr>)]\<rparr>"
  by (simp add: demo_progress_def progress_update_def register_def progress_new_def text_names_def demo_summary_def
    demo_update_def Let_def)

lemma snapshot_aggregate_witness:
  "progress_reached nat_f64 listed_binary text_names demo_progress \<and>
   dp_downloaded (lr_download (snapshot nat_f64 False demo_progress)) = 20 \<and>
   dp_total (lr_download (snapshot nat_f64 False demo_progress)) = Some 90"
proof -
  have "progress_reached nat_f64 listed_binary text_names demo_progress"
    unfolding demo_progress_def by (rule reached_update) (rule reached_new)
  moreover have "ps_resolving demo_progress = 0" "totals_known (bt_values (ps_packages demo_progress))"
      "totals_of_all (bt_values (ps_packages demo_progress)) = 90" "bytes_of_all (bt_values (ps_packages demo_progress)) = 20"
    by (simp_all add: demo_progress_eq bt_values_def totals_known_def totals_of_all_def bytes_of_all_def download_new_def)
  ultimately show ?thesis
    using snapshot_aggregate [of nat_f64 listed_binary text_names demo_progress False]
    by (simp add: u64_max_def)
qed

text \<open>A load that reports a change and then succeeds.\<close>

definition demo_turns :: "(nat, nat) select_turn list" where
  "demo_turns =
     [\<lparr>st_token = cancellation_new, st_result = None, st_progress = demo_progress, st_change = Changed, st_now = 5\<rparr>,
      \<lparr>st_token = cancellation_new, st_result = Some (Inr 7), st_progress = demo_progress, st_change = NoChange, st_now = 9\<rparr>]"

lemma observed_reports_witness:
  "\<exists>reports. observe nat_f64 (on_progress load_options_default) (Some (progress_new 1)) 0 demo_turns = (reports, Some (Inr 7)) \<and>
     map (\<lambda>r. lr_phase (snd r)) reports = [Resolving, Downloading, LoadReady] \<and> ready_only_at_end reports (Some (Inr (7::nat)))"
proof -
  define o1 where "o1 = observe nat_f64 (on_progress load_options_default) (Some (progress_new 1)) 0 demo_turns"
  have vals: "snd o1 = Some (Inr 7)" "map (\<lambda>r. lr_phase (snd r)) (fst o1) = [Resolving, Downloading, LoadReady]"
    by (simp_all add: o1_def observe_def on_progress_def load_options_default_def demo_turns_def turn_cancelled_def Let_def
      snapshot_def demo_progress_eq bt_values_def progress_new_def phase_changed_def)
  then have "observe nat_f64 (on_progress load_options_default) (Some (progress_new 1)) 0 demo_turns = (fst o1, Some (Inr 7))"
    unfolding o1_def [symmetric] by (metis prod.collapse)
  from observed_reports [OF this] this vals(2) show ?thesis
    by (auto simp: load_options_default_def)
qed

text \<open>Two callers of one hash.\<close>

definition demo_upgrade :: "(nat, string, string) upgrade" where
  "demo_upgrade callers n \<longleftrightarrow> (\<exists>c k. callers c = Some k \<and> cl_acq k = n)"

definition demo_loader :: "(nat, string, string, nat) shared_loader" where
  "demo_loader = load_begin demo_upgrade 1 demo_summary None (load_begin demo_upgrade 0 demo_summary None loader_new)"

lemma loads_share_acquisition_witness:
  "weak_upgrade demo_upgrade \<and> (\<exists>k k'. ld_callers demo_loader 0 = Some k \<and> ld_callers demo_loader 1 = Some k' \<and>
     cl_summary k = cl_summary k' \<and> cl_acq k = cl_acq k')"
proof -
  have up: "weak_upgrade demo_upgrade" by (simp add: weak_upgrade_def demo_upgrade_def)
  let ?L1 = "load_begin demo_upgrade 0 demo_summary None loader_new :: (nat, string, string, nat) shared_loader"
  have L1: "reachable (\<lambda>L. L = loader_new) (loader_step demo_upgrade nat_f64 text_names) ?L1"
    by (rule reach_step, rule reach_init, rule refl, rule ls_begin) (simp_all add: loader_new_def)
  have "ld_callers ?L1 1 = None" "ld_returned ?L1 1 = None"
    by (simp_all add: load_begin_def loader_new_def)
  then have reach: "reachable (\<lambda>L. L = loader_new) (loader_step demo_upgrade nat_f64 text_names) demo_loader"
    unfolding demo_loader_def by (intro reach_step [OF L1] ls_begin)
  have "\<exists>k. ld_callers demo_loader 0 = Some k \<and> cl_summary k = demo_summary"
      "\<exists>k. ld_callers demo_loader 1 = Some k \<and> cl_summary k = demo_summary"
    by (simp_all add: demo_loader_def load_begin_def loader_new_def Let_def split: option.split)
  with loads_share_acquisition [OF up reach] up show ?thesis by metis
qed

end
