(* ===== verification/Client.thy ===== *)
theory Client
  imports Package_Progress Package_Definition Paths
begin

text \<open>
  The client (rust/src/client.rs): its creation with the cache directories, the closed flag, loading
  a package from each kind of source, the cache of registry packages that concurrent loads share, and
  loading many packages under observation. Resolving and reading packages is third-party code: the
  record \<open>acquire_ops\<close> holds what the code calls, and a load that has to await it is split into the
  part before (\<open>start_load\<close>) and after (\<open>finish_load\<close>), between which other loads run.
\<close>

section \<open>Configuration and creation\<close>

record wasmer_config =
  cfg_cache_root :: string
  cfg_output_bytes :: usize

definition config_default :: wasmer_config where
  "config_default = \<lparr>cfg_cache_root = ''.wasmer'', cfg_output_bytes = 16 * 1024 * 1024\<rparr>"

record 'b client =
  ct_output_bytes :: usize
  ct_registry :: "string \<Rightarrow> 'b package option"
  ct_poisoned :: bool
  ct_closed :: bool
  ct_next_arc :: nat

definition client_new :: "wasmer_config \<Rightarrow> 'b client" where
  "client_new config = \<lparr>ct_output_bytes = cfg_output_bytes config, ct_registry = Map.empty, ct_poisoned = False,
     ct_closed = False, ct_next_arc = 0\<rparr>"

text \<open>What creation asks of the host: whether there is an HTTP client, the current directory, creating a
  directory and building the async runtime (an error's text, or success), and the target's names.\<close>

record host_ops =
  ho_http_client :: bool
  ho_current_dir :: "string + string"
  ho_create_dir_all :: "string \<Rightarrow> string + unit"
  ho_runtime :: "string + unit"
  ho_arch :: string
  ho_os :: string
  ho_family :: string

definition absolutize :: "host_ops \<Rightarrow> string \<Rightarrow> sdk_error + string" where
  "absolutize H path =
     (if has_root path then Inr path
      else map_err (\<lambda>e. Initialization (''unable to determine the current directory: '' @ e))
             (map_ok (\<lambda>current. path_push current path) (ho_current_dir H)))"

definition target_identity :: "host_ops \<Rightarrow> string" where
  "target_identity H = ho_arch H @ ''-'' @ ho_os H @ ''-'' @ ho_family H"

definition engine_identity :: string where
  "engine_identity = ''cranelift''"

fun create_dirs :: "host_ops \<Rightarrow> string list \<Rightarrow> sdk_error + unit" where
  "create_dirs H [] = Inr ()"
| "create_dirs H (d # ds) =
     bind_res (map_err (\<lambda>e. Initialization (''unable to create cache directory `'' @ d @ ''`: '' @ e)) (ho_create_dir_all H d))
       (\<lambda>_. create_dirs H ds)"

record cache_layout =
  cache_packages :: string
  cache_registry :: string
  cache_compiled :: string

definition cache_dirs :: "host_ops \<Rightarrow> string \<Rightarrow> cache_layout" where
  "cache_dirs H root =
     (let base = path_push root ''cache-v1''
      in \<lparr>cache_packages = path_push base ''packages'', cache_registry = path_push base ''registry'',
          cache_compiled = path_push (path_push (path_push base ''compiled'') (target_identity H)) engine_identity\<rparr>)"

definition new_with_http_client :: "host_ops \<Rightarrow> wasmer_config \<Rightarrow> sdk_error + 'b client \<times> cache_layout" where
  "new_with_http_client H config =
     bind_res (absolutize H (cfg_cache_root config)) (\<lambda>root.
       let dirs = cache_dirs H root
       in bind_res (create_dirs H [cache_packages dirs, cache_registry dirs, cache_compiled dirs]) (\<lambda>_.
          bind_res (map_err (\<lambda>e. Initialization (''unable to create the runtime: '' @ e)) (ho_runtime H)) (\<lambda>_.
            Inr (client_new config, dirs))))"

definition no_http_client :: sdk_error where
  "no_http_client = Initialization ''this target has no default HTTP client''"

definition with_config :: "host_ops \<Rightarrow> wasmer_config \<Rightarrow> sdk_error + 'b client \<times> cache_layout" where
  "with_config H config = (if ho_http_client H then new_with_http_client H config else Inl no_http_client)"

definition wasmer_new :: "host_ops \<Rightarrow> sdk_error + 'b client \<times> cache_layout" where
  "wasmer_new H = with_config H config_default"

definition from_js_runtime :: "host_ops \<Rightarrow> wasmer_config \<Rightarrow> sdk_error + 'b client" where
  "from_js_runtime H config = (if ho_http_client H then Inr (client_new config) else Inl no_http_client)"

section \<open>Closing\<close>

definition client_shutdown :: "'b client \<Rightarrow> 'b client" where
  "client_shutdown c = c\<lparr>ct_closed := True\<rparr>"

definition client_ensure_open :: "'b client \<Rightarrow> sdk_error + unit" where
  "client_ensure_open c = (if ct_closed c then Inl ClientClosed else Inr ())"

section \<open>Loading one package\<close>

record ('b, 'f, 'spec, 'c) acquire_ops =
  ac_parse :: "string \<Rightarrow> string + 'spec"
  ac_spec_text :: "'spec \<Rightarrow> string"
  ac_is_dir :: "string \<Rightarrow> bool"
  ac_from_disk :: "string \<Rightarrow> string + 'c"
  ac_from_bytes :: "byte list \<Rightarrow> string + 'c"
  ac_sha256 :: "byte list \<Rightarrow> byte list"
  ac_parse_module :: "byte list \<Rightarrow> (string + payload) list"
  ac_mem_fs :: "'f mem_fs_ops"
  ac_binary :: "'f binary_package \<Rightarrow> 'b"

text \<open>What an unfinished load awaits.\<close>

datatype ('spec, 'c) fetch = FetchRegistry 'spec | FetchDir string | FetchWebc 'c

datatype ('b, 'spec, 'c) load_start =
    Finished "sdk_error + 'b package"
  | Fetching "('spec, 'c) fetch" (fetch_label: string) (fetch_key: "string option")

definition from_binary :: "'b \<Rightarrow> 'b client \<Rightarrow> 'b package \<times> 'b client" where
  "from_binary binary c =
     (\<lparr>pkg_arc = ct_next_arc c, pkg_binary = binary\<rparr>, c\<lparr>ct_next_arc := ct_next_arc c + 1\<rparr>)"

definition cache_poisoned :: sdk_error where
  "cache_poisoned = InternalState ''the loaded-package cache lock is poisoned''"

definition wasm_magic :: "byte list" where
  "wasm_magic = [0, 0x61, 0x73, 0x6d]"

definition note_local ::
    "'x f64_ops \<Rightarrow> ('b, 'i) binary_ops \<Rightarrow> bool \<Rightarrow> 'b package \<Rightarrow> 'x progress_state option \<Rightarrow> 'x progress_state option" where
  "note_local F B cached p progress = map_option (progress_local F B p cached) progress"

text \<open>A raw module becomes a package at once.\<close>

definition load_module ::
    "'x f64_ops \<Rightarrow> ('b, 'i) binary_ops \<Rightarrow> ('b, 'f, 'spec, 'c) acquire_ops \<Rightarrow> byte list \<Rightarrow> (string, byte list) btree \<Rightarrow> bool \<Rightarrow>
     'b client \<Rightarrow> 'x progress_state option \<Rightarrow> ('b, 'spec, 'c) load_start \<times> 'b client \<times> 'x progress_state option" where
  "load_module F B A bs digests validated c progress =
     (case into_package_with_digests (ac_sha256 A) (ac_parse_module A) (ac_mem_fs A) (from_wasm bs) digests validated of
        Inl e \<Rightarrow> (Finished (Inl e), c, progress)
      | Inr bp \<Rightarrow>
          (let (p, c1) = from_binary (ac_binary A bp) c
           in (Finished (Inr p), c1, note_local F B False p progress)))"

definition fetch_container ::
    "string \<Rightarrow> string + 'c \<Rightarrow> 'b client \<Rightarrow> 'x progress_state option \<Rightarrow>
     ('b, 'spec, 'c) load_start \<times> 'b client \<times> 'x progress_state option" where
  "fetch_container label container c progress =
     (case container of
        Inl e \<Rightarrow> (Finished (Inl (PackageLoad label e)), c, progress)
      | Inr w \<Rightarrow> (Fetching (FetchWebc w) label None, c, progress))"

fun start_load ::
    "'x f64_ops \<Rightarrow> ('b, 'i) binary_ops \<Rightarrow> ('b, 'f, 'spec, 'c) acquire_ops \<Rightarrow> bool \<Rightarrow> 'b package_source \<Rightarrow>
     'b client \<Rightarrow> 'x progress_state option \<Rightarrow> ('b, 'spec, 'c) load_start \<times> 'b client \<times> 'x progress_state option" where
  "start_load F B A sys (ResolvedSource p) c progress = (Finished (Inr p), c, note_local F B True p progress)"
| "start_load F B A sys (RegistrySource specifier) c progress =
     (case ac_parse A specifier of
        Inl e \<Rightarrow> (Finished (Inl (InvalidPackageSource specifier e)), c, progress)
      | Inr spec \<Rightarrow>
          (if ct_poisoned c then (Finished (Inl cache_poisoned), c, progress)
           else case ct_registry c (ac_spec_text A spec) of
             Some p \<Rightarrow> (Finished (Inr p), c, note_local F B True p progress)
           | None \<Rightarrow> (Fetching (FetchRegistry spec) specifier (Some (ac_spec_text A spec)), c, progress)))"
| "start_load F B A sys (PathSource path) c progress =
     (if \<not> sys then (Finished (Inl (PackageLoad path
          ''host paths are unavailable in WebAssembly; pass the package bytes instead'')), c, progress)
      else if ac_is_dir A path then (Fetching (FetchDir path) path None, c, progress)
      else fetch_container path (ac_from_disk A path) c progress)"
| "start_load F B A sys (BytesSource bs) c progress =
     (if take 4 bs = wasm_magic then load_module F B A bs [] False c progress
      else fetch_container (source_label B (BytesSource bs)) (ac_from_bytes A bs) c progress)"
| "start_load F B A sys (WasmModuleSource bs sha256 validated) c progress =
     load_module F B A bs [(''main'', sha256)] validated c progress"
| "start_load F B A sys (WebcSource bs) c progress =
     fetch_container (source_label B (WebcSource bs)) (ac_from_bytes A bs) c progress"

text \<open>What follows the await. A registry package is put into the cache unless another load did so first;
  every load answers with the cached one.\<close>

definition registry_or_insert :: "string \<Rightarrow> 'b package \<Rightarrow> 'b client \<Rightarrow> 'b client" where
  "registry_or_insert key p c =
     (case ct_registry c key of Some q \<Rightarrow> c | None \<Rightarrow> c\<lparr>ct_registry := (ct_registry c)(key \<mapsto> p)\<rparr>)"

definition finish_load :: "string \<Rightarrow> string option \<Rightarrow> string + 'b \<Rightarrow> 'b client \<Rightarrow> (sdk_error + 'b package) \<times> 'b client" where
  "finish_load label key result c =
     (case result of
        Inl e \<Rightarrow> (Inl (PackageLoad label e), c)
      | Inr binary \<Rightarrow>
          (let (p, c1) = from_binary binary c
           in case key of
                None \<Rightarrow> (Inr p, c1)
              | Some k \<Rightarrow>
                  (if ct_poisoned c1 then (Inl cache_poisoned, c1)
                   else let c2 = registry_or_insert k p c1
                        in (case ct_registry c2 k of Some q \<Rightarrow> (Inr q, c2) | None \<Rightarrow> (Inr p, c2)))))"

text \<open>The cache of each key keeps the first package stored in it.\<close>

interpretation registry_cell: first_write_wins "\<lambda>c. ct_registry c key" "registry_or_insert key"
  by unfold_locales (simp_all add: registry_or_insert_def)

section \<open>Creating and loading\<close>

definition packages_create ::
    "('b, 'f, 'spec, 'c) acquire_ops \<Rightarrow> package_definition \<Rightarrow> 'b client \<Rightarrow> (sdk_error + 'b package) \<times> 'b client" where
  "packages_create A d c =
     (case client_ensure_open c of
        Inl e \<Rightarrow> (Inl e, c)
      | Inr u \<Rightarrow> (case into_package (ac_sha256 A) (ac_parse_module A) (ac_mem_fs A) d of
            Inl e \<Rightarrow> (Inl e, c)
          | Inr bp \<Rightarrow> (let (p, c1) = from_binary (ac_binary A bp) c in (Inr p, c1))))"

text \<open>Loading many: \<open>turns\<close> are the turns of the observing loop. The stream of the loads, at most 32 at
  a time, is collected by third-party code: \<open>run limit results\<close> is its result once the single
  loads have theirs.\<close>

definition load_limit :: nat where
  "load_limit = 32"

definition load_many_with_options ::
    "'x f64_ops \<Rightarrow> load_options \<Rightarrow> 'b package_source list \<Rightarrow> nat \<Rightarrow> 'b client \<Rightarrow>
     ('x, 'b package list) select_turn list \<Rightarrow>
     (nat \<times> 'x load_report) list \<times> (sdk_error + 'b package list) option" where
  "load_many_with_options F opts sources now c turns =
     (case client_ensure_open c of
        Inl e \<Rightarrow> ([], Some (Inl e))
      | Inr u \<Rightarrow> observe F opts (if lo_observer opts then Some (progress_new (length sources)) else None) now turns)"

definition load_many ::
    "'x f64_ops \<Rightarrow> 'b package_source list \<Rightarrow> nat \<Rightarrow> 'b client \<Rightarrow> ('x, 'b package list) select_turn list \<Rightarrow>
     (sdk_error + 'b package list) option" where
  "load_many F sources now c turns = snd (load_many_with_options F load_options_default sources now c turns)"

text \<open>Loading one package takes the only element of the result; \<open>Some None\<close> stands for the panic of
  removing from an empty vector.\<close>

definition load_with_options ::
    "'x f64_ops \<Rightarrow> load_options \<Rightarrow> 'b package_source \<Rightarrow> nat \<Rightarrow> 'b client \<Rightarrow>
     ('x, 'b package list) select_turn list \<Rightarrow>
     (nat \<times> 'x load_report) list \<times> (sdk_error + 'b package) option option" where
  "load_with_options F opts source now c turns =
     (let (reports, res) = load_many_with_options F opts [source] now c turns
      in (reports, map_option (\<lambda>r. case r of
             Inl e \<Rightarrow> Some (Inl e)
           | Inr [] \<Rightarrow> None
           | Inr (p # ps) \<Rightarrow> Some (Inr p)) res))"

definition load_package ::
    "'x f64_ops \<Rightarrow> 'b package_source \<Rightarrow> nat \<Rightarrow> 'b client \<Rightarrow> ('x, 'b package list) select_turn list \<Rightarrow>
     (sdk_error + 'b package) option option" where
  "load_package F source now c turns = snd (load_with_options F load_options_default source now c turns)"

text \<open>The collected stream: the packages in the order of the sources, or the first error in that order.\<close>

type_synonym 'b collect_run = "nat \<Rightarrow> (sdk_error + 'b package) list \<Rightarrow> sdk_error + 'b package list"

definition collects_in_order :: "'b collect_run \<Rightarrow> bool" where
  "collects_in_order run \<longleftrightarrow> (\<forall>limit rs. 0 < limit \<longrightarrow> run limit rs = collect_res rs)"

text \<open>The turns of a load whose work is that stream over the loads of the sources.\<close>

definition turns_of_work :: "'b collect_run \<Rightarrow> (sdk_error + 'b package) list \<Rightarrow> ('x, 'b package list) select_turn list \<Rightarrow> bool" where
  "turns_of_work run rs turns \<longleftrightarrow> (\<forall>t r. t \<in> set turns \<longrightarrow> st_result t = Some r \<longrightarrow> r = run load_limit rs)"

section \<open>Concurrent loads\<close>

text \<open>Any number of loads between their start and their end, with a log of what they answered.\<close>

record ('b, 'spec, 'c) load_system =
  sys_client :: "'b client"
  sys_pending :: "nat \<Rightarrow> ('b package_source \<times> ('b, 'spec, 'c) load_start) option"
  sys_answers :: "('b package_source \<times> (sdk_error + 'b package)) list"

definition load_system_init :: "wasmer_config \<Rightarrow> ('b, 'spec, 'c) load_system" where
  "load_system_init config = \<lparr>sys_client = client_new config, sys_pending = Map.empty, sys_answers = []\<rparr>"

definition sys_start ::
    "'x f64_ops \<Rightarrow> ('b, 'i) binary_ops \<Rightarrow> ('b, 'f, 'spec, 'c) acquire_ops \<Rightarrow> bool \<Rightarrow> nat \<Rightarrow> 'b package_source \<Rightarrow>
     ('b, 'spec, 'c) load_system \<Rightarrow> ('b, 'spec, 'c) load_system" where
  "sys_start F B A sys t source S =
     (let (l, c, _) = start_load F B A sys source (sys_client S) None
      in case l of
           Finished r \<Rightarrow> S\<lparr>sys_client := c, sys_answers := (source, r) # sys_answers S\<rparr>
         | _ \<Rightarrow> S\<lparr>sys_client := c, sys_pending := (sys_pending S)(t \<mapsto> (source, l))\<rparr>)"

definition sys_finish :: "nat \<Rightarrow> string + 'b \<Rightarrow> ('b, 'spec, 'c) load_system \<Rightarrow> ('b, 'spec, 'c) load_system" where
  "sys_finish t result S =
     (case sys_pending S t of
        Some (source, Fetching f label key) \<Rightarrow>
          (let (r, c) = finish_load label key result (sys_client S)
           in S\<lparr>sys_client := c, sys_pending := (sys_pending S)(t := None), sys_answers := (source, r) # sys_answers S\<rparr>)
      | _ \<Rightarrow> S)"

inductive load_step ::
    "'x f64_ops \<Rightarrow> ('b, 'i) binary_ops \<Rightarrow> ('b, 'f, 'spec, 'c) acquire_ops \<Rightarrow> bool \<Rightarrow>
     ('b, 'spec, 'c) load_system \<Rightarrow> ('b, 'spec, 'c) load_system \<Rightarrow> bool"
  for F B A sys where
  lst_start: "sys_pending S t = None \<Longrightarrow> load_step F B A sys S (sys_start F B A sys t source S)"
| lst_finish: "load_step F B A sys S (sys_finish t result S)"
| lst_drop: "load_step F B A sys S (S\<lparr>sys_pending := (sys_pending S)(t := None)\<rparr>)"
| lst_create: "packages_create A d (sys_client S) = (r, c) \<Longrightarrow> load_step F B A sys S (S\<lparr>sys_client := c\<rparr>)"
| lst_shutdown: "load_step F B A sys S (S\<lparr>sys_client := client_shutdown (sys_client S)\<rparr>)"

text \<open>The key under which a source is cached.\<close>

fun cache_key_of :: "('b, 'f, 'spec, 'c) acquire_ops \<Rightarrow> 'b package_source \<Rightarrow> string option" where
  "cache_key_of A (RegistrySource specifier) =
     (case ac_parse A specifier of Inl e \<Rightarrow> None | Inr spec \<Rightarrow> Some (ac_spec_text A spec))"
| "cache_key_of A _ = None"

lemma cache_key_of_Some:
  "cache_key_of A source = Some key \<longleftrightarrow>
     (\<exists>specifier spec. source = RegistrySource specifier \<and> ac_parse A specifier = Inr spec \<and> key = ac_spec_text A spec)"
  by (cases source) (auto split: sum.splits)

definition answers_cached :: "('b, 'f, 'spec, 'c) acquire_ops \<Rightarrow> ('b, 'spec, 'c) load_system \<Rightarrow> bool" where
  "answers_cached A S \<longleftrightarrow> \<not> ct_poisoned (sys_client S) \<and>
     (\<forall>source p key. (source, Inr p) \<in> set (sys_answers S) \<longrightarrow> cache_key_of A source = Some key \<longrightarrow>
        ct_registry (sys_client S) key = Some p) \<and>
     (\<forall>t source f label k key. sys_pending S t = Some (source, Fetching f label k) \<longrightarrow>
        cache_key_of A source = Some key \<longrightarrow> k = Some key)"

lemma load_module_sel:
  assumes "load_module F B A bs digests v c progress = (l, c', progress')"
  shows "\<exists>r. l = Finished r" "ct_registry c' = ct_registry c" "ct_poisoned c' = ct_poisoned c" "ct_closed c' = ct_closed c"
  using assms by (auto simp: load_module_def from_binary_def Let_def split: sum.splits)

lemma fetch_container_sel:
  assumes "fetch_container label w c progress = (l, c', progress')"
  shows "c' = c" "l = Finished (Inr p) \<Longrightarrow> False"
  using assms by (auto simp: fetch_container_def split: sum.splits)

lemma start_load_registry:
  assumes "start_load F B A sys source c progress = (l, c', progress')"
  shows "ct_registry c' = ct_registry c \<and> ct_poisoned c' = ct_poisoned c \<and> ct_closed c' = ct_closed c"
proof (cases source)
  case (BytesSource bs)
  show ?thesis
  proof (cases "take 4 bs = wasm_magic")
    case True
    then show ?thesis
      using assms BytesSource load_module_sel(2-4) [of F B A bs "[]" False c progress l c' progress'] by simp
  next
    case False
    then show ?thesis
      using assms BytesSource fetch_container_sel(1) [of "source_label B source" "ac_from_bytes A bs" c progress l c' progress']
      by simp
  qed
next
  case (WasmModuleSource bs d v)
  then show ?thesis
    using assms load_module_sel(2-4) [of F B A bs "[(''main'', d)]" v c progress l c' progress'] by simp
next
  case (PathSource path)
  then show ?thesis
    using assms fetch_container_sel(1) [of path "ac_from_disk A path" c progress l c' progress']
    by (auto split: if_splits)
next
  case (WebcSource bs)
  then show ?thesis
    using assms fetch_container_sel(1) [of "source_label B source" "ac_from_bytes A bs" c progress l c' progress'] by simp
qed (use assms in \<open>auto split: sum.splits if_splits option.splits\<close>)

lemma start_load_cached:
  assumes "start_load F B A sys source c progress = (l, c', progress')" "cache_key_of A source = Some key"
    "\<not> ct_poisoned c"
  shows "(case ct_registry c key of
      Some p \<Rightarrow> l = Finished (Inr p)
    | None \<Rightarrow> \<exists>f label. l = Fetching f label (Some key))"
  using assms by (auto simp: cache_key_of_Some split: option.splits if_splits)

lemma finish_load_registry:
  assumes "finish_load label key result c = (r, c')" "\<not> ct_poisoned c"
  shows "\<not> ct_poisoned c'" "ct_registry c k = Some q \<Longrightarrow> ct_registry c' k = Some q"
    "key = Some k \<Longrightarrow> r = Inr p \<Longrightarrow> ct_registry c' k = Some p"
  using assms
  by (auto simp: finish_load_def from_binary_def registry_or_insert_def Let_def split: sum.splits option.splits if_splits)

lemma sys_start_cached:
  assumes "answers_cached A S" "sys_pending S t = None"
  shows "answers_cached A (sys_start F B A sys t source S)"
proof -
  obtain l c progress where sl: "start_load F B A sys source (sys_client S) None = (l, c, progress)"
    by (metis prod_cases3)
  note same = start_load_registry [OF sl]
  have np: "\<not> ct_poisoned (sys_client S)" using assms(1) by (simp add: answers_cached_def)
  have key: "case ct_registry (sys_client S) key of
      Some p \<Rightarrow> l = Finished (Inr p) | None \<Rightarrow> \<exists>f label. l = Fetching f label (Some key)"
    if "cache_key_of A source = Some key" for key
    by (rule start_load_cached [OF sl that np])
  show ?thesis
  proof (cases l)
    case (Finished r)
    then have "sys_start F B A sys t source S = S\<lparr>sys_client := c, sys_answers := (source, r) # sys_answers S\<rparr>"
      using sl by (simp add: sys_start_def)
    moreover have "ct_registry (sys_client S) key = Some p" if "cache_key_of A source = Some key" "r = Inr p" for key p
      using key [OF that(1)] that(2) Finished by (auto split: option.splits)
    ultimately show ?thesis using assms(1) same by (auto simp: answers_cached_def)
  next
    case (Fetching f label k)
    then have "sys_start F B A sys t source S = S\<lparr>sys_client := c, sys_pending := (sys_pending S)(t \<mapsto> (source, l))\<rparr>"
      using sl by (simp add: sys_start_def)
    moreover have "k = Some key" if "cache_key_of A source = Some key" for key
      using key [OF that] Fetching by (auto split: option.splits)
    ultimately show ?thesis using assms(1) same Fetching by (auto simp: answers_cached_def)
  qed
qed

lemma sys_finish_cached:
  assumes inv: "answers_cached A S"
  shows "answers_cached A (sys_finish t result S)"
proof (cases "\<exists>source f label k. sys_pending S t = Some (source, Fetching f label k)")
  case True
  then obtain source f label k where p: "sys_pending S t = Some (source, Fetching f label k)" by blast
  obtain r c where fl: "finish_load label k result (sys_client S) = (r, c)" by fastforce
  have np: "\<not> ct_poisoned (sys_client S)" using inv by (simp add: answers_cached_def)
  have eq: "sys_finish t result S =
      S\<lparr>sys_client := c, sys_pending := (sys_pending S)(t := None), sys_answers := (source, r) # sys_answers S\<rparr>"
    using p fl by (simp add: sys_finish_def)
  note fin = finish_load_registry [OF fl np]
  have "ct_registry c key = Some p'" if "cache_key_of A source = Some key" "r = Inr p'" for key p'
    using inv p that fin(3) unfolding answers_cached_def by blast
  then show ?thesis
    using inv fin(1,2) unfolding eq answers_cached_def by (auto split: if_splits)
qed (use inv in \<open>auto simp: sys_finish_def split: option.splits load_start.splits\<close>)

lemma packages_create_registry:
  "packages_create A d c = (r, c') \<Longrightarrow> ct_registry c' = ct_registry c \<and> ct_poisoned c' = ct_poisoned c"
  by (auto simp: packages_create_def from_binary_def split: sum.splits)

lemma load_step_cached: "load_step F B A sys S S' \<Longrightarrow> answers_cached A S \<Longrightarrow> answers_cached A S'"
proof (induction rule: load_step.induct)
  case (lst_create d S r c)
  then show ?case using packages_create_registry [OF lst_create(1)] by (simp add: answers_cached_def)
next
  case (lst_drop S t)
  then show ?case by (auto simp: answers_cached_def)
next
  case (lst_shutdown S)
  then show ?case by (simp add: answers_cached_def client_shutdown_def)
qed (rule sys_start_cached sys_finish_cached; assumption)+

interpretation load_system: inductive_invariant "\<lambda>S. S = load_system_init config" "load_step F B A sys" "answers_cached A"
  by unfold_locales (simp add: answers_cached_def load_system_init_def client_new_def, erule (1) load_step_cached [rotated])

text \<open>C12: Loads of the same registry package agree, however they overlap: whatever was loaded, dropped,
  created or shut down in between, all successful loads of sources with the same cache key answered
  with the same package, and another load of it finishes at once with that package.\<close>

theorem registry_loads_agree:
  assumes "reachable (\<lambda>S. S = load_system_init config) (load_step F B A sys) S"
    and "(source, Inr p) \<in> set (sys_answers S)" "cache_key_of A source = Some key"
    and "cache_key_of A source' = Some key"
  shows "(\<forall>q. (source', Inr q) \<in> set (sys_answers S) \<longrightarrow> q = p) \<and>
    fst (start_load F B A sys source' (sys_client S) progress) = Finished (Inr p)"
proof -
  have inv: "answers_cached A S" by (rule load_system.reachable_inv [OF assms(1)])
  then have reg: "ct_registry (sys_client S) key = Some p"
    and all: "\<And>q. (source', Inr q) \<in> set (sys_answers S) \<Longrightarrow> ct_registry (sys_client S) key = Some q"
    using assms(2-4) unfolding answers_cached_def by blast+
  obtain l c pr where sl: "start_load F B A sys source' (sys_client S) progress = (l, c, pr)"
    by (metis prod_cases3)
  have "l = Finished (Inr p)"
    using start_load_cached [OF sl assms(4)] inv reg by (simp add: answers_cached_def)
  then show ?thesis using sl reg all by auto
qed

section \<open>Loading many and creation\<close>

lemma collect_res_Inr_iff: "collect_res rs = Inr ps \<longleftrightarrow> rs = map Inr ps"
proof (induction rs arbitrary: ps)
  case (Cons r rs)
  then show ?case by (cases r; cases ps) (auto simp: map_ok_Inr_iff)
qed (simp add: eq_commute)

lemma collect_res_Inl:
  "collect_res rs = Inl e \<Longrightarrow> \<exists>i < length rs. rs ! i = Inl e \<and> (\<forall>j < i. is_ok (rs ! j))"
proof (induction rs)
  case (Cons r rs)
  show ?case
  proof (cases r)
    case (Inl e')
    then show ?thesis using Cons.prems by (intro exI [of _ 0]) simp
  next
    case (Inr a)
    then obtain i where "i < length rs" "rs ! i = Inl e" "\<forall>j < i. is_ok (rs ! j)"
      using Cons by auto
    then show ?thesis
      using Inr by (intro exI [of _ "Suc i"]) (auto simp: nth_Cons split: nat.split)
  qed
qed simp

lemma plain_loop_outcome:
  "plain_loop opts ts = Some r \<Longrightarrow> r = Inl Cancelled \<or> (\<exists>t \<in> set ts. st_result t = Some r)"
  by (induction opts ts rule: plain_loop.induct) (auto split: if_splits option.splits)

lemma observe_outcome:
  assumes "observe F opts progress now ts = (reports, Some r)"
  shows "r = Inl Cancelled \<or> (\<exists>t \<in> set ts. st_result t = Some r)"
proof -
  have "r = Inl Cancelled \<or> plain_loop opts ts = Some r"
  proof (cases progress)
    case (Some st)
    then show ?thesis
      using assms observe_loop_result [of F opts "snapshot F False st" now ts]
      by (auto simp: observe_def Let_def split: if_splits option.splits prod.splits)
  qed (use assms in \<open>auto simp: observe_def split: if_splits option.splits\<close>)
  then show ?thesis using plain_loop_outcome by blast
qed

text \<open>Loading many packages answers with their packages in the order of the sources, one for each, or with
  the error of the first source in that order that failed, or that it was cancelled; on a closed client
  nothing is loaded or reported. Loading a single package never finds the result empty.\<close>

theorem load_many_outcome:
  assumes "collects_in_order run" "turns_of_work run rs turns" "length rs = length sources"
    and "load_many_with_options F opts sources now c turns = (reports, Some res)"
  shows "(case res of
      Inr ps \<Rightarrow> \<not> ct_closed c \<and> rs = map Inr ps \<and> length ps = length sources
    | Inl e \<Rightarrow>
        (if ct_closed c then e = ClientClosed \<and> reports = []
         else e = Cancelled \<or> (\<exists>i < length sources. rs ! i = Inl e \<and> (\<forall>j < i. is_ok (rs ! j))))) \<and>
    (\<forall>source. sources = [source] \<longrightarrow>
       snd (load_with_options F opts source now c turns) = Some (Some (map_ok hd res)))"
proof -
  have run: "run load_limit rs = collect_res rs" using assms(1) by (simp add: collects_in_order_def load_limit_def)
  have out: "res = Inl Cancelled \<or> res = collect_res rs" if "\<not> ct_closed c"
    using observe_outcome [of F opts _ now turns reports res] assms(2,4) that run
    by (auto simp: load_many_with_options_def client_ensure_open_def turns_of_work_def)
  have closed: "res = Inl ClientClosed \<and> reports = []" if "ct_closed c"
    using assms(4) that by (simp add: load_many_with_options_def client_ensure_open_def)
  have case1: "case res of
      Inr ps \<Rightarrow> \<not> ct_closed c \<and> rs = map Inr ps \<and> length ps = length sources
    | Inl e \<Rightarrow>
        (if ct_closed c then e = ClientClosed \<and> reports = []
         else e = Cancelled \<or> (\<exists>i < length sources. rs ! i = Inl e \<and> (\<forall>j < i. is_ok (rs ! j))))"
  proof (cases "ct_closed c")
    case False
    show ?thesis
    proof (cases res)
      case (Inl e)
      then have "e = Cancelled \<or> collect_res rs = Inl e" using out [OF False] by auto
      then show ?thesis using Inl False assms(3) collect_res_Inl [of rs e] by auto
    next
      case (Inr ps)
      then have "rs = map Inr ps" using out [OF False] collect_res_Inr_iff [of rs ps] by auto
      then show ?thesis using Inr False assms(3) by auto
    qed
  qed (use closed in simp)
  moreover have "snd (load_with_options F opts source now c turns) = Some (Some (map_ok hd res))"
    if "sources = [source]" for source
  proof -
    have "ps \<noteq> []" if "res = Inr ps" for ps using case1 that \<open>sources = [source]\<close> by auto
    then show ?thesis
      using assms(4) that by (cases res) (auto simp: load_with_options_def split: list.split)
  qed
  ultimately show ?thesis by blast
qed

lemma create_dirs_Inr: "create_dirs H ds = Inr u \<longleftrightarrow> (\<forall>d \<in> set ds. ho_create_dir_all H d = Inr ())"
  by (induction ds) (auto simp: bind_res_Inr_iff)

lemma has_root_push: "has_root base \<Longrightarrow> has_root (path_push base p)"
  by (auto simp: has_root_def path_push_def)

text \<open>A created client is open, and its cache directories exist under an absolute root.\<close>

lemma created_client:
  assumes "with_config H config = Inr (c, dirs)"
  shows "\<not> ct_closed c" "ct_registry c = Map.empty" "ct_output_bytes c = cfg_output_bytes config"
    "d \<in> {cache_packages dirs, cache_registry dirs, cache_compiled dirs} \<Longrightarrow>
       ho_create_dir_all H d = Inr ()"
proof -
  obtain root where root: "absolutize H (cfg_cache_root config) = Inr root" "dirs = cache_dirs H root"
      "create_dirs H [cache_packages dirs, cache_registry dirs, cache_compiled dirs] = Inr ()" "c = client_new config"
    using assms by (auto simp: with_config_def new_with_http_client_def Let_def bind_res_Inr_iff split: if_splits)
  then show "\<not> ct_closed c" "ct_registry c = Map.empty" "ct_output_bytes c = cfg_output_bytes config"
    by (simp_all add: client_new_def)
  show "d \<in> {cache_packages dirs, cache_registry dirs, cache_compiled dirs} \<Longrightarrow> ho_create_dir_all H d = Inr ()"
    using root(3) unfolding create_dirs_Inr by auto
qed

lemma cache_dirs_absolute:
  assumes "absolutize H path = Inr root" "\<And>cur. ho_current_dir H = Inr cur \<Longrightarrow> has_root cur"
  shows "has_root (cache_packages (cache_dirs H root))" "has_root (cache_registry (cache_dirs H root))"
    "has_root (cache_compiled (cache_dirs H root))"
proof -
  have "has_root root"
    using assms by (auto simp: absolutize_def has_root_push map_ok_Inr_iff split: if_splits)
  then show "has_root (cache_packages (cache_dirs H root))" "has_root (cache_registry (cache_dirs H root))"
      "has_root (cache_compiled (cache_dirs H root))"
    by (simp_all add: cache_dirs_def Let_def has_root_push)
qed

section \<open>Witnesses\<close>

text \<open>A registry whose specifiers are the packages' names, and nothing else that can be loaded.\<close>

definition demo_acquire :: "(string \<times> string list, unit, string, unit) acquire_ops" where
  "demo_acquire = \<lparr>ac_parse = (\<lambda>s. if s = [] then Inl ''empty'' else Inr s), ac_spec_text = (\<lambda>s. s),
     ac_is_dir = (\<lambda>_. False), ac_from_disk = (\<lambda>_. Inl ''no disk''), ac_from_bytes = (\<lambda>_. Inl ''not a WEBC''),
     ac_sha256 = demo_sha, ac_parse_module = demo_parse, ac_mem_fs = demo_mem, ac_binary = (\<lambda>bp. (text_of (bp_id bp), []))\<rparr>"

definition demo_package :: "(string \<times> string list) package" where
  "demo_package = \<lparr>pkg_arc = 0, pkg_binary = (''bash'', [''bash''])\<rparr>"

text \<open>Two loads of one package that overlap: both are under way before the first ends.\<close>

definition demo_system :: "(string \<times> string list, string, unit) load_system" where
  "demo_system =
     sys_finish 1 (Inr (''bash'', [''bash'']))
       (sys_finish 0 (Inr (''bash'', [''bash'']))
         (sys_start nat_f64 listed_binary demo_acquire True 1 (RegistrySource ''bash'')
           (sys_start nat_f64 listed_binary demo_acquire True 0 (RegistrySource ''bash'') (load_system_init config_default))))"

lemma demo_system_answers:
  "sys_answers demo_system = [(RegistrySource ''bash'', Inr demo_package), (RegistrySource ''bash'', Inr demo_package)]"
  by (simp add: demo_system_def sys_finish_def sys_start_def load_system_init_def client_new_def demo_acquire_def
    finish_load_def from_binary_def registry_or_insert_def demo_package_def Let_def)

lemma registry_loads_agree_witness:
  "fst (start_load nat_f64 listed_binary demo_acquire True (RegistrySource ''bash'') (sys_client demo_system) None)
     = Finished (Inr demo_package)"
proof -
  let ?start = "sys_start nat_f64 listed_binary demo_acquire True"
  let ?S0 = "load_system_init config_default :: (string \<times> string list, string, unit) load_system"
  have r0: "reachable (\<lambda>S. S = ?S0) (load_step nat_f64 listed_binary demo_acquire True) ?S0"
    by (rule reach_init) (rule refl)
  have r1: "reachable (\<lambda>S. S = ?S0) (load_step nat_f64 listed_binary demo_acquire True) (?start 0 (RegistrySource ''bash'') ?S0)"
    by (rule reach_step [OF r0], rule lst_start) (simp add: load_system_init_def)
  have r2: "reachable (\<lambda>S. S = ?S0) (load_step nat_f64 listed_binary demo_acquire True)
      (?start 1 (RegistrySource ''bash'') (?start 0 (RegistrySource ''bash'') ?S0))"
    by (rule reach_step [OF r1], rule lst_start)
      (simp add: load_system_init_def sys_start_def client_new_def demo_acquire_def Let_def)
  have r4: "reachable (\<lambda>S. S = ?S0) (load_step nat_f64 listed_binary demo_acquire True) demo_system"
    unfolding demo_system_def by (rule reach_step [OF reach_step [OF r2 lst_finish] lst_finish])
  have "cache_key_of demo_acquire (RegistrySource ''bash'') = Some ''bash''" by (simp add: demo_acquire_def)
  with registry_loads_agree [OF r4, of "RegistrySource ''bash''" demo_package "''bash''" "RegistrySource ''bash''"]
  show ?thesis by (simp add: demo_system_answers)
qed

text \<open>Two packages loaded, the first of them cached.\<close>

definition demo_collect :: "(string \<times> string list) collect_run" where
  "demo_collect limit rs = collect_res rs"

lemma load_many_outcome_witness:
  "\<exists>reports. load_many_with_options nat_f64 load_options_default [ResolvedSource demo_package] 0 (client_new config_default)
      [\<lparr>st_token = cancellation_new, st_result = Some (Inr [demo_package]), st_progress = progress_new 0,
        st_change = NoChange, st_now = 1\<rparr>] = (reports, Some (Inr [demo_package])) \<and>
    snd (load_with_options nat_f64 load_options_default (ResolvedSource demo_package) 0 (client_new config_default)
      [\<lparr>st_token = cancellation_new, st_result = Some (Inr [demo_package]), st_progress = progress_new 0,
        st_change = NoChange, st_now = 1\<rparr>]) = Some (Some (Inr demo_package))"
proof -
  define turns :: "(nat, (string \<times> string list) package list) select_turn list"
    where "turns = [\<lparr>st_token = cancellation_new, st_result = Some (Inr [demo_package]), st_progress = progress_new 0,
        st_change = NoChange, st_now = 1\<rparr>]"
  have run: "collects_in_order demo_collect" by (simp add: collects_in_order_def demo_collect_def)
  have work: "turns_of_work demo_collect [Inr demo_package] turns"
    by (simp add: turns_of_work_def turns_def demo_collect_def)
  have res: "load_many_with_options nat_f64 load_options_default [ResolvedSource demo_package] 0 (client_new config_default) turns
      = ([], Some (Inr [demo_package]))"
    by (simp add: load_many_with_options_def client_ensure_open_def client_new_def observe_def load_options_default_def
      turns_def turn_cancelled_def)
  show ?thesis
    using load_many_outcome [OF run work _ res] res unfolding turns_def by simp
qed

end
