(* ===== verification/Worker_Messages.thy ===== *)
theory Worker_Messages
  imports Scheduler
begin

text \<open>
  Messages between the scheduler and its workers as JavaScript values (js/bindgen/src/tasks/interop.rs,
  post_message_payload.rs, scheduler_message.rs, worker_message.rs, timer.rs) and the handler of the
  scheduler's side (worker_handle.rs). JavaScript values and the shared-object envelope of the wasmer
  backend are parameters, the record \<open>js_ops\<close>. Tasks do not travel as values: they are boxed, the
  message holds the address, and the receiver takes the box back. The heap of live boxes is explicit;
  taking a box that is not there, or is of another type, is undefined behaviour, and an address that is
  no 64-bit number panics (both \<open>None\<close>). Addresses are those of a 32-bit target.
\<close>

section \<open>JavaScript values\<close>

text \<open>A finite \<open>f64\<close> is known by its integral part, which is all that a cast to an integer reads.\<close>

datatype f64_value = F_NaN | F_Infinite bool | F_Finite int

definition f64_cast :: "int \<Rightarrow> int \<Rightarrow> f64_value \<Rightarrow> int" where
  "f64_cast lo hi x = (case x of
     F_NaN \<Rightarrow> 0
   | F_Infinite negative \<Rightarrow> if negative then lo else hi
   | F_Finite i \<Rightarrow> max lo (min hi i))"

definition f64_as_u32 :: "f64_value \<Rightarrow> nat" where
  "f64_as_u32 x = nat (f64_cast 0 (2 ^ 32 - 1) x)"

definition f64_as_i32 :: "f64_value \<Rightarrow> int" where
  "f64_as_i32 x = f64_cast (- (2 ^ 31)) (2 ^ 31 - 1) x"

record 'j js_ops =
  js_object :: 'j
  js_is_object :: "'j \<Rightarrow> bool"
  js_get :: "'j \<Rightarrow> string \<Rightarrow> string + 'j"
  js_set :: "'j \<Rightarrow> string \<Rightarrow> 'j \<Rightarrow> string + 'j"
  js_of_string :: "string \<Rightarrow> 'j"
  js_as_string :: "'j \<Rightarrow> string option"
  js_of_u32 :: "nat \<Rightarrow> 'j"
  js_of_i32 :: "int \<Rightarrow> 'j"
  js_of_bool :: "bool \<Rightarrow> 'j"
  js_array :: "'j list \<Rightarrow> 'j"
  js_as_u32 :: "'j \<Rightarrow> string + nat"
  js_of_bigint :: "nat \<Rightarrow> 'j"
  js_as_bigint :: "'j \<Rightarrow> int option"
  js_as_f64 :: "'j \<Rightarrow> f64_value option"
  js_prepare :: "'j \<Rightarrow> 'j"
  js_receive :: "'j \<Rightarrow> string + 'j"

text \<open>What the code relies on: setting a property of an object succeeds and is seen by the next read of
  it and by no other, the conversions of strings and numbers are inverse to each other, and
  unwrapping gives back an object that was wrapped or left plain.\<close>

definition js_laws :: "'j js_ops \<Rightarrow> bool" where
  "js_laws J \<longleftrightarrow>
     js_is_object J (js_object J) \<and>
     (\<forall>obj k v. js_is_object J obj \<longrightarrow> (\<exists>obj'. js_set J obj k v = Inr obj' \<and> js_is_object J obj' \<and>
        (\<forall>k'. js_get J obj' k' = (if k' = k then Inr v else js_get J obj k')))) \<and>
     (\<forall>s. js_as_string J (js_of_string J s) = Some s) \<and>
     (\<forall>n. n < 2 ^ 32 \<longrightarrow> js_as_u32 J (js_of_u32 J n) = Inr n) \<and>
     (\<forall>n. js_as_bigint J (js_of_bigint J n) = Some (int n)) \<and>
     (\<forall>obj. js_is_object J obj \<longrightarrow> js_receive J obj = Inr obj \<and> js_receive J (js_prepare J obj) = Inr obj)"

section \<open>Boxes\<close>

datatype ('t, 'w) boxed = BoxTimer 't | BoxAsync 't | BoxBlocking 't | BoxWasm 'w

record ('t, 'w) box_heap =
  bh_next :: nat
  bh_live :: "nat \<Rightarrow> ('t, 'w) boxed option"

text \<open>The allocator hands out an address that is not in use; on the 32-bit target it is below \<open>2 ^ 32\<close>.\<close>

definition heap_ok :: "('t, 'w) box_heap \<Rightarrow> bool" where
  "heap_ok h \<longleftrightarrow> bh_next h < 2 ^ 32 \<and> bh_live h (bh_next h) = None"

definition into_raw :: "('t, 'w) boxed \<Rightarrow> ('t, 'w) box_heap \<Rightarrow> nat \<times> ('t, 'w) box_heap" where
  "into_raw v h = (bh_next h, \<lparr>bh_next = bh_next h + 1, bh_live = (bh_live h)(bh_next h \<mapsto> v)\<rparr>)"

definition from_raw :: "(('t, 'w) boxed \<Rightarrow> 'a option) \<Rightarrow> nat \<Rightarrow> ('t, 'w) box_heap \<Rightarrow> 'a option \<times> ('t, 'w) box_heap" where
  "from_raw expect a h = (case Option.bind (bh_live h a) expect of
     None \<Rightarrow> (None, h)
   | Some v \<Rightarrow> (Some v, h\<lparr>bh_live := (bh_live h)(a := None)\<rparr>))"

fun un_timer :: "('t, 'w) boxed \<Rightarrow> 't option" where
  "un_timer (BoxTimer t) = Some t"
| "un_timer _ = None"

fun un_async :: "('t, 'w) boxed \<Rightarrow> 't option" where
  "un_async (BoxAsync t) = Some t"
| "un_async _ = None"

fun un_blocking :: "('t, 'w) boxed \<Rightarrow> 't option" where
  "un_blocking (BoxBlocking t) = Some t"
| "un_blocking _ = None"

fun un_wasm :: "('t, 'w) boxed \<Rightarrow> 'w option" where
  "un_wasm (BoxWasm w) = Some w"
| "un_wasm _ = None"

section \<open>The serializer\<close>

record 'j serializer =
  ser_obj :: 'j
  ser_error :: "string option"
  ser_has_task :: bool

definition quoted :: "string \<Rightarrow> string" where
  "quoted s = CHR 0x22 # s @ [CHR 0x22]"

definition ser_set :: "'j js_ops \<Rightarrow> string \<Rightarrow> 'j \<Rightarrow> 'j serializer \<Rightarrow> 'j serializer" where
  "ser_set J field v s =
     (if ser_error s \<noteq> None then s
      else case js_set J (ser_obj s) field v of
             Inl e \<Rightarrow> s\<lparr>ser_error := Some (''Unable to set '' @ quoted field)\<rparr>
           | Inr obj \<Rightarrow> s\<lparr>ser_obj := obj\<rparr>)"

definition ser_new :: "'j js_ops \<Rightarrow> string \<Rightarrow> 'j serializer" where
  "ser_new J ty = ser_set J ''type'' (js_of_string J ty) \<lparr>ser_obj = js_object J, ser_error = None, ser_has_task = False\<rparr>"

definition ser_boxed ::
    "'j js_ops \<Rightarrow> string \<Rightarrow> ('t, 'w) boxed \<Rightarrow> 'j serializer \<Rightarrow> ('t, 'w) box_heap \<Rightarrow> 'j serializer \<times> ('t, 'w) box_heap" where
  "ser_boxed J field v s h =
     (let (a, h1) = into_raw v h
      in (ser_set J field (js_of_bigint J a) (s\<lparr>ser_has_task := True\<rparr>), h1))"

definition ser_finish :: "'j js_ops \<Rightarrow> 'j serializer \<Rightarrow> string + 'j" where
  "ser_finish J s = (case ser_error s of
     Some e \<Rightarrow> Inl e
   | None \<Rightarrow> Inr (if ser_has_task s then js_prepare J (ser_obj s) else ser_obj s))"

section \<open>The deserializer\<close>

text \<open>\<open>type_name\<close> is the compiler's name of the expected type, which only the error's text shows.\<close>

definition wrong_type :: "string \<Rightarrow> string \<Rightarrow> string" where
  "wrong_type field type_name = ''The '' @ quoted field @ '' field isn't a '' @ quoted type_name"

definition de_new :: "'j js_ops \<Rightarrow> 'j \<Rightarrow> string + 'j" where
  "de_new J v = js_receive J v"

definition de_js :: "'j js_ops \<Rightarrow> string \<Rightarrow> 'j \<Rightarrow> string + 'j" where
  "de_js J field v = js_get J v field"

definition de_string :: "'j js_ops \<Rightarrow> string \<Rightarrow> 'j \<Rightarrow> string + string" where
  "de_string J field v = bind_res (de_js J field v) (\<lambda>x.
     case js_as_string J x of None \<Rightarrow> Inl (wrong_type field ''JsString'') | Some s \<Rightarrow> Inr s)"

definition de_ty :: "'j js_ops \<Rightarrow> 'j \<Rightarrow> string + string" where
  "de_ty J v = de_string J ''type'' v"

definition de_serde :: "'j js_ops \<Rightarrow> string \<Rightarrow> 'j \<Rightarrow> string + nat" where
  "de_serde J field v = bind_res (de_js J field v) (js_as_u32 J)"

text \<open>A decoded value with the boxes left; \<open>None\<close> is undefined behaviour.\<close>

type_synonym ('a, 't, 'w) decoded = "(string + 'a) option \<times> ('t, 'w) box_heap"

definition de_boxed ::
    "'j js_ops \<Rightarrow> (('t, 'w) boxed \<Rightarrow> 'a option) \<Rightarrow> ('a \<Rightarrow> 'm) \<Rightarrow> string \<Rightarrow> 'j \<Rightarrow> ('t, 'w) box_heap \<Rightarrow> ('m, 't, 'w) decoded" where
  "de_boxed J expect wrap field v h =
     (case de_js J field v of
        Inl e \<Rightarrow> (Some (Inl e), h)
      | Inr x \<Rightarrow> (case js_as_bigint J x of
            None \<Rightarrow> (Some (Inl (wrong_type field ''BigInt'')), h)
          | Some i \<Rightarrow> (case u64_try_from i of
                None \<Rightarrow> (None, h)
              | Some a \<Rightarrow> (case from_raw expect (a mod 2 ^ 32) h of (r, h1) \<Rightarrow> (map_option (\<lambda>t. Inr (wrap t)) r, h1)))))"

definition decoded_plain :: "string + 'a \<Rightarrow> ('t, 'w) box_heap \<Rightarrow> ('a, 't, 'w) decoded" where
  "decoded_plain r h = (Some r, h)"

section \<open>Messages to a worker\<close>

definition task_into_js :: "'j js_ops \<Rightarrow> string \<Rightarrow> ('t, 'w) boxed \<Rightarrow> ('t, 'w) box_heap \<Rightarrow> (string + 'j) \<times> ('t, 'w) box_heap" where
  "task_into_js J ty v h =
     (let (s, h1) = ser_boxed J ''ptr'' v (ser_new J ty) h in (ser_finish J s, h1))"

text \<open>A timer is boxed without the envelope for shared objects.\<close>

definition timer_into_js :: "'j js_ops \<Rightarrow> 't \<Rightarrow> ('t, 'w) box_heap \<Rightarrow> (string + 'j) \<times> ('t, 'w) box_heap" where
  "timer_into_js J t h =
     (let (a, h1) = into_raw (BoxTimer t) h
      in (ser_finish J (ser_set J ''ptr'' (js_of_bigint J a) (ser_new J ''timer'')), h1))"

fun payload_into_js :: "'j js_ops \<Rightarrow> 't payload \<Rightarrow> ('t, 't) box_heap \<Rightarrow> (string + 'j) \<times> ('t, 't) box_heap" where
  "payload_into_js J (TimerJob t) h = timer_into_js J t h"
| "payload_into_js J (AsyncThunk t) h = task_into_js J ''spawn-async'' (BoxAsync t) h"
| "payload_into_js J (BlockingThunk t) h = task_into_js J ''spawn-blocking'' (BoxBlocking t) h"
| "payload_into_js J (SpawnWasmJob t) h = task_into_js J ''spawn-wasm'' (BoxWasm t) h"

definition payload_of_ty :: "'j js_ops \<Rightarrow> 'j \<Rightarrow> string \<Rightarrow> ('t, 't) box_heap \<Rightarrow> ('t payload, 't, 't) decoded" where
  "payload_of_ty J v ty h =
     (if ty = ''timer'' then de_boxed J un_timer TimerJob ''ptr'' v h
      else if ty = ''spawn-async'' then de_boxed J un_async AsyncThunk ''ptr'' v h
      else if ty = ''spawn-blocking'' then de_boxed J un_blocking BlockingThunk ''ptr'' v h
      else if ty = ''spawn-wasm'' then de_boxed J un_wasm SpawnWasmJob ''ptr'' v h
      else (Some (Inl (''Unknown message type: '' @ ty)), h))"

definition payload_try_from_js :: "'j js_ops \<Rightarrow> 'j \<Rightarrow> ('t, 't) box_heap \<Rightarrow> ('t payload, 't, 't) decoded" where
  "payload_try_from_js J value h =
     (case bind_res (de_new J value) (\<lambda>v. map_ok (Pair v) (de_ty J v)) of
        Inl e \<Rightarrow> (Some (Inl e), h)
      | Inr (v, ty) \<Rightarrow> payload_of_ty J v ty h)"

section \<open>Messages to the scheduler\<close>

type_synonym ('t, 'p) wasm_task = "task_key \<times> 'p \<times> 't"

type_synonym ('t, 'p) sched_heap = "('t, ('t, 'p) wasm_task) box_heap"

definition worker_id_into_js :: "'j js_ops \<Rightarrow> string \<Rightarrow> nat \<Rightarrow> string + 'j" where
  "worker_id_into_js J ty w = ser_finish J (ser_set J ''worker-id'' (js_of_u32 J w) (ser_new J ty))"

fun sched_into_js ::
    "'j js_ops \<Rightarrow> ('t, 'v, 'p) sched_message \<Rightarrow> ('t, 'p) sched_heap \<Rightarrow> (string + 'j) \<times> ('t, 'p) sched_heap" where
  "sched_into_js J (MWorkerRetired w) h = (worker_id_into_js J ''worker-retired'' w, h)"
| "sched_into_js J (MTimer t) h = timer_into_js J t h"
| "sched_into_js J (MClose None drain) h = (ser_finish J (ser_new J ''close''), h)"
| "sched_into_js J (MClose (Some c) drain) h = (Inl ''acknowledged close messages are local to the scheduler'', h)"
| "sched_into_js J (MSpawnAsync t) h = task_into_js J ''spawn-async'' (BoxAsync t) h"
| "sched_into_js J (MSpawnBlocking t) h = task_into_js J ''spawn-blocking'' (BoxBlocking t) h"
| "sched_into_js J (MWorkerIdle w) h = (worker_id_into_js J ''worker-idle'' w, h)"
| "sched_into_js J (MWorkerBusy w) h = (worker_id_into_js J ''worker-busy'' w, h)"
| "sched_into_js J (MTerminateWasmThread pid tid) h =
     (ser_finish J (ser_set J ''tid'' (js_of_u32 J tid) (ser_set J ''pid'' (js_of_u32 J pid) (ser_new J ''terminate-wasm-thread''))), h)"
| "sched_into_js J MWorkerFailed h = (Inl ''worker failures are local to the scheduler'', h)"
| "sched_into_js J (MForceTerminate w g) h = (Inl ''worker lifecycle messages are local to the scheduler'', h)"
| "sched_into_js J (MWorkerExited w) h = (Inl ''worker lifecycle messages are local to the scheduler'', h)"
| "sched_into_js J (MCapiShare w r x v) h = (Inl ''C API messages are local to the scheduler'', h)"
| "sched_into_js J (MCapiRequest w r x) h = (Inl ''C API messages are local to the scheduler'', h)"
| "sched_into_js J (MCapiDelete w r x) h = (Inl ''C API messages are local to the scheduler'', h)"
| "sched_into_js J (MFromWorker w m) h = (Inl ''worker-origin messages are local to the scheduler'', h)"
| "sched_into_js J (MSpawnWasm key p t) h = task_into_js J ''spawn-wasm'' (BoxWasm (key, p, t)) h"

definition sched_of_ty :: "'j js_ops \<Rightarrow> 'j \<Rightarrow> string \<Rightarrow> ('t, 'p) sched_heap \<Rightarrow>
    (('t, 'v, 'p) sched_message, 't, ('t, 'p) wasm_task) decoded" where
  "sched_of_ty J v ty h =
     (if ty = ''worker-retired'' then decoded_plain (map_ok MWorkerRetired (de_serde J ''worker-id'' v)) h
      else if ty = ''timer'' then de_boxed J un_timer MTimer ''ptr'' v h
      else if ty = ''close'' then decoded_plain (Inr (MClose None False)) h
      else if ty = ''spawn-async'' then de_boxed J un_async MSpawnAsync ''ptr'' v h
      else if ty = ''spawn-blocking'' then de_boxed J un_blocking MSpawnBlocking ''ptr'' v h
      else if ty = ''worker-idle'' then decoded_plain (map_ok MWorkerIdle (de_serde J ''worker-id'' v)) h
      else if ty = ''worker-busy'' then decoded_plain (map_ok MWorkerBusy (de_serde J ''worker-id'' v)) h
      else if ty = ''terminate-wasm-thread'' then
        decoded_plain (bind_res (de_serde J ''pid'' v) (\<lambda>pid.
          map_ok (MTerminateWasmThread pid) (de_serde J ''tid'' v))) h
      else if ty = ''spawn-wasm'' then de_boxed J un_wasm (\<lambda>(key, p, t). MSpawnWasm key p t) ''ptr'' v h
      else (Some (Inl (''Unknown message type, '' @ quoted ty)), h))"

definition sched_try_from_js :: "'j js_ops \<Rightarrow> 'j \<Rightarrow> ('t, 'p) sched_heap \<Rightarrow>
    (('t, 'v, 'p) sched_message, 't, ('t, 'p) wasm_task) decoded" where
  "sched_try_from_js J value h =
     (case bind_res (de_new J value) (\<lambda>v. map_ok (Pair v) (de_ty J v)) of
        Inl e \<Rightarrow> (Some (Inl e), h)
      | Inr (v, ty) \<Rightarrow> sched_of_ty J v ty h)"

section \<open>Messages from a worker\<close>

datatype ('t, 'v, 'p) worker_message = MarkBusy | MarkIdle | Retired | Exited | ToScheduler "('t, 'v, 'p) sched_message"

fun worker_into_js ::
    "'j js_ops \<Rightarrow> ('t, 'v, 'p) worker_message \<Rightarrow> ('t, 'p) sched_heap \<Rightarrow> (string + 'j) \<times> ('t, 'p) sched_heap" where
  "worker_into_js J Retired h = (ser_finish J (ser_new J ''retired''), h)"
| "worker_into_js J Exited h = (ser_finish J (ser_new J ''exited''), h)"
| "worker_into_js J MarkBusy h = (ser_finish J (ser_new J ''busy''), h)"
| "worker_into_js J MarkIdle h = (ser_finish J (ser_new J ''idle''), h)"
| "worker_into_js J (ToScheduler m) h =
     (case sched_into_js J m h of
        (Inl e, h1) \<Rightarrow> (Inl e, h1)
      | (Inr v, h1) \<Rightarrow> (ser_finish J (ser_set J ''msg'' v (ser_new J ''scheduler'')), h1))"

definition worker_of_ty :: "'j js_ops \<Rightarrow> 'j \<Rightarrow> string \<Rightarrow> ('t, 'p) sched_heap \<Rightarrow>
    (('t, 'v, 'p) worker_message, 't, ('t, 'p) wasm_task) decoded" where
  "worker_of_ty J v ty h =
     (if ty = ''retired'' then (Some (Inr Retired), h)
      else if ty = ''exited'' then (Some (Inr Exited), h)
      else if ty = ''busy'' then (Some (Inr MarkBusy), h)
      else if ty = ''idle'' then (Some (Inr MarkIdle), h)
      else if ty = ''scheduler'' then
        (case de_js J ''msg'' v of
           Inl e \<Rightarrow> (Some (Inl e), h)
         | Inr value \<Rightarrow> (case sched_try_from_js J value h of
               (r, h1) \<Rightarrow> (map_option (map_ok ToScheduler) r, h1)))
      else (Some (Inl (''Unknown message type, '' @ quoted ty)), h))"

definition worker_try_from_js :: "'j js_ops \<Rightarrow> 'j \<Rightarrow> ('t, 'p) sched_heap \<Rightarrow>
    (('t, 'v, 'p) worker_message, 't, ('t, 'p) wasm_task) decoded" where
  "worker_try_from_js J value h =
     (case bind_res (de_new J value) (\<lambda>v. map_ok (Pair v) (de_ty J v)) of
        Inl e \<Rightarrow> (Some (Inl e), h)
      | Inr (v, ty) \<Rightarrow> worker_of_ty J v ty h)"

text \<open>Sending to the scheduler from a worker's thread posts the message; the scheduler's own thread puts
  it into the channel.\<close>

definition send_from_worker ::
    "'j js_ops \<Rightarrow> ('t, 'v, 'p) sched_message \<Rightarrow> ('t, 'p) sched_heap \<Rightarrow> (string + 'j) \<times> ('t, 'p) sched_heap" where
  "send_from_worker J m h = worker_into_js J (ToScheduler m) h"

section \<open>The handler of a worker's messages\<close>

definition field_of :: "'j js_ops \<Rightarrow> 'j \<Rightarrow> string \<Rightarrow> 'j option" where
  "field_of J data name = (case js_get J data name of Inl e \<Rightarrow> None | Inr x \<Rightarrow> Some x)"

definition has_type :: "'j js_ops \<Rightarrow> 'j \<Rightarrow> string \<Rightarrow> bool" where
  "has_type J data ty \<longleftrightarrow> Option.bind (field_of J data ''type'') (js_as_string J) = Some ty"

definition number_of :: "'j js_ops \<Rightarrow> 'j \<Rightarrow> string \<Rightarrow> f64_value option" where
  "number_of J data name = Option.bind (field_of J data name) (js_as_f64 J)"

text \<open>\<open>None\<close>: not such a message; \<open>Some None\<close>: one without the fields it needs, which is ignored.\<close>

definition handle_capi_request :: "'j js_ops \<Rightarrow> 'j \<Rightarrow> nat \<Rightarrow> ('t, 'j, 'p) sched_message option option" where
  "handle_capi_request J data w =
     (if \<not> has_type J data ''wasmer-capi-request'' then None
      else Some (Option.bind (number_of J data ''registryId'') (\<lambda>r.
        map_option (\<lambda>x. MCapiRequest w (f64_as_u32 r) (f64_as_i32 x)) (number_of J data ''handle''))))"

definition handle_capi_share :: "'j js_ops \<Rightarrow> 'j \<Rightarrow> nat \<Rightarrow> ('t, 'j, 'p) sched_message option option" where
  "handle_capi_share J data w =
     (if \<not> has_type J data ''wasmer-capi-share'' then None
      else Some (Option.bind (number_of J data ''registryId'') (\<lambda>r.
        Option.bind (number_of J data ''handle'') (\<lambda>x.
          map_option (MCapiShare w (f64_as_u32 r) (f64_as_i32 x)) (field_of J data ''value'')))))"

definition handle_capi_delete :: "'j js_ops \<Rightarrow> 'j \<Rightarrow> nat \<Rightarrow> ('t, 'j, 'p) sched_message option option" where
  "handle_capi_delete J data w =
     (if \<not> has_type J data ''wasmer-capi-delete'' then None
      else Some (Option.bind (number_of J data ''registryId'') (\<lambda>r.
        map_option (\<lambda>x. MCapiDelete w (f64_as_u32 r) (f64_as_i32 x)) (number_of J data ''handle''))))"

text \<open>The facade's handlers are asked in this order; each answers whether it claims the message.\<close>

definition handle_host_rpc :: "(string \<Rightarrow> ('j \<Rightarrow> bool) option) \<Rightarrow> 'j \<Rightarrow> bool" where
  "handle_host_rpc hooks data \<longleftrightarrow>
     list_ex (\<lambda>name. case hooks name of None \<Rightarrow> False | Some handler \<Rightarrow> handler data)
       [''__wasmerHandleFileSystemRpc'', ''__wasmerHandleNetworkRpc'', ''__wasmerHandleDiagnostic'']"

fun route :: "nat \<Rightarrow> bool \<Rightarrow> ('t, 'v, 'p) worker_message \<Rightarrow> ('t, 'v, 'p) sched_message option" where
  "route w closed Retired = Some (MWorkerRetired w)"
| "route w closed Exited = Some (MWorkerExited w)"
| "route w closed MarkBusy = Some (MWorkerBusy w)"
| "route w closed MarkIdle = (if closed then None else Some (MWorkerIdle w))"
| "route w closed (ToScheduler m) = Some (MFromWorker w m)"

text \<open>What the scheduler is sent for a message of worker \<open>w\<close>. A message that cannot be parsed is logged and
  dropped.\<close>

definition on_message ::
    "'j js_ops \<Rightarrow> (string \<Rightarrow> ('j \<Rightarrow> bool) option) \<Rightarrow> bool \<Rightarrow> nat \<Rightarrow> 'j \<Rightarrow> ('t, 'p) sched_heap \<Rightarrow>
     ('t, 'j, 'p) sched_message option option \<times> ('t, 'p) sched_heap" where
  "on_message J hooks closed w data h =
     (case handle_capi_share J data w of Some m \<Rightarrow> (Some m, h) | None \<Rightarrow>
      (case handle_capi_request J data w of Some m \<Rightarrow> (Some m, h) | None \<Rightarrow>
      (case handle_capi_delete J data w of Some m \<Rightarrow> (Some m, h) | None \<Rightarrow>
        (if handle_host_rpc hooks data then (Some None, h)
         else case worker_try_from_js J data h of
                (None, h1) \<Rightarrow> (None, h1)
              | (Some (Inl e), h1) \<Rightarrow> (Some None, h1)
              | (Some (Inr m), h1) \<Rightarrow> (Some (route w closed m), h1)))))"

text \<open>The text of a worker's error; module download failures carry no message.\<close>

definition error_message :: "'j js_ops \<Rightarrow> string \<Rightarrow> 'j \<Rightarrow> string" where
  "error_message J worker_url msg =
     (case Option.bind (field_of J msg ''message'') (js_as_string J) of
        Some m \<Rightarrow> if m \<noteq> [] then m else ''Unable to load worker module '' @ worker_url @ ''; check its URL and imports''
      | None \<Rightarrow> ''Unable to load worker module '' @ worker_url @ ''; check its URL and imports'')"

definition on_error :: "'j js_ops \<Rightarrow> string \<Rightarrow> nat \<Rightarrow> 'j \<Rightarrow> string option \<Rightarrow> string option \<times> ('t, 'v, 'p) sched_message" where
  "on_error J worker_url w msg failure = (worker_failed w (error_message J worker_url msg) failure, MWorkerFailed)"

section \<open>The messages of a worker's handle\<close>

fun set_all :: "'j js_ops \<Rightarrow> (string \<times> 'j) list \<Rightarrow> 'j \<Rightarrow> string + 'j" where
  "set_all J [] obj = Inr obj"
| "set_all J ((k, v) # kvs) obj = bind_res (js_set J obj k v) (set_all J kvs)"

record 'j capi_transfer =
  ct_registry :: nat
  ct_handle :: int
  ct_value :: 'j

fun capi_objects :: "'j js_ops \<Rightarrow> 'j capi_transfer list \<Rightarrow> string + 'j list" where
  "capi_objects J [] = Inr []"
| "capi_objects J (t # ts) =
     bind_res (set_all J [(''registryId'', js_of_u32 J (ct_registry t)), (''handle'', js_of_i32 J (ct_handle t)),
         (''value'', ct_value t)] (js_object J))
       (\<lambda>obj. map_ok (Cons obj) (capi_objects J ts))"

definition capi_transfers_array :: "'j js_ops \<Rightarrow> 'j capi_transfer list \<Rightarrow> string + 'j" where
  "capi_transfers_array J ts = map_ok (js_array J) (capi_objects J ts)"

definition capi_dispatch_message :: "'j js_ops \<Rightarrow> 'j \<Rightarrow> 'j capi_transfer list \<Rightarrow> string + 'j" where
  "capi_dispatch_message J msg ts =
     bind_res (capi_transfers_array J ts) (\<lambda>objects.
       set_all J [(''type'', js_of_string J ''wasmer-dispatch''), (''payload'', msg), (''capiObjects'', objects)] (js_object J))"

definition shutdown_message :: "'j js_ops \<Rightarrow> string + 'j" where
  "shutdown_message J = set_all J [(''type'', js_of_string J ''wasmer-shutdown'')] (js_object J)"

definition collect_message :: "'j js_ops \<Rightarrow> string + 'j" where
  "collect_message J = set_all J [(''type'', js_of_string J ''wasmer-collect-shared'')] (js_object J)"

definition capi_transfer_message :: "'j js_ops \<Rightarrow> 'j capi_transfer \<Rightarrow> string + 'j" where
  "capi_transfer_message J t =
     bind_res (capi_transfers_array J [t]) (\<lambda>objects.
       set_all J [(''type'', js_of_string J ''wasmer-capi-dispatch''), (''capiObjects'', objects)] (js_object J))"

definition capi_drop_message :: "'j js_ops \<Rightarrow> nat \<Rightarrow> int \<Rightarrow> string + 'j" where
  "capi_drop_message J registry handle =
     set_all J [(''type'', js_of_string J ''wasmer-capi-drop''), (''registryId'', js_of_u32 J registry),
       (''handle'', js_of_i32 J handle)] (js_object J)"

text \<open>The first message of a worker: \<open>memory\<close> and \<open>wasm\<close> are the running instance's memory and module,
  \<open>gate\<close> is the address of its termination gate.\<close>

definition sdk_url :: "string option \<Rightarrow> string" where
  "sdk_url custom = (case custom of Some url \<Rightarrow> url | None \<Rightarrow> ''index.mjs'')"

definition worker_url :: "string \<Rightarrow> string option \<Rightarrow> string" where
  "worker_url default_url custom = (case custom of Some url \<Rightarrow> url | None \<Rightarrow> default_url)"

definition init_message :: "'j js_ops \<Rightarrow> 'j \<Rightarrow> 'j \<Rightarrow> string option \<Rightarrow> nat \<Rightarrow> bool \<Rightarrow> nat \<Rightarrow> string + 'j" where
  "init_message J memory wasm custom_sdk w retire gate =
     set_all J [(''type'', js_of_string J ''init''), (''memory'', memory), (''id'', js_of_u32 J w),
       (''gate'', js_of_u32 J gate), (''retireAfterTask'', js_of_bool J retire),
       (''sdkUrl'', js_of_string J (sdk_url custom_sdk)), (''module'', wasm)] (js_object J)"

text \<open>Starting a worker: \<open>create\<close> makes the browser's worker, \<open>post\<close> sends it a value.\<close>

definition handle_spawn ::
    "'j js_ops \<Rightarrow> (string \<Rightarrow> string \<Rightarrow> string + 'x) \<Rightarrow> ('x \<Rightarrow> 'j \<Rightarrow> string + unit) \<Rightarrow> string \<Rightarrow> 'j \<Rightarrow> 'j \<Rightarrow> string option \<Rightarrow> nat \<Rightarrow>
     bool \<Rightarrow> nat \<Rightarrow> string + 'x" where
  "handle_spawn J create post url memory wasm custom_sdk w retire gate =
     bind_res (create url (''worker-'' @ nat_digits w)) (\<lambda>x.
       bind_res (init_message J memory wasm custom_sdk w retire gate) (\<lambda>m. map_ok (\<lambda>_. x) (post x m)))"

definition send_with_capi_transfers ::
    "'j js_ops \<Rightarrow> ('j \<Rightarrow> string + unit) \<Rightarrow> 't payload \<Rightarrow> 'j capi_transfer list \<Rightarrow> ('t, 't) box_heap \<Rightarrow>
     (string + unit) \<times> ('t, 't) box_heap" where
  "send_with_capi_transfers J post p ts h =
     bind_st (payload_into_js J p h) (\<lambda>v h1.
       bind_st (if ts = [] then Inr v else capi_dispatch_message J v ts, h1) (\<lambda>m h2. (post m, h2)))"

section \<open>Which messages travel\<close>

fun crosses :: "('t, 'v, 'p) sched_message \<Rightarrow> bool" where
  "crosses (MClose c drain) = (c = None)"
| "crosses (MSpawnAsync t) = True"
| "crosses (MSpawnBlocking t) = True"
| "crosses (MTimer t) = True"
| "crosses (MWorkerIdle w) = True"
| "crosses (MWorkerBusy w) = True"
| "crosses (MWorkerRetired w) = True"
| "crosses (MTerminateWasmThread p t) = True"
| "crosses (MSpawnWasm k p t) = True"
| "crosses _ = False"

text \<open>The 32-bit fields of a message.\<close>

fun numbers_ok :: "('t, 'v, 'p) sched_message \<Rightarrow> bool" where
  "numbers_ok (MWorkerIdle w) = (w < 2 ^ 32)"
| "numbers_ok (MWorkerBusy w) = (w < 2 ^ 32)"
| "numbers_ok (MWorkerRetired w) = (w < 2 ^ 32)"
| "numbers_ok (MTerminateWasmThread p t) = (p < 2 ^ 32 \<and> t < 2 ^ 32)"
| "numbers_ok _ = True"

text \<open>A close message does not carry whether to drain.\<close>

fun arrived :: "('t, 'v, 'p) sched_message \<Rightarrow> ('t, 'v, 'p) sched_message" where
  "arrived (MClose c drain) = MClose None False"
| "arrived m = m"

fun box_of :: "('t, 'v, 'p) sched_message \<Rightarrow> ('t, ('t, 'p) wasm_task) boxed option" where
  "box_of (MSpawnAsync t) = Some (BoxAsync t)"
| "box_of (MSpawnBlocking t) = Some (BoxBlocking t)"
| "box_of (MTimer t) = Some (BoxTimer t)"
| "box_of (MSpawnWasm key p t) = Some (BoxWasm (key, p, t))"
| "box_of _ = None"

fun payload_box :: "'t payload \<Rightarrow> ('t, 't) boxed" where
  "payload_box (TimerJob t) = BoxTimer t"
| "payload_box (AsyncThunk t) = BoxAsync t"
| "payload_box (BlockingThunk t) = BoxBlocking t"
| "payload_box (SpawnWasmJob t) = BoxWasm t"

definition taken :: "nat \<Rightarrow> ('t, 'w) box_heap \<Rightarrow> ('t, 'w) box_heap" where
  "taken a h = h\<lparr>bh_live := (bh_live h)(a := None)\<rparr>"

section \<open>Encoding and decoding\<close>

lemma js_lawsD:
  assumes "js_laws J"
  shows "js_is_object J (js_object J)"
    "js_is_object J obj \<Longrightarrow> \<exists>obj'. js_set J obj k v = Inr obj' \<and> js_is_object J obj' \<and>
        (\<forall>k'. js_get J obj' k' = (if k' = k then Inr v else js_get J obj k'))"
    "js_as_string J (js_of_string J s) = Some s"
    "n < 2 ^ 32 \<Longrightarrow> js_as_u32 J (js_of_u32 J n) = Inr n"
    "js_as_bigint J (js_of_bigint J n) = Some (int n)"
    "js_is_object J obj \<Longrightarrow> js_receive J obj = Inr obj"
    "js_is_object J obj \<Longrightarrow> js_receive J (js_prepare J obj) = Inr obj"
  using assms unfolding js_laws_def by blast+

text \<open>A serializer without error whose object has exactly the fields set.\<close>

definition ser_holds :: "'j js_ops \<Rightarrow> bool \<Rightarrow> (string \<Rightarrow> 'j option) \<Rightarrow> 'j serializer \<Rightarrow> bool" where
  "ser_holds J task fs s \<longleftrightarrow> ser_error s = None \<and> ser_has_task s = task \<and> js_is_object J (ser_obj s) \<and>
     (\<forall>k v. fs k = Some v \<longrightarrow> js_get J (ser_obj s) k = Inr v)"

lemma ser_set_holds:
  assumes "js_laws J" "ser_holds J task fs s"
  shows "ser_holds J task (fs(k \<mapsto> v)) (ser_set J k v s)"
proof -
  obtain obj where obj: "js_set J (ser_obj s) k v = Inr obj" "js_is_object J obj"
      "\<forall>k'. js_get J obj k' = (if k' = k then Inr v else js_get J (ser_obj s) k')"
    using js_lawsD(2) [OF assms(1), of "ser_obj s" k v] assms(2) by (auto simp: ser_holds_def)
  then show ?thesis using assms(2) by (auto simp: ser_holds_def ser_set_def)
qed

lemma ser_new_holds:
  assumes "js_laws J"
  shows "ser_holds J False [''type'' \<mapsto> js_of_string J ty] (ser_new J ty)"
  unfolding ser_new_def
  by (rule ser_set_holds [OF assms, where fs = Map.empty])
    (simp add: ser_holds_def js_lawsD(1) [OF assms])

lemma ser_task_holds: "ser_holds J task fs s \<Longrightarrow> ser_holds J True fs (s\<lparr>ser_has_task := True\<rparr>)"
  by (simp add: ser_holds_def)

text \<open>A finished value and what the receiver reads of it.\<close>

definition value_holds :: "'j js_ops \<Rightarrow> (string \<Rightarrow> 'j option) \<Rightarrow> 'j \<Rightarrow> bool" where
  "value_holds J fs v \<longleftrightarrow>
     (\<exists>obj. js_receive J v = Inr obj \<and> (\<forall>k x. fs k = Some x \<longrightarrow> js_get J obj k = Inr x))"

lemma ser_finish_holds:
  assumes "js_laws J" "ser_holds J task fs s"
  shows "\<exists>v. ser_finish J s = Inr v \<and> value_holds J fs v"
  using assms js_lawsD(6,7) [OF assms(1), of "ser_obj s"]
  by (cases task) (auto simp: ser_holds_def ser_finish_def value_holds_def)

lemma plain_finish:
  assumes "js_laws J" "ser_holds J False fs s"
  shows "\<exists>v. ser_finish J s = Inr v \<and> value_holds J fs v \<and> (\<forall>k x. fs k = Some x \<longrightarrow> js_get J v k = Inr x)"
  using assms js_lawsD(6) [OF assms(1), of "ser_obj s"]
  by (auto simp: ser_holds_def ser_finish_def value_holds_def)

lemma value_ty:
  assumes "js_laws J" "value_holds J fs v" "fs ''type'' = Some (js_of_string J ty)"
  shows "\<exists>obj. bind_res (de_new J v) (\<lambda>v. map_ok (Pair v) (de_ty J v)) = Inr (obj, ty) \<and>
    (\<forall>k x. fs k = Some x \<longrightarrow> js_get J obj k = Inr x)"
proof -
  obtain obj where obj: "js_receive J v = Inr obj" "\<forall>k x. fs k = Some x \<longrightarrow> js_get J obj k = Inr x"
    using assms(2) by (auto simp: value_holds_def)
  then have "js_get J obj ''type'' = Inr (js_of_string J ty)" using assms(3) by blast
  then have "bind_res (de_new J v) (\<lambda>v. map_ok (Pair v) (de_ty J v)) = Inr (obj, ty)"
    using obj(1) by (simp add: de_new_def de_ty_def de_string_def de_js_def js_lawsD(3) [OF assms(1)])
  then show ?thesis using obj(2) by blast
qed

lemma task_into:
  assumes "js_laws J"
  shows "\<exists>v. task_into_js J ty b h = (Inr v, snd (into_raw b h)) \<and>
    value_holds J [''type'' \<mapsto> js_of_string J ty, ''ptr'' \<mapsto> js_of_bigint J (bh_next h)] v"
  using ser_finish_holds [OF assms ser_set_holds [OF assms ser_task_holds [OF ser_new_holds [OF assms, of ty]],
      of "''ptr''" "js_of_bigint J (bh_next h)"]]
  by (auto simp: task_into_js_def ser_boxed_def into_raw_def Let_def)

lemma timer_into:
  assumes "js_laws J"
  shows "\<exists>v. timer_into_js J t h = (Inr v, snd (into_raw (BoxTimer t) h)) \<and>
    value_holds J [''type'' \<mapsto> js_of_string J ''timer'', ''ptr'' \<mapsto> js_of_bigint J (bh_next h)] v"
  using ser_finish_holds [OF assms ser_set_holds [OF assms ser_new_holds [OF assms, of "''timer''"],
      of "''ptr''" "js_of_bigint J (bh_next h)"]]
  by (auto simp: timer_into_js_def into_raw_def Let_def)

lemma de_boxed_holds:
  assumes "js_laws J" "js_get J obj ''ptr'' = Inr (js_of_bigint J a)" "a < 2 ^ 32" "bh_live h a = Some b" "expect b = Some t"
  shows "de_boxed J expect wrap ''ptr'' obj h = (Some (Inr (wrap t)), taken a h)"
proof -
  have "u64_try_from (int a) = Some a" using assms(3) by (simp add: u64_try_from_def u64_max_def)
  moreover have "a mod 2 ^ 32 = a" using assms(3) by simp
  ultimately show ?thesis
    using assms(2,4,5) by (simp add: de_boxed_def de_js_def js_lawsD(5) [OF assms(1)] from_raw_def taken_def)
qed

lemma de_boxed_gone:
  assumes "js_laws J" "js_get J obj ''ptr'' = Inr (js_of_bigint J a)" "a < 2 ^ 32" "bh_live h a = None"
  shows "fst (de_boxed J expect wrap ''ptr'' obj h) = None"
proof -
  have "u64_try_from (int a) = Some a" using assms(3) by (simp add: u64_try_from_def u64_max_def)
  then show ?thesis
    using assms(2-4) by (simp add: de_boxed_def de_js_def js_lawsD(5) [OF assms(1)] from_raw_def)
qed

lemma de_serde_holds:
  "js_laws J \<Longrightarrow> js_get J obj k = Inr (js_of_u32 J n) \<Longrightarrow> n < 2 ^ 32 \<Longrightarrow> de_serde J k obj = Inr n"
  by (simp add: de_serde_def de_js_def js_lawsD(4))

text \<open>The fields of a message whose box, if it has one, is at \<open>a\<close>.\<close>

fun message_fields :: "'j js_ops \<Rightarrow> nat \<Rightarrow> ('t, 'v, 'p) sched_message \<Rightarrow> string \<Rightarrow> 'j option" where
  "message_fields J a (MWorkerRetired w) = [''type'' \<mapsto> js_of_string J ''worker-retired'', ''worker-id'' \<mapsto> js_of_u32 J w]"
| "message_fields J a (MWorkerIdle w) = [''type'' \<mapsto> js_of_string J ''worker-idle'', ''worker-id'' \<mapsto> js_of_u32 J w]"
| "message_fields J a (MWorkerBusy w) = [''type'' \<mapsto> js_of_string J ''worker-busy'', ''worker-id'' \<mapsto> js_of_u32 J w]"
| "message_fields J a (MTerminateWasmThread pid tid) =
     [''type'' \<mapsto> js_of_string J ''terminate-wasm-thread'', ''pid'' \<mapsto> js_of_u32 J pid, ''tid'' \<mapsto> js_of_u32 J tid]"
| "message_fields J a (MClose c d) = [''type'' \<mapsto> js_of_string J ''close'']"
| "message_fields J a (MTimer t) = [''type'' \<mapsto> js_of_string J ''timer'', ''ptr'' \<mapsto> js_of_bigint J a]"
| "message_fields J a (MSpawnAsync t) = [''type'' \<mapsto> js_of_string J ''spawn-async'', ''ptr'' \<mapsto> js_of_bigint J a]"
| "message_fields J a (MSpawnBlocking t) = [''type'' \<mapsto> js_of_string J ''spawn-blocking'', ''ptr'' \<mapsto> js_of_bigint J a]"
| "message_fields J a (MSpawnWasm k p t) = [''type'' \<mapsto> js_of_string J ''spawn-wasm'', ''ptr'' \<mapsto> js_of_bigint J a]"
| "message_fields J a _ = Map.empty"

definition heap_with :: "('t, 'w) boxed option \<Rightarrow> ('t, 'w) box_heap \<Rightarrow> ('t, 'w) box_heap" where
  "heap_with b h = (case b of None \<Rightarrow> h | Some b \<Rightarrow> snd (into_raw b h))"

definition heap_without :: "('t, 'w) boxed option \<Rightarrow> nat \<Rightarrow> ('t, 'w) box_heap \<Rightarrow> ('t, 'w) box_heap" where
  "heap_without b a h = (case b of None \<Rightarrow> h | Some _ \<Rightarrow> taken a h)"

lemma worker_id_into:
  assumes "js_laws J"
  shows "\<exists>v. worker_id_into_js J ty w = Inr v \<and>
    value_holds J [''type'' \<mapsto> js_of_string J ty, ''worker-id'' \<mapsto> js_of_u32 J w] v"
  unfolding worker_id_into_js_def by (rule ser_finish_holds [OF assms ser_set_holds [OF assms ser_new_holds [OF assms]]])

lemma sched_encode:
  assumes "js_laws J" "crosses m"
  shows "\<exists>v. sched_into_js J m h = (Inr v, heap_with (box_of m) h) \<and> value_holds J (message_fields J (bh_next h) m) v"
proof (cases m)
  case (MTerminateWasmThread pid tid)
  then show ?thesis
    using ser_finish_holds [OF assms(1) ser_set_holds [OF assms(1) ser_set_holds [OF assms(1) ser_new_holds [OF assms(1), of "''terminate-wasm-thread''"],
        of "''pid''" "js_of_u32 J pid"], of "''tid''" "js_of_u32 J tid"]]
    by (auto simp: heap_with_def)
next
  case (MClose c d)
  then show ?thesis
    using assms(2) ser_finish_holds [OF assms(1) ser_new_holds [OF assms(1), of "''close''"]] by (auto simp: heap_with_def)
qed (use assms worker_id_into [OF assms(1)] task_into [OF assms(1)] timer_into [OF assms(1)] in \<open>auto simp: heap_with_def\<close>)

fun message_ty :: "('t, 'v, 'p) sched_message \<Rightarrow> string" where
  "message_ty (MWorkerRetired w) = ''worker-retired''"
| "message_ty (MWorkerIdle w) = ''worker-idle''"
| "message_ty (MWorkerBusy w) = ''worker-busy''"
| "message_ty (MTerminateWasmThread pid tid) = ''terminate-wasm-thread''"
| "message_ty (MClose c d) = ''close''"
| "message_ty (MTimer t) = ''timer''"
| "message_ty (MSpawnAsync t) = ''spawn-async''"
| "message_ty (MSpawnBlocking t) = ''spawn-blocking''"
| "message_ty (MSpawnWasm k p t) = ''spawn-wasm''"
| "message_ty _ = []"

lemma message_fields_ty: "crosses m \<Longrightarrow> message_fields J a m ''type'' = Some (js_of_string J (message_ty m))"
  by (cases m) auto

lemma sched_of_ty_decodes:
  assumes "js_laws J" "crosses m" "numbers_ok m" "\<And>k x. message_fields J a m k = Some x \<Longrightarrow> js_get J obj k = Inr x"
    and "\<And>b. box_of m = Some b \<Longrightarrow> a < 2 ^ 32 \<and> bh_live h a = Some b"
  shows "sched_of_ty J obj (message_ty m) h = (Some (Inr (arrived m)), heap_without (box_of m) a h)"
proof (cases m)
  case (MTerminateWasmThread pid tid)
  then show ?thesis
    using assms(3) assms(4) [of "''pid''" "js_of_u32 J pid"] assms(4) [of "''tid''" "js_of_u32 J tid"]
    by (simp add: sched_of_ty_def decoded_plain_def heap_without_def de_serde_holds [OF assms(1)])
next
  case (MTimer t)
  then show ?thesis
    using assms(4) [of "''ptr''" "js_of_bigint J a"] assms(5)
    by (simp add: sched_of_ty_def heap_without_def de_boxed_holds [OF assms(1)])
next
  case (MSpawnAsync t)
  then show ?thesis
    using assms(4) [of "''ptr''" "js_of_bigint J a"] assms(5)
    by (simp add: sched_of_ty_def heap_without_def de_boxed_holds [OF assms(1)])
next
  case (MSpawnBlocking t)
  then show ?thesis
    using assms(4) [of "''ptr''" "js_of_bigint J a"] assms(5)
    by (simp add: sched_of_ty_def heap_without_def de_boxed_holds [OF assms(1)])
next
  case (MSpawnWasm k p t)
  then show ?thesis
    using assms(4) [of "''ptr''" "js_of_bigint J a"] assms(5)
    by (simp add: sched_of_ty_def heap_without_def de_boxed_holds [OF assms(1)])
next
  case (MWorkerIdle w)
  then show ?thesis
    using assms(3) assms(4) [of "''worker-id''" "js_of_u32 J w"]
    by (simp add: sched_of_ty_def decoded_plain_def heap_without_def de_serde_holds [OF assms(1)])
next
  case (MWorkerBusy w)
  then show ?thesis
    using assms(3) assms(4) [of "''worker-id''" "js_of_u32 J w"]
    by (simp add: sched_of_ty_def decoded_plain_def heap_without_def de_serde_holds [OF assms(1)])
next
  case (MWorkerRetired w)
  then show ?thesis
    using assms(3) assms(4) [of "''worker-id''" "js_of_u32 J w"]
    by (simp add: sched_of_ty_def decoded_plain_def heap_without_def de_serde_holds [OF assms(1)])
qed (use assms(2) in \<open>simp_all add: sched_of_ty_def decoded_plain_def heap_without_def\<close>)

lemma sched_decode:
  assumes "js_laws J" "crosses m" "numbers_ok m" "value_holds J (message_fields J a m) v"
    and "\<And>b. box_of m = Some b \<Longrightarrow> a < 2 ^ 32 \<and> bh_live h a = Some b"
  shows "sched_try_from_js J v h = (Some (Inr (arrived m)), heap_without (box_of m) a h)"
proof -
  obtain obj where obj: "bind_res (de_new J v) (\<lambda>v. map_ok (Pair v) (de_ty J v)) = Inr (obj, message_ty m)"
      "\<And>k x. message_fields J a m k = Some x \<Longrightarrow> js_get J obj k = Inr x"
    using value_ty [OF assms(1,4) message_fields_ty [OF assms(2)]] by blast
  then show ?thesis
    using sched_of_ty_decodes [OF assms(1-3) obj(2) assms(5)] by (simp add: sched_try_from_js_def)
qed

lemma sched_refused: "\<not> crosses m \<Longrightarrow> \<exists>e. sched_into_js J m h = (Inl e, h)"
proof (cases m)
  case (MClose c d)
  then show "\<not> crosses m \<Longrightarrow> ?thesis" by (cases c) auto
qed auto

text \<open>The same for the messages of the scheduler to a worker.\<close>

fun payload_ty :: "'t payload \<Rightarrow> string" where
  "payload_ty (TimerJob t) = ''timer''"
| "payload_ty (AsyncThunk t) = ''spawn-async''"
| "payload_ty (BlockingThunk t) = ''spawn-blocking''"
| "payload_ty (SpawnWasmJob t) = ''spawn-wasm''"

lemma payload_encode:
  assumes "js_laws J"
  shows "\<exists>v. payload_into_js J p h = (Inr v, snd (into_raw (payload_box p) h)) \<and>
    value_holds J [''type'' \<mapsto> js_of_string J (payload_ty p), ''ptr'' \<mapsto> js_of_bigint J (bh_next h)] v"
  using task_into [OF assms] timer_into [OF assms] by (cases p) auto

lemma payload_decode:
  assumes "js_laws J" "value_holds J [''type'' \<mapsto> js_of_string J (payload_ty p), ''ptr'' \<mapsto> js_of_bigint J a] v"
    and "a < 2 ^ 32" "bh_live h a = Some (payload_box p)"
  shows "payload_try_from_js J v h = (Some (Inr p), taken a h)"
    and "fst (payload_try_from_js J v (taken a h)) = None"
proof -
  let ?fs = "[''type'' \<mapsto> js_of_string J (payload_ty p), ''ptr'' \<mapsto> js_of_bigint J a]"
  have ty: "?fs ''type'' = Some (js_of_string J (payload_ty p))" by simp
  obtain obj where obj: "bind_res (de_new J v) (\<lambda>v. map_ok (Pair v) (de_ty J v)) = Inr (obj, payload_ty p)"
      "\<And>k x. ?fs k = Some x \<Longrightarrow> js_get J obj k = Inr x"
    using value_ty [OF assms(1,2) ty] by blast
  have ptr: "js_get J obj ''ptr'' = Inr (js_of_bigint J a)" by (rule obj(2)) simp
  have "payload_of_ty J obj (payload_ty p) h = (Some (Inr p), taken a h)"
    using assms(4) by (cases p) (simp_all add: payload_of_ty_def de_boxed_holds [OF assms(1) ptr assms(3)])
  moreover have "fst (payload_of_ty J obj (payload_ty p) (taken a h)) = None"
    by (cases p) (simp_all add: payload_of_ty_def taken_def de_boxed_gone [OF assms(1) ptr assms(3)])
  ultimately show "payload_try_from_js J v h = (Some (Inr p), taken a h)"
      "fst (payload_try_from_js J v (taken a h)) = None"
    using obj(1) by (simp_all add: payload_try_from_js_def)
qed

text \<open>A job the scheduler posts to a worker arrives as it was sent: encoding never fails, and decoding
  the value, whatever boxes were made or taken in between, gives back the same job and takes exactly its
  box, so the job runs once; decoding the value again finds no box.\<close>

theorem payload_roundtrip:
  assumes "js_laws J" "heap_ok h"
  shows "\<exists>v. payload_into_js J p h = (Inr v, snd (into_raw (payload_box p) h)) \<and>
    (\<forall>h2. bh_live h2 (bh_next h) = Some (payload_box p) \<longrightarrow>
       payload_try_from_js J v h2 = (Some (Inr p), taken (bh_next h) h2) \<and>
       fst (payload_try_from_js J v (taken (bh_next h) h2)) = None)"
proof -
  obtain v where v: "payload_into_js J p h = (Inr v, snd (into_raw (payload_box p) h))"
      "value_holds J [''type'' \<mapsto> js_of_string J (payload_ty p), ''ptr'' \<mapsto> js_of_bigint J (bh_next h)] v"
    using payload_encode [OF assms(1)] by blast
  have a: "bh_next h < 2 ^ 32" using assms(2) by (simp add: heap_ok_def)
  show ?thesis
    using v(1) payload_decode [OF assms(1) v(2) a] by blast
qed

section \<open>From a worker to the scheduler\<close>

fun worker_ty :: "('t, 'v, 'p) worker_message \<Rightarrow> string" where
  "worker_ty Retired = ''retired''"
| "worker_ty Exited = ''exited''"
| "worker_ty MarkBusy = ''busy''"
| "worker_ty MarkIdle = ''idle''"
| "worker_ty (ToScheduler m) = ''scheduler''"

fun worker_box :: "('t, 'v, 'p) worker_message \<Rightarrow> ('t, ('t, 'p) wasm_task) boxed option" where
  "worker_box (ToScheduler m) = box_of m"
| "worker_box _ = None"

fun worker_crosses :: "('t, 'v, 'p) worker_message \<Rightarrow> bool" where
  "worker_crosses (ToScheduler m) = crosses m"
| "worker_crosses _ = True"

fun worker_numbers_ok :: "('t, 'v, 'p) worker_message \<Rightarrow> bool" where
  "worker_numbers_ok (ToScheduler m) = numbers_ok m"
| "worker_numbers_ok _ = True"

fun worker_arrived :: "('t, 'v, 'p) worker_message \<Rightarrow> ('t, 'v, 'p) worker_message" where
  "worker_arrived (ToScheduler m) = ToScheduler (arrived m)"
| "worker_arrived m = m"

text \<open>An encoded worker message is a plain object.\<close>

definition plain_value :: "'j js_ops \<Rightarrow> (string \<Rightarrow> 'j option) \<Rightarrow> 'j \<Rightarrow> bool" where
  "plain_value J fs v \<longleftrightarrow> js_receive J v = Inr v \<and> (\<forall>k x. fs k = Some x \<longrightarrow> js_get J v k = Inr x)"

lemma plain_into:
  assumes "js_laws J" "ser_holds J False fs s"
  shows "\<exists>v. ser_finish J s = Inr v \<and> plain_value J fs v"
  using assms js_lawsD(6) [OF assms(1), of "ser_obj s"]
  by (auto simp: ser_holds_def ser_finish_def plain_value_def)

lemma worker_encode:
  assumes "js_laws J" "worker_crosses wm"
  shows "\<exists>v inner. worker_into_js J wm h = (Inr v, heap_with (worker_box wm) h) \<and>
    plain_value J [''type'' \<mapsto> js_of_string J (worker_ty wm)] v \<and>
    (\<forall>m. wm = ToScheduler m \<longrightarrow> js_get J v ''msg'' = Inr inner \<and> value_holds J (message_fields J (bh_next h) m) inner)"
proof (cases wm)
  case (ToScheduler m)
  then obtain inner where inner: "sched_into_js J m h = (Inr inner, heap_with (box_of m) h)"
      "value_holds J (message_fields J (bh_next h) m) inner"
    using sched_encode [OF assms(1), of m h] assms(2) by auto
  obtain v where "ser_finish J (ser_set J ''msg'' inner (ser_new J ''scheduler'')) = Inr v"
      "plain_value J ([''type'' \<mapsto> js_of_string J ''scheduler''](''msg'' \<mapsto> inner)) v"
    using plain_into [OF assms(1) ser_set_holds [OF assms(1) ser_new_holds [OF assms(1)]]] by blast
  then show ?thesis
    using ToScheduler inner by (intro exI [of _ v] exI [of _ inner]) (auto simp: plain_value_def)
qed (use plain_into [OF assms(1) ser_new_holds [OF assms(1)]] in \<open>auto simp: heap_with_def\<close>)

lemma plain_type:
  assumes "js_laws J" "plain_value J [''type'' \<mapsto> js_of_string J ty] v"
  shows "has_type J v ty' \<longleftrightarrow> ty' = ty" "bind_res (de_new J v) (\<lambda>v. map_ok (Pair v) (de_ty J v)) = Inr (v, ty)"
proof -
  have "js_get J v ''type'' = Inr (js_of_string J ty)" using assms(2) by (simp add: plain_value_def)
  then show "has_type J v ty' \<longleftrightarrow> ty' = ty" "bind_res (de_new J v) (\<lambda>v. map_ok (Pair v) (de_ty J v)) = Inr (v, ty)"
    using assms(2) by (auto simp: has_type_def field_of_def js_lawsD(3) [OF assms(1)] de_new_def de_ty_def de_string_def
      de_js_def plain_value_def)
qed

lemma worker_decode:
  assumes "js_laws J" "worker_crosses wm" "worker_numbers_ok wm"
    and "plain_value J [''type'' \<mapsto> js_of_string J (worker_ty wm)] v"
    and "\<And>m. wm = ToScheduler m \<Longrightarrow> js_get J v ''msg'' = Inr inner \<and> value_holds J (message_fields J a m) inner"
    and "\<And>b. worker_box wm = Some b \<Longrightarrow> a < 2 ^ 32 \<and> bh_live h a = Some b"
  shows "worker_try_from_js J v h = (Some (Inr (worker_arrived wm)), heap_without (worker_box wm) a h)"
proof (cases wm)
  case (ToScheduler m)
  have "sched_try_from_js J inner h = (Some (Inr (arrived m)), heap_without (box_of m) a h)"
    using assms(2,3,5,6) ToScheduler by (intro sched_decode [OF assms(1)]) auto
  then show ?thesis
    using ToScheduler assms(5) plain_type(2) [OF assms(1,4)]
    by (simp add: worker_try_from_js_def worker_of_ty_def de_js_def)
qed (use plain_type(2) [OF assms(1,4)] in \<open>simp_all add: worker_try_from_js_def worker_of_ty_def heap_without_def\<close>)

lemma on_message_plain:
  assumes "js_laws J" "plain_value J [''type'' \<mapsto> js_of_string J (worker_ty wm)] v" "\<not> handle_host_rpc hooks v"
    and "worker_try_from_js J v h = (Some (Inr m), h1)"
  shows "on_message J hooks closed w v h = (Some (route w closed m), h1)"
proof -
  have "\<not> has_type J v ''wasmer-capi-share''" "\<not> has_type J v ''wasmer-capi-request''" "\<not> has_type J v ''wasmer-capi-delete''"
    unfolding plain_type(1) [OF assms(1,2)] by (cases wm; simp)+
  then show ?thesis
    using assms(3,4) by (simp add: on_message_def handle_capi_share_def handle_capi_request_def handle_capi_delete_def)
qed

text \<open>C32: What a worker reports reaches the scheduler. A message that may leave the worker's thread is encoded
  without error, and the handler of worker \<open>w\<close> turns it into the scheduler's message: busy, idle (unless
  the pool is closed), retired and exited for that worker, or the worker's own message marked with where
  it came from; exactly the box of a task is taken. A message that is local to the scheduler's thread is
  refused before anything is boxed.\<close>

theorem worker_message_arrives:
  assumes "js_laws J" "heap_ok h" "worker_numbers_ok wm"
  shows "if worker_crosses wm
    then \<exists>v. worker_into_js J wm h = (Inr v, heap_with (worker_box wm) h) \<and>
      (\<forall>h2 hooks. \<not> handle_host_rpc hooks v \<longrightarrow>
         (\<forall>b. worker_box wm = Some b \<longrightarrow> bh_live h2 (bh_next h) = Some b) \<longrightarrow>
         on_message J hooks closed w v h2 =
           (Some (route w closed (worker_arrived wm)), heap_without (worker_box wm) (bh_next h) h2))
    else \<exists>e. worker_into_js J wm h = (Inl e, h)"
proof (cases "worker_crosses wm")
  case True
  then obtain v inner where v: "worker_into_js J wm h = (Inr v, heap_with (worker_box wm) h)"
      "plain_value J [''type'' \<mapsto> js_of_string J (worker_ty wm)] v"
      "\<And>m. wm = ToScheduler m \<Longrightarrow> js_get J v ''msg'' = Inr inner \<and> value_holds J (message_fields J (bh_next h) m) inner"
    using worker_encode [OF assms(1), of wm h] by blast
  have a: "bh_next h < 2 ^ 32" using assms(2) by (simp add: heap_ok_def)
  have "on_message J hooks closed w v h2 =
      (Some (route w closed (worker_arrived wm)), heap_without (worker_box wm) (bh_next h) h2)"
    if "\<not> handle_host_rpc hooks v" "\<forall>b. worker_box wm = Some b \<longrightarrow> bh_live h2 (bh_next h) = Some b" for h2 hooks
  proof (rule on_message_plain [OF assms(1) v(2) that(1)])
    show "worker_try_from_js J v h2 =
        (Some (Inr (worker_arrived wm)), heap_without (worker_box wm) (bh_next h) h2)"
      by (rule worker_decode [OF assms(1) True assms(3) v(2) v(3)]) (use that(2) a in auto)
  qed
  with v(1) True show ?thesis by auto
next
  case False
  then obtain m where "wm = ToScheduler m" "\<not> crosses m" by (cases wm) auto
  then show ?thesis using sched_refused [of m J h] by auto
qed

section \<open>Witnesses\<close>

text \<open>JavaScript values as a datatype: strings, numbers, big integers, arrays, objects and the envelope.\<close>

datatype demo_js = DUndefined | DString string | DNumber int | DBool bool | DBigInt int | DArray "demo_js list"
  | DObject "(string \<times> demo_js) list" | DEnvelope demo_js

fun demo_get :: "demo_js \<Rightarrow> string \<Rightarrow> string + demo_js" where
  "demo_get (DObject kvs) k = (case map_of kvs k of Some v \<Rightarrow> Inr v | None \<Rightarrow> Inr DUndefined)"
| "demo_get _ k = Inl ''not an object''"

fun demo_set :: "demo_js \<Rightarrow> string \<Rightarrow> demo_js \<Rightarrow> string + demo_js" where
  "demo_set (DObject kvs) k v = Inr (DObject ((k, v) # kvs))"
| "demo_set _ k v = Inl ''not an object''"

fun demo_receive :: "demo_js \<Rightarrow> string + demo_js" where
  "demo_receive (DEnvelope v) = Inr v"
| "demo_receive v = Inr v"

definition demo_js_ops :: "demo_js js_ops" where
  "demo_js_ops = \<lparr>js_object = DObject [], js_is_object = (\<lambda>v. case v of DObject _ \<Rightarrow> True | _ \<Rightarrow> False),
     js_get = demo_get, js_set = demo_set, js_of_string = DString,
     js_as_string = (\<lambda>v. case v of DString s \<Rightarrow> Some s | _ \<Rightarrow> None), js_of_u32 = (\<lambda>n. DNumber (int n)),
     js_of_i32 = DNumber, js_of_bool = DBool, js_array = DArray,
     js_as_u32 = (\<lambda>v. case v of DNumber i \<Rightarrow> Inr (nat i) | _ \<Rightarrow> Inl ''not a number''),
     js_of_bigint = (\<lambda>n. DBigInt (int n)), js_as_bigint = (\<lambda>v. case v of DBigInt i \<Rightarrow> Some i | _ \<Rightarrow> None),
     js_as_f64 = (\<lambda>v. case v of DNumber i \<Rightarrow> Some (F_Finite i) | _ \<Rightarrow> None),
     js_prepare = DEnvelope, js_receive = demo_receive\<rparr>"

lemma demo_js_laws: "js_laws demo_js_ops"
proof -
  have "js_is_object demo_js_ops obj \<Longrightarrow> \<exists>kvs. obj = DObject kvs" for obj
    by (cases obj) (auto simp: demo_js_ops_def)
  then show ?thesis unfolding js_laws_def by (fastforce simp: demo_js_ops_def)
qed

definition empty_heap :: "('t, 'w) box_heap" where
  "empty_heap = \<lparr>bh_next = 1024, bh_live = Map.empty\<rparr>"

lemma empty_heap_ok: "heap_ok empty_heap"
  by (simp add: heap_ok_def empty_heap_def)

lemma payload_roundtrip_witness:
  "\<exists>v h1. payload_into_js demo_js_ops (SpawnWasmJob ''bash'') empty_heap = (Inr v, h1) \<and>
     fst (payload_try_from_js demo_js_ops v h1) = Some (Inr (SpawnWasmJob ''bash''))"
proof -
  let ?h1 = "snd (into_raw (payload_box (SpawnWasmJob ''bash'')) empty_heap)"
  have "bh_live ?h1 (bh_next (empty_heap :: (string, string) box_heap)) = Some (payload_box (SpawnWasmJob ''bash''))"
    by (simp add: into_raw_def)
  with payload_roundtrip [OF demo_js_laws empty_heap_ok, of "SpawnWasmJob ''bash''"] show ?thesis by fastforce
qed

lemma worker_message_arrives_witness:
  "\<exists>v h1. worker_into_js demo_js_ops (ToScheduler (MSpawnWasm (1, 2) ''proc'' ''bash'' :: (string, demo_js, string) sched_message)) empty_heap = (Inr v, h1) \<and>
     fst (on_message demo_js_ops (\<lambda>_. None) False 7 v h1) = Some (Some (MFromWorker 7 (MSpawnWasm (1, 2) ''proc'' ''bash'')))"
proof -
  define m :: "(string, demo_js, string) worker_message" where "m = ToScheduler (MSpawnWasm (1, 2) ''proc'' ''bash'')"
  define h :: "(string, (string, string) wasm_task) box_heap" where "h = empty_heap"
  have box: "\<forall>b. worker_box m = Some b \<longrightarrow> bh_live (heap_with (worker_box m) h) (bh_next h) = Some b"
    by (simp add: m_def heap_with_def into_raw_def)
  have rpc: "\<not> handle_host_rpc (\<lambda>_. None) v" for v :: demo_js by (simp add: handle_host_rpc_def)
  have cross: "worker_crosses m" "worker_numbers_ok m" by (simp_all add: m_def)
  have ok: "heap_ok h" by (simp add: h_def empty_heap_ok)
  obtain v where v: "worker_into_js demo_js_ops m h = (Inr v, heap_with (worker_box m) h)"
      "on_message demo_js_ops (\<lambda>_. None) False 7 v (heap_with (worker_box m) h) =
         (Some (route 7 False (worker_arrived m)), heap_without (worker_box m) (bh_next h) (heap_with (worker_box m) h))"
    using worker_message_arrives [OF demo_js_laws ok cross(2), where w = 7 and closed = False] box rpc
    unfolding if_P [OF cross(1)] by blast
  then have "fst (on_message demo_js_ops (\<lambda>_. None) False 7 v (heap_with (worker_box m) h)) =
      Some (Some (MFromWorker 7 (MSpawnWasm (1, 2) ''proc'' ''bash'')))"
    unfolding v(2) by (simp add: m_def)
  with v(1) show ?thesis unfolding m_def [symmetric] h_def [symmetric] by blast
qed

end
