(* ===== verification/Thread_Pool.thy ===== *)
theory Thread_Pool
  imports Worker_Messages
begin

text \<open>
  The two ends of the worker pool: the handle through which WASIX spawns tasks and sleeps
  (js/bindgen/src/tasks/thread_pool.rs, with the scheduler's \<open>send\<close> and \<open>close\<close>), and the worker that
  runs the jobs it is sent and reports whether it is busy (thread_pool_worker.rs), with the timers that
  run on it (timer.rs). The worker's jobs are interleaved at their awaits.
\<close>

section \<open>The handle of the pool\<close>

datatype wasi_thread_error = InitFailed string | ThreadUnsupported

record ('t, 'v, 'p) thread_pool =
  tp_parallelism :: "nat option"
  tp_open :: bool
  tp_channel :: "('t, 'v, 'p) sched_message list"

text \<open>\<open>Scheduler::send\<close> on the scheduler's own thread; from a worker the message is posted instead
  (\<open>send_from_worker\<close>).\<close>

definition scheduler_send :: "('t, 'v, 'p) sched_message \<Rightarrow> ('t, 'v, 'p) thread_pool \<Rightarrow> (string + unit) \<times> ('t, 'v, 'p) thread_pool" where
  "scheduler_send m P =
     (if tp_open P then (Inr (), P\<lparr>tp_channel := tp_channel P @ [m]\<rparr>) else (Inl ''Scheduler is dead'', P))"

definition pool_send ::
    "('t, 'v, 'p) sched_message \<Rightarrow> ('t, 'v, 'p) thread_pool \<Rightarrow> (wasi_thread_error + unit) \<times> ('t, 'v, 'p) thread_pool" where
  "pool_send m P = map_err_st (\<lambda>e. InitFailed (''the thread pool is shut down: '' @ e)) (scheduler_send m P)"

definition task_shared :: "'t \<Rightarrow> ('t, 'v, 'p) thread_pool \<Rightarrow> (wasi_thread_error + unit) \<times> ('t, 'v, 'p) thread_pool" where
  "task_shared t P = pool_send (MSpawnAsync t) P"

definition task_wasm :: "task_key \<Rightarrow> 'p \<Rightarrow> 't \<Rightarrow> ('t, 'v, 'p) thread_pool \<Rightarrow> (wasi_thread_error + unit) \<times> ('t, 'v, 'p) thread_pool" where
  "task_wasm key p t P = pool_send (MSpawnWasm key p t) P"

definition task_dedicated :: "'t \<Rightarrow> ('t, 'v, 'p) thread_pool \<Rightarrow> (wasi_thread_error + unit) \<times> ('t, 'v, 'p) thread_pool" where
  "task_dedicated t P = pool_send (MSpawnBlocking t) P"

definition terminate_worker :: "nat \<Rightarrow> nat \<Rightarrow> ('t, 'v, 'p) thread_pool \<Rightarrow> (wasi_thread_error + unit) \<times> ('t, 'v, 'p) thread_pool" where
  "terminate_worker pid tid P = pool_send (MTerminateWasmThread pid tid) P"

text \<open>Dropping the pool closes the scheduler, without waiting for running tasks; \<open>close_send\<close> is the first
  half of \<open>close_and_wait\<close>, whose completion \<open>c\<close> is awaited if the message could be sent.\<close>

definition pool_drop :: "('t, 'v, 'p) thread_pool \<Rightarrow> ('t, 'v, 'p) thread_pool" where
  "pool_drop P = snd (scheduler_send (MClose None False) P)"

definition close_send :: "nat \<Rightarrow> ('t, 'v, 'p) thread_pool \<Rightarrow> bool \<times> ('t, 'v, 'p) thread_pool" where
  "close_send c P = (case scheduler_send (MClose (Some c) True) P of (r, P1) \<Rightarrow> (is_ok r, P1))"

text \<open>Sleeping for a duration in nanoseconds. A zero duration is a poll and completes at once; otherwise the
  number of milliseconds that the timer waits is at least one and a 32-bit signed integer. If the pool is
  gone the completion is dropped with the message, which ends the sleep too.\<close>

definition i32_max :: nat where
  "i32_max = 2 ^ 31 - 1"

definition sleep_millis :: "nat \<Rightarrow> nat" where
  "sleep_millis nanos = (let millis = max (nanos div 1000000) 1 in if millis < i32_max then millis else i32_max)"

datatype sleep_result = SleepReady | SleepUntilTimer

definition sleep_now :: "(nat \<Rightarrow> 't) \<Rightarrow> nat \<Rightarrow> ('t, 'v, 'p) thread_pool \<Rightarrow> sleep_result \<times> ('t, 'v, 'p) thread_pool" where
  "sleep_now timer nanos P =
     (if nanos = 0 then (SleepReady, P)
      else case pool_send (MTimer (timer (sleep_millis nanos))) P of
             (Inl e, P1) \<Rightarrow> (SleepReady, P1)
           | (Inr u, P1) \<Rightarrow> (SleepUntilTimer, P1))"

text \<open>The parallelism: the configured one, or the browser's (already rounded), which has to be a positive
  number of the target's 32 bits.\<close>

definition hardware_concurrency :: "f64_value option \<Rightarrow> nat option" where
  "hardware_concurrency rounded =
     Option.bind rounded (\<lambda>x. if f64_as_u32 x = 0 then None else Some (f64_as_u32 x))"

definition thread_parallelism :: "f64_value option \<Rightarrow> ('t, 'v, 'p) thread_pool \<Rightarrow> wasi_thread_error + nat" where
  "thread_parallelism rounded P =
     (case tp_parallelism P of Some n \<Rightarrow> Inr n
      | None \<Rightarrow> (case hardware_concurrency rounded of Some n \<Rightarrow> Inr n | None \<Rightarrow> Inl ThreadUnsupported))"

lemma sleep_millis_bounds: "1 \<le> sleep_millis nanos" "sleep_millis nanos \<le> i32_max"
  by (auto simp: sleep_millis_def Let_def i32_max_def)

lemma sleep_millis_exact: "1000000 \<le> nanos \<Longrightarrow> nanos < i32_max * 1000000 \<Longrightarrow> sleep_millis nanos = nanos div 1000000"
  by (auto simp: sleep_millis_def Let_def less_mult_imp_div_less max_def intro: Suc_leI div_greater_zero_iff [THEN iffD2])

lemma pool_closed_refuses: "\<not> tp_open P \<Longrightarrow> \<exists>e. pool_send m P = (Inl (InitFailed e), P)"
  by (simp add: pool_send_def scheduler_send_def)

section \<open>Timers\<close>

text \<open>A timer's run: nothing is started for a waiter that has already gone; otherwise the host's timer
  runs until it fires or the waiter goes, whichever the select sees first, and is cleared in both cases.\<close>

datatype timer_event = TimeoutFires | WaiterGone

record timer_run =
  tr_started :: bool
  tr_cleared :: bool
  tr_completed :: bool

fun run_timer_events :: "bool \<Rightarrow> timer_event list \<Rightarrow> timer_run" where
  "run_timer_events True evs = \<lparr>tr_started = False, tr_cleared = False, tr_completed = False\<rparr>"
| "run_timer_events False [] = \<lparr>tr_started = True, tr_cleared = False, tr_completed = False\<rparr>"
| "run_timer_events False (ev # evs) = \<lparr>tr_started = True, tr_cleared = True, tr_completed = (ev = TimeoutFires)\<rparr>"

section \<open>The worker\<close>

text \<open>A blocking job runs to its end without an await; a WASIX task first awaits its trigger, and counts as
  active from then until it has ended, however it ends. \<open>None\<close> is a panic.\<close>

datatype job_phase = Triggering | Active

record ('t, 'v, 'p) pool_worker =
  pw_active :: nat
  pw_reports :: "('t, 'v, 'p) worker_message list"
  pw_jobs :: "nat \<Rightarrow> job_phase option"

definition worker_new :: "('t, 'v, 'p) pool_worker" where
  "worker_new = \<lparr>pw_active = 0, pw_reports = [], pw_jobs = Map.empty\<rparr>"

definition u32_max :: nat where
  "u32_max = 2 ^ 32 - 1"

definition busy_begin :: "('t, 'v, 'p) pool_worker \<Rightarrow> ('t, 'v, 'p) pool_worker option" where
  "busy_begin w =
     (if u32_max < pw_active w + 1 then None
      else Some (w\<lparr>pw_active := pw_active w + 1,
             pw_reports := (if pw_active w = 0 then pw_reports w @ [MarkBusy] else pw_reports w)\<rparr>))"

definition busy_end :: "('t, 'v, 'p) pool_worker \<Rightarrow> ('t, 'v, 'p) pool_worker option" where
  "busy_end w =
     (if pw_active w = 0 then None
      else Some (w\<lparr>pw_active := pw_active w - 1,
             pw_reports := (if pw_active w - 1 = 0 then pw_reports w @ [MarkIdle] else pw_reports w)\<rparr>))"

text \<open>Handling a job up to its first await. Timers and asynchronous thunks do not count.\<close>

fun worker_handle :: "nat \<Rightarrow> 't payload \<Rightarrow> ('t, 'v, 'p) pool_worker \<Rightarrow> ('t, 'v, 'p) pool_worker option" where
  "worker_handle j (TimerJob t) w = Some w"
| "worker_handle j (AsyncThunk t) w = Some w"
| "worker_handle j (BlockingThunk t) w = Option.bind (busy_begin w) busy_end"
| "worker_handle j (SpawnWasmJob t) w = Some (w\<lparr>pw_jobs := (pw_jobs w)(j \<mapsto> Triggering)\<rparr>)"

definition wasm_triggered :: "nat \<Rightarrow> ('t, 'v, 'p) pool_worker \<Rightarrow> ('t, 'v, 'p) pool_worker option" where
  "wasm_triggered j w = map_option (\<lambda>w1. w1\<lparr>pw_jobs := (pw_jobs w1)(j \<mapsto> Active)\<rparr>) (busy_begin w)"

definition wasm_finished :: "nat \<Rightarrow> ('t, 'v, 'p) pool_worker \<Rightarrow> ('t, 'v, 'p) pool_worker option" where
  "wasm_finished j w = map_option (\<lambda>w1. w1\<lparr>pw_jobs := (pw_jobs w1)(j := None)\<rparr>) (busy_end w)"

inductive worker_run :: "('t, 'v, 'p) pool_worker \<Rightarrow> ('t, 'v, 'p) pool_worker \<Rightarrow> bool" where
  wr_handle: "pw_jobs w j = None \<Longrightarrow> worker_handle j p w = Some w' \<Longrightarrow> worker_run w w'"
| wr_trigger: "pw_jobs w j = Some Triggering \<Longrightarrow> wasm_triggered j w = Some w' \<Longrightarrow> worker_run w w'"
| wr_finish: "pw_jobs w j = Some Active \<Longrightarrow> wasm_finished j w = Some w' \<Longrightarrow> worker_run w w'"

definition active_jobs :: "('t, 'v, 'p) pool_worker \<Rightarrow> nat set" where
  "active_jobs w = {j. pw_jobs w j = Some Active}"

text \<open>Busy and idle in turn, busy last exactly while something is active.\<close>

definition alternating :: "bool \<Rightarrow> ('t, 'v, 'p) worker_message list \<Rightarrow> bool" where
  "alternating is_busy reports \<longleftrightarrow>
     (\<exists>n. reports = concat (replicate n [MarkBusy, MarkIdle]) @ (if is_busy then [MarkBusy] else []))"

definition worker_ok :: "('t, 'v, 'p) pool_worker \<Rightarrow> bool" where
  "worker_ok w \<longleftrightarrow> finite (active_jobs w) \<and> pw_active w = card (active_jobs w) \<and>
     alternating (pw_active w \<noteq> 0) (pw_reports w)"

lemma alternating_busy: "alternating False rs \<Longrightarrow> alternating True (rs @ [MarkBusy])"
  by (auto simp: alternating_def)

lemma alternating_idle: "alternating True rs \<Longrightarrow> alternating False (rs @ [MarkIdle])"
proof -
  assume "alternating True rs"
  then obtain n where "rs = concat (replicate n [MarkBusy, MarkIdle]) @ [MarkBusy]" by (auto simp: alternating_def)
  then have "rs @ [MarkIdle] = concat (replicate (Suc n) [MarkBusy, MarkIdle])"
    by (simp only: replicate_append_same [symmetric] replicate_Suc concat_append) (simp add: replicate_append_same)
  then show ?thesis unfolding alternating_def by (intro exI [of _ "Suc n"]) simp
qed

lemma busy_beginD:
  assumes "busy_begin w = Some w'" "alternating (pw_active w \<noteq> 0) (pw_reports w)"
  shows "pw_active w' = Suc (pw_active w)" "pw_jobs w' = pw_jobs w" "alternating (pw_active w' \<noteq> 0) (pw_reports w')"
  using assms by (auto simp: busy_begin_def alternating_busy split: if_splits)

lemma busy_endD:
  assumes "busy_end w = Some w'" "alternating (pw_active w \<noteq> 0) (pw_reports w)"
  shows "pw_active w = Suc (pw_active w')" "pw_jobs w' = pw_jobs w" "alternating (pw_active w' \<noteq> 0) (pw_reports w')"
  using assms by (auto simp: busy_end_def alternating_idle split: if_splits)

lemma worker_okD:
  assumes "worker_ok w"
  shows "finite (active_jobs w)" "pw_active w = card (active_jobs w)" "alternating (pw_active w \<noteq> 0) (pw_reports w)"
  using assms unfolding worker_ok_def by blast+

lemma worker_okI:
  "finite (active_jobs w) \<Longrightarrow> pw_active w = card (active_jobs w) \<Longrightarrow> alternating (pw_active w \<noteq> 0) (pw_reports w) \<Longrightarrow> worker_ok w"
  by (simp add: worker_ok_def)

lemma worker_ok_handle:
  assumes ok: "worker_ok w" and free: "pw_jobs w j = None" and "worker_handle j p w = Some w'"
  shows "worker_ok w'"
proof (cases p)
  case (BlockingThunk t)
  then obtain w1 where w1: "busy_begin w = Some w1" "busy_end w1 = Some w'"
    using assms(3) by (cases "busy_begin w") auto
  note b = busy_beginD [OF w1(1) worker_okD(3) [OF ok]]
  note e = busy_endD [OF w1(2) b(3)]
  have "active_jobs w' = active_jobs w" "pw_active w' = pw_active w"
    using b(1,2) e(1,2) by (simp_all add: active_jobs_def)
  then show ?thesis using worker_okD(1,2) [OF ok] e(3) by (intro worker_okI) simp_all
next
  case (SpawnWasmJob t)
  then have "active_jobs w' = active_jobs w"
    using assms(2,3) by (auto simp: active_jobs_def split: if_splits)
  then show ?thesis using ok assms(3) SpawnWasmJob by (auto simp: worker_ok_def)
qed (use assms in auto)

lemma worker_ok_triggered:
  assumes ok: "worker_ok w" and j: "pw_jobs w j = Some Triggering" and "wasm_triggered j w = Some w'"
  shows "worker_ok w'"
proof -
  obtain w1 where w1: "busy_begin w = Some w1" "w' = w1\<lparr>pw_jobs := (pw_jobs w1)(j \<mapsto> Active)\<rparr>"
    using assms(3) by (auto simp: wasm_triggered_def)
  note b = busy_beginD [OF w1(1) worker_okD(3) [OF ok]]
  have "active_jobs w' = insert j (active_jobs w)" "j \<notin> active_jobs w"
    using j b(2) by (auto simp: active_jobs_def w1(2))
  then show ?thesis using worker_okD(1,2) [OF ok] b(1,3) by (intro worker_okI) (simp_all add: w1(2))
qed

lemma worker_ok_finished:
  assumes ok: "worker_ok w" and j: "pw_jobs w j = Some Active" and "wasm_finished j w = Some w'"
  shows "worker_ok w'"
proof -
  obtain w1 where w1: "busy_end w = Some w1" "w' = w1\<lparr>pw_jobs := (pw_jobs w1)(j := None)\<rparr>"
    using assms(3) by (auto simp: wasm_finished_def)
  note e = busy_endD [OF w1(1) worker_okD(3) [OF ok]]
  have "active_jobs w' = active_jobs w - {j}" "j \<in> active_jobs w"
    using j e(2) by (auto simp: active_jobs_def w1(2) split: if_splits)
  then show ?thesis using worker_okD(1,2) [OF ok] e(1,3) by (intro worker_okI) (simp_all add: w1(2))
qed

interpretation pool_worker: inductive_invariant "\<lambda>w. w = worker_new" worker_run worker_ok
proof
  show "worker_ok w" if "w = worker_new" for w :: "('t, 'v, 'p) pool_worker"
    using that by (auto simp: worker_ok_def worker_new_def active_jobs_def alternating_def intro: exI [of _ 0])
next
  show "worker_ok w'" if "worker_ok w" "worker_run w w'" for w w' :: "('t, 'v, 'p) pool_worker"
    using that(2,1) by cases (rule worker_ok_handle worker_ok_triggered worker_ok_finished; assumption)+
qed

text \<open>C31: What a worker reports is true, however its jobs overlap: its reports are busy and idle in turn,
  the last of them busy exactly while one of its WASIX tasks is running, and the counter behind them is
  the number of running tasks, so ending a task never underflows it and starting one never
  overflows it below \<open>2 ^ 32 - 1\<close> tasks.\<close>

theorem worker_reports_truthful:
  assumes "reachable (\<lambda>w. w = worker_new) worker_run w"
  shows "alternating (active_jobs w \<noteq> {}) (pw_reports w) \<and> pw_active w = card (active_jobs w) \<and>
    (\<forall>j. pw_jobs w j = Some Active \<longrightarrow> wasm_finished j w \<noteq> None) \<and>
    (\<forall>j. pw_jobs w j = Some Triggering \<and> card (active_jobs w) < u32_max \<longrightarrow> wasm_triggered j w \<noteq> None)"
proof -
  have ok: "worker_ok w" by (rule pool_worker.reachable_inv [OF assms])
  then have empty: "pw_active w = 0 \<longleftrightarrow> active_jobs w = {}" by (simp add: worker_ok_def)
  have "wasm_finished j w \<noteq> None" if "pw_jobs w j = Some Active" for j
  proof -
    have "j \<in> active_jobs w" using that by (simp add: active_jobs_def)
    then have "pw_active w \<noteq> 0" using empty by blast
    then show ?thesis by (simp add: wasm_finished_def busy_end_def)
  qed
  moreover have "wasm_triggered j w \<noteq> None" if "card (active_jobs w) < u32_max" for j
    using that ok by (simp add: wasm_triggered_def busy_begin_def worker_ok_def)
  ultimately show ?thesis using ok empty by (auto simp: worker_ok_def)
qed

text \<open>Two tasks that overlap.\<close>

lemma worker_reports_truthful_witness:
  "\<exists>w :: (unit, unit, unit) pool_worker. reachable (\<lambda>w. w = worker_new) worker_run w \<and> active_jobs w = {1} \<and>
     alternating True (pw_reports w) \<and> pw_active w = 1"
proof -
  define w1 :: "(unit, unit, unit) pool_worker" where "w1 = worker_new\<lparr>pw_jobs := [1 \<mapsto> Triggering]\<rparr>"
  define w2 :: "(unit, unit, unit) pool_worker" where "w2 = \<lparr>pw_active = 1, pw_reports = [MarkBusy], pw_jobs = [1 \<mapsto> Active]\<rparr>"
  have "worker_run worker_new w1"
    by (rule wr_handle [where j = 1 and p = "SpawnWasmJob ()"]) (simp_all add: worker_new_def w1_def)
  moreover have "worker_run w1 w2"
    by (rule wr_trigger [where j = 1])
      (simp_all add: w1_def w2_def worker_new_def wasm_triggered_def busy_begin_def u32_max_def)
  ultimately have r: "reachable (\<lambda>w. w = worker_new) worker_run w2"
    by (blast intro: reach_init reach_step)
  have "active_jobs w2 = {1}" by (auto simp: active_jobs_def w2_def)
  with worker_reports_truthful [OF r] r show ?thesis by (intro exI [of _ w2]) simp
qed

end
