(* ===== verification/Net_Text.thy ===== *)
theory Net_Text
  imports Browser_Net
begin

text \<open>
  The text of network addresses, as the standard library's \<open>FromStr\<close> of \<open>IpAddr\<close> and \<open>SocketAddr\<close>
  reads it: a parser takes a prefix of the text or fails without taking anything. An IPv6 socket
  address may carry a scope, which is read and dropped since the model's addresses have none.
\<close>

definition digit_of :: "nat \<Rightarrow> char \<Rightarrow> nat option" where
  "digit_of radix c = (case digit_value (byte_of_char c) of
     None \<Rightarrow> None
   | Some d \<Rightarrow> if d < radix then Some d else None)"

definition digits_value :: "nat \<Rightarrow> string \<Rightarrow> nat" where
  "digits_value radix ds = foldl (\<lambda>acc c. acc * radix + (case digit_of radix c of None \<Rightarrow> 0 | Some d \<Rightarrow> d)) 0 ds"

definition read_number :: "nat \<Rightarrow> nat option \<Rightarrow> bool \<Rightarrow> nat \<Rightarrow> string \<Rightarrow> (nat \<times> string) option" where
  "read_number radix max_digits allow_zero_prefix most s =
     (let ds = takeWhile (\<lambda>c. digit_of radix c \<noteq> None) s
      in if ds = [] \<or> (case max_digits of None \<Rightarrow> False | Some m \<Rightarrow> m < length ds)
           \<or> \<not> allow_zero_prefix \<and> hd ds = CHR ''0'' \<and> length ds > 1
           \<or> most < digits_value radix ds
         then None
         else Some (digits_value radix ds, drop (length ds) s))"

fun read_given_char :: "char \<Rightarrow> string \<Rightarrow> string option" where
  "read_given_char c [] = None"
| "read_given_char c (d # s) = (if d = c then Some s else None)"

text \<open>\<open>read_separator\<close>: the separator comes before every element but the first.\<close>

definition read_separated ::
    "char \<Rightarrow> bool \<Rightarrow> (string \<Rightarrow> ('a \<times> string) option) \<Rightarrow> string \<Rightarrow> ('a \<times> string) option" where
  "read_separated sep is_first p s =
     (if is_first then p s else case read_given_char sep s of None \<Rightarrow> None | Some s1 \<Rightarrow> p s1)"

fun read_octets :: "bool \<Rightarrow> nat \<Rightarrow> string \<Rightarrow> (nat list \<times> string) option" where
  "read_octets is_first 0 s = Some ([], s)"
| "read_octets is_first (Suc n) s =
     (case read_separated (CHR ''.'') is_first (read_number 10 (Some 3) False 255) s of
        None \<Rightarrow> None
      | Some (octet, s1) \<Rightarrow> (case read_octets False n s1 of
          None \<Rightarrow> None
        | Some (octets, s2) \<Rightarrow> Some (octet # octets, s2)))"

definition joined :: "nat \<Rightarrow> nat list \<Rightarrow> nat" where
  "joined base ns = foldl (\<lambda>acc n. acc * base + n) 0 ns"

definition read_ipv4_addr :: "string \<Rightarrow> (nat list \<times> string) option" where
  "read_ipv4_addr s = read_octets True 4 s"

text \<open>A trailing IPv4 address may take the place of two groups; the flag says that it did.\<close>

fun read_groups :: "bool \<Rightarrow> nat \<Rightarrow> string \<Rightarrow> nat list \<times> bool \<times> string" where
  "read_groups is_first 0 s = ([], False, s)"
| "read_groups is_first (Suc n) s =
     (case (if n > 0 then read_separated (CHR '':'') is_first read_ipv4_addr s else None) of
        Some (octets, s1) \<Rightarrow> ([joined 256 (take 2 octets), joined 256 (drop 2 octets)], True, s1)
      | None \<Rightarrow> (case read_separated (CHR '':'') is_first (read_number 16 (Some 4) True u16_max) s of
          None \<Rightarrow> ([], False, s)
        | Some (g, s1) \<Rightarrow>
            (case read_groups False n s1 of (gs, v4, s2) \<Rightarrow> (g # gs, v4, s2))))"

definition read_ipv6_addr :: "string \<Rightarrow> (nat list \<times> string) option" where
  "read_ipv6_addr s =
     (case read_groups True 8 s of (head, head_v4, s1) \<Rightarrow>
        if length head = 8 then Some (head, s1)
        else if head_v4 then None
        else (case read_given_char (CHR '':'') s1 of
          None \<Rightarrow> None
        | Some s2 \<Rightarrow> (case read_given_char (CHR '':'') s2 of
            None \<Rightarrow> None
          | Some s3 \<Rightarrow> (case read_groups True (7 - length head) s3 of (tail, _, s4) \<Rightarrow>
              Some (head @ replicate (8 - length head - length tail) 0 @ tail, s4)))))"

definition read_ip_addr :: "string \<Rightarrow> (ip_addr \<times> string) option" where
  "read_ip_addr s = (case read_ipv4_addr s of
     Some (octets, s1) \<Rightarrow> Some (V4 (of_nat (joined 256 octets)), s1)
   | None \<Rightarrow> map_option (\<lambda>(gs, s1). (V6 (of_nat (joined 65536 gs)), s1)) (read_ipv6_addr s))"

definition read_port :: "string \<Rightarrow> (nat \<times> string) option" where
  "read_port s = (case read_given_char (CHR '':'') s of
     None \<Rightarrow> None
   | Some s1 \<Rightarrow> read_number 10 None True u16_max s1)"

definition read_scope_id :: "string \<Rightarrow> (nat \<times> string) option" where
  "read_scope_id s = (case read_given_char (CHR ''%'') s of
     None \<Rightarrow> None
   | Some s1 \<Rightarrow> read_number 10 None True (2 ^ 32 - 1) s1)"

definition read_socket_addr_v4 :: "string \<Rightarrow> (sock_addr \<times> string) option" where
  "read_socket_addr_v4 s = (case read_ipv4_addr s of
     None \<Rightarrow> None
   | Some (octets, s1) \<Rightarrow> map_option (\<lambda>(port, s2). ((V4 (of_nat (joined 256 octets)), port), s2)) (read_port s1))"

definition read_socket_addr_v6 :: "string \<Rightarrow> (sock_addr \<times> string) option" where
  "read_socket_addr_v6 s = (case read_given_char (CHR ''['') s of
     None \<Rightarrow> None
   | Some s1 \<Rightarrow> (case read_ipv6_addr s1 of
       None \<Rightarrow> None
     | Some (gs, s2) \<Rightarrow>
         (case read_given_char (CHR '']'') (case read_scope_id s2 of None \<Rightarrow> s2 | Some (_, s3) \<Rightarrow> s3) of
            None \<Rightarrow> None
          | Some s4 \<Rightarrow> map_option (\<lambda>(port, s5). ((V6 (of_nat (joined 65536 gs)), port), s5)) (read_port s4))))"

definition whole :: "('a \<times> string) option \<Rightarrow> 'a option" where
  "whole r = (case r of Some (a, []) \<Rightarrow> Some a | _ \<Rightarrow> None)"

definition parse_ip_addr :: "string \<Rightarrow> ip_addr option" where
  "parse_ip_addr s = whole (read_ip_addr s)"

definition parse_socket_addr :: "string \<Rightarrow> sock_addr option" where
  "parse_socket_addr s = whole (case read_socket_addr_v4 s of
     None \<Rightarrow> read_socket_addr_v6 s
   | Some r \<Rightarrow> Some r)"

lemma read_number_le: "read_number radix m z most s = Some (n, t) \<Longrightarrow> n \<le> most"
  by (auto simp: read_number_def Let_def split: if_splits)

lemma read_port_le: "read_port s = Some (n, t) \<Longrightarrow> n \<le> u16_max"
  by (auto simp: read_port_def dest: read_number_le split: option.splits)

lemma parse_socket_addr_port: "parse_socket_addr s = Some a \<Longrightarrow> snd a \<le> u16_max"
  by (auto simp: parse_socket_addr_def whole_def read_socket_addr_v4_def read_socket_addr_v6_def
      dest: read_port_le split: option.splits list.splits prod.splits)

lemmas net_text_defs = digit_of_def digits_value_def read_number_def read_separated_def joined_def
  read_ipv4_addr_def read_ipv6_addr_def read_ip_addr_def read_port_def read_scope_id_def
  read_socket_addr_v4_def read_socket_addr_v6_def whole_def parse_ip_addr_def parse_socket_addr_def
  digit_value_def byte_of_char_def u16_max_def

lemmas read_counted [simp] =
  read_octets.simps(2) [where n = "pred_numeral k" for k, folded numeral_eq_Suc]
  read_groups.simps(2) [where n = "pred_numeral k" for k, folded numeral_eq_Suc]

lemma joined_zeros: "foldl (\<lambda>acc. (+) (acc * base)) 0 (replicate n 0) = (0::nat)"
  by (induction n) simp_all

lemma parse_v4_example:
  "parse_socket_addr ''127.0.0.1:80'' = Some (localhost4, 80)"
  by (simp add: net_text_defs localhost4_def Let_def)

lemma parse_v6_example:
  "parse_socket_addr ''[::1]:8080'' = Some (localhost6, 8080)"
  by (simp add: net_text_defs localhost6_def Let_def joined_zeros)

lemma parse_rejects_example:
  "parse_socket_addr ''127.0.0.1'' = None" "parse_socket_addr ''127.0.0.01:80'' = None"
  by (simp_all add: net_text_defs Let_def)

lemma parse_mapped_example:
  "parse_ip_addr ''::ffff:1.2.3.4'' = Some (V6 0xffff01020304)"
  by (simp add: net_text_defs Let_def joined_zeros)

end
