(* ===== verification/Node_Network.thy ===== *)
theory Node_Network
  imports Net_Text Worker_Messages
begin

text \<open>
  The network whose sockets belong to a JavaScript bridge (js/bindgen/src/node_network.rs): the map of
  readiness handlers and wakers, the polling of readiness, and the bound, listening and connected
  sockets. JavaScript values and the bridge's functions are parameters, the records \<open>node_js\<close> and
  \<open>node_hooks\<close>; a hook runs on the host's state. A function that a worker awaits is a hook too:
  its answer is what the promise settles with. The bridge reads an address's text, which stands for
  the address itself. \<open>None\<close> is the panic on a poisoned lock.
\<close>

section \<open>Errors\<close>

record 'j node_js =
  nj_get :: "'j \<Rightarrow> string \<Rightarrow> 'j + 'j"
  nj_as_string :: "'j \<Rightarrow> string option"
  nj_as_f64 :: "'j \<Rightarrow> f64_value option"
  nj_error_message :: "'j \<Rightarrow> string option"
  nj_debug :: "'j \<Rightarrow> string"
  nj_is_undefined :: "'j \<Rightarrow> bool"
  nj_is_null :: "'j \<Rightarrow> bool"
  nj_bytes :: "'j \<Rightarrow> byte list"
  nj_elements :: "'j \<Rightarrow> 'j list"

definition mentions :: "string \<Rightarrow> string \<Rightarrow> bool" where
  "mentions message code \<longleftrightarrow> contains_bytes (bytes_of code) (bytes_of message)"

definition error_of_message :: "string \<Rightarrow> network_error" where
  "error_of_message message =
     (if mentions message ''ECONNREFUSED'' then ConnectionRefused
      else if mentions message ''ECONNRESET'' then ConnectionReset
      else if mentions message ''ECONNABORTED'' then ConnectionAborted
      else if mentions message ''ETIMEDOUT'' then TimedOutNet
      else if mentions message ''EADDRINUSE'' then AddressInUse
      else if mentions message ''EADDRNOTAVAIL'' \<or> mentions message ''ENOTFOUND'' then AddressNotAvailable
      else if mentions message ''EPIPE'' then BrokenPipeNet
      else if mentions message ''ENOTCONN'' then NotConnected
      else if mentions message ''EACCES'' \<or> mentions message ''EPERM'' then PermissionDeniedNet
      else IOErrorNet)"

definition js_error :: "'j node_js \<Rightarrow> 'j \<Rightarrow> network_error" where
  "js_error J e = error_of_message (case nj_error_message J e of
     Some m \<Rightarrow> m
   | None \<Rightarrow> (case nj_as_string J e of Some m \<Rightarrow> m | None \<Rightarrow> nj_debug J e))"

definition number_property :: "'j node_js \<Rightarrow> 'j \<Rightarrow> string \<Rightarrow> network_error + nat" where
  "number_property J v name = bind_res (map_err (js_error J) (nj_get J v name)) (\<lambda>x.
     case nj_as_f64 J x of
       None \<Rightarrow> Inl InvalidData
     | Some f \<Rightarrow> (let n = nat (f64_cast 0 (2 ^ 64 - 1) f) in if n < 2 ^ 32 then Inr n else Inl InvalidData))"

definition address_property :: "'j node_js \<Rightarrow> 'j \<Rightarrow> string \<Rightarrow> network_error + sock_addr" where
  "address_property J v name = bind_res (map_err (js_error J) (nj_get J v name)) (\<lambda>x.
     case nj_as_string J x of
       None \<Rightarrow> Inl InvalidData
     | Some s \<Rightarrow> (case parse_socket_addr s of None \<Rightarrow> Inl InvalidData | Some a \<Rightarrow> Inr a))"

section \<open>Handlers and wakers\<close>

text \<open>A waker is the number of its task. \<open>is_handler\<close> holds the interests pushed to the handler.\<close>

record interest_state =
  is_handler :: "interest list option"
  is_read_wakers :: "nat list"
  is_write_wakers :: "nat list"

definition interest_default :: interest_state where
  "interest_default = \<lparr>is_handler = None, is_read_wakers = [], is_write_wakers = []\<rparr>"

record handler_map =
  hm_entries :: "nat \<Rightarrow> interest_state option"
  hm_poisoned :: bool

definition handlers_new :: handler_map where
  "handlers_new = \<lparr>hm_entries = (\<lambda>sid. None), hm_poisoned = False\<rparr>"

definition with_entry :: "nat \<Rightarrow> interest_state option \<Rightarrow> handler_map \<Rightarrow> handler_map" where
  "with_entry sid e m = m\<lparr>hm_entries := (hm_entries m)(sid := e)\<rparr>"

definition event_interest :: "string \<Rightarrow> interest" where
  "event_interest event =
     (if event = ''readable'' \<or> event = ''connection'' then Readable
      else if event = ''writable'' \<or> event = ''drain'' then Writable
      else if event = ''close'' then ClosedInterest
      else ErrorInterest)"

definition push_interest :: "interest \<Rightarrow> interest_state \<Rightarrow> interest_state" where
  "push_interest i e = e\<lparr>is_handler := map_option (\<lambda>pushed. pushed @ [i]) (is_handler e)\<rparr>"

fun take_wakers :: "interest \<Rightarrow> interest_state \<Rightarrow> nat list \<times> interest_state" where
  "take_wakers Readable e = (is_read_wakers e, e\<lparr>is_read_wakers := []\<rparr>)"
| "take_wakers Writable e = (is_write_wakers e, e\<lparr>is_write_wakers := []\<rparr>)"
| "take_wakers _ e = (is_read_wakers e @ is_write_wakers e, e\<lparr>is_read_wakers := [], is_write_wakers := []\<rparr>)"

text \<open>What a notification does under the lock, and the wakers it wakes once the lock is released.\<close>

definition notify_locked :: "nat \<Rightarrow> interest \<Rightarrow> handler_map \<Rightarrow> nat list \<times> handler_map" where
  "notify_locked sid i m = (case hm_entries m sid of
     None \<Rightarrow> ([], m)
   | Some e \<Rightarrow> (let (wakers, e1) = take_wakers i (push_interest i e) in (wakers, with_entry sid (Some e1) m)))"

definition notify_handler :: "bool \<Rightarrow> nat \<Rightarrow> string \<Rightarrow> handler_map \<Rightarrow> (bool \<times> nat list) \<times> handler_map" where
  "notify_handler contended sid event m =
     (if contended then ((False, []), m)
      else (let (wakers, m1) = notify_locked sid (event_interest event) m in ((True, wakers), m1)))"

definition entry_or_default :: "nat \<Rightarrow> handler_map \<Rightarrow> interest_state" where
  "entry_or_default sid m = (case hm_entries m sid of None \<Rightarrow> interest_default | Some e \<Rightarrow> e)"

definition register_handler :: "nat \<Rightarrow> handler_map \<Rightarrow> network_error + handler_map" where
  "register_handler sid m =
     (if hm_poisoned m then Inl LockNet
      else Inr (with_entry sid (Some ((entry_or_default sid m)\<lparr>is_handler := Some []\<rparr>)) m))"

definition node_remove_handler :: "nat \<Rightarrow> handler_map \<Rightarrow> handler_map option" where
  "node_remove_handler sid m =
     (if hm_poisoned m then None
      else Some (case hm_entries m sid of
        None \<Rightarrow> m
      | Some e \<Rightarrow> with_entry sid
          (if is_read_wakers e = [] \<and> is_write_wakers e = [] then None else Some (e\<lparr>is_handler := None\<rparr>)) m))"

fun wakers_for :: "interest \<Rightarrow> interest_state \<Rightarrow> nat list" where
  "wakers_for Writable e = is_write_wakers e"
| "wakers_for _ e = is_read_wakers e"

fun set_wakers_for :: "interest \<Rightarrow> nat list \<Rightarrow> interest_state \<Rightarrow> interest_state" where
  "set_wakers_for Writable ws e = e\<lparr>is_write_wakers := ws\<rparr>"
| "set_wakers_for _ ws e = e\<lparr>is_read_wakers := ws\<rparr>"

definition register_waker :: "nat \<Rightarrow> interest \<Rightarrow> nat \<Rightarrow> handler_map \<Rightarrow> handler_map option" where
  "register_waker sid i w m =
     (if hm_poisoned m then None
      else (let e = entry_or_default sid m; ws = wakers_for i e
            in Some (with_entry sid (Some (if w \<in> set ws then e else set_wakers_for i (ws @ [w]) e)) m)))"

definition unregister_waker :: "nat \<Rightarrow> interest \<Rightarrow> nat \<Rightarrow> handler_map \<Rightarrow> handler_map option" where
  "unregister_waker sid i w m =
     (if hm_poisoned m then None
      else Some (case hm_entries m sid of
        None \<Rightarrow> m
      | Some e \<Rightarrow> (let e1 = set_wakers_for i (filter (\<lambda>v. v \<noteq> w) (wakers_for i e)) e
          in with_entry sid (if is_handler e1 = None \<and> is_read_wakers e1 = [] \<and> is_write_wakers e1 = []
               then None else Some e1) m)))"

section \<open>Polling readiness\<close>

record 'b node_net =
  nn_bridge :: nat
  nn_handlers :: handler_map
  nn_host :: 'b

text \<open>The bridge's wake callback is \<open>notify_handler\<close> on this map.\<close>

definition node_networking_new :: "nat \<Rightarrow> 'b \<Rightarrow> 'b node_net" where
  "node_networking_new bridge b = \<lparr>nn_bridge = bridge, nn_handlers = handlers_new, nn_host = b\<rparr>"

definition host_call ::
    "'j node_js \<Rightarrow> (nat \<Rightarrow> 'b \<Rightarrow> ('j + 'a) \<times> 'b) \<Rightarrow> 'b node_net \<Rightarrow> (network_error + 'a) \<times> 'b node_net" where
  "host_call J hook n = (case hook (nn_bridge n) (nn_host n) of
     (r, b) \<Rightarrow> (map_err (js_error J) r, n\<lparr>nn_host := b\<rparr>))"

definition on_handlers ::
    "(handler_map \<Rightarrow> handler_map option) \<Rightarrow> 'a \<Rightarrow> 'b node_net \<Rightarrow> ('a \<times> 'b node_net) option" where
  "on_handlers f a n = map_option (\<lambda>m. (a, n\<lparr>nn_handlers := m\<rparr>)) (f (nn_handlers n))"

definition poll_ready ::
    "nat \<Rightarrow> interest \<Rightarrow> nat \<Rightarrow> ('b node_net \<Rightarrow> (network_error + nat option) \<times> 'b node_net) \<Rightarrow>
     'b node_net \<Rightarrow> ((network_error + nat) poll \<times> 'b node_net) option" where
  "poll_ready sid i w query n = (case query n of
     (Inr (Some ready), n1) \<Rightarrow> on_handlers (unregister_waker sid i w) (Ready (Inr ready)) n1
   | (Inl e, n1) \<Rightarrow> on_handlers (unregister_waker sid i w) (Ready (Inl e)) n1
   | (Inr None, n1) \<Rightarrow> (case register_waker sid i w (nn_handlers n1) of
       None \<Rightarrow> None
     | Some m \<Rightarrow> (case query (n1\<lparr>nn_handlers := m\<rparr>) of
         (Inr (Some ready), n2) \<Rightarrow> on_handlers (unregister_waker sid i w) (Ready (Inr ready)) n2
       | (Inr None, n2) \<Rightarrow> Some (Pending, n2)
       | (Inl e, n2) \<Rightarrow> on_handlers (unregister_waker sid i w) (Ready (Inl e)) n2)))"

section \<open>The bridge's functions\<close>

text \<open>\<open>nh_resolve_sync\<close> and \<open>nh_connect_sync\<close> are there when the worker proxies its calls.\<close>

record ('j, 'b) node_hooks =
  nh_resolve_sync :: "(nat \<Rightarrow> string \<Rightarrow> 'b \<Rightarrow> ('j + 'j) \<times> 'b) option"
  nh_resolve :: "nat \<Rightarrow> string \<Rightarrow> 'b \<Rightarrow> ('j + 'j) \<times> 'b"
  nh_connect_sync :: "(nat \<Rightarrow> sock_addr \<Rightarrow> sock_addr \<Rightarrow> 'b \<Rightarrow> ('j + 'j) \<times> 'b) option"
  nh_connect :: "nat \<Rightarrow> sock_addr \<Rightarrow> sock_addr \<Rightarrow> 'b \<Rightarrow> ('j + 'j) \<times> 'b"
  nh_listen :: "nat \<Rightarrow> sock_addr \<Rightarrow> 'b \<Rightarrow> ('j + 'j) \<times> 'b"
  nh_listener_accept :: "nat \<Rightarrow> nat \<Rightarrow> 'b \<Rightarrow> ('j + 'j) \<times> 'b"
  nh_listener_refresh :: "nat \<Rightarrow> nat \<Rightarrow> 'b \<Rightarrow> ('j + unit) \<times> 'b"
  nh_listener_readable :: "nat \<Rightarrow> nat \<Rightarrow> 'b \<Rightarrow> ('j + bool) \<times> 'b"
  nh_listener_close :: "nat \<Rightarrow> nat \<Rightarrow> 'b \<Rightarrow> ('j + unit) \<times> 'b"
  nh_read :: "nat \<Rightarrow> nat \<Rightarrow> nat \<Rightarrow> 'b \<Rightarrow> ('j + 'j) \<times> 'b"
  nh_write :: "nat \<Rightarrow> nat \<Rightarrow> byte list \<Rightarrow> 'b \<Rightarrow> ('j + int) \<times> 'b"
  nh_flush :: "nat \<Rightarrow> nat \<Rightarrow> 'b \<Rightarrow> ('j + bool) \<times> 'b"
  nh_close :: "nat \<Rightarrow> nat \<Rightarrow> 'b \<Rightarrow> ('j + unit) \<times> 'b"
  nh_readable :: "nat \<Rightarrow> nat \<Rightarrow> 'b \<Rightarrow> ('j + int) \<times> 'b"
  nh_writable :: "nat \<Rightarrow> nat \<Rightarrow> 'b \<Rightarrow> ('j + int) \<times> 'b"
  nh_set_nodelay :: "nat \<Rightarrow> nat \<Rightarrow> bool \<Rightarrow> 'b \<Rightarrow> ('j + unit) \<times> 'b"
  nh_set_keepalive :: "nat \<Rightarrow> nat \<Rightarrow> bool \<Rightarrow> 'b \<Rightarrow> ('j + unit) \<times> 'b"
  nh_refresh :: "nat \<Rightarrow> nat \<Rightarrow> 'b \<Rightarrow> ('j + unit) \<times> 'b"

section \<open>Connected sockets\<close>

record node_socket =
  ns_id :: nat
  ns_local :: sock_addr
  ns_peer :: sock_addr
  ns_closed :: bool
  ns_nodelay :: bool
  ns_keepalive :: bool
  ns_linger :: "nat option"

definition from_descriptor :: "'j node_js \<Rightarrow> 'j \<Rightarrow> network_error + node_socket" where
  "from_descriptor J d =
     bind_res (number_property J d ''id'') (\<lambda>sid.
     bind_res (address_property J d ''local'') (\<lambda>loc.
     bind_res (address_property J d ''peer'') (\<lambda>peer.
       Inr \<lparr>ns_id = sid, ns_local = loc, ns_peer = peer, ns_closed = False, ns_nodelay = False,
         ns_keepalive = False, ns_linger = None\<rparr>)))"

text \<open>A level below zero is one that is not ready.\<close>

definition level_of :: "int \<Rightarrow> nat option" where
  "level_of ready = (if ready \<ge> 0 then Some (nat (max ready 0)) else None)"

definition socket_poll_read_ready ::
    "'j node_js \<Rightarrow> ('j, 'b) node_hooks \<Rightarrow> node_socket \<Rightarrow> nat \<Rightarrow> 'b node_net \<Rightarrow>
     ((network_error + nat) poll \<times> 'b node_net) option" where
  "socket_poll_read_ready J H s w n = poll_ready (ns_id s) Readable w
     (\<lambda>n. map_prod (map_ok level_of) (\<lambda>x. x) (host_call J (\<lambda>b. nh_readable H b (ns_id s)) n)) n"

definition socket_poll_write_ready ::
    "'j node_js \<Rightarrow> ('j, 'b) node_hooks \<Rightarrow> node_socket \<Rightarrow> nat \<Rightarrow> 'b node_net \<Rightarrow>
     ((network_error + nat) poll \<times> 'b node_net) option" where
  "socket_poll_write_ready J H s w n = poll_ready (ns_id s) Writable w
     (\<lambda>n. map_prod (map_ok level_of) (\<lambda>x. x) (host_call J (\<lambda>b. nh_writable H b (ns_id s)) n)) n"

definition socket_remove_handler :: "node_socket \<Rightarrow> 'b node_net \<Rightarrow> (unit \<times> 'b node_net) option" where
  "socket_remove_handler s n = on_handlers (node_remove_handler (ns_id s)) () n"

definition node_set_ttl :: "nat \<Rightarrow> network_error + unit" where
  "node_set_ttl ttl = Inr ()"

definition node_ttl :: "network_error + nat" where
  "node_ttl = Inr 64"

datatype socket_status = Opened | ClosedSocket

definition socket_status :: "node_socket \<Rightarrow> socket_status" where
  "socket_status s = (if ns_closed s then ClosedSocket else Opened)"

definition install_handler ::
    "'j node_js \<Rightarrow> (nat \<Rightarrow> 'b \<Rightarrow> ('j + unit) \<times> 'b) \<Rightarrow> nat \<Rightarrow> 'b node_net \<Rightarrow> (network_error + unit) \<times> 'b node_net" where
  "install_handler J refresh sid n = (case register_handler sid (nn_handlers n) of
     Inl e \<Rightarrow> (Inl e, n)
   | Inr m \<Rightarrow> host_call J refresh (n\<lparr>nn_handlers := m\<rparr>))"

definition socket_set_handler ::
    "'j node_js \<Rightarrow> ('j, 'b) node_hooks \<Rightarrow> node_socket \<Rightarrow> 'b node_net \<Rightarrow> (network_error + unit) \<times> 'b node_net" where
  "socket_set_handler J H s = install_handler J (\<lambda>b. nh_refresh H b (ns_id s)) (ns_id s)"

definition set_linger :: "nat option \<Rightarrow> node_socket \<Rightarrow> node_socket" where
  "set_linger l s = s\<lparr>ns_linger := l\<rparr>"

definition node_try_send ::
    "'j node_js \<Rightarrow> ('j, 'b) node_hooks \<Rightarrow> node_socket \<Rightarrow> byte list \<Rightarrow> 'b node_net \<Rightarrow>
     (network_error + nat) \<times> 'b node_net" where
  "node_try_send J H s bs n = (case host_call J (\<lambda>b. nh_write H b (ns_id s) bs) n of
     (r, n1) \<Rightarrow> (bind_res r (\<lambda>written. if written < 0 then Inl WouldBlock else Inr (nat written)), n1))"

definition node_try_flush ::
    "'j node_js \<Rightarrow> ('j, 'b) node_hooks \<Rightarrow> node_socket \<Rightarrow> 'b node_net \<Rightarrow> (network_error + unit) \<times> 'b node_net" where
  "node_try_flush J H s n = (case host_call J (\<lambda>b. nh_flush H b (ns_id s)) n of
     (r, n1) \<Rightarrow> (bind_res r (\<lambda>flushed. if flushed then Inr () else Inl WouldBlock), n1))"

definition node_close ::
    "'j node_js \<Rightarrow> ('j, 'b) node_hooks \<Rightarrow> node_socket \<Rightarrow> 'b node_net \<Rightarrow>
     (network_error + unit) \<times> node_socket \<times> 'b node_net" where
  "node_close J H s n = (case host_call J (\<lambda>b. nh_close H b (ns_id s)) n of
     (Inl e, n1) \<Rightarrow> (Inl e, s, n1)
   | (Inr _, n1) \<Rightarrow> (Inr (), s\<lparr>ns_closed := True\<rparr>, n1))"

text \<open>The bytes written to the caller's buffer are those of the answer.\<close>

definition node_try_recv ::
    "'j node_js \<Rightarrow> ('j, 'b) node_hooks \<Rightarrow> node_socket \<Rightarrow> nat \<Rightarrow> bool \<Rightarrow> 'b node_net \<Rightarrow>
     (network_error + byte list) \<times> node_socket \<times> 'b node_net" where
  "node_try_recv J H s capacity peek n =
     (if peek then (Inl UnsupportedNet, s, n)
      else case host_call J (\<lambda>b. nh_read H b (ns_id s) capacity) n of
        (Inl e, n1) \<Rightarrow> (Inl e, s, n1)
      | (Inr v, n1) \<Rightarrow>
          if nj_is_undefined J v then (Inl WouldBlock, s, n1)
          else if nj_is_null J v then (Inr [], s\<lparr>ns_closed := True\<rparr>, n1)
          else (Inr (take (min (length (nj_bytes J v)) capacity) (nj_bytes J v)), s, n1))"

definition recv_buf_size ::
    "'j node_js \<Rightarrow> ('j, 'b) node_hooks \<Rightarrow> node_socket \<Rightarrow> 'b node_net \<Rightarrow> (network_error + nat) \<times> 'b node_net" where
  "recv_buf_size J H s n = map_prod (map_ok (\<lambda>i. nat (max i 0))) (\<lambda>x. x) (host_call J (\<lambda>b. nh_readable H b (ns_id s)) n)"

definition send_buf_size ::
    "'j node_js \<Rightarrow> ('j, 'b) node_hooks \<Rightarrow> node_socket \<Rightarrow> 'b node_net \<Rightarrow> (network_error + nat) \<times> 'b node_net" where
  "send_buf_size J H s n = map_prod (map_ok (\<lambda>i. nat (max i 0))) (\<lambda>x. x) (host_call J (\<lambda>b. nh_writable H b (ns_id s)) n)"

definition set_nodelay ::
    "'j node_js \<Rightarrow> ('j, 'b) node_hooks \<Rightarrow> bool \<Rightarrow> node_socket \<Rightarrow> 'b node_net \<Rightarrow>
     (network_error + unit) \<times> node_socket \<times> 'b node_net" where
  "set_nodelay J H enabled s n = (case host_call J (\<lambda>b. nh_set_nodelay H b (ns_id s) enabled) n of
     (Inl e, n1) \<Rightarrow> (Inl e, s, n1)
   | (Inr _, n1) \<Rightarrow> (Inr (), s\<lparr>ns_nodelay := enabled\<rparr>, n1))"

definition set_keepalive ::
    "'j node_js \<Rightarrow> ('j, 'b) node_hooks \<Rightarrow> bool \<Rightarrow> node_socket \<Rightarrow> 'b node_net \<Rightarrow>
     (network_error + unit) \<times> node_socket \<times> 'b node_net" where
  "set_keepalive J H enabled s n = (case host_call J (\<lambda>b. nh_set_keepalive H b (ns_id s) enabled) n of
     (Inl e, n1) \<Rightarrow> (Inl e, s, n1)
   | (Inr _, n1) \<Rightarrow> (Inr (), s\<lparr>ns_keepalive := enabled\<rparr>, n1))"

definition socket_shutdown ::
    "'j node_js \<Rightarrow> ('j, 'b) node_hooks \<Rightarrow> node_socket \<Rightarrow> 'b node_net \<Rightarrow>
     (network_error + unit) \<times> node_socket \<times> 'b node_net" where
  "socket_shutdown J H s n = node_close J H s n"

definition remove_entry :: "nat \<Rightarrow> handler_map \<Rightarrow> handler_map option" where
  "remove_entry sid m = (if hm_poisoned m then None else Some (with_entry sid None m))"

definition drop_socket ::
    "'j node_js \<Rightarrow> ('j, 'b) node_hooks \<Rightarrow> node_socket \<Rightarrow> 'b node_net \<Rightarrow> (unit \<times> 'b node_net) option" where
  "drop_socket J H s n =
     on_handlers (remove_entry (ns_id s)) () (snd (host_call J (\<lambda>b. nh_close H b (ns_id s)) n))"

section \<open>Listeners and bound sockets\<close>

record node_listener =
  nl_id :: nat
  nl_local :: sock_addr

record node_bound =
  nb_local :: sock_addr
  nb_ttl :: nat

definition node_listen ::
    "'j node_js \<Rightarrow> ('j, 'b) node_hooks \<Rightarrow> sock_addr \<Rightarrow> 'b node_net \<Rightarrow> (network_error + node_listener) \<times> 'b node_net" where
  "node_listen J H a n = bind_st (host_call J (\<lambda>b. nh_listen H b a) n) (\<lambda>d n1.
     (bind_res (number_property J d ''id'') (\<lambda>sid. map_ok (\<lambda>loc. \<lparr>nl_id = sid, nl_local = loc\<rparr>)
        (address_property J d ''local'')), n1))"

definition node_bind :: "sock_addr \<Rightarrow> network_error + node_bound" where
  "node_bind a = Inr \<lparr>nb_local = a, nb_ttl = 64\<rparr>"

definition node_bound_listen ::
    "'j node_js \<Rightarrow> ('j, 'b) node_hooks \<Rightarrow> node_bound \<Rightarrow> 'b node_net \<Rightarrow> (network_error + node_listener) \<times> 'b node_net" where
  "node_bound_listen J H bound n = bind_st (host_call J (\<lambda>b. nh_listen H b (nb_local bound)) n) (\<lambda>d n1.
     (bind_res (number_property J d ''id'') (\<lambda>sid. map_ok (\<lambda>loc. \<lparr>nl_id = sid, nl_local = loc\<rparr>)
        (address_property J d ''local'')), n1))"

definition node_bound_connect :: "sock_addr \<Rightarrow> network_error + node_socket" where
  "node_bound_connect peer = Inl UnsupportedNet"

definition node_bound_set_ttl :: "nat \<Rightarrow> node_bound \<Rightarrow> node_bound" where
  "node_bound_set_ttl ttl bound = bound\<lparr>nb_ttl := ttl\<rparr>"

definition listener_remove_handler :: "node_listener \<Rightarrow> 'b node_net \<Rightarrow> (unit \<times> 'b node_net) option" where
  "listener_remove_handler l n = on_handlers (node_remove_handler (nl_id l)) () n"

definition listener_poll_read_ready ::
    "'j node_js \<Rightarrow> ('j, 'b) node_hooks \<Rightarrow> node_listener \<Rightarrow> nat \<Rightarrow> 'b node_net \<Rightarrow>
     ((network_error + nat) poll \<times> 'b node_net) option" where
  "listener_poll_read_ready J H l w n = poll_ready (nl_id l) Readable w
     (\<lambda>n. map_prod (map_ok (\<lambda>ready. if ready then Some 1 else None)) (\<lambda>x. x)
        (host_call J (\<lambda>b. nh_listener_readable H b (nl_id l)) n)) n"

definition listener_poll_write_ready :: "(network_error + nat) poll" where
  "listener_poll_write_ready = Ready (Inr 1)"

definition try_accept ::
    "'j node_js \<Rightarrow> ('j, 'b) node_hooks \<Rightarrow> node_listener \<Rightarrow> 'b node_net \<Rightarrow>
     (network_error + node_socket \<times> sock_addr) \<times> 'b node_net" where
  "try_accept J H l n = bind_st (host_call J (\<lambda>b. nh_listener_accept H b (nl_id l)) n) (\<lambda>d n1.
     if nj_is_undefined J d \<or> nj_is_null J d then (Inl WouldBlock, n1)
     else (map_ok (\<lambda>s. (s, ns_peer s)) (from_descriptor J d), n1))"

definition listener_set_handler ::
    "'j node_js \<Rightarrow> ('j, 'b) node_hooks \<Rightarrow> node_listener \<Rightarrow> 'b node_net \<Rightarrow> (network_error + unit) \<times> 'b node_net" where
  "listener_set_handler J H l = install_handler J (\<lambda>b. nh_listener_refresh H b (nl_id l)) (nl_id l)"

definition node_drop_listener ::
    "'j node_js \<Rightarrow> ('j, 'b) node_hooks \<Rightarrow> node_listener \<Rightarrow> 'b node_net \<Rightarrow> (unit \<times> 'b node_net) option" where
  "node_drop_listener J H l n =
     on_handlers (remove_entry (nl_id l)) () (snd (host_call J (\<lambda>b. nh_listener_close H b (nl_id l)) n))"

section \<open>Connecting and resolving\<close>

definition node_connect ::
    "'j node_js \<Rightarrow> ('j, 'b) node_hooks \<Rightarrow> sock_addr \<Rightarrow> sock_addr \<Rightarrow> 'b node_net \<Rightarrow>
     (network_error + node_socket) \<times> 'b node_net" where
  "node_connect J H a peer n = bind_st
     (host_call J (\<lambda>b. (case nh_connect_sync H of Some f \<Rightarrow> f | None \<Rightarrow> nh_connect H) b a peer) n)
     (\<lambda>d n1. (from_descriptor J d, n1))"

definition ip_of_value :: "'j node_js \<Rightarrow> 'j \<Rightarrow> network_error + ip_addr" where
  "ip_of_value J v = (case nj_as_string J v of
     None \<Rightarrow> Inl InvalidData
   | Some s \<Rightarrow> (case parse_ip_addr s of None \<Rightarrow> Inl InvalidData | Some ip \<Rightarrow> Inr ip))"

definition node_resolve ::
    "'j node_js \<Rightarrow> ('j, 'b) node_hooks \<Rightarrow> string \<Rightarrow> 'b node_net \<Rightarrow> (network_error + ip_addr list) \<times> 'b node_net" where
  "node_resolve J H host n = bind_st
     (host_call J (\<lambda>b. (case nh_resolve_sync H of Some f \<Rightarrow> f | None \<Rightarrow> nh_resolve H) b host) n)
     (\<lambda>values n1. (collect_res (map (ip_of_value J) (nj_elements J values)), n1))"

section \<open>Readiness under interleaving\<close>

text \<open>
  Workers poll and change the map under its lock while the host changes its levels and publishes
  events on the main thread, which only tries the lock. A task may poll several sources in a round;
  \<open>nr_parked\<close> holds those that were pending since its executor last cleared its wake flag
  (\<open>nr_woken\<close>). A worker at one of the states \<open>wants_lock\<close> waits for the lock or holds it.
  \<open>nr_dropped\<close> holds the identifiers whose socket was dropped. The flag of \<open>node_step\<close> says
  whether the bridge keeps a notification that returned false and tries it again.
\<close>

datatype node_task = NtIdle | NtFirst nat interest | NtJoin nat interest | NtSecond nat interest
  | NtLeave nat interest "network_error + nat" | NtInstall nat | NtRemove nat | NtDrop nat

record node_ready =
  nr_map :: handler_map
  nr_holder :: "nat option"
  nr_level :: "nat \<Rightarrow> interest \<Rightarrow> network_error + nat option"
  nr_events :: "(nat \<times> string) list"
  nr_waking :: "nat list"
  nr_woken :: "nat set"
  nr_tasks :: "nat \<Rightarrow> node_task"
  nr_parked :: "nat \<Rightarrow> (nat \<times> interest) set"
  nr_dropped :: "nat set"

definition node_ready_init :: node_ready where
  "node_ready_init = \<lparr>nr_map = handlers_new, nr_holder = None, nr_level = (\<lambda>sid i. Inr None), nr_events = [],
     nr_waking = [], nr_woken = {}, nr_tasks = (\<lambda>t. NtIdle), nr_parked = (\<lambda>t. {}), nr_dropped = {}\<rparr>"

fun critical :: "nat \<Rightarrow> node_task \<Rightarrow> handler_map \<Rightarrow> handler_map option" where
  "critical t (NtJoin sid i) m = register_waker sid i t m"
| "critical t (NtLeave sid i r) m = unregister_waker sid i t m"
| "critical t (NtInstall sid) m = (case register_handler sid m of Inl e \<Rightarrow> None | Inr m1 \<Rightarrow> Some m1)"
| "critical t (NtRemove sid) m = node_remove_handler sid m"
| "critical t (NtDrop sid) m = remove_entry sid m"
| "critical t _ m = None"

fun after_critical :: "node_task \<Rightarrow> node_task" where
  "after_critical (NtJoin sid i) = NtSecond sid i"
| "after_critical _ = NtIdle"

fun wants_lock :: "node_task \<Rightarrow> bool" where
  "wants_lock NtIdle = False"
| "wants_lock (NtFirst sid i) = False"
| "wants_lock (NtSecond sid i) = False"
| "wants_lock _ = True"

fun answer_of :: "network_error + nat option \<Rightarrow> (network_error + nat) option" where
  "answer_of (Inl e) = Some (Inl e)"
| "answer_of (Inr (Some ready)) = Some (Inr ready)"
| "answer_of (Inr None) = None"

definition announces :: "string \<Rightarrow> interest \<Rightarrow> bool" where
  "announces event i \<longleftrightarrow> event_interest event \<in> {i, ClosedInterest, ErrorInterest}"

definition announced :: "(nat \<times> string) list \<Rightarrow> nat \<Rightarrow> interest \<Rightarrow> bool" where
  "announced events sid i \<longleftrightarrow> (\<exists>ev. (sid, ev) \<in> set events \<and> announces ev i)"

definition set_task :: "nat \<Rightarrow> node_task \<Rightarrow> node_ready \<Rightarrow> node_ready" where
  "set_task t p S = S\<lparr>nr_tasks := (nr_tasks S)(t := p)\<rparr>"

text \<open>The bridge publishes an event when a level becomes ready, and may publish more at any time
  (the refresh that follows the installation of a handler, for one).\<close>

inductive node_step :: "bool \<Rightarrow> node_ready \<Rightarrow> node_ready \<Rightarrow> bool" for retry where
  start_round: "nr_tasks S t = NtIdle \<Longrightarrow>
     node_step retry S (S\<lparr>nr_woken := nr_woken S - {t}, nr_parked := (nr_parked S)(t := {})\<rparr>)"
| start_poll: "nr_tasks S t = NtIdle \<Longrightarrow> i \<in> {Readable, Writable} \<Longrightarrow> sid \<notin> nr_dropped S \<Longrightarrow>
     node_step retry S (set_task t (NtFirst sid i)
       (S\<lparr>nr_parked := (nr_parked S)(t := nr_parked S t - {(sid, i)})\<rparr>))"
| first_answers: "nr_tasks S t = NtFirst sid i \<Longrightarrow> answer_of (nr_level S sid i) = Some r \<Longrightarrow>
     node_step retry S (set_task t (NtLeave sid i r) S)"
| first_waits: "nr_tasks S t = NtFirst sid i \<Longrightarrow> answer_of (nr_level S sid i) = None \<Longrightarrow>
     node_step retry S (set_task t (NtJoin sid i) S)"
| second_answers: "nr_tasks S t = NtSecond sid i \<Longrightarrow> answer_of (nr_level S sid i) = Some r \<Longrightarrow>
     node_step retry S (set_task t (NtLeave sid i r) S)"
| second_waits: "nr_tasks S t = NtSecond sid i \<Longrightarrow> answer_of (nr_level S sid i) = None \<Longrightarrow>
     node_step retry S (set_task t NtIdle
       (S\<lparr>nr_parked := (nr_parked S)(t := insert (sid, i) (nr_parked S t))\<rparr>))"
| start_install: "nr_tasks S t = NtIdle \<Longrightarrow> node_step retry S (set_task t (NtInstall sid) S)"
| start_remove: "nr_tasks S t = NtIdle \<Longrightarrow> node_step retry S (set_task t (NtRemove sid) S)"
| start_drop: "nr_tasks S t = NtIdle \<Longrightarrow>
     node_step retry S (set_task t (NtDrop sid) (S\<lparr>nr_dropped := insert sid (nr_dropped S)\<rparr>))"
| acquire: "wants_lock (nr_tasks S t) \<Longrightarrow> nr_holder S = None \<Longrightarrow> node_step retry S (S\<lparr>nr_holder := Some t\<rparr>)"
| run_critical: "nr_holder S = Some t \<Longrightarrow> critical t (nr_tasks S t) (nr_map S) = Some m \<Longrightarrow>
     node_step retry S (set_task t (after_critical (nr_tasks S t)) (S\<lparr>nr_map := m, nr_holder := None\<rparr>))"
| host_change: "(answer_of (nr_level S sid i) = None \<and> answer_of v \<noteq> None \<longrightarrow> announced events sid i) \<Longrightarrow>
     node_step retry S (S\<lparr>nr_level := (nr_level S)(sid := (nr_level S sid)(i := v)),
       nr_events := nr_events S @ events\<rparr>)"
| deliver: "(sid, event) \<in> set (nr_events S) \<Longrightarrow>
     notify_handler (nr_holder S \<noteq> None) sid event (nr_map S) = ((delivered, wakers), m) \<Longrightarrow>
     node_step retry S (S\<lparr>nr_map := m, nr_waking := nr_waking S @ wakers,
       nr_events := (if delivered \<or> \<not> retry then remove1 (sid, event) (nr_events S) else nr_events S)\<rparr>)"
| wake: "nr_waking S = w # ws \<Longrightarrow>
     node_step retry S (S\<lparr>nr_waking := ws, nr_woken := insert w (nr_woken S)\<rparr>)"

definition map_waiting :: "handler_map \<Rightarrow> nat \<Rightarrow> interest \<Rightarrow> nat list" where
  "map_waiting m sid i = wakers_for i (entry_or_default sid m)"

text \<open>A task that will be told about the level of a source: it is woken or about to be, or it is
  registered and the event of a level that is ready is still to be delivered.\<close>

definition covered :: "node_ready \<Rightarrow> nat \<Rightarrow> nat \<Rightarrow> interest \<Rightarrow> bool" where
  "covered S t sid i \<longleftrightarrow> t \<in> nr_woken S \<or> t \<in> set (nr_waking S) \<or>
     t \<in> set (map_waiting (nr_map S) sid i) \<and>
       (answer_of (nr_level S sid i) = None \<or> announced (nr_events S) sid i)"

fun polled :: "node_task \<Rightarrow> (nat \<times> interest) option" where
  "polled (NtFirst sid i) = Some (sid, i)"
| "polled (NtJoin sid i) = Some (sid, i)"
| "polled (NtSecond sid i) = Some (sid, i)"
| "polled (NtLeave sid i r) = Some (sid, i)"
| "polled _ = None"

definition polls_ok :: "node_ready \<Rightarrow> bool" where
  "polls_ok S \<longleftrightarrow>
     (\<forall>t sid i. (sid, i) \<in> nr_parked S t \<longrightarrow> i \<in> {Readable, Writable}) \<and>
     (\<forall>t sid i. polled (nr_tasks S t) = Some (sid, i) \<longrightarrow> i \<in> {Readable, Writable} \<and> (sid, i) \<notin> nr_parked S t)"

definition parked_ok :: "node_ready \<Rightarrow> bool" where
  "parked_ok S \<longleftrightarrow>
     (\<forall>t sid i. (sid, i) \<in> nr_parked S t \<and> sid \<notin> nr_dropped S \<longrightarrow> covered S t sid i) \<and>
     (\<forall>t sid i. nr_tasks S t = NtSecond sid i \<and> sid \<notin> nr_dropped S \<longrightarrow>
        t \<in> nr_woken S \<or> t \<in> set (nr_waking S) \<or> t \<in> set (map_waiting (nr_map S) sid i))"

definition drops_ok :: "node_ready \<Rightarrow> bool" where
  "drops_ok S \<longleftrightarrow> (\<forall>t sid. nr_tasks S t = NtDrop sid \<longrightarrow> sid \<in> nr_dropped S)"

section \<open>What the operations do to the registrations\<close>

lemma entry_with_entry [simp]:
  "entry_or_default s (with_entry s' (Some e) m) = (if s = s' then e else entry_or_default s m)"
  "entry_or_default s (with_entry s' None m) = (if s = s' then interest_default else entry_or_default s m)"
  by (simp_all add: entry_or_default_def with_entry_def)

lemma wakers_for_default [simp]: "wakers_for i interest_default = []"
  by (cases i) (simp_all add: interest_default_def)

lemma wakers_for_handler [simp]: "wakers_for i (e\<lparr>is_handler := h\<rparr>) = wakers_for i e"
  by (cases i) simp_all

lemma map_waiting_poisoned [simp]: "map_waiting (m\<lparr>hm_poisoned := b\<rparr>) = map_waiting m"
  by (simp add: map_waiting_def entry_or_default_def fun_eq_iff)

lemma wakers_for_set:
  "i \<in> {Readable, Writable} \<Longrightarrow> j \<in> {Readable, Writable} \<Longrightarrow>
   wakers_for i (set_wakers_for j ws e) = (if i = j then ws else wakers_for i e)"
  by (cases i; cases j) auto

lemma register_waker_waiting:
  assumes "register_waker s j w m = Some m1" "i \<in> {Readable, Writable}" "j \<in> {Readable, Writable}"
  shows "set (map_waiting m1 s' i) = set (map_waiting m s' i) \<union> (if s' = s \<and> i = j then {w} else {})"
  using assms by (auto simp: register_waker_def map_waiting_def Let_def wakers_for_set split: if_splits)

lemma unregister_waker_waiting:
  assumes "unregister_waker s j w m = Some m1" "i \<in> {Readable, Writable}" "j \<in> {Readable, Writable}"
  shows "set (map_waiting m1 s' i) = set (map_waiting m s' i) - (if s' = s \<and> i = j then {w} else {})"
proof (cases "hm_entries m s")
  case None
  then show ?thesis using assms
    by (auto simp: unregister_waker_def map_waiting_def entry_or_default_def split: if_splits)
next
  case (Some e)
  define e1 where "e1 = set_wakers_for j (filter (\<lambda>v. v \<noteq> w) (wakers_for j e)) e"
  have old: "entry_or_default s m = e" using Some by (simp add: entry_or_default_def)
  have new: "wakers_for i e1 = (if i = j then filter (\<lambda>v. v \<noteq> w) (wakers_for j e) else wakers_for i e)"
    using assms(2,3) by (simp add: e1_def wakers_for_set)
  have m1: "m1 = with_entry s (if is_handler e1 = None \<and> is_read_wakers e1 = [] \<and> is_write_wakers e1 = []
      then None else Some e1) m"
    using assms(1) Some by (cases "hm_poisoned m") (simp_all add: unregister_waker_def Let_def e1_def [symmetric])
  have empty: "wakers_for i e1 = []" if "is_read_wakers e1 = []" "is_write_wakers e1 = []"
    using that by (cases i) simp_all
  have "map_waiting m1 s i = wakers_for i e1"
    by (simp add: m1 map_waiting_def empty)
  then show ?thesis
    using new by (cases "s' = s") (auto simp: m1 map_waiting_def old)
qed

lemma register_handler_waiting:
  "register_handler s m = Inr m1 \<Longrightarrow> map_waiting m1 s' i = map_waiting m s' i"
  by (auto simp: register_handler_def map_waiting_def split: if_splits)

lemma remove_handler_waiting:
  "node_remove_handler s m = Some m1 \<Longrightarrow> map_waiting m1 s' i = map_waiting m s' i"
  by (cases i) (auto simp: node_remove_handler_def map_waiting_def entry_or_default_def interest_default_def
      with_entry_def split: if_splits option.splits)

lemma remove_entry_waiting:
  "remove_entry s m = Some m1 \<Longrightarrow> s' \<noteq> s \<Longrightarrow> map_waiting m1 s' i = map_waiting m s' i"
  by (auto simp: remove_entry_def map_waiting_def split: if_splits)

lemma take_wakers_for:
  "i \<in> {Readable, Writable} \<Longrightarrow> take_wakers j e = (ws, e1) \<Longrightarrow>
   (if j \<in> {i, ClosedInterest, ErrorInterest} then set (wakers_for i e) \<subseteq> set ws
    else wakers_for i e1 = wakers_for i e)"
  by (cases i; cases j) auto

lemma notify_waiting:
  assumes "notify_locked s j m = (wakers, m1)" "i \<in> {Readable, Writable}"
  shows "if s' = s \<and> j \<in> {i, ClosedInterest, ErrorInterest} then set (map_waiting m s' i) \<subseteq> set wakers
    else map_waiting m1 s' i = map_waiting m s' i"
proof (cases "hm_entries m s")
  case None
  then show ?thesis using assms by (auto simp: notify_locked_def map_waiting_def entry_or_default_def)
next
  case (Some e)
  obtain ws e1 where t: "take_wakers j (push_interest j e) = (ws, e1)" by (cases "take_wakers j (push_interest j e)")
  have m: "wakers = ws" "m1 = with_entry s (Some e1) m" "entry_or_default s m = e"
    using assms(1) Some t by (simp_all add: notify_locked_def Let_def entry_or_default_def)
  show ?thesis
    using take_wakers_for [OF assms(2) t] by (simp add: m map_waiting_def push_interest_def split: if_splits)
qed

section \<open>The invariant\<close>

lemma announced_append [simp]: "announced (xs @ ys) sid i \<longleftrightarrow> announced xs sid i \<or> announced ys sid i"
  by (auto simp: announced_def)

lemma announced_remove:
  "announced evs sid i \<Longrightarrow> \<not> (s' = sid \<and> announces ev i) \<Longrightarrow> announced (remove1 (s', ev) evs) sid i"
  unfolding announced_def by (metis in_set_remove1 prod.inject)

inductive_cases node_stepE: "node_step retry S S'"

lemma polled_after: "polled (after_critical p) = Some x \<Longrightarrow> polled p = Some x"
  by (cases p) auto

lemma polls_okD:
  "polls_ok S \<Longrightarrow> polled (nr_tasks S t) = Some (sid, i) \<Longrightarrow> i \<in> {Readable, Writable} \<and> (sid, i) \<notin> nr_parked S t"
  unfolding polls_ok_def by blast

lemma polls_ok_cong:
  assumes "polls_ok S" "nr_parked S' = nr_parked S"
    and "\<And>t x. polled (nr_tasks S' t) = Some x \<Longrightarrow> polled (nr_tasks S t) = Some x"
  shows "polls_ok S'"
  using assms unfolding polls_ok_def by metis

lemma polls_ok_step: "node_step retry S S' \<Longrightarrow> polls_ok S \<Longrightarrow> polls_ok S'"
proof (induction rule: node_step.induct)
  case (start_round S t)
  then show ?case by (auto simp: polls_ok_def)
next
  case (start_poll S t i sid)
  then show ?case by (auto simp: polls_ok_def set_task_def)
next
  case (second_waits S t sid i)
  then have "i \<in> {Readable, Writable}" using polls_okD [of S t sid i] by simp
  with second_waits show ?case by (auto simp: polls_ok_def set_task_def)
next
  case (run_critical S t m)
  show ?case
    by (rule polls_ok_cong [OF run_critical(3)]) (auto simp: set_task_def dest: polled_after split: if_splits)
qed (erule polls_ok_cong; auto simp: set_task_def split: if_splits)+

lemma drops_ok_step: "node_step retry S S' \<Longrightarrow> drops_ok S \<Longrightarrow> drops_ok S'"
proof (induction rule: node_step.induct)
  case (run_critical S t m)
  then show ?case by (cases "nr_tasks S t") (auto simp: drops_ok_def set_task_def)
qed (auto simp: drops_ok_def set_task_def split: if_splits)

lemma critical_waiting:
  assumes "critical t p m = Some m1" "i \<in> {Readable, Writable}" "p \<noteq> NtDrop s"
    and "\<And>s' j. polled p = Some (s', j) \<Longrightarrow> j \<in> {Readable, Writable}"
    and "u \<in> set (map_waiting m s i)" "\<not> (\<exists>r. p = NtLeave s i r \<and> u = t)"
  shows "u \<in> set (map_waiting m1 s i)"
  using assms by (cases p) (auto simp: register_waker_waiting unregister_waker_waiting register_handler_waiting
      remove_handler_waiting remove_entry_waiting split: sum.splits)

lemma parked_okI:
  assumes "\<And>t sid i. (sid, i) \<in> nr_parked S t \<Longrightarrow> sid \<notin> nr_dropped S \<Longrightarrow> covered S t sid i"
    and "\<And>t sid i. nr_tasks S t = NtSecond sid i \<Longrightarrow> sid \<notin> nr_dropped S \<Longrightarrow>
      t \<in> nr_woken S \<or> t \<in> set (nr_waking S) \<or> t \<in> set (map_waiting (nr_map S) sid i)"
  shows "parked_ok S"
  using assms unfolding parked_ok_def by blast

lemma parked_ok_covered:
  "parked_ok S \<Longrightarrow> (sid, i) \<in> nr_parked S t \<Longrightarrow> sid \<notin> nr_dropped S \<Longrightarrow> covered S t sid i"
  unfolding parked_ok_def by blast

lemma parked_ok_second:
  "parked_ok S \<Longrightarrow> nr_tasks S t = NtSecond sid i \<Longrightarrow> sid \<notin> nr_dropped S \<Longrightarrow>
   t \<in> nr_woken S \<or> t \<in> set (nr_waking S) \<or> t \<in> set (map_waiting (nr_map S) sid i)"
  unfolding parked_ok_def by blast

text \<open>Steps of a task that leave the map and the wakers alone.\<close>

lemma parked_ok_cong:
  assumes "parked_ok S" "nr_woken S \<subseteq> nr_woken S'" "set (nr_waking S) \<subseteq> nr_woken S' \<union> set (nr_waking S')"
    and "nr_map S' = nr_map S" "nr_level S' = nr_level S" "nr_events S' = nr_events S"
    and "\<And>t. nr_parked S' t \<subseteq> nr_parked S t" "nr_dropped S \<subseteq> nr_dropped S'"
    and "\<And>t sid i. nr_tasks S' t = NtSecond sid i \<Longrightarrow> nr_tasks S t = NtSecond sid i"
  shows "parked_ok S'"
proof (rule parked_okI)
  show "covered S' t sid i" if "(sid, i) \<in> nr_parked S' t" "sid \<notin> nr_dropped S'" for t sid i
  proof -
    have "covered S t sid i" using parked_ok_covered [OF assms(1)] assms(7,8) that by blast
    then show ?thesis using assms(2-6) by (auto simp: covered_def)
  qed
  show "t \<in> nr_woken S' \<or> t \<in> set (nr_waking S') \<or> t \<in> set (map_waiting (nr_map S') sid i)"
    if "nr_tasks S' t = NtSecond sid i" "sid \<notin> nr_dropped S'" for t sid i
    using parked_ok_second [OF assms(1) assms(9) [OF that(1)]] that(2) assms(2-4,8) by auto
qed

lemma covered_mono:
  assumes "covered S t sid i" "nr_woken S \<subseteq> nr_woken S'" "set (nr_waking S) \<subseteq> set (nr_waking S')"
    and "t \<in> set (map_waiting (nr_map S) sid i) \<Longrightarrow> t \<in> set (map_waiting (nr_map S') sid i)"
    and "nr_level S' = nr_level S" "announced (nr_events S) sid i \<Longrightarrow> announced (nr_events S') sid i"
  shows "covered S' t sid i"
  using assms by (auto simp: covered_def)

lemma critical_step_parked:
  assumes "nr_holder S = Some t" "critical t (nr_tasks S t) (nr_map S) = Some m"
    and "polls_ok S" "drops_ok S" "parked_ok S"
  shows "parked_ok (set_task t (after_critical (nr_tasks S t)) (S\<lparr>nr_map := m, nr_holder := None\<rparr>))"
proof -
  let ?S = "set_task t (after_critical (nr_tasks S t)) (S\<lparr>nr_map := m, nr_holder := None\<rparr>)"
  have keeps: "u \<in> set (map_waiting m sid i)"
    if "u \<in> set (map_waiting (nr_map S) sid i)" "i \<in> {Readable, Writable}" "sid \<notin> nr_dropped S"
      and "\<not> (\<exists>r. nr_tasks S t = NtLeave sid i r \<and> u = t)" for u sid i
  proof (rule critical_waiting [OF assms(2) that(2) _ _ that(1,4)])
    show "nr_tasks S t \<noteq> NtDrop sid" using assms(4) that(3) by (auto simp: drops_ok_def)
    show "j \<in> {Readable, Writable}" if "polled (nr_tasks S t) = Some (s', j)" for s' j
      using polls_okD [OF assms(3)] that by blast
  qed
  have "covered ?S u sid i" if "(sid, i) \<in> nr_parked S u" "sid \<notin> nr_dropped S" for u sid i
  proof (rule covered_mono [of S])
    show "covered S u sid i" using assms(5) that by (simp add: parked_ok_def)
    assume w: "u \<in> set (map_waiting (nr_map S) sid i)"
    have "i \<in> {Readable, Writable}" "\<not> (\<exists>r. nr_tasks S t = NtLeave sid i r \<and> u = t)"
      using assms(3) that by (auto simp: polls_ok_def)
    with w that(2) show "u \<in> set (map_waiting (nr_map ?S) sid i)" by (simp add: keeps set_task_def)
  qed (auto simp: set_task_def)
  moreover have "u \<in> nr_woken S \<or> u \<in> set (nr_waking S) \<or> u \<in> set (map_waiting m sid i)"
    if second: "nr_tasks ?S u = NtSecond sid i" and "sid \<notin> nr_dropped S" for u sid i
  proof (cases "u = t")
    case True
    then have "nr_tasks S t = NtJoin sid i" using second by (cases "nr_tasks S t") (auto simp: set_task_def)
    moreover from this have "i \<in> {Readable, Writable}" using polls_okD [OF assms(3), of t sid i] by simp
    ultimately show ?thesis using assms(2) True by (auto simp: register_waker_waiting)
  next
    case False
    then have *: "nr_tasks S u = NtSecond sid i" using second by (simp add: set_task_def)
    then have "i \<in> {Readable, Writable}" using polls_okD [OF assms(3), of u sid i] by simp
    then show ?thesis using parked_ok_second [OF assms(5) * that(2)] False keeps [of u sid i] that(2) by blast
  qed
  ultimately show ?thesis by (simp add: parked_ok_def set_task_def)
qed

lemma deliver_parked:
  assumes "notify_handler (nr_holder S \<noteq> None) s event (nr_map S) = ((delivered, wakers), m)"
    and "polls_ok S" "parked_ok S"
  shows "parked_ok (S\<lparr>nr_map := m, nr_waking := nr_waking S @ wakers,
       nr_events := (if delivered then remove1 (s, event) (nr_events S) else nr_events S)\<rparr>)"
proof (cases "nr_holder S")
  case (Some h)
  then have "m = nr_map S" "wakers = []" "\<not> delivered" using assms(1) by (auto simp: notify_handler_def)
  then have "S\<lparr>nr_map := m, nr_waking := nr_waking S @ wakers,
       nr_events := (if delivered then remove1 (s, event) (nr_events S) else nr_events S)\<rparr> = S" by simp
  then show ?thesis using assms(3) by (simp only:)
next
  case None
  let ?S = "S\<lparr>nr_map := m, nr_waking := nr_waking S @ wakers, nr_events := remove1 (s, event) (nr_events S)\<rparr>"
  have n: "notify_locked s (event_interest event) (nr_map S) = (wakers, m)" and "delivered"
    using assms(1) None by (auto simp: notify_handler_def Let_def split: prod.splits)
  have moves: "u \<in> set wakers \<or>
      u \<in> set (map_waiting m sid i) \<and> (announced (nr_events S) sid i \<longrightarrow> announced (nr_events ?S) sid i)"
    if "u \<in> set (map_waiting (nr_map S) sid i)" "i \<in> {Readable, Writable}" for u sid i
  proof (cases "sid = s \<and> announces event i")
    case True
    then show ?thesis using notify_waiting [OF n that(2), of sid] that(1) by (auto simp: announces_def)
  next
    case False
    then have "map_waiting m sid i = map_waiting (nr_map S) sid i"
      using notify_waiting [OF n that(2), of sid] by (auto simp: announces_def split: if_splits)
    then show ?thesis using that(1) announced_remove [of "nr_events S" sid i s event] False by auto
  qed
  have "covered ?S u sid i" if "(sid, i) \<in> nr_parked S u" "sid \<notin> nr_dropped S" for u sid i
  proof -
    have "covered S u sid i" "i \<in> {Readable, Writable}"
      using assms(2,3) that by (auto simp: parked_ok_def polls_ok_def)
    then show ?thesis using moves [of u sid i] by (auto simp: covered_def)
  qed
  moreover have "u \<in> nr_woken S \<or> u \<in> set (nr_waking S @ wakers) \<or> u \<in> set (map_waiting m sid i)"
    if "nr_tasks S u = NtSecond sid i" "sid \<notin> nr_dropped S" for u sid i
  proof -
    have "i \<in> {Readable, Writable}" using that(1) polls_okD [OF assms(2), of u sid i] by simp
    then show ?thesis using parked_ok_second [OF assms(3) that] moves [of u sid i] by auto
  qed
  ultimately show ?thesis using \<open>delivered\<close> by (simp add: parked_ok_def)
qed

lemma parked_ok_step:
  "node_step True S S' \<Longrightarrow> polls_ok S \<and> drops_ok S \<Longrightarrow> parked_ok S \<Longrightarrow> parked_ok S'"
proof (induction rule: node_step.induct)
  case (run_critical S t m)
  then show ?case using critical_step_parked by blast
next
  case (deliver s event S delivered wakers m)
  then show ?case using deliver_parked [OF deliver(2)] by simp
next
  case (second_waits S t sid i)
  have "covered S t sid i" if "sid \<notin> nr_dropped S"
    using parked_ok_second [OF second_waits(4,1) that] second_waits(2) by (auto simp: covered_def)
  then show ?case
    using parked_ok_covered [OF second_waits(4)] parked_ok_second [OF second_waits(4)]
    by (intro parked_okI) (auto simp: covered_def set_task_def split: if_splits)
next
  case (host_change S s j v events)
  show ?case
  proof (rule parked_okI)
    let ?S = "S\<lparr>nr_level := (nr_level S)(s := (nr_level S s)(j := v)), nr_events := nr_events S @ events\<rparr>"
    show "covered ?S t sid i" if "(sid, i) \<in> nr_parked ?S t" "sid \<notin> nr_dropped ?S" for t sid i
      using parked_ok_covered [OF host_change(3), of sid i t] that host_change(1) by (auto simp: covered_def)
    show "t \<in> nr_woken ?S \<or> t \<in> set (nr_waking ?S) \<or> t \<in> set (map_waiting (nr_map ?S) sid i)"
      if "nr_tasks ?S t = NtSecond sid i" "sid \<notin> nr_dropped ?S" for t sid i
      using parked_ok_second [OF host_change(3), of t sid i] that by simp
  qed
next
  case (start_round S t)
  show ?case
  proof (rule parked_okI)
    let ?S = "S\<lparr>nr_woken := nr_woken S - {t}, nr_parked := (nr_parked S)(t := {})\<rparr>"
    show "covered ?S u sid i" if "(sid, i) \<in> nr_parked ?S u" "sid \<notin> nr_dropped ?S" for u sid i
      using parked_ok_covered [OF start_round(3), of sid i u] that by (auto simp: covered_def split: if_splits)
    show "u \<in> nr_woken ?S \<or> u \<in> set (nr_waking ?S) \<or> u \<in> set (map_waiting (nr_map ?S) sid i)"
      if "nr_tasks ?S u = NtSecond sid i" "sid \<notin> nr_dropped ?S" for u sid i
      using parked_ok_second [OF start_round(3), of u sid i] that start_round(1) by auto
  qed
qed (erule parked_ok_cong; auto simp: set_task_def split: if_splits)+

interpretation node_readiness: inductive_invariant "\<lambda>S. S = node_ready_init" "node_step True"
  "\<lambda>S. polls_ok S \<and> drops_ok S \<and> parked_ok S"
proof
  show "polls_ok S \<and> drops_ok S \<and> parked_ok S" if "S = node_ready_init" for S
    using that by (auto simp: node_ready_init_def polls_ok_def drops_ok_def parked_ok_def)
  show "polls_ok S' \<and> drops_ok S' \<and> parked_ok S'"
    if "polls_ok S \<and> drops_ok S \<and> parked_ok S" "node_step True S S'" for S S'
    using that polls_ok_step drops_ok_step parked_ok_step by blast
qed

section \<open>Wake-ups\<close>

text \<open>A run in which a level becomes ready while another worker holds the map's lock.\<close>

lemma contended_run:
  "\<exists>S. reachable (\<lambda>S. S = node_ready_init) (node_step retry) S \<and> nr_parked S 0 = {(7, Readable)} \<and>
     nr_dropped S = {} \<and> nr_level S 7 Readable = Inr (Some 3) \<and> nr_events S = [(7, ''readable'')] \<and>
     nr_waking S = [] \<and> nr_woken S = {} \<and> nr_holder S = Some 1"
proof -
  let ?reach = "reachable (\<lambda>S. S = node_ready_init) (node_step retry)"
  define S1 where "S1 = set_task 0 (NtFirst 7 Readable)
    (node_ready_init\<lparr>nr_parked := (nr_parked node_ready_init)(0 := nr_parked node_ready_init 0 - {(7, Readable)})\<rparr>)"
  define S2 where "S2 = set_task 0 (NtJoin 7 Readable) S1"
  define S3 where "S3 = S2\<lparr>nr_holder := Some 0\<rparr>"
  define m where "m = with_entry 7 (Some \<lparr>is_handler = None, is_read_wakers = [0], is_write_wakers = []\<rparr>) handlers_new"
  define S4 where "S4 = set_task 0 (after_critical (nr_tasks S3 0)) (S3\<lparr>nr_map := m, nr_holder := None\<rparr>)"
  define S5 where "S5 = set_task 0 NtIdle (S4\<lparr>nr_parked := (nr_parked S4)(0 := insert (7, Readable) (nr_parked S4 0))\<rparr>)"
  define S6 where "S6 = set_task 1 (NtInstall 8) S5"
  define S7 where "S7 = S6\<lparr>nr_holder := Some 1\<rparr>"
  define S8 where "S8 = S7\<lparr>nr_level := (nr_level S7)(7 := (nr_level S7 7)(Readable := Inr (Some 3))),
       nr_events := nr_events S7 @ [(7, ''readable'')]\<rparr>"
  note defs = node_ready_init_def set_task_def S1_def S2_def S3_def S4_def S5_def S6_def S7_def
  have "?reach node_ready_init" by (rule reachable.intros(1)) (rule refl)
  then have "?reach S1" unfolding S1_def
    by (rule reachable.intros(2)) (rule start_poll; simp add: node_ready_init_def)
  then have "?reach S2" unfolding S2_def
    by (rule reachable.intros(2)) (rule first_waits; simp add: defs)
  then have "?reach S3" unfolding S3_def
    by (rule reachable.intros(2)) (rule acquire; simp add: defs)
  then have "?reach S4" unfolding S4_def
    by (rule reachable.intros(2)) (rule run_critical; simp add: defs m_def register_waker_def entry_or_default_def
        handlers_new_def interest_default_def)
  then have "?reach S5" unfolding S5_def
    by (rule reachable.intros(2)) (rule second_waits; simp add: defs)
  then have "?reach S6" unfolding S6_def
    by (rule reachable.intros(2)) (rule start_install; simp add: defs)
  then have "?reach S7" unfolding S7_def
    by (rule reachable.intros(2)) (rule acquire; simp add: defs)
  then have "?reach S8" unfolding S8_def
    by (rule reachable.intros(2)) (rule host_change; simp add: announced_def announces_def event_interest_def)
  moreover have "nr_parked S8 0 = {(7, Readable)} \<and> nr_dropped S8 = {} \<and> nr_level S8 7 Readable = Inr (Some 3) \<and>
      nr_events S8 = [(7, ''readable'')] \<and> nr_waking S8 = [] \<and> nr_woken S8 = {} \<and> nr_holder S8 = Some 1"
    by (simp add: S8_def defs)
  ultimately show ?thesis by blast
qed

text \<open>C36: When a source becomes ready the tasks parked on it are told, provided the bridge tries a refused
  notification again: in every reachable state a task whose last poll of a source was pending, while
  the source is now ready, is woken, is about to be woken, or is registered with an event for it still
  to be delivered. The Node bridge does not try again, and then a reachable state has a parked task,
  a ready source, no event left and nobody who would wake the task.\<close>

theorem ready_source_wakes_tasks:
  "(\<forall>S t sid i. reachable (\<lambda>S. S = node_ready_init) (node_step True) S \<and> (sid, i) \<in> nr_parked S t \<and>
      sid \<notin> nr_dropped S \<and> answer_of (nr_level S sid i) \<noteq> None \<longrightarrow>
      t \<in> nr_woken S \<or> t \<in> set (nr_waking S) \<or>
      t \<in> set (map_waiting (nr_map S) sid i) \<and> announced (nr_events S) sid i) \<and>
   (\<exists>S t sid i. reachable (\<lambda>S. S = node_ready_init) (node_step False) S \<and> (sid, i) \<in> nr_parked S t \<and>
      sid \<notin> nr_dropped S \<and> answer_of (nr_level S sid i) \<noteq> None \<and>
      t \<notin> nr_woken S \<and> nr_waking S = [] \<and> nr_events S = [])"
proof (intro conjI allI impI)
  fix S t sid i
  assume *: "reachable (\<lambda>S. S = node_ready_init) (node_step True) S \<and> (sid, i) \<in> nr_parked S t \<and>
      sid \<notin> nr_dropped S \<and> answer_of (nr_level S sid i) \<noteq> None"
  then have "covered S t sid i" using node_readiness.reachable_inv parked_ok_covered by blast
  with * show "t \<in> nr_woken S \<or> t \<in> set (nr_waking S) \<or>
      t \<in> set (map_waiting (nr_map S) sid i) \<and> announced (nr_events S) sid i"
    by (auto simp: covered_def)
next
  obtain S where S: "reachable (\<lambda>S. S = node_ready_init) (node_step False) S" "nr_parked S 0 = {(7, Readable)}"
     "nr_dropped S = {}" "nr_level S 7 Readable = Inr (Some 3)" "nr_events S = [(7, ''readable'')]"
     "nr_waking S = []" "nr_woken S = {}" "nr_holder S = Some 1"
    using contended_run by blast
  have "node_step False S (S\<lparr>nr_map := nr_map S, nr_waking := nr_waking S @ [],
       nr_events := (if False \<or> \<not> False then remove1 (7, ''readable'') (nr_events S) else nr_events S)\<rparr>)"
    by (rule deliver) (simp_all add: S notify_handler_def)
  then have "reachable (\<lambda>S. S = node_ready_init) (node_step False) (S\<lparr>nr_waking := [], nr_events := []\<rparr>)"
    using reachable.intros(2) [OF S(1)] S(5,6) by simp
  then show "\<exists>S t sid i. reachable (\<lambda>S. S = node_ready_init) (node_step False) S \<and> (sid, i) \<in> nr_parked S t \<and>
      sid \<notin> nr_dropped S \<and> answer_of (nr_level S sid i) \<noteq> None \<and>
      t \<notin> nr_woken S \<and> nr_waking S = [] \<and> nr_events S = []"
    using S by (intro exI [of _ "S\<lparr>nr_waking := [], nr_events := []\<rparr>"] exI [of _ 0] exI [of _ 7] exI [of _ Readable]) simp
qed

theorem ready_source_wakes_tasks_witness:
  "\<exists>S. reachable (\<lambda>S. S = node_ready_init) (node_step True) S \<and> nr_level S 7 Readable = Inr (Some 3) \<and>
     nr_woken S = {} \<and> nr_waking S = [] \<and> 0 \<in> set (map_waiting (nr_map S) 7 Readable)"
proof -
  obtain S where S: "reachable (\<lambda>S. S = node_ready_init) (node_step True) S" "nr_parked S 0 = {(7, Readable)}"
     "nr_dropped S = {}" "nr_level S 7 Readable = Inr (Some 3)" "nr_waking S = []" "nr_woken S = {}"
    using contended_run by blast
  have "0 \<in> set (map_waiting (nr_map S) 7 Readable)"
    using conjunct1 [OF ready_source_wakes_tasks, rule_format, of S 7 Readable 0] S by simp
  with S show ?thesis by blast
qed

section \<open>What the sockets answer\<close>

text \<open>A poll that is pending left its task registered; one that is ready left it unregistered.\<close>

lemma poll_ready_registration:
  assumes "poll_ready sid i w query n = Some (answer, n1)" "i \<in> {Readable, Writable}"
    and "\<And>n. nn_handlers (snd (query n)) = nn_handlers n"
  shows "answer = Pending \<longleftrightarrow> w \<in> set (map_waiting (nn_handlers n1) sid i)"
  using assms(1) assms(3) [of n] assms(3) unfolding poll_ready_def on_handlers_def
  by (auto simp: register_waker_waiting [OF _ assms(2) assms(2)] unregister_waker_waiting [OF _ assms(2) assms(2)]
      split: prod.splits sum.splits option.splits dest!: sndI)

lemma recv_within_buffer:
  "node_try_recv J H s capacity peek n = (Inr bs, s1, n1) \<Longrightarrow>
     length bs \<le> capacity \<and> \<not> peek \<and> (ns_closed s1 \<longrightarrow> ns_closed s \<or> bs = [])"
  by (auto simp: node_try_recv_def split: if_splits prod.splits sum.splits)

lemma sent_at_most:
  assumes "node_try_send J H s bs n = (Inr written, n1)" "\<And>b sid bs st r st'. nh_write H b sid bs st = (Inr r, st') \<Longrightarrow> r \<le> int (length bs)"
  shows "written \<le> length bs"
  using assms by (fastforce simp: node_try_send_def host_call_def bind_res_Inr_iff map_err_Inr_iff split: prod.splits if_splits)

end
