(* ===== verification/Package_Cache.thy ===== *)
theory Package_Cache
  imports Prelude
begin

text \<open>
  The package and registry cache of a JavaScript host (js/bindgen/src/package_cache.rs): files in
  the Node bridge's directory or entries of the browser's Cache Storage. The hosts' functions, the
  hash and the package decoder are parameters, the records \<open>cache_host\<close> and \<open>webc_lib\<close>; a hook runs
  on the host's state, and one that is awaited answers with what its promise settles with. An error is
  its chain of messages, outermost first. What a cancelled read leaves behind is a transition system
  at the end. The module cache (module_cache.rs) is a map.
\<close>

section \<open>Numbers\<close>

text \<open>A finite \<open>f64\<close> is known by its floor and whether something is left of it.\<close>

datatype js_number = JN_NaN | JN_Infinite bool | JN_Finite int bool

definition u32_max :: nat where
  "u32_max = 2 ^ 32 - 1"

definition js_as_u32 :: "js_number \<Rightarrow> nat" where
  "js_as_u32 x = (case x of
     JN_NaN \<Rightarrow> 0
   | JN_Infinite negative \<Rightarrow> if negative then 0 else u32_max
   | JN_Finite i frac \<Rightarrow> min (nat i) u32_max)"

text \<open>\<open>(0.0..=u32::MAX as f64).contains(&x)\<close>, and the value it is cast to.\<close>

definition in_u32_range :: "js_number \<Rightarrow> nat option" where
  "in_u32_range x = (case x of
     JN_Finite i frac \<Rightarrow>
       if 0 \<le> i \<and> (i < int u32_max \<or> i = int u32_max \<and> \<not> frac) then Some (nat i) else None
   | _ \<Rightarrow> None)"

definition is_fractional :: "js_number \<Rightarrow> bool" where
  "is_fractional x = (case x of JN_Finite i frac \<Rightarrow> frac | _ \<Rightarrow> True)"

section \<open>The host and the package library\<close>

type_synonym any_error = "string list"

record opened_file =
  op_handle :: "string + js_number option"
  op_size :: "string + js_number option"

text \<open>\<open>ch_read_into\<close> gives the promise's number and the buffer's bytes; \<open>ch_reserve\<close> is the allocator's
  answer for a buffer of that size; \<open>ch_match\<close> covers the response and its blob.\<close>

record ('blob, 'b) cache_host =
  ch_open :: "nat \<Rightarrow> string \<Rightarrow> 'b \<Rightarrow> (string + opened_file option) \<times> 'b"
  ch_read_into :: "nat \<Rightarrow> nat \<Rightarrow> nat \<Rightarrow> 'b \<Rightarrow> (string + js_number option \<times> byte list) \<times> 'b"
  ch_close_file :: "nat \<Rightarrow> nat \<Rightarrow> 'b \<Rightarrow> 'b"
  ch_put :: "nat \<Rightarrow> string \<Rightarrow> byte list \<Rightarrow> 'b \<Rightarrow> (string + unit) \<times> 'b"
  ch_remove :: "nat \<Rightarrow> string \<Rightarrow> 'b \<Rightarrow> (string + unit) \<times> 'b"
  ch_reserve :: "nat \<Rightarrow> string + unit"
  ch_show :: "js_number \<Rightarrow> string"
  ch_scope_is_other :: bool
  ch_caches :: "string + unit"
  ch_open_cache :: "string \<Rightarrow> 'b \<Rightarrow> (string + unit) \<times> 'b"
  ch_match :: "string \<Rightarrow> string \<Rightarrow> 'b \<Rightarrow> (string + 'blob option) \<times> 'b"
  ch_blob_size :: "'blob \<Rightarrow> js_number"
  ch_slice :: "'blob \<Rightarrow> nat \<Rightarrow> nat \<Rightarrow> 'b \<Rightarrow> (string + byte list) \<times> 'b"
  ch_cache_put :: "string \<Rightarrow> string \<Rightarrow> byte list \<Rightarrow> 'b \<Rightarrow> (string + unit) \<times> 'b"
  ch_cache_delete :: "string \<Rightarrow> string \<Rightarrow> 'b \<Rightarrow> (string + unit) \<times> 'b"
  ch_encode :: "string \<Rightarrow> string"

record ('h, 'c) webc_lib =
  wl_sha256 :: "byte list \<Rightarrow> 'h"
  wl_hex :: "'h \<Rightarrow> string"
  wl_from_bytes :: "byte list \<Rightarrow> any_error + 'c"

definition js_failed :: "(string + 'a) \<times> 'b \<Rightarrow> (any_error + 'a) \<times> 'b" where
  "js_failed = map_err_st (\<lambda>e. [e])"

section \<open>Paths\<close>

definition registry_path :: "string \<Rightarrow> string" where
  "registry_path name = ''cache-v1/registry/''
     @ map (\<lambda>c. if c = CHR 0x5C then CHR ''#'' else c) (map (\<lambda>c. if c = CHR ''/'' then CHR ''#'' else c) name)"

definition package_path :: "('h, 'c) webc_lib \<Rightarrow> 'h \<Rightarrow> string" where
  "package_path W h = ''cache-v1/packages/'' @ wl_hex W h @ ''.bin''"

definition cache_key :: "('blob, 'b) cache_host \<Rightarrow> string \<Rightarrow> string" where
  "cache_key H path = ''https://wasmer-sdk.invalid/'' @ ch_encode H path"

datatype host_package_cache = BrowserCache string bool | NodeCache nat

definition browser_package_cache :: "string option \<Rightarrow> bool \<Rightarrow> host_package_cache" where
  "browser_package_cache namespace read_only =
     BrowserCache (''wasmer-sdk-cache-v1-'' @ (case namespace of None \<Rightarrow> ''default'' | Some n \<Rightarrow> n)) read_only"

section \<open>Node\<close>

definition number_field :: "string + js_number option \<Rightarrow> string \<Rightarrow> any_error + js_number" where
  "number_field r name = bind_res (map_err (\<lambda>e. [e]) r) (\<lambda>n. case n of
     None \<Rightarrow> Inl [''package cache returned no numeric `'' @ name @ ''`'']
   | Some x \<Rightarrow> Inr x)"

definition unsupported_size :: "('blob, 'b) cache_host \<Rightarrow> string \<Rightarrow> js_number \<Rightarrow> any_error" where
  "unsupported_size H path sz =
     [''cached file '' @ path @ '' has an unsupported size of '' @ ch_show H sz @ '' bytes'']"

definition unable_to_allocate :: "string \<Rightarrow> nat \<Rightarrow> string \<Rightarrow> any_error" where
  "unable_to_allocate path n e =
     [''unable to allocate '' @ nat_digits n @ '' bytes for cached file '' @ path, e]"

definition changed_size :: "string \<Rightarrow> any_error" where
  "changed_size path = [''cached file '' @ path @ '' changed size while it was read'']"

text \<open>The size of the buffer for an opened file.\<close>

definition buffer_size ::
    "('blob, 'b) cache_host \<Rightarrow> string \<Rightarrow> js_number \<Rightarrow> bool \<Rightarrow> any_error + nat" where
  "buffer_size H path sz whole_number = (case in_u32_range sz of
     None \<Rightarrow> Inl (unsupported_size H path sz)
   | Some n \<Rightarrow>
       if whole_number \<and> is_fractional sz then Inl (unsupported_size H path sz)
       else (case ch_reserve H n of Inl e \<Rightarrow> Inl (unable_to_allocate path n e) | Inr u \<Rightarrow> Inr n))"

text \<open>An opened file that is not handed to a read is closed by its guard.\<close>

definition node_get ::
    "('blob, 'b) cache_host \<Rightarrow> nat \<Rightarrow> string \<Rightarrow> 'b \<Rightarrow> (any_error + byte list option) \<times> 'b" where
  "node_get H bridge path st = bind_st (js_failed (ch_open H bridge path st)) (\<lambda>opened st1. case opened of
     None \<Rightarrow> (Inr None, st1)
   | Some file \<Rightarrow> (case number_field (op_handle file) ''handle'' of
       Inl e \<Rightarrow> (Inl e, st1)
     | Inr h \<Rightarrow> (case bind_res (number_field (op_size file) ''size'') (\<lambda>sz. buffer_size H path sz True) of
         Inl e \<Rightarrow> (Inl e, ch_close_file H bridge (js_as_u32 h) st1)
       | Inr n \<Rightarrow> bind_st (js_failed (ch_read_into H bridge (js_as_u32 h) n st1)) (\<lambda>(read, bs) st2.
           if read = Some (JN_Finite (int n) False) then (Inr (Some bs), st2)
           else (Inl (changed_size path), st2)))))"

definition node_put ::
    "('blob, 'b) cache_host \<Rightarrow> nat \<Rightarrow> string \<Rightarrow> byte list \<Rightarrow> 'b \<Rightarrow> (any_error + unit) \<times> 'b" where
  "node_put H bridge path bs st = js_failed (ch_put H bridge path bs st)"

section \<open>Browser\<close>

definition browser_cache :: "('blob, 'b) cache_host \<Rightarrow> string \<Rightarrow> 'b \<Rightarrow> (any_error + unit) \<times> 'b" where
  "browser_cache H name st =
     (if ch_scope_is_other H then (Inl [''CacheStorage is unavailable in this JavaScript host''], st)
      else bind_st (js_failed (ch_caches H, st)) (\<lambda>u st1. js_failed (ch_open_cache H name st1)))"

definition browser_read_chunk :: nat where
  "browser_read_chunk = 2 ^ 20"

lemma browser_read_chunk_pos: "0 < browser_read_chunk"
  by (simp add: browser_read_chunk_def)

function browser_read ::
    "('blob, 'b) cache_host \<Rightarrow> string \<Rightarrow> 'blob \<Rightarrow> nat \<Rightarrow> byte list \<Rightarrow> 'b \<Rightarrow> (any_error + byte list) \<times> 'b" where
  "browser_read H path blob n bs st =
     (if length bs < n
      then (let end_at = min n (length bs + browser_read_chunk)
            in case ch_slice H blob (length bs) end_at st of
                 (Inl e, st1) \<Rightarrow> (Inl [e], st1)
               | (Inr chunk, st1) \<Rightarrow>
                   if length chunk \<noteq> end_at - length bs then (Inl (changed_size path), st1)
                   else browser_read H path blob n (bs @ chunk) st1)
      else (Inr bs, st))"
  by pat_completeness auto
termination
  by (relation "measure (\<lambda>(H, path, blob, n, bs, st). n - length bs)")
    (use browser_read_chunk_pos in \<open>auto simp: Let_def\<close>)

declare browser_read.simps [simp del]

definition browser_get ::
    "('blob, 'b) cache_host \<Rightarrow> string \<Rightarrow> string \<Rightarrow> 'b \<Rightarrow> (any_error + byte list option) \<times> 'b" where
  "browser_get H name path st = bind_st (browser_cache H name st) (\<lambda>u st1.
     bind_st (js_failed (ch_match H name (cache_key H path) st1)) (\<lambda>found st2. case found of
       None \<Rightarrow> (Inr None, st2)
     | Some blob \<Rightarrow> (case buffer_size H path (ch_blob_size H blob) False of
         Inl e \<Rightarrow> (Inl e, st2)
       | Inr n \<Rightarrow> bind_st (browser_read H path blob n [] st2) (\<lambda>bs st3. (Inr (Some bs), st3)))))"

definition browser_put ::
    "('blob, 'b) cache_host \<Rightarrow> string \<Rightarrow> string \<Rightarrow> byte list \<Rightarrow> 'b \<Rightarrow> (any_error + unit) \<times> 'b" where
  "browser_put H name path bs st = bind_st (browser_cache H name st) (\<lambda>u st1.
     js_failed (ch_cache_put H name (cache_key H path) bs st1))"

definition browser_remove ::
    "('blob, 'b) cache_host \<Rightarrow> string \<Rightarrow> string \<Rightarrow> 'b \<Rightarrow> (any_error + unit) \<times> 'b" where
  "browser_remove H name path st = bind_st (browser_cache H name st) (\<lambda>u st1.
     js_failed (ch_cache_delete H name (cache_key H path) st1))"

section \<open>The cache\<close>

fun get_path ::
    "('blob, 'b) cache_host \<Rightarrow> host_package_cache \<Rightarrow> string \<Rightarrow> 'b \<Rightarrow> (any_error + byte list option) \<times> 'b" where
  "get_path H (BrowserCache name read_only) path st = browser_get H name path st"
| "get_path H (NodeCache bridge) path st = node_get H bridge path st"

fun put_path ::
    "('blob, 'b) cache_host \<Rightarrow> host_package_cache \<Rightarrow> string \<Rightarrow> byte list \<Rightarrow> 'b \<Rightarrow> (any_error + unit) \<times> 'b" where
  "put_path H (BrowserCache name read_only) path bs st =
     (if read_only then (Inr (), st) else browser_put H name path bs st)"
| "put_path H (NodeCache bridge) path bs st = node_put H bridge path bs st"

fun remove_path ::
    "('blob, 'b) cache_host \<Rightarrow> host_package_cache \<Rightarrow> string \<Rightarrow> 'b \<Rightarrow> (any_error + unit) \<times> 'b" where
  "remove_path H (BrowserCache name read_only) path st =
     (if read_only then (Inr (), st) else browser_remove H name path st)"
| "remove_path H (NodeCache bridge) path st = js_failed (ch_remove H bridge path st)"

definition query_load ::
    "('blob, 'b) cache_host \<Rightarrow> host_package_cache \<Rightarrow> string \<Rightarrow> 'b \<Rightarrow> (any_error + byte list option) \<times> 'b" where
  "query_load H c name st = get_path H c (registry_path name) st"

definition query_save ::
    "('blob, 'b) cache_host \<Rightarrow> host_package_cache \<Rightarrow> string \<Rightarrow> byte list \<Rightarrow> 'b \<Rightarrow> (any_error + unit) \<times> 'b" where
  "query_save H c name bs st = put_path H c (registry_path name) bs st"

definition query_remove ::
    "('blob, 'b) cache_host \<Rightarrow> host_package_cache \<Rightarrow> string \<Rightarrow> 'b \<Rightarrow> (any_error + unit) \<times> 'b" where
  "query_remove H c name st = remove_path H c (registry_path name) st"

definition package_lookup ::
    "('h, 'c) webc_lib \<Rightarrow> ('blob, 'b) cache_host \<Rightarrow> host_package_cache \<Rightarrow> 'h \<Rightarrow> 'b \<Rightarrow> (any_error + 'c option) \<times> 'b" where
  "package_lookup W H c hash st = bind_st (get_path H c (package_path W hash) st) (\<lambda>found st1. case found of
     None \<Rightarrow> (Inr None, st1)
   | Some bs \<Rightarrow>
       if wl_sha256 W bs \<noteq> hash then (Inr None, snd (remove_path H c (package_path W hash) st1))
       else (map_err (\<lambda>e. ''unable to decode cached WEBC'' # e) (map_ok Some (wl_from_bytes W bs)), st1))"

definition package_save ::
    "('h, 'c) webc_lib \<Rightarrow> ('blob, 'b) cache_host \<Rightarrow> host_package_cache \<Rightarrow> byte list \<Rightarrow> 'h \<Rightarrow> 'b \<Rightarrow>
     (any_error + 'c) \<times> 'b" where
  "package_save W H c bs expected st =
     (if wl_sha256 W bs \<noteq> expected
      then (Inl [''downloaded WEBC hash '' @ wl_hex W (wl_sha256 W bs) @ '' does not match expected hash '' @ wl_hex W expected], st)
      else bind_st (put_path H c (package_path W expected) bs st) (\<lambda>u st1.
        (map_err (\<lambda>e. ''unable to decode downloaded WEBC'' # e) (wl_from_bytes W bs), st1)))"

section \<open>Reading in slices\<close>

lemma map_err_st_fst: "fst (map_err_st g r) = map_err g (fst r)" "snd (map_err_st g r) = snd r"
  by (cases r; cases "fst r"; simp add: map_err_st_def)+

lemma browser_read_slices:
  assumes "browser_read H path blob n bs st = (Inr whole, st1)" "length bs \<le> n"
  shows "length whole = n \<and> (\<exists>rest. whole = bs @ rest)"
  using assms
proof (induction "n - length bs" arbitrary: bs st rule: less_induct)
  case less
  show ?case
  proof (cases "length bs < n")
    case False
    then show ?thesis using less.prems by (simp add: browser_read.simps)
  next
    case True
    define end_at where "end_at = min n (length bs + browser_read_chunk)"
    obtain r st2 where "ch_slice H blob (length bs) end_at st = (r, st2)" by (cases "ch_slice H blob (length bs) end_at st")
    then obtain chunk where c: "length chunk = end_at - length bs"
        "browser_read H path blob n (bs @ chunk) st2 = (Inr whole, st1)"
      using less.prems(1) True
      by (subst (asm) browser_read.simps) (auto simp: Let_def end_at_def split: sum.splits if_splits)
    have "length bs < end_at" "end_at \<le> n" using True browser_read_chunk_pos by (simp_all add: end_at_def)
    then have "length whole = n \<and> (\<exists>rest. whole = (bs @ chunk) @ rest)"
      using c by (intro less.hyps) simp_all
    then show ?thesis by auto
  qed
qed

lemma browser_read_content:
  assumes "\<And>a b st. ch_slice H blob a b st = (Inr (take (b - a) (drop a content)), st)"
    and "bs = take (length bs) content" "length bs \<le> n" "n \<le> length content"
  shows "browser_read H path blob n bs st = (Inr (take n content), st)"
  using assms(2-4)
proof (induction "n - length bs" arbitrary: bs rule: less_induct)
  case less
  show ?case
  proof (cases "length bs < n")
    case False
    then have "length bs = n" using less.prems by simp
    then show ?thesis using less.prems(1) by (simp add: browser_read.simps)
  next
    case True
    define end_at where "end_at = min n (length bs + browser_read_chunk)"
    define chunk where "chunk = take (end_at - length bs) (drop (length bs) content)"
    have lens: "length bs < end_at" "end_at \<le> n" using True browser_read_chunk_pos by (simp_all add: end_at_def)
    then have l: "length chunk = end_at - length bs" using less.prems(3) by (simp add: chunk_def min_absorb2)
    have "take (length bs) content @ chunk = take end_at content"
      using lens(1) by (simp add: chunk_def take_add [symmetric])
    then have b: "bs @ chunk = take end_at content" using less.prems(1) by simp
    then have "browser_read H path blob n (bs @ chunk) st = (Inr (take n content), st)"
      using l lens less.prems(3) by (intro less.hyps) simp_all
    then show ?thesis
      using True l assms(1) [of "length bs" end_at st]
      by (subst browser_read.simps) (simp add: Let_def end_at_def [symmetric] chunk_def [symmetric] del: length_take length_drop)
  qed
qed

lemma buffer_size_le: "buffer_size H path sz w = Inr n \<Longrightarrow> n \<le> u32_max"
  by (auto simp: buffer_size_def in_u32_range_def split: option.splits sum.splits if_splits js_number.splits)

lemma browser_get_size:
  assumes "browser_get H name path st = (Inr (Some bs), st1)"
  shows "length bs \<le> u32_max"
proof -
  obtain found st2 where "(case found of None \<Rightarrow> (Inr None, st2)
     | Some blob \<Rightarrow> (case buffer_size H path (ch_blob_size H blob) False of
         Inl e \<Rightarrow> (Inl e, st2)
       | Inr n \<Rightarrow> bind_st (browser_read H path blob n [] st2) (\<lambda>bs st3. (Inr (Some bs), st3)))) = (Inr (Some bs), st1)"
    using assms unfolding browser_get_def bind_st_Inr by blast
  then obtain blob n where "buffer_size H path (ch_blob_size H blob) False = Inr n"
      "browser_read H path blob n [] st2 = (Inr bs, st1)"
    by (auto simp: bind_st_Inr split: option.split_asm sum.split_asm)
  then show ?thesis using buffer_size_le browser_read_slices by fastforce
qed

section \<open>The names of entries\<close>

lemma registry_path_eq_iff:
  "registry_path a = registry_path b \<longleftrightarrow>
   map (\<lambda>c. if c \<in> {CHR ''/'', CHR 0x5C} then CHR ''#'' else c) a = map (\<lambda>c. if c \<in> {CHR ''/'', CHR 0x5C} then CHR ''#'' else c) b"
proof -
  have "registry_path x = ''cache-v1/registry/'' @ map (\<lambda>c. if c \<in> {CHR ''/'', CHR 0x5C} then CHR ''#'' else c) x" for x
    by (simp add: registry_path_def)
  then show ?thesis by simp
qed

lemma registry_path_identifies:
  assumes "registry_path a = registry_path b" "CHR ''#'' \<notin> set a \<union> set b" "CHR 0x5C \<notin> set a \<union> set b"
  shows "a = b"
proof -
  let ?f = "\<lambda>c. if c \<in> {CHR ''/'', CHR 0x5C} then CHR ''#'' else c"
  have "inj_on ?f (set a \<union> set b)" using assms(2,3) by (auto simp: inj_on_def split: if_splits)
  then show ?thesis using assms(1) by (auto simp only: registry_path_eq_iff dest: map_inj_on)
qed

lemma paths_disjoint: "registry_path name \<noteq> package_path W hash"
  by (simp add: registry_path_def package_path_def)

section \<open>Cached packages\<close>

text \<open>C37: Whatever the host stores or changes, a package the cache hands out is the decoding of bytes whose
  SHA-256 is the hash that was asked for: a found entry with another hash is dropped and reported as
  missing, not as an error. Saving is refused, and nothing written, when the downloaded bytes have
  another hash than the registry announced. Saving to a read-only browser cache writes nothing.\<close>

theorem cached_packages_verified:
  assumes "package_lookup W H c hash st = (found, st1)" "package_save W H c bs expected st = (saved, st2)"
  shows "(\<forall>pkg. found = Inr (Some pkg) \<longrightarrow>
       (\<exists>content. get_path H c (package_path W hash) st = (Inr (Some content), st1) \<and>
          wl_sha256 W content = hash \<and> wl_from_bytes W content = Inr pkg)) \<and>
    (\<forall>content st'. get_path H c (package_path W hash) st = (Inr (Some content), st') \<and> wl_sha256 W content \<noteq> hash \<longrightarrow>
       found = Inr None \<and> st1 = snd (remove_path H c (package_path W hash) st')) \<and>
    (\<forall>pkg. saved = Inr pkg \<longrightarrow> wl_sha256 W bs = expected \<and> wl_from_bytes W bs = Inr pkg) \<and>
    (wl_sha256 W bs \<noteq> expected \<longrightarrow> \<not> is_ok saved \<and> st2 = st) \<and>
    (\<forall>name. c = BrowserCache name True \<longrightarrow> st2 = st)"
proof -
  have "\<exists>content. get_path H c (package_path W hash) st = (Inr (Some content), st1) \<and>
      wl_sha256 W content = hash \<and> wl_from_bytes W content = Inr pkg" if "found = Inr (Some pkg)" for pkg
    using assms(1) that
    by (auto simp: package_lookup_def bind_st_Inr map_ok_Inr_iff split: option.split_asm if_split_asm)
  moreover have "found = Inr None \<and> st1 = snd (remove_path H c (package_path W hash) st')"
    if "get_path H c (package_path W hash) st = (Inr (Some content), st')" "wl_sha256 W content \<noteq> hash" for content st'
    using assms(1) that by (simp add: package_lookup_def)
  moreover have "wl_sha256 W bs = expected \<and> wl_from_bytes W bs = Inr pkg" if "saved = Inr pkg" for pkg
    using assms(2) that by (auto simp: package_save_def bind_st_Inr split: if_split_asm)
  moreover have "\<not> is_ok saved \<and> st2 = st" if "wl_sha256 W bs \<noteq> expected"
    using assms(2) that by (auto simp: package_save_def)
  moreover have "st2 = st" if "c = BrowserCache name True" for name
    using assms(2) that by (auto simp: package_save_def split: if_split_asm)
  ultimately show ?thesis by blast
qed

text \<open>A host that keeps a file under each path; \<open>view\<close> is what it holds.\<close>

definition node_store :: "('blob, 'b) cache_host \<Rightarrow> nat \<Rightarrow> ('b \<Rightarrow> string \<Rightarrow> byte list option) \<Rightarrow> bool" where
  "node_store H bridge view \<longleftrightarrow>
     (\<forall>n \<le> u32_max. ch_reserve H n = Inr ()) \<and>
     (\<forall>path bs st. \<exists>st1. ch_put H bridge path bs st = (Inr (), st1) \<and> view st1 = (view st)(path := Some bs)) \<and>
     (\<forall>path st. view st path = None \<longrightarrow> (\<exists>st1. ch_open H bridge path st = (Inr None, st1) \<and> view st1 = view st)) \<and>
     (\<forall>path st bs. view st path = Some bs \<longrightarrow> (\<exists>h st1 st2. h \<le> u32_max \<and>
        ch_open H bridge path st = (Inr (Some \<lparr>op_handle = Inr (Some (JN_Finite (int h) False)),
          op_size = Inr (Some (JN_Finite (int (length bs)) False))\<rparr>), st1) \<and> view st1 = view st \<and>
        ch_read_into H bridge h (length bs) st1 = (Inr (Some (JN_Finite (int (length bs)) False), bs), st2) \<and>
        view st2 = view st))"

lemma node_get_stored:
  assumes "node_store H bridge view" "view st path = Some bs" "length bs \<le> u32_max"
  shows "\<exists>st1. node_get H bridge path st = (Inr (Some bs), st1) \<and> view st1 = view st"
proof -
  obtain h st1 st2 where h: "h \<le> u32_max"
      "ch_open H bridge path st = (Inr (Some \<lparr>op_handle = Inr (Some (JN_Finite (int h) False)),
          op_size = Inr (Some (JN_Finite (int (length bs)) False))\<rparr>), st1)"
      "ch_read_into H bridge h (length bs) st1 = (Inr (Some (JN_Finite (int (length bs)) False), bs), st2)"
      "view st2 = view st"
    using assms(1,2) unfolding node_store_def by blast
  have r: "ch_reserve H (length bs) = Inr ()" using assms(1,3) unfolding node_store_def by blast
  show ?thesis
    using h(1,4) r assms(3)
    by (auto simp: node_get_def js_failed_def h(2,3) number_field_def buffer_size_def in_u32_range_def
        is_fractional_def js_as_u32_def min_absorb1)
qed

lemma node_get_missing:
  assumes "node_store H bridge view" "view st path = None"
  shows "\<exists>st1. node_get H bridge path st = (Inr None, st1) \<and> view st1 = view st"
proof -
  obtain st1 where "ch_open H bridge path st = (Inr None, st1)" "view st1 = view st"
    using assms unfolding node_store_def by blast
  then show ?thesis by (simp add: node_get_def js_failed_def)
qed

lemma node_store_put:
  assumes "node_store H bridge view"
  shows "\<exists>st1. put_path H (NodeCache bridge) path bs st = (Inr (), st1) \<and> view st1 = (view st)(path := Some bs)"
proof -
  obtain st1 where "ch_put H bridge path bs st = (Inr (), st1)" "view st1 = (view st)(path := Some bs)"
    using assms unfolding node_store_def by blast
  then show ?thesis by (simp add: node_put_def js_failed_def)
qed

text \<open>On a host that stores files, what was saved is found: after a package was saved a lookup of its
  hash gives the package, and after a registry answer was saved a load of its name gives its bytes; nothing
  else in the store changes, so in particular packages and registry answers never replace each
  other.\<close>

theorem saved_entries_found:
  assumes "node_store H bridge view" "wl_sha256 W bs = hash" "wl_from_bytes W bs = Inr pkg" "length bs \<le> u32_max"
  shows "\<exists>st1. package_save W H (NodeCache bridge) bs hash st = (Inr pkg, st1) \<and>
      fst (package_lookup W H (NodeCache bridge) hash st1) = Inr (Some pkg) \<and>
      (\<exists>st2. query_save H (NodeCache bridge) name bs st1 = (Inr (), st2) \<and>
         fst (query_load H (NodeCache bridge) name st2) = Inr (Some bs) \<and>
         fst (package_lookup W H (NodeCache bridge) hash st2) = Inr (Some pkg) \<and>
         (\<forall>path. path \<noteq> package_path W hash \<and> path \<noteq> registry_path name \<longrightarrow> view st2 path = view st path))"
proof -
  let ?c = "NodeCache bridge"
  have found: "fst (package_lookup W H ?c hash st') = Inr (Some pkg)" if "view st' (package_path W hash) = Some bs" for st'
    using node_get_stored [OF assms(1) that assms(4)] assms(2,3) by (auto simp: package_lookup_def)
  obtain st1 where st1: "put_path H ?c (package_path W hash) bs st = (Inr (), st1)"
      "view st1 = (view st)(package_path W hash := Some bs)"
    using node_store_put [OF assms(1)] by blast
  obtain st2 where st2: "put_path H ?c (registry_path name) bs st1 = (Inr (), st2)"
      "view st2 = (view st1)(registry_path name := Some bs)"
    using node_store_put [OF assms(1)] by blast
  have "package_save W H ?c bs hash st = (Inr pkg, st1)"
    using assms(2,3) st1(1) by (simp add: package_save_def)
  moreover have "fst (package_lookup W H ?c hash st1) = Inr (Some pkg)" by (rule found) (simp add: st1(2))
  moreover have "query_save H ?c name bs st1 = (Inr (), st2)" using st2(1) by (simp add: query_save_def)
  moreover have "fst (query_load H ?c name st2) = Inr (Some bs)"
    using node_get_stored [OF assms(1) _ assms(4), of st2 "registry_path name"] by (auto simp: query_load_def st2(2))
  moreover have "fst (package_lookup W H ?c hash st2) = Inr (Some pkg)"
    by (rule found) (simp add: st1(2) st2(2) paths_disjoint [symmetric])
  ultimately show ?thesis using st1(2) st2(2) by fastforce
qed

text \<open>A host for the examples: a map of files and the path opened last.\<close>

definition sample_host :: "(unit, (string \<Rightarrow> byte list option) \<times> string) cache_host" where
  "sample_host = \<lparr>
     ch_open = (\<lambda>b path (files, p). (Inr (map_option (\<lambda>bs. \<lparr>op_handle = Inr (Some (JN_Finite 1 False)),
       op_size = Inr (Some (JN_Finite (int (length bs)) False))\<rparr>) (files path)), (files, path))),
     ch_read_into = (\<lambda>b h n (files, p). (Inr (map_option (\<lambda>bs. JN_Finite (int (length bs)) False) (files p),
       case files p of None \<Rightarrow> [] | Some bs \<Rightarrow> bs), (files, p))),
     ch_close_file = (\<lambda>b h st. st),
     ch_put = (\<lambda>b path bs (files, p). (Inr (), (files(path := Some bs), p))),
     ch_remove = (\<lambda>b path (files, p). (Inr (), (files(path := None), p))),
     ch_reserve = (\<lambda>n. Inr ()), ch_show = (\<lambda>x. ''''), ch_scope_is_other = True, ch_caches = Inl '''',
     ch_open_cache = (\<lambda>name st. (Inl '''', st)), ch_match = (\<lambda>name key st. (Inl '''', st)),
     ch_blob_size = (\<lambda>x. JN_NaN), ch_slice = (\<lambda>x a b st. (Inl '''', st)),
     ch_cache_put = (\<lambda>name key bs st. (Inl '''', st)), ch_cache_delete = (\<lambda>name key st. (Inl '''', st)),
     ch_encode = (\<lambda>s. s)\<rparr>"

definition sample_webc :: "(byte list, nat) webc_lib" where
  "sample_webc = \<lparr>wl_sha256 = (\<lambda>bs. take 1 bs), wl_hex = text_of, wl_from_bytes = (\<lambda>bs. Inr (length bs))\<rparr>"

lemma sample_host_store: "node_store sample_host b fst"
  unfolding node_store_def
proof (intro conjI allI impI)
  fix path bs and st :: "(string \<Rightarrow> byte list option) \<times> string"
  show "\<exists>st1. ch_put sample_host b path bs st = (Inr (), st1) \<and> fst st1 = (fst st)(path := Some bs)"
    by (rule exI [of _ "((fst st)(path := Some bs), snd st)"]) (cases st; simp add: sample_host_def)
  show "\<exists>st1. ch_open sample_host b path st = (Inr None, st1) \<and> fst st1 = fst st" if "fst st path = None"
    by (rule exI [of _ "(fst st, path)"]) (use that in \<open>cases st; simp add: sample_host_def\<close>)
  show "\<exists>h st1 st2. h \<le> u32_max \<and>
      ch_open sample_host b path st = (Inr (Some \<lparr>op_handle = Inr (Some (JN_Finite (int h) False)),
        op_size = Inr (Some (JN_Finite (int (length bs)) False))\<rparr>), st1) \<and> fst st1 = fst st \<and>
      ch_read_into sample_host b h (length bs) st1 = (Inr (Some (JN_Finite (int (length bs)) False), bs), st2) \<and>
      fst st2 = fst st" if "fst st path = Some bs"
    by (rule exI [of _ 1], rule exI [of _ "(fst st, path)"], rule exI [of _ "(fst st, path)"])
      (use that in \<open>cases st; simp add: sample_host_def u32_max_def\<close>)
qed (simp add: sample_host_def)

theorem saved_entries_found_witness:
  "\<exists>st1. package_save sample_webc sample_host (NodeCache 0) [7, 8] [7] (Map.empty, '''') = (Inr 2, st1) \<and>
     fst (package_lookup sample_webc sample_host (NodeCache 0) [7] st1) = Inr (Some 2)"
proof -
  have "wl_sha256 sample_webc [7, 8] = [7]" "wl_from_bytes sample_webc [7, 8] = Inr 2" "length [7::byte, 8] \<le> u32_max"
    by (simp_all add: sample_webc_def u32_max_def)
  from saved_entries_found [OF sample_host_store this, of 0 "(Map.empty, '''')" "''a''"] show ?thesis by blast
qed

theorem cached_packages_verified_witness:
  "fst (package_lookup sample_webc sample_host (NodeCache 0) [7] ([package_path sample_webc [7] \<mapsto> [9]], '''')) = Inr None \<and>
   \<not> is_ok (fst (package_save sample_webc sample_host (NodeCache 0) [9] [7] ([package_path sample_webc [7] \<mapsto> [9]], '''')))"
proof -
  define st where "st = ([package_path sample_webc [7] \<mapsto> [9::byte]], '''' :: string)"
  obtain st' where "get_path sample_host (NodeCache 0) (package_path sample_webc [7]) st = (Inr (Some [9]), st')"
    using node_get_stored [OF sample_host_store, of st "package_path sample_webc [7]" "[9]" 0]
    by (auto simp: u32_max_def st_def)
  moreover have "wl_sha256 sample_webc [9] \<noteq> [7]" by (simp add: sample_webc_def)
  ultimately show ?thesis
    using cached_packages_verified [where W = sample_webc and H = sample_host and c = "NodeCache 0" and hash = "[7]"
        and st = st and bs = "[9]" and expected = "[7]", OF prod.collapse [symmetric] prod.collapse [symmetric]]
    unfolding st_def by blast
qed

section \<open>Cancelled reads\<close>

text \<open>
  One read of a Node cache file. The load may be dropped wherever it waits: for the file to be opened
  or for the host to fill the buffer. Once the host is asked to read it owns the file and writes to
  the buffer until its promise settles; \<open>kl_buffer\<close> says who keeps that memory.
\<close>

datatype load_phase = Opening | Reading | Loaded | Cancelled_Load

datatype buffer_owner = NoBuffer | InBorrow | InTask | WithCaller | Freed

datatype cache_file = NotOpened | FileOpen nat | HostReads nat | FileClosed | NoSuchFile

record cached_load =
  kl_phase :: load_phase
  kl_file :: cache_file
  kl_settled :: bool
  kl_buffer :: buffer_owner

definition load_started :: cached_load where
  "load_started = \<lparr>kl_phase = Opening, kl_file = NotOpened, kl_settled = False, kl_buffer = NoBuffer\<rparr>"

text \<open>\<open>HostBorrow::poll\<close> once the promise has settled, and \<open>HostBorrow::drop\<close>: a task keeps a buffer that was
  not given back.\<close>

definition borrow_ready :: "cached_load \<Rightarrow> cached_load" where
  "borrow_ready L = L\<lparr>kl_buffer := WithCaller, kl_phase := Loaded\<rparr>"

definition borrow_drop :: "cached_load \<Rightarrow> cached_load" where
  "borrow_drop L = (if kl_buffer L = InBorrow then L\<lparr>kl_buffer := InTask\<rparr> else L)"

definition open_file_drop :: "cached_load \<Rightarrow> cached_load" where
  "open_file_drop L = (case kl_file L of FileOpen h \<Rightarrow> L\<lparr>kl_file := FileClosed\<rparr> | _ \<Rightarrow> L)"

inductive load_move :: "cached_load \<Rightarrow> cached_load \<Rightarrow> bool" where
  host_opens: "kl_file L = NotOpened \<Longrightarrow> load_move L (L\<lparr>kl_file := FileOpen h\<rparr>)"
| host_misses: "kl_file L = NotOpened \<Longrightarrow> load_move L (L\<lparr>kl_file := NoSuchFile\<rparr>)"
| answers_missing: "kl_phase L = Opening \<Longrightarrow> kl_file L = NoSuchFile \<Longrightarrow> load_move L (L\<lparr>kl_phase := Loaded\<rparr>)"
| rejects: "kl_phase L = Opening \<Longrightarrow> kl_file L = FileOpen h \<Longrightarrow>
     load_move L (open_file_drop (L\<lparr>kl_phase := Loaded\<rparr>))"
| asks_read: "kl_phase L = Opening \<Longrightarrow> kl_file L = FileOpen h \<Longrightarrow>
     load_move L (L\<lparr>kl_phase := Reading, kl_file := HostReads h, kl_buffer := InBorrow\<rparr>)"
| host_settles: "kl_file L = HostReads h \<Longrightarrow> load_move L (L\<lparr>kl_file := FileClosed, kl_settled := True\<rparr>)"
| completes: "kl_phase L = Reading \<Longrightarrow> kl_settled L \<Longrightarrow> load_move L (borrow_ready L)"
| cancel_opening: "kl_phase L = Opening \<Longrightarrow> load_move L (L\<lparr>kl_phase := Cancelled_Load\<rparr>)"
| cancel_reading: "kl_phase L = Reading \<Longrightarrow> load_move L (borrow_drop (L\<lparr>kl_phase := Cancelled_Load\<rparr>))"
| task_ends: "kl_buffer L = InTask \<Longrightarrow> kl_settled L \<Longrightarrow> load_move L (L\<lparr>kl_buffer := Freed\<rparr>)"
| caller_frees: "kl_buffer L = WithCaller \<Longrightarrow> load_move L (L\<lparr>kl_buffer := Freed\<rparr>)"

inductive_cases load_moveE: "load_move L L'"

definition host_writes :: "cached_load \<Rightarrow> bool" where
  "host_writes L \<longleftrightarrow> (\<exists>h. kl_file L = HostReads h)"

definition load_inv :: "cached_load \<Rightarrow> bool" where
  "load_inv L \<longleftrightarrow>
     (kl_settled L \<longrightarrow> kl_file L = FileClosed) \<and>
     (kl_buffer L = NoBuffer \<longleftrightarrow> \<not> kl_settled L \<and> \<not> host_writes L) \<and>
     (kl_buffer L \<in> {WithCaller, Freed} \<longrightarrow> kl_settled L) \<and>
     (kl_phase L = Opening \<longrightarrow> kl_buffer L = NoBuffer \<and> kl_file L \<noteq> FileClosed) \<and>
     (kl_phase L = Reading \<longrightarrow> kl_buffer L = InBorrow) \<and>
     (kl_phase L \<noteq> Reading \<longrightarrow> kl_buffer L \<noteq> InBorrow) \<and>
     (kl_phase L = Loaded \<longrightarrow> kl_file L \<in> {FileClosed, NoSuchFile})"

interpretation cached_reads: inductive_invariant "\<lambda>L. L = load_started" load_move load_inv
proof
  show "load_inv L" if "L = load_started" for L
    using that by (simp add: load_inv_def load_started_def host_writes_def)
  show "load_inv L'" if "load_inv L" "load_move L L'" for L L'
    using that(2,1) by cases (auto simp: load_inv_def host_writes_def borrow_ready_def borrow_drop_def open_file_drop_def
        split: cache_file.splits)
qed



section \<open>The shared module cache\<close>

text \<open>The concurrent map of crossbeam is a parameter; a stored module is found under its hash and engine.\<close>

type_synonym 'h module_key = "'h \<times> string \<times> string"

record ('h, 'x, 'm) skip_map =
  sm_get :: "'m \<Rightarrow> 'h module_key \<Rightarrow> 'x option"
  sm_contains :: "'m \<Rightarrow> 'h module_key \<Rightarrow> bool"
  sm_insert :: "'h module_key \<Rightarrow> 'x \<Rightarrow> 'm \<Rightarrow> 'm"

record wasm_engine =
  en_deterministic_id :: string
  en_artifact_format :: string

datatype module_cache_error = ModuleNotFound

definition module_cache_key :: "'h \<Rightarrow> wasm_engine \<Rightarrow> 'h module_key" where
  "module_cache_key hash engine = (hash, en_deterministic_id engine, en_artifact_format engine)"

definition module_load :: "('h, 'x, 'm) skip_map \<Rightarrow> 'h \<Rightarrow> wasm_engine \<Rightarrow> 'm \<Rightarrow> module_cache_error + 'x" where
  "module_load M hash engine m = (case sm_get M m (module_cache_key hash engine) of
     None \<Rightarrow> Inl ModuleNotFound | Some x \<Rightarrow> Inr x)"

definition module_contains :: "('h, 'x, 'm) skip_map \<Rightarrow> 'h \<Rightarrow> wasm_engine \<Rightarrow> 'm \<Rightarrow> bool" where
  "module_contains M hash engine m = sm_contains M m (module_cache_key hash engine)"

definition module_save :: "('h, 'x, 'm) skip_map \<Rightarrow> 'h \<Rightarrow> wasm_engine \<Rightarrow> 'x \<Rightarrow> 'm \<Rightarrow> 'm" where
  "module_save M hash engine x m = sm_insert M (module_cache_key hash engine) x m"

definition skip_map_laws :: "('h, 'x, 'm) skip_map \<Rightarrow> bool" where
  "skip_map_laws M \<longleftrightarrow>
     (\<forall>m k. sm_contains M m k \<longleftrightarrow> sm_get M m k \<noteq> None) \<and>
     (\<forall>m k x k'. sm_get M (sm_insert M k x m) k' = (if k' = k then Some x else sm_get M m k'))"

lemma module_load_save:
  assumes "skip_map_laws M"
  shows "module_load M hash' engine' (module_save M hash engine x m) =
      (if hash' = hash \<and> en_deterministic_id engine' = en_deterministic_id engine \<and>
          en_artifact_format engine' = en_artifact_format engine
       then Inr x else module_load M hash' engine' m)"
    and "module_contains M hash engine m \<longleftrightarrow> is_ok (module_load M hash engine m)"
  using assms by (auto simp: skip_map_laws_def module_load_def module_save_def module_contains_def module_cache_key_def
      split: option.split)

end
