(* ===== verification/Host_Filesystem.thy ===== *)
theory Host_Filesystem
  imports Provider_Safety
begin

text \<open>
  The native filesystem of worker-based embedders (js/bindgen/src/host_filesystem.rs): a provider whose
  operations are messages to the host with a mount number and, for files, a file number. Sending a
  message, and the (de)serialisation of its arguments and answer, are parameters, the record
  \<open>host_bridge\<close>. The result is an instance of the provider interface of Provider_Fs, so that what is proved
  of mounted providers applies to it. Reads and writes move at most 64 KiB per message; the last
  section composes them with the adapter's files.
\<close>

section \<open>Calls\<close>

datatype host_arg = ArgText string | ArgFlag bool | ArgNumber nat | ArgBytes "byte list" | ArgNull

text \<open>\<open>Metadata\<close> as it is deserialised: times are decimal texts, or missing.\<close>

record raw_metadata =
  rw_kind :: string
  rw_size :: nat
  rw_accessed :: "string option"
  rw_modified :: "string option"
  rw_created :: "string option"

record ('j, 'b) host_bridge =
  hp_serialize :: "host_arg list \<Rightarrow> string + unit"
  hp_call :: "nat \<Rightarrow> string \<Rightarrow> host_arg list \<Rightarrow> 'b \<Rightarrow> ('j + 'j) \<times> 'b"
  hp_code :: "'j \<Rightarrow> string option"
  hp_debug :: "'j \<Rightarrow> string"
  hp_unit :: "'j \<Rightarrow> string + unit"
  hp_number :: "'j \<Rightarrow> string + nat"
  hp_bytes :: "'j \<Rightarrow> string + byte list"
  hp_metadata :: "'j \<Rightarrow> string + raw_metadata"
  hp_entries :: "'j \<Rightarrow> string + (string \<times> raw_metadata) list"
  hp_custom :: "string \<Rightarrow> string"

definition chunk_bytes :: nat where
  "chunk_bytes = 64 * 1024"

definition host_error :: "('j, 'b) host_bridge \<Rightarrow> string \<Rightarrow> 'j \<Rightarrow> fs_error" where
  "host_error R meth e = (case hp_code R e of
     Some code \<Rightarrow>
       if code = ''ENOENT'' then NotFound
       else if code = ''EEXIST'' then AlreadyExists
       else if code = ''EACCES'' \<or> code = ''EPERM'' \<or> code = ''ELOOP'' then PermissionDenied
       else if code = ''ENOTDIR'' then NotDirectory
       else if code = ''EISDIR'' then NotFile
       else if code = ''ENOTEMPTY'' then DirectoryNotEmpty
       else if code = ''ENOTSUP'' then Unsupported
       else IoFailed (''native '' @ meth @ '': '' @ hp_debug R e)
   | None \<Rightarrow> IoFailed (''native '' @ meth @ '': '' @ hp_debug R e))"

definition host_request ::
    "('j, 'b) host_bridge \<Rightarrow> ('j \<Rightarrow> string + 'r) \<Rightarrow> nat \<Rightarrow> string \<Rightarrow> host_arg list \<Rightarrow> 'b \<Rightarrow> (fs_error + 'r) \<times> 'b" where
  "host_request R decode mount meth args b = (case hp_serialize R args of
     Inl e \<Rightarrow> (Inl (IoFailed e), b)
   | Inr u \<Rightarrow> (case hp_call R mount meth args b of
       (Inl e, b1) \<Rightarrow> (Inl (host_error R meth e), b1)
     | (Inr v, b1) \<Rightarrow> (map_err IoFailed (decode v), b1)))"

section \<open>Metadata\<close>

text \<open>\<open>u64::from_str\<close>.\<close>

fun u64_digits :: "nat \<Rightarrow> string \<Rightarrow> string + nat" where
  "u64_digits acc [] = Inr acc"
| "u64_digits acc (c # cs) =
     (let d = of_char c in
      if d < 48 \<or> 57 < d then Inl ''invalid digit found in string''
      else if u64_max < acc * 10 + (d - 48) then Inl ''number too large to fit in target type''
      else u64_digits (acc * 10 + (d - 48)) cs)"

definition parse_u64 :: "string \<Rightarrow> string + nat" where
  "parse_u64 s = (case s of
     [] \<Rightarrow> Inl ''cannot parse integer from empty string''
   | c # cs \<Rightarrow> if c = CHR ''+'' \<and> cs \<noteq> [] then u64_digits 0 cs else u64_digits 0 s)"

definition nanoseconds :: "('j, 'b) host_bridge \<Rightarrow> string option \<Rightarrow> string + nat" where
  "nanoseconds R t = (case t of None \<Rightarrow> Inr 0 | Some s \<Rightarrow> map_err (hp_custom R) (parse_u64 s))"

definition metadata_of :: "('j, 'b) host_bridge \<Rightarrow> raw_metadata \<Rightarrow> string + file_metadata" where
  "metadata_of R m =
     bind_res (nanoseconds R (rw_accessed m)) (\<lambda>a.
     bind_res (nanoseconds R (rw_modified m)) (\<lambda>w.
     bind_res (nanoseconds R (rw_created m)) (\<lambda>c.
       Inr \<lparr>fm_file_type = (if rw_kind m = ''directory'' then DirectoryFileType else RegularFile),
         fm_len = rw_size m, fm_readonly = False, fm_accessed = a, fm_modified = w, fm_created = c\<rparr>)))"

definition decode_metadata :: "('j, 'b) host_bridge \<Rightarrow> 'j \<Rightarrow> string + file_metadata" where
  "decode_metadata R v = bind_res (hp_metadata R v) (metadata_of R)"

definition decode_entries :: "('j, 'b) host_bridge \<Rightarrow> 'j \<Rightarrow> string + directory_entry list" where
  "decode_entries R v = bind_res (hp_entries R v) (\<lambda>es.
     collect_res (map (\<lambda>(name, m). map_ok (\<lambda>md. \<lparr>de_name = name, de_metadata = md\<rparr>) (metadata_of R m)) es))"

definition time_arg :: "nat option \<Rightarrow> host_arg" where
  "time_arg t = (case t of None \<Rightarrow> ArgNull | Some n \<Rightarrow> ArgText (nat_digits n))"

section \<open>The filesystem\<close>

definition host_stat :: "('j, 'b) host_bridge \<Rightarrow> nat \<Rightarrow> string \<Rightarrow> 'b \<Rightarrow> (fs_error + file_metadata) \<times> 'b" where
  "host_stat R mount name = host_request R (decode_metadata R) mount ''stat'' [ArgText name]"

definition host_read_dir :: "('j, 'b) host_bridge \<Rightarrow> nat \<Rightarrow> string \<Rightarrow> 'b \<Rightarrow> (fs_error + directory_entry list) \<times> 'b" where
  "host_read_dir R mount name = host_request R (decode_entries R) mount ''readDir'' [ArgText name]"

definition host_open :: "('j, 'b) host_bridge \<Rightarrow> nat \<Rightarrow> string \<Rightarrow> open_options \<Rightarrow> 'b \<Rightarrow> (fs_error + nat) \<times> 'b" where
  "host_open R mount name opts = host_request R (hp_number R) mount ''open''
     [ArgText name, ArgFlag (oo_read opts), ArgFlag (oo_write opts), ArgFlag (oo_create opts),
      ArgFlag (oo_create_new opts), ArgFlag (oo_truncate opts), ArgFlag (oo_append opts)]"

definition host_create_dir :: "('j, 'b) host_bridge \<Rightarrow> nat \<Rightarrow> string \<Rightarrow> 'b \<Rightarrow> (fs_error + unit) \<times> 'b" where
  "host_create_dir R mount name = host_request R (hp_unit R) mount ''mkdir'' [ArgText name]"

definition host_remove :: "('j, 'b) host_bridge \<Rightarrow> nat \<Rightarrow> string \<Rightarrow> bool \<Rightarrow> 'b \<Rightarrow> (fs_error + unit) \<times> 'b" where
  "host_remove R mount name recursive b =
     (if recursive then (Inl Unsupported, b)
      else host_request R (hp_unit R) mount ''remove'' [ArgText name] b)"

definition host_rename :: "('j, 'b) host_bridge \<Rightarrow> nat \<Rightarrow> string \<Rightarrow> string \<Rightarrow> 'b \<Rightarrow> (fs_error + unit) \<times> 'b" where
  "host_rename R mount src dst = host_request R (hp_unit R) mount ''rename'' [ArgText src, ArgText dst]"

definition host_flush :: "('j, 'b) host_bridge \<Rightarrow> nat \<Rightarrow> 'b \<Rightarrow> (fs_error + unit) \<times> 'b" where
  "host_flush R mount = host_request R (hp_unit R) mount ''sync'' []"

definition host_set_times ::
    "('j, 'b) host_bridge \<Rightarrow> nat \<Rightarrow> string \<Rightarrow> nat option \<Rightarrow> nat option \<Rightarrow> bool \<Rightarrow> 'b \<Rightarrow> (fs_error + unit) \<times> 'b" where
  "host_set_times R mount name atime mtime follow =
     host_request R (hp_unit R) mount ''setTimes'' [ArgText name, time_arg atime, time_arg mtime]"

section \<open>Files\<close>

definition host_file_metadata :: "('j, 'b) host_bridge \<Rightarrow> nat \<Rightarrow> nat \<Rightarrow> 'b \<Rightarrow> (fs_error + file_metadata) \<times> 'b" where
  "host_file_metadata R mount h = host_request R (decode_metadata R) mount ''fileStat'' [ArgNumber h]"

definition file_set_times ::
    "('j, 'b) host_bridge \<Rightarrow> nat \<Rightarrow> nat \<Rightarrow> nat option \<Rightarrow> nat option \<Rightarrow> 'b \<Rightarrow> (fs_error + unit) \<times> 'b" where
  "file_set_times R mount h atime mtime =
     host_request R (hp_unit R) mount ''setFileTimes'' [ArgNumber h, time_arg atime, time_arg mtime]"

definition file_read_at :: "('j, 'b) host_bridge \<Rightarrow> nat \<Rightarrow> nat \<Rightarrow> nat \<Rightarrow> nat \<Rightarrow> 'b \<Rightarrow> (fs_error + byte list) \<times> 'b" where
  "file_read_at R mount h offset len =
     host_request R (hp_bytes R) mount ''read'' [ArgNumber h, ArgNumber offset, ArgNumber (min len chunk_bytes)]"

definition file_write_at :: "('j, 'b) host_bridge \<Rightarrow> nat \<Rightarrow> nat \<Rightarrow> nat \<Rightarrow> byte list \<Rightarrow> 'b \<Rightarrow> (fs_error + nat) \<times> 'b" where
  "file_write_at R mount h offset bs =
     host_request R (hp_number R) mount ''write''
       [ArgNumber h, ArgNumber offset, ArgBytes (take (min (length bs) chunk_bytes) bs)]"

definition file_set_len :: "('j, 'b) host_bridge \<Rightarrow> nat \<Rightarrow> nat \<Rightarrow> nat \<Rightarrow> 'b \<Rightarrow> (fs_error + unit) \<times> 'b" where
  "file_set_len R mount h len = host_request R (hp_unit R) mount ''setLen'' [ArgNumber h, ArgNumber len]"

definition file_flush :: "('j, 'b) host_bridge \<Rightarrow> nat \<Rightarrow> nat \<Rightarrow> 'b \<Rightarrow> (fs_error + unit) \<times> 'b" where
  "file_flush R mount h = host_request R (hp_unit R) mount ''flush'' [ArgNumber h]"

definition file_close :: "('j, 'b) host_bridge \<Rightarrow> nat \<Rightarrow> nat \<Rightarrow> 'b \<Rightarrow> (fs_error + unit) \<times> 'b" where
  "file_close R mount h = host_request R (hp_unit R) mount ''close'' [ArgNumber h]"

definition file_drop :: "('j, 'b) host_bridge \<Rightarrow> nat \<Rightarrow> nat \<Rightarrow> 'b \<Rightarrow> 'b" where
  "file_drop R mount h b = snd (file_close R mount h b)"

text \<open>The provider: \<open>HostFileSystem\<close> with its files \<open>HostFile\<close>, which are their numbers.\<close>

definition host_provider :: "('j, 'b) host_bridge \<Rightarrow> nat \<Rightarrow> ('b, nat) provider" where
  "host_provider R mount = \<lparr>pv_capabilities = (\<lambda>b. capabilities_read_write),
     pv_stat = host_stat R mount, pv_read_dir = host_read_dir R mount, pv_open = host_open R mount,
     pv_create_dir = host_create_dir R mount, pv_remove = host_remove R mount, pv_rename = host_rename R mount,
     pv_flush = host_flush R mount, pv_set_times = host_set_times R mount,
     fl_read_at = file_read_at R mount, fl_write_at = file_write_at R mount, fl_set_len = file_set_len R mount,
     fl_flush = file_flush R mount, fl_close = file_close R mount, fl_metadata = host_file_metadata R mount,
     fl_set_times = file_set_times R mount\<rparr>"

lemma host_provider_sel [simp]:
  "pv_capabilities (host_provider R mount) = (\<lambda>b. capabilities_read_write)"
  "pv_stat (host_provider R mount) = host_stat R mount"
  "pv_read_dir (host_provider R mount) = host_read_dir R mount"
  "fl_read_at (host_provider R mount) = file_read_at R mount"
  "fl_write_at (host_provider R mount) = file_write_at R mount"
  "fl_set_len (host_provider R mount) = file_set_len R mount"
  by (simp_all add: host_provider_def)

section \<open>Long transfers\<close>

text \<open>
  What a guest's libc does with short transfers: it writes and reads again until it is done. A write
  that accepts nothing ends in an error, a read that gives nothing is the end of the file.
\<close>

function write_fully ::
    "('p, 'h) provider \<Rightarrow> (vfs_error \<Rightarrow> io_error) \<Rightarrow> byte list \<Rightarrow> 'h provider_file \<Rightarrow> 'p \<Rightarrow>
     (io_error + unit) \<times> 'h provider_file \<times> 'p" where
  "write_fully V to_io bs f p =
     (if bs = [] then (Inr (), f, p)
      else (case pf_poll_write V to_io bs f p of
        (Inl e, f1, p1) \<Rightarrow> (Inl e, f1, p1)
      | (Inr written, f1, p1) \<Rightarrow>
          if written = 0 then (Inl (Io_Error WriteZero ''''), f1, p1)
          else write_fully V to_io (drop written bs) f1 p1))"
  by pat_completeness auto
termination
  by (relation "measure (\<lambda>(V, to_io, bs, f, p). length bs)") auto

declare write_fully.simps [simp del]

function read_fully ::
    "('p, 'h) provider \<Rightarrow> (vfs_error \<Rightarrow> io_error) \<Rightarrow> nat \<Rightarrow> 'h provider_file \<Rightarrow> 'p \<Rightarrow>
     (io_error + byte list) \<times> 'h provider_file \<times> 'p" where
  "read_fully V to_io n f p =
     (if n = 0 then (Inr [], f, p)
      else (case pf_poll_read V to_io n f p of
        (Inl e, f1, p1) \<Rightarrow> (Inl e, f1, p1)
      | (Inr bs, f1, p1) \<Rightarrow>
          if bs = [] then (Inr [], f1, p1)
          else (case read_fully V to_io (n - length bs) f1 p1 of
            (r, s) \<Rightarrow> (map_ok (\<lambda>more. bs @ more) r, s))))"
  by pat_completeness auto
termination
  by (relation "measure (\<lambda>(V, to_io, n, f, p). n)") auto

declare read_fully.simps [simp del]

text \<open>A host whose file \<open>h\<close> stores bytes: each message of at most a chunk, at an offset that JavaScript can
  represent, is carried out.\<close>

definition max_safe_integer :: nat where
  "max_safe_integer = 2 ^ 53 - 1"

definition host_stores :: "('j, 'b) host_bridge \<Rightarrow> nat \<Rightarrow> nat \<Rightarrow> ('b \<Rightarrow> byte list) \<Rightarrow> bool" where
  "host_stores R mount h body \<longleftrightarrow>
     (\<forall>off n b. off \<le> max_safe_integer \<and> n \<le> chunk_bytes \<longrightarrow> (\<exists>v b1.
        hp_serialize R [ArgNumber h, ArgNumber off, ArgNumber n] = Inr () \<and>
        hp_call R mount ''read'' [ArgNumber h, ArgNumber off, ArgNumber n] b = (Inr v, b1) \<and>
        hp_bytes R v = Inr (take n (drop off (body b))) \<and> body b1 = body b)) \<and>
     (\<forall>off bs b. off \<le> max_safe_integer \<and> length bs \<le> chunk_bytes \<longrightarrow> (\<exists>v b1.
        hp_serialize R [ArgNumber h, ArgNumber off, ArgBytes bs] = Inr () \<and>
        hp_call R mount ''write'' [ArgNumber h, ArgNumber off, ArgBytes bs] b = (Inr v, b1) \<and>
        hp_number R v = Inr (length bs) \<and> body b1 = splice off bs (body b)))"

lemma chunk_bytes_pos: "0 < chunk_bytes"
  by (simp add: chunk_bytes_def)

lemma file_read_at_stored:
  assumes "host_stores R mount h body" "off \<le> max_safe_integer"
  shows "\<exists>b1. file_read_at R mount h off n b = (Inr (take (min n chunk_bytes) (drop off (body b))), b1) \<and> body b1 = body b"
proof -
  have "min n chunk_bytes \<le> chunk_bytes" by simp
  then obtain v b1 where "hp_serialize R [ArgNumber h, ArgNumber off, ArgNumber (min n chunk_bytes)] = Inr ()"
      "hp_call R mount ''read'' [ArgNumber h, ArgNumber off, ArgNumber (min n chunk_bytes)] b = (Inr v, b1)"
      "hp_bytes R v = Inr (take (min n chunk_bytes) (drop off (body b)))" "body b1 = body b"
    using assms unfolding host_stores_def by blast
  then show ?thesis by (simp add: file_read_at_def host_request_def)
qed

lemma file_write_at_stored:
  assumes "host_stores R mount h body" "off \<le> max_safe_integer"
  shows "\<exists>b1. file_write_at R mount h off bs b = (Inr (min (length bs) chunk_bytes), b1) \<and>
      body b1 = splice off (take (min (length bs) chunk_bytes) bs) (body b)"
proof -
  let ?part = "take (min (length bs) chunk_bytes) bs"
  have "length ?part \<le> chunk_bytes" by simp
  then obtain v b1 where *: "hp_serialize R [ArgNumber h, ArgNumber off, ArgBytes ?part] = Inr ()"
      "hp_call R mount ''write'' [ArgNumber h, ArgNumber off, ArgBytes ?part] b = (Inr v, b1)"
      "hp_number R v = Inr (length ?part)" "body b1 = splice off ?part (body b)"
    using assms unfolding host_stores_def by blast
  moreover have "length ?part = min (length bs) chunk_bytes" by simp
  ultimately show ?thesis by (simp add: file_write_at_def host_request_def)
qed

lemma splice_append: "splice (off + length a) b (splice off a body) = splice off (a @ b) body"
proof -
  have "min (length body) off + (off - length body) = off" by simp
  then show ?thesis by (simp add: splice_def min_absorb2 ac_simps)
qed

lemma splice_nil [simp]: "off \<le> length body \<Longrightarrow> splice off [] body = body"
  by (simp add: splice_def)

lemma take_length_take: "take (length (take k xs)) xs = take k xs"
  by (cases "k \<le> length xs") simp_all

lemma host_write_whole:
  assumes "host_stores R mount h body" "bs \<noteq> []" "pf_file f = h" "\<not> pf_closed f" "pf_writable f"
    and "pf_cursor f + length bs \<le> max_safe_integer"
  shows "\<exists>f1 b1. write_fully (host_provider R mount) to_io bs f b = (Inr (), f1, b1) \<and>
        body b1 = splice (pf_cursor f) bs (body b) \<and> pf_cursor f1 = pf_cursor f + length bs"
proof -
  let ?V = "host_provider R mount"
  from assms(2-6)
  show "\<exists>f1 b1. write_fully ?V to_io bs f b = (Inr (), f1, b1) \<and>
        body b1 = splice (pf_cursor f) bs (body b) \<and> pf_cursor f1 = pf_cursor f + length bs"
  proof (induction "length bs" arbitrary: bs f b rule: less_induct)
    case less
    let ?k = "min (length bs) chunk_bytes"
    have k: "0 < ?k" using less.prems(1) chunk_bytes_pos by simp
    obtain b1 where b1: "file_write_at R mount h (pf_cursor f) bs b = (Inr ?k, b1)"
        "body b1 = splice (pf_cursor f) (take ?k bs) (body b)"
      using file_write_at_stored [OF assms(1), of "pf_cursor f" bs b] less.prems(5) by auto
    define f1 where "f1 = f\<lparr>pf_cursor := pf_cursor f + ?k, pf_len := max (pf_len f) (pf_cursor f + ?k)\<rparr>"
    have sat: "u64_saturating_add (pf_cursor f) ?k = pf_cursor f + ?k"
      using less.prems(5) by (simp add: u64_saturating_add_def u64_max_def max_safe_integer_def)
    have step: "pf_poll_write ?V to_io bs f b = (Inr ?k, f1, b1)"
      using less.prems(2-4) b1(1) sat by (simp add: pf_poll_write_def f1_def Let_def)
    show ?case
    proof (cases "drop ?k bs = []")
      case True
      then have "?k = length bs" by auto
      then show ?thesis
        using step k b1(2) less.prems(1) True
        by (subst write_fully.simps) (simp add: f1_def write_fully.simps [of ?V to_io "[]"])
    next
      case False
      have len: "length (take ?k bs) = ?k" by simp
      have "\<exists>f2 b2. write_fully ?V to_io (drop ?k bs) f1 b1 = (Inr (), f2, b2) \<and>
          body b2 = splice (pf_cursor f1) (drop ?k bs) (body b1) \<and> pf_cursor f2 = pf_cursor f1 + length (drop ?k bs)"
        using less.prems k False by (intro less.hyps) (auto simp: f1_def)
      then obtain f2 b2 where rest: "write_fully ?V to_io (drop ?k bs) f1 b1 = (Inr (), f2, b2)"
          "body b2 = splice (pf_cursor f + ?k) (drop ?k bs) (splice (pf_cursor f) (take ?k bs) (body b))"
          "pf_cursor f2 = pf_cursor f + ?k + length (drop ?k bs)"
        by (auto simp: f1_def b1(2))
      have "body b2 = splice (pf_cursor f) bs (body b)"
        using splice_append [of "pf_cursor f" "take ?k bs" "drop ?k bs" "body b"] rest(2) len by simp
      moreover have "write_fully ?V to_io bs f b = (Inr (), f2, b2)"
        using step k rest(1) less.prems(1) by (subst write_fully.simps) simp
      ultimately show ?thesis using rest(3) by simp
    qed
  qed
qed

lemma host_read_whole:
  assumes "host_stores R mount h body" "pf_file f = h" "\<not> pf_closed f" "pf_cursor f + n \<le> max_safe_integer"
  shows "\<exists>f1 b1. read_fully (host_provider R mount) to_io n f b = (Inr (take n (drop (pf_cursor f) (body b))), f1, b1) \<and>
        body b1 = body b \<and> pf_cursor f1 = pf_cursor f + length (take n (drop (pf_cursor f) (body b)))"
proof -
  let ?V = "host_provider R mount"
  from assms(2-4)
  show "\<exists>f1 b1. read_fully ?V to_io n f b = (Inr (take n (drop (pf_cursor f) (body b))), f1, b1) \<and>
        body b1 = body b \<and> pf_cursor f1 = pf_cursor f + length (take n (drop (pf_cursor f) (body b)))"
  proof (induction n arbitrary: f b rule: less_induct)
    case (less n)
    show ?case
    proof (cases "n = 0")
      case True
      then show ?thesis by (simp add: read_fully.simps)
    next
      case n: False
      define part where "part = take (min n chunk_bytes) (drop (pf_cursor f) (body b))"
      obtain b1 where b1: "file_read_at R mount h (pf_cursor f) n b = (Inr part, b1)" "body b1 = body b"
        using file_read_at_stored [OF assms(1), of "pf_cursor f" n b] less.prems(3) unfolding part_def by auto
      have len: "length part \<le> n" by (simp add: part_def)
      define f1 where "f1 = f\<lparr>pf_cursor := pf_cursor f + length part\<rparr>"
      have sat: "u64_saturating_add (pf_cursor f) (length part) = pf_cursor f + length part"
        using less.prems(3) len by (simp add: u64_saturating_add_def u64_max_def max_safe_integer_def)
      have step: "pf_poll_read ?V to_io n f b = (Inr part, f1, b1)"
        using less.prems(1,2) b1(1) sat len by (simp add: pf_poll_read_def f1_def Let_def min_absorb1)
      show ?thesis
      proof (cases "part = []")
        case True
        then have "drop (pf_cursor f) (body b) = []" using n chunk_bytes_pos by (auto simp: part_def)
        then show ?thesis using step n b1(2) True by (subst read_fully.simps) (simp add: f1_def)
      next
        case False
        let ?rest = "drop (pf_cursor f1) (body b1)"
        have "\<exists>f2 b2. read_fully ?V to_io (n - length part) f1 b1 =
            (Inr (take (n - length part) ?rest), f2, b2) \<and> body b2 = body b1 \<and>
            pf_cursor f2 = pf_cursor f1 + length (take (n - length part) ?rest)"
          using less.prems len n False by (intro less.IH) (auto simp: f1_def)
        then obtain f2 b2 where rest: "read_fully ?V to_io (n - length part) f1 b1 =
            (Inr (take (n - length part) ?rest), f2, b2)" "body b2 = body b1"
            "pf_cursor f2 = pf_cursor f1 + length (take (n - length part) ?rest)" by blast
        have part': "part = take (length part) (drop (pf_cursor f) (body b))"
          unfolding part_def by (rule take_length_take [symmetric])
        have "?rest = drop (length part) (drop (pf_cursor f) (body b))" by (simp add: f1_def b1(2) add.commute)
        then have whole: "part @ take (n - length part) ?rest = take n (drop (pf_cursor f) (body b))"
          using part' len by (metis le_add_diff_inverse take_add)
        have "read_fully ?V to_io n f b = (Inr (take n (drop (pf_cursor f) (body b))), f2, b2)"
          using step n False rest(1) whole by (subst read_fully.simps) simp
        moreover have "pf_cursor f2 = pf_cursor f + length (take n (drop (pf_cursor f) (body b)))"
          using rest(3) arg_cong [OF whole, of length] by (simp add: f1_def)
        ultimately show ?thesis using rest(2) b1(2) by simp
      qed
    qed
  qed
qed


text \<open>A host with one file.\<close>

definition sample_host_bridge :: "(byte list + nat, byte list) host_bridge" where
  "sample_host_bridge = \<lparr>hp_serialize = (\<lambda>args. Inr ()),
     hp_call = (\<lambda>mount meth args b. (case args of
        [ArgNumber h, ArgNumber off, ArgNumber n] \<Rightarrow> (Inr (Inl (take n (drop off b))), b)
      | [ArgNumber h, ArgNumber off, ArgBytes bs] \<Rightarrow> (Inr (Inr (length bs)), splice off bs b)
      | _ \<Rightarrow> (Inl (Inr 0), b))),
     hp_code = (\<lambda>v. Some ''ENOTSUP''), hp_debug = (\<lambda>v. ''''), hp_unit = (\<lambda>v. Inr ()),
     hp_number = (\<lambda>v. case v of Inr n \<Rightarrow> Inr n | Inl bs \<Rightarrow> Inl ''''), hp_bytes = (\<lambda>v. case v of Inl bs \<Rightarrow> Inr bs | Inr n \<Rightarrow> Inl ''''),
     hp_metadata = (\<lambda>v. Inl ''''), hp_entries = (\<lambda>v. Inl ''''), hp_custom = (\<lambda>e. e)\<rparr>"


section \<open>Times\<close>

lemma u64_digits_append: "u64_digits acc (xs @ ys) = bind_res (u64_digits acc xs) (\<lambda>a. u64_digits a ys)"
  by (induction xs arbitrary: acc) (auto simp: Let_def)

text \<open>The texts in which times travel, which may exceed what a JavaScript number holds, are exact.\<close>

lemma u64_digits_nat_digits: "n \<le> u64_max \<Longrightarrow> u64_digits 0 (nat_digits n) = Inr n"
proof (induction n rule: nat_digits.induct)
  case (1 n)
  have d: "of_char (char_of (48 + n mod 10)) = (48 + n mod 10 :: nat)" by (simp add: of_char_of)
  show ?case
  proof (cases "n < 10")
    case True
    then show ?thesis using 1(2) by (subst nat_digits.simps) (simp add: Let_def of_char_of)
  next
    case False
    then have "u64_digits 0 (nat_digits (n div 10)) = Inr (n div 10)" using 1 by simp
    then show ?thesis using False 1(2) d by (subst nat_digits.simps) (simp add: u64_digits_append Let_def)
  qed
qed

lemma nat_digits_chars: "nat_digits n \<noteq> [] \<and> (\<forall>c \<in> set (nat_digits n). 48 \<le> (of_char c :: nat))"
proof (induction n rule: nat_digits.induct)
  case (1 n)
  show ?case
  proof (cases "n < 10")
    case True
    then show ?thesis by (subst (1 2) nat_digits.simps) (simp add: of_char_of)
  next
    case False
    then show ?thesis using 1 by (subst (1 2) nat_digits.simps) (auto simp: of_char_of)
  qed
qed

lemma times_exact:
  assumes "n \<le> u64_max"
  shows "nanoseconds R (case time_arg (Some n) of ArgText s \<Rightarrow> Some s | _ \<Rightarrow> None) = Inr n"
proof -
  have "hd (nat_digits n) \<noteq> CHR ''+'' \<and> nat_digits n \<noteq> []"
    using nat_digits_chars [of n] by (cases "nat_digits n") auto
  then show ?thesis
    using u64_digits_nat_digits [OF assms]
    by (cases "nat_digits n") (auto simp: nanoseconds_def time_arg_def parse_u64_def)
qed

end
