(* ===== verification/Js_Facade.thy ===== *)
theory Js_Facade
  imports Client Command Browser_Net Package_Cache
begin

text \<open>
  The JavaScript facade (js/bindgen/src/lib.rs): checked numeric arguments, errors with a code, the
  creation of a client, and the builder, sandbox, command and process objects that JavaScript holds
  and consumes. Networks are the numbers of Browser_Net, native mounts those of Host_Filesystem. The
  http crate's request builder and the deserialisation of JavaScript values are parameters;
  \<open>usize\<close> has 32 bits.
\<close>

section \<open>Errors\<close>

text \<open>A JavaScript error named \<open>WasmerError\<close> with its code and message.\<close>

datatype js_failure = JsFailure (failure_code: string) (failure_message: string)

definition custom_error :: "string \<Rightarrow> string \<Rightarrow> js_failure" where
  "custom_error code message = JsFailure code message"

definition plain_failure :: "string \<Rightarrow> js_failure" where
  "plain_failure message = custom_error ''TARGET_ERROR'' message"

definition sdk_failure :: "(string list \<Rightarrow> string) \<Rightarrow> sdk_error \<Rightarrow> js_failure" where
  "sdk_failure dbg e = custom_error (error_code e) (error_text dbg e)"

section \<open>Numeric arguments\<close>

definition max_safe_integer :: nat where
  "max_safe_integer = 9007199254740991"

definition max_wasm32_size :: nat where
  "max_wasm32_size = u32_max"

definition invalid_numeric_argument :: "string \<Rightarrow> nat \<Rightarrow> nat \<Rightarrow> js_failure" where
  "invalid_numeric_argument name lo hi = custom_error ''INVALID_ARGUMENT''
     (''`'' @ name @ ''` must be an integer between '' @ nat_digits lo @ '' and '' @ nat_digits hi @ '', inclusive'')"

definition validate_integer :: "string \<Rightarrow> js_number \<Rightarrow> nat \<Rightarrow> nat \<Rightarrow> js_failure + nat" where
  "validate_integer name x lo hi = (case x of
     JN_Finite i frac \<Rightarrow>
       if frac \<or> i < int lo \<or> int hi < i then Inl (invalid_numeric_argument name lo hi) else Inr (nat i)
   | _ \<Rightarrow> Inl (invalid_numeric_argument name lo hi))"

definition validate_usize :: "string \<Rightarrow> js_number \<Rightarrow> nat \<Rightarrow> js_failure + nat" where
  "validate_usize name x lo = bind_res (validate_integer name x lo max_wasm32_size) (\<lambda>n.
     if n \<le> wasm_usize_max then Inr n else Inl (invalid_numeric_argument name lo max_wasm32_size))"

text \<open>In milliseconds.\<close>

definition validate_duration :: "string \<Rightarrow> js_number \<Rightarrow> js_failure + nat" where
  "validate_duration name x = validate_integer name x 0 max_safe_integer"

definition validate_port :: "js_number \<Rightarrow> js_failure + nat" where
  "validate_port x = map_ok (\<lambda>n. n mod 2 ^ 16) (validate_integer ''port'' x 1 u16_max)"

lemma validate_integer_Inr:
  "validate_integer name x lo hi = Inr n \<longleftrightarrow> x = JN_Finite (int n) False \<and> lo \<le> n \<and> n \<le> hi"
  by (cases x) (auto simp: validate_integer_def)

lemma validate_usize_Inr:
  "validate_usize name x lo = Inr n \<longleftrightarrow> x = JN_Finite (int n) False \<and> lo \<le> n \<and> n \<le> u32_max"
  by (auto simp: validate_usize_def bind_res_Inr_iff validate_integer_Inr max_wasm32_size_def u32_max_def wasm_usize_max_def)

lemma validate_port_Inr:
  "validate_port x = Inr n \<longleftrightarrow> x = JN_Finite (int n) False \<and> 1 \<le> n \<and> n \<le> u16_max"
  by (auto simp: validate_port_def map_ok_Inr_iff validate_integer_Inr u16_max_def)

section \<open>Clients\<close>

record cache_options =
  co_mode :: "string option"
  co_namespace :: "string option"
  co_read_only :: "bool option"

record client_options =
  cl_output_bytes :: "js_number option"
  cl_parallelism :: "js_number option"
  cl_cache :: "cache_options option"

definition no_options :: client_options where
  "no_options = \<lparr>cl_output_bytes = None, cl_parallelism = None, cl_cache = None\<rparr>"

definition validate_optional :: "string \<Rightarrow> js_number option \<Rightarrow> nat \<Rightarrow> js_failure + nat option" where
  "validate_optional name x lo = (case x of None \<Rightarrow> Inr None | Some v \<Rightarrow> map_ok Some (validate_usize name v lo))"

definition choose_cache :: "nat option \<Rightarrow> cache_options option \<Rightarrow> js_failure + host_package_cache option" where
  "choose_cache node_cache cache =
     (case (case cache of None \<Rightarrow> None | Some c \<Rightarrow> co_mode c) of
        Some mode \<Rightarrow>
          if mode = ''disabled'' \<or> mode = ''memory'' then Inr None
          else if mode = ''node''
            then (case node_cache of
                None \<Rightarrow> Inl (custom_error ''INITIALIZATION_ERROR'' ''the Node package cache bridge was not provided'')
              | Some bridge \<Rightarrow> Inr (Some (NodeCache bridge)))
          else if mode = ''browser''
            then Inr (Some (browser_package_cache (case cache of None \<Rightarrow> None | Some c \<Rightarrow> co_namespace c)
              (case cache of None \<Rightarrow> False | Some c \<Rightarrow> co_read_only c = Some True)))
          else Inl (custom_error ''INVALID_ARGUMENT'' (''unsupported cache mode `'' @ mode @ ''`''))
      | None \<Rightarrow> Inr (Some (browser_package_cache (case cache of None \<Rightarrow> None | Some c \<Rightarrow> co_namespace c)
          (case cache of None \<Rightarrow> False | Some c \<Rightarrow> co_read_only c = Some True))))"

record 'b js_wasmer =
  jw_inner :: "'b client"
  jw_parallelism :: "nat option"
  jw_node_network :: "nat option"
  jw_cache :: "host_package_cache option"

text \<open>\<open>deserialized\<close> is what the options' deserialisation gives when they are neither null nor undefined.\<close>

definition js_create ::
    "(string list \<Rightarrow> string) \<Rightarrow> host_ops \<Rightarrow> (string + client_options) option \<Rightarrow> nat option \<Rightarrow> nat option \<Rightarrow>
     js_failure + 'b js_wasmer" where
  "js_create dbg H deserialized node_network node_cache =
     bind_res (case deserialized of None \<Rightarrow> Inr no_options | Some r \<Rightarrow> map_err plain_failure r) (\<lambda>options.
     bind_res (validate_optional ''parallelism'' (cl_parallelism options) 1) (\<lambda>parallelism.
     bind_res (validate_optional ''outputBytes'' (cl_output_bytes options) 0) (\<lambda>bytes.
     bind_res (choose_cache node_cache (cl_cache options)) (\<lambda>cache.
     bind_res (map_err (sdk_failure dbg) (from_js_runtime H (config_default\<lparr>cfg_output_bytes :=
         of_nat (case bytes of None \<Rightarrow> 16 * 1024 * 1024 | Some n \<Rightarrow> n)\<rparr>))) (\<lambda>inner.
       Inr \<lparr>jw_inner = inner, jw_parallelism = parallelism, jw_node_network = node_network, jw_cache = cache\<rparr>)))))"

definition js_shutdown ::
    "(string + unit) \<Rightarrow> nat \<Rightarrow> 'b js_wasmer \<Rightarrow> net_world \<Rightarrow> (js_failure + unit) \<times> 'b js_wasmer \<times> net_world" where
  "js_shutdown workers g c w =
     (map_err (custom_error ''WORKER_FAILED'') workers, c\<lparr>jw_inner := client_shutdown (jw_inner c)\<rparr>, close_group g w)"

definition js_has_command :: "('b, 'i) binary_ops \<Rightarrow> 'b package \<Rightarrow> string \<Rightarrow> bool" where
  "js_has_command B p name \<longleftrightarrow> is_ok (package_command_ref B p name)"

section \<open>The sandbox builder\<close>

text \<open>
  The builder is taken out for every change and put back, so an operation that fails in between has
  consumed it. \<open>jb_http\<close> is the network whose request handler the builder keeps; a network that is
  replaced loses its last owner.
\<close>

record 'b js_builder =
  jb_inner :: "('b, nat, nat) sandbox_builder option"
  jb_http :: "nat option"

definition js_builder_new :: "'b js_builder" where
  "js_builder_new = \<lparr>jb_inner = Some builder_new, jb_http = None\<rparr>"

definition builder_consumed :: js_failure where
  "builder_consumed = custom_error ''TARGET_ERROR'' ''sandbox builder was already consumed''"

definition jb_take :: "'b js_builder \<Rightarrow> (js_failure + ('b, nat, nat) sandbox_builder) \<times> 'b js_builder" where
  "jb_take b = (case jb_inner b of
     None \<Rightarrow> (Inl builder_consumed, b)
   | Some inner \<Rightarrow> (Inr inner, b\<lparr>jb_inner := None\<rparr>))"

definition jb_change ::
    "(('b, nat, nat) sandbox_builder \<Rightarrow> ('b, nat, nat) sandbox_builder) \<Rightarrow> 'b js_builder \<Rightarrow> (js_failure + unit) \<times> 'b js_builder" where
  "jb_change f b = bind_st (jb_take b) (\<lambda>inner b1. (Inr (), b1\<lparr>jb_inner := Some (f inner)\<rparr>))"

definition jb_package :: "'b package \<Rightarrow> 'b js_builder \<Rightarrow> (js_failure + unit) \<times> 'b js_builder" where
  "jb_package p = jb_change (builder_package (ResolvedSource p))"

definition jb_file :: "string \<Rightarrow> byte list \<Rightarrow> 'b js_builder \<Rightarrow> (js_failure + unit) \<times> 'b js_builder" where
  "jb_file path bs = jb_change (builder_file path bs)"

definition jb_env :: "string \<Rightarrow> string \<Rightarrow> 'b js_builder \<Rightarrow> (js_failure + unit) \<times> 'b js_builder" where
  "jb_env key val = jb_change (builder_env key val)"

definition jb_mount_host :: "string \<Rightarrow> nat \<Rightarrow> bool \<Rightarrow> 'b js_builder \<Rightarrow> (js_failure + unit) \<times> 'b js_builder" where
  "jb_mount_host path mount read_only =
     jb_change (builder_mount path mount (if read_only then ReadOnly else ReadWrite))"

definition jb_storage_host :: "nat \<Rightarrow> 'b js_builder \<Rightarrow> (js_failure + unit) \<times> 'b js_builder" where
  "jb_storage_host mount = jb_change (builder_storage mount)"

definition drop_old :: "nat option \<Rightarrow> net_world \<Rightarrow> net_world" where
  "drop_old old w = (case old of None \<Rightarrow> w | Some n \<Rightarrow> drop_network n w)"

definition jb_provide :: "nat \<Rightarrow> bool \<Rightarrow> ('b, nat, nat) sandbox_builder \<Rightarrow> 'b js_builder \<Rightarrow> net_world \<Rightarrow> 'b js_builder \<times> net_world" where
  "jb_provide g egress inner b w =
     (let (n, w1) = create_network g egress w
      in (b\<lparr>jb_http := Some n, jb_inner := Some (builder_network_provider n inner)\<rparr>, drop_old (jb_http b) w1))"

definition jb_network ::
    "nat \<Rightarrow> string \<Rightarrow> 'b js_builder \<Rightarrow> net_world \<Rightarrow> (js_failure + unit) \<times> 'b js_builder \<times> net_world" where
  "jb_network g mode b w = (case jb_take b of
     (Inl e, b1) \<Rightarrow> (Inl e, b1, w)
   | (Inr inner, b1) \<Rightarrow>
       if mode = ''disabled''
         then (Inr (), b1\<lparr>jb_http := None, jb_inner := Some (builder_network Disabled inner)\<rparr>, drop_old (jb_http b1) w)
       else if mode = ''host''
         then (Inr (), b1\<lparr>jb_http := None, jb_inner := Some (builder_network HostNet inner)\<rparr>, drop_old (jb_http b1) w)
       else if mode = ''http'' then (Inr (), jb_provide g False inner b1 w)
       else (Inl (custom_error ''CAPABILITY_UNAVAILABLE'' (''unsupported network mode `'' @ mode @ ''`'')), b1, w))"

definition jb_network_wisp :: "nat \<Rightarrow> 'b js_builder \<Rightarrow> net_world \<Rightarrow> (js_failure + unit) \<times> 'b js_builder \<times> net_world" where
  "jb_network_wisp g b w = (case jb_take b of
     (Inl e, b1) \<Rightarrow> (Inl e, b1, w)
   | (Inr inner, b1) \<Rightarrow> (Inr (), jb_provide g True inner b1 w))"

definition jb_allow_loopback :: "'b js_builder \<Rightarrow> net_world \<Rightarrow> (js_failure + unit) \<times> net_world" where
  "jb_allow_loopback b w = (case jb_http b of
     None \<Rightarrow> (Inl (custom_error ''CAPABILITY_UNAVAILABLE'' ''loopback egress requires browser WISP networking''), w)
   | Some n \<Rightarrow> map_err_st (\<lambda>e. custom_error ''CAPABILITY_UNAVAILABLE'' ''loopback egress requires live browser WISP networking'')
       (allow_loopback_egress n w))"

definition jb_restrict_peers :: "(network_error \<Rightarrow> string) \<Rightarrow> 'b js_builder \<Rightarrow> net_world \<Rightarrow> (js_failure + unit) \<times> net_world" where
  "jb_restrict_peers show b w = (case jb_http b of
     None \<Rightarrow> (Inl (custom_error ''CAPABILITY_UNAVAILABLE'' ''network peers require browser networking''), w)
   | Some n \<Rightarrow> map_err_st (\<lambda>e. plain_failure (show e)) (restrict_peers n w))"

record ('b, 'w) js_sandbox =
  js_inner :: "('b, nat, nat, 'w) sandbox"
  js_http :: "nat option"

definition jb_add_peer ::
    "(network_error \<Rightarrow> string) \<Rightarrow> ('b, 'w) js_sandbox \<Rightarrow> 'b js_builder \<Rightarrow> net_world \<Rightarrow> (js_failure + unit) \<times> net_world" where
  "jb_add_peer show peer b w = (case jb_http b of
     None \<Rightarrow> (Inl (custom_error ''CAPABILITY_UNAVAILABLE'' ''network peers require browser networking''), w)
   | Some own \<Rightarrow> (case js_http peer of
       None \<Rightarrow> (Inl (custom_error ''CAPABILITY_UNAVAILABLE'' ''the peer requires browser networking''), w)
     | Some other \<Rightarrow> map_err_st (\<lambda>e. plain_failure (show e)) (add_peer own other w)))"

text \<open>\<open>loaded\<close> is the result of loading the builder's packages, \<open>f\<close> the workspace's filesystem.\<close>

definition jb_start ::
    "(string list \<Rightarrow> string) \<Rightarrow> ('b, 'i) binary_ops \<Rightarrow> ('f, 'h) vfs_ops \<Rightarrow> bool \<Rightarrow> sdk_error + 'b package list \<Rightarrow>
     'b js_builder \<Rightarrow> 'f \<Rightarrow> (js_failure + ('b, 'w) js_sandbox) \<times> 'f" where
  "jb_start dbg B X client_closed loaded b f = (case jb_take b of
     (Inl e, b1) \<Rightarrow> (Inl e, f)
   | (Inr inner, b1) \<Rightarrow> (case create_sandbox B X client_closed loaded inner f of
       (r, f1) \<Rightarrow> (map_ok (\<lambda>s. \<lparr>js_inner = s, js_http = jb_http b1\<rparr>) (map_err (sdk_failure dbg) r), f1)))"

text \<open>The calls that configure a builder; a peer is given by its network.\<close>

datatype 'b builder_call = BcPackage "'b package" | BcFile string "byte list" | BcEnv string string
  | BcMount string nat bool | BcStorage nat | BcNetwork string | BcWisp | BcLoopback | BcRestrict

fun apply_call :: "nat \<Rightarrow> 'b builder_call \<Rightarrow> 'b js_builder \<times> net_world \<Rightarrow> (js_failure + unit) \<times> 'b js_builder \<times> net_world" where
  "apply_call g (BcPackage p) (b, w) = (case jb_package p b of (r, b1) \<Rightarrow> (r, b1, w))"
| "apply_call g (BcFile path bs) (b, w) = (case jb_file path bs b of (r, b1) \<Rightarrow> (r, b1, w))"
| "apply_call g (BcEnv key val) (b, w) = (case jb_env key val b of (r, b1) \<Rightarrow> (r, b1, w))"
| "apply_call g (BcMount path mount ro) (b, w) = (case jb_mount_host path mount ro b of (r, b1) \<Rightarrow> (r, b1, w))"
| "apply_call g (BcStorage mount) (b, w) = (case jb_storage_host mount b of (r, b1) \<Rightarrow> (r, b1, w))"
| "apply_call g (BcNetwork mode) (b, w) = jb_network g mode b w"
| "apply_call g BcWisp (b, w) = jb_network_wisp g b w"
| "apply_call g BcLoopback (b, w) = (case jb_allow_loopback b w of (r, w1) \<Rightarrow> (r, b, w1))"
| "apply_call g BcRestrict (b, w) = (case jb_restrict_peers (\<lambda>e. []) b w of (r, w1) \<Rightarrow> (r, b, w1))"

definition builder_calls :: "nat \<Rightarrow> 'b builder_call list \<Rightarrow> net_world \<Rightarrow> 'b js_builder \<times> net_world" where
  "builder_calls g calls w = fold (\<lambda>c s. snd (apply_call g c s)) calls (js_builder_new, w)"

section \<open>What a builder keeps\<close>

definition jb_ok :: "'b js_builder \<times> net_world \<Rightarrow> bool" where
  "jb_ok s \<longleftrightarrow>
     (\<forall>inner. jb_inner (fst s) = Some inner \<longrightarrow> bd_network_provider inner = jb_http (fst s)) \<and>
     (\<forall>n. jb_http (fst s) = Some n \<longrightarrow> n < net_count (snd s) \<and> nw_alive (networks (snd s) n))"

lemma jb_ok_change:
  assumes "jb_ok (b, w)" "\<And>inner. bd_network_provider (f inner) = bd_network_provider inner"
  shows "jb_ok (snd (jb_change f b), w)"
  using assms by (cases "jb_inner b") (auto simp: jb_ok_def jb_change_def jb_take_def)

lemma jb_ok_provide:
  assumes "\<forall>n. jb_http b = Some n \<longrightarrow> n < net_count w"
  shows "jb_ok (jb_provide g egress inner b w)"
  using assms
  by (auto simp: jb_ok_def jb_provide_def Let_def create_network_def drop_old_def drop_network_def update_net_def
      builder_network_provider_def split: option.split)

lemma net_world_same:
  "net_count (snd (allow_loopback_egress n w)) = net_count w"
  "nw_alive (networks (snd (allow_loopback_egress n w)) m) = nw_alive (networks w m)"
  "net_count (snd (restrict_peers n w)) = net_count w"
  "nw_alive (networks (snd (restrict_peers n w)) m) = nw_alive (networks w m)"
  by (simp_all add: allow_loopback_egress_def restrict_peers_def update_net_def)

lemma snd_map_err_st [simp]: "snd (map_err_st f r) = snd r"
  by (cases r; cases "fst r") auto

lemma jb_ok_call:
  assumes "jb_ok (b, w)"
  shows "jb_ok (snd (apply_call g c (b, w)))"
proof (cases c)
  case (BcNetwork mode)
  then show ?thesis using assms
    by (cases "jb_inner b")
      (auto simp: jb_network_def jb_take_def builder_network_def jb_ok_provide jb_ok_def [of "(_, _)"] split: prod.split
        simp del: split_paired_All)
next
  case BcWisp
  then show ?thesis using assms
    by (cases "jb_inner b") (auto simp: jb_network_wisp_def jb_take_def jb_ok_provide jb_ok_def [of "(_, _)"])
next
  case BcLoopback
  then show ?thesis using assms
    by (auto simp: jb_allow_loopback_def jb_ok_def net_world_same split: prod.split option.split
        dest!: arg_cong [of _ _ snd])
next
  case BcRestrict
  then show ?thesis using assms
    by (auto simp: jb_restrict_peers_def jb_ok_def net_world_same split: prod.split option.split
        dest!: arg_cong [of _ _ snd])
qed (use assms in \<open>auto simp: jb_package_def jb_file_def jb_env_def jb_mount_host_def jb_storage_host_def
    builder_package_def builder_file_def builder_env_def builder_mount_def builder_storage_def
    split: prod.split dest!: arg_cong [of _ _ snd] intro!: jb_ok_change\<close>)

lemma create_sandbox_networking:
  "create_sandbox B X shut loaded inner f = (Inr s, f1) \<Longrightarrow> sb_networking s = choose_networking inner"
  by (auto simp: create_sandbox_def bind_st_Inr split: if_split_asm)

definition is_consumed :: "'b js_builder \<times> net_world \<Rightarrow> bool" where
  "is_consumed s \<longleftrightarrow> jb_inner (fst s) = None"

lemma apply_call_consumed:
  assumes "is_consumed s"
  shows "is_consumed (snd (apply_call g c s))"
proof -
  obtain b w where s: "s = (b, w)" by (cases s)
  show ?thesis using assms unfolding s
    by (cases c) (auto simp: is_consumed_def jb_package_def jb_file_def jb_env_def jb_mount_host_def jb_storage_host_def
        jb_change_def jb_take_def jb_network_def jb_network_wisp_def split: prod.split)
qed

interpretation consumed_builder: sticky_flag is_consumed "{snd \<circ> apply_call g c | g c. True}"
proof
  show "is_consumed (f s)" if mem: "f \<in> {snd \<circ> apply_call g c | g c. True}" and used: "is_consumed s" for f and s :: "'a js_builder \<times> net_world"
  proof -
    obtain g c where "f = snd \<circ> apply_call g c" using mem by auto
    then show ?thesis using apply_call_consumed [OF used] by simp
  qed
qed

lemma unknown_mode_consumes:
  assumes "mode \<notin> {''disabled'', ''host'', ''http''}"
  shows "is_consumed (snd (apply_call g (BcNetwork mode) s))"
  using assms by (cases s; cases "jb_inner (fst s)") (auto simp: is_consumed_def jb_network_def jb_take_def)

text \<open>C40: A started sandbox serves its own network: after any calls of the builder, the HTTP handler of
  the sandbox it starts belongs to the network its guests use, which is still alive, and a sandbox
  without browser networking has no handler. A call of the builder with an unknown network mode does not just
  fail: it uses the builder up, so that starting it fails too, as already consumed.\<close>

theorem started_sandbox_serves_its_network:
  assumes "builder_calls g calls w = (b, w1)" "jb_start dbg B X shut loaded b f = (r, f1)"
  shows "(\<forall>s. r = Inr s \<longrightarrow>
      (\<forall>n. js_http s = Some n \<longleftrightarrow> sb_networking (js_inner s) = ProvidedNetwork n) \<and>
      (\<forall>n. js_http s = Some n \<longrightarrow> nw_alive (networks w1 n))) \<and>
    (\<forall>mode. BcNetwork mode \<in> set calls \<and> mode \<notin> {''disabled'', ''host'', ''http''} \<longrightarrow> r = Inl builder_consumed)"
proof -
  have "jb_ok (builder_calls g calls w)"
    unfolding builder_calls_def
  proof (rule fold_invariant_list)
    show "jb_ok (js_builder_new :: 'a js_builder, w)"
      by (simp add: jb_ok_def js_builder_new_def builder_new_def)
    show "jb_ok (snd (apply_call g c s))" if "jb_ok s" for c and s :: "'a js_builder \<times> net_world"
      using that jb_ok_call by (cases s) blast
  qed
  then have ok: "jb_ok (b, w1)" by (simp add: assms(1))
  have "(\<forall>n. js_http s = Some n \<longleftrightarrow> sb_networking (js_inner s) = ProvidedNetwork n) \<and>
      (\<forall>n. js_http s = Some n \<longrightarrow> nw_alive (networks w1 n))" if rs: "r = Inr s" for s
  proof -
    obtain inner sb where i: "jb_inner b = Some inner" "create_sandbox B X shut loaded inner f = (Inr sb, f1)"
        "s = \<lparr>js_inner = sb, js_http = jb_http b\<rparr>"
      using assms(2) rs
      by (auto simp: jb_start_def jb_take_def map_ok_Inr_iff split: option.split_asm prod.split_asm)
    then show ?thesis using ok create_sandbox_networking [OF i(2)]
      by (auto simp: jb_ok_def choose_networking_def split: option.splits network_policy.splits)
  qed
  moreover have "r = Inl builder_consumed"
    if called: "BcNetwork mode \<in> set calls" and mode: "mode \<notin> {''disabled'', ''host'', ''http''}" for mode
  proof -
    obtain before after where calls: "calls = before @ BcNetwork mode # after" using called by (meson split_list)
    define s where "s = snd (apply_call g (BcNetwork mode) (fold (\<lambda>c s. snd (apply_call g c s)) before (js_builder_new :: 'a js_builder, w)))"
    have "is_consumed s" unfolding s_def by (rule unknown_mode_consumes) (rule mode)
    moreover have "fold (\<lambda>f. f) (map (\<lambda>c. snd \<circ> apply_call g c) after) s = builder_calls g calls w"
      by (simp add: builder_calls_def calls s_def fold_map comp_def)
    ultimately have "is_consumed (builder_calls g calls w)"
      using consumed_builder.flag_run [of "map (\<lambda>c. snd \<circ> apply_call g c) after" s] by auto
    then have "jb_inner b = None" by (simp add: assms(1) is_consumed_def)
    then show ?thesis using assms(2) by (simp add: jb_start_def jb_take_def)
  qed
  ultimately show ?thesis by blast
qed

theorem started_sandbox_serves_its_network_witness:
  "\<forall>(B :: (nat, nat) binary_ops) (X :: (unit, unit) vfs_ops) w.
     (\<exists>s :: (nat, unit) js_sandbox. fst (jb_start (\<lambda>ps. []) B X False (Inr []) (fst (builder_calls 0 [BcNetwork ''http''] w)) ()) = Inr s \<and>
        js_http s = Some (net_count w) \<and> sb_networking (js_inner s) = ProvidedNetwork (net_count w)) \<and>
     fst (jb_start (\<lambda>ps. []) B X False (Inr []) (fst (builder_calls 0 [BcNetwork ''tcp'', BcEnv ''a'' ''b''] w)) ()) =
       (Inl builder_consumed :: js_failure + (nat, unit) js_sandbox)"
proof (intro allI conjI)
  fix B :: "(nat, nat) binary_ops" and X :: "(unit, unit) vfs_ops" and w
  define b where "b = fst (builder_calls 0 [BcNetwork ''http'' :: nat builder_call] w)"
  obtain r f1 where r: "jb_start (\<lambda>ps. []) B X False (Inr []) b () = (r :: js_failure + (nat, unit) js_sandbox, f1)"
    by (cases "jb_start (\<lambda>ps. []) B X False (Inr []) b () :: (js_failure + (nat, unit) js_sandbox) \<times> unit")
  have "jb_http b = Some (net_count w)" "jb_inner b = Some (builder_network_provider (net_count w) builder_new)"
    by (simp_all add: b_def builder_calls_def jb_network_def jb_take_def js_builder_new_def jb_provide_def Let_def create_network_def)
  then obtain s where s: "r = Inr s" "js_http s = Some (net_count w)"
    using r by (auto simp: jb_start_def jb_take_def create_sandbox_def builder_network_provider_def builder_new_def)
  then have "sb_networking (js_inner s) = ProvidedNetwork (net_count w)"
    using started_sandbox_serves_its_network [OF _ r, of 0 "[BcNetwork ''http'']" w
        "snd (builder_calls 0 [BcNetwork ''http'' :: nat builder_call] w)"] by (simp add: b_def)
  then show "\<exists>s :: (nat, unit) js_sandbox. fst (jb_start (\<lambda>ps. []) B X False (Inr []) (fst (builder_calls 0 [BcNetwork ''http''] w)) ()) = Inr s \<and>
        js_http s = Some (net_count w) \<and> sb_networking (js_inner s) = ProvidedNetwork (net_count w)"
    using r s by (auto simp: b_def)
next
  fix B :: "(nat, nat) binary_ops" and X :: "(unit, unit) vfs_ops" and w
  let ?calls = "[BcNetwork ''tcp'', BcEnv ''a'' ''b''] :: nat builder_call list"
  obtain r f1 where r: "jb_start (\<lambda>ps. []) B X False (Inr []) (fst (builder_calls 0 ?calls w)) () = (r :: js_failure + (nat, unit) js_sandbox, f1)"
    by (cases "jb_start (\<lambda>ps. []) B X False (Inr []) (fst (builder_calls 0 ?calls w)) () :: (js_failure + (nat, unit) js_sandbox) \<times> unit")
  have "r = Inl builder_consumed"
    using started_sandbox_serves_its_network [OF prod.collapse [symmetric] r] by simp
  then show "fst (jb_start (\<lambda>ps. []) B X False (Inr []) (fst (builder_calls 0 ?calls w)) ()) =
       (Inl builder_consumed :: js_failure + (nat, unit) js_sandbox)"
    using r by simp
qed

section \<open>Sandboxes\<close>

definition js_command_named :: "string \<Rightarrow> 'b command option" where
  "js_command_named name = Some (command_new (NameSel name))"

definition js_command_package :: "'b package \<Rightarrow> 'b command option" where
  "js_command_package p = Some (command_new (PackageSel p))"

definition js_command_ref ::
    "(string list \<Rightarrow> string) \<Rightarrow> ('b, 'i) binary_ops \<Rightarrow> 'b package \<Rightarrow> string \<Rightarrow> js_failure + 'b command option" where
  "js_command_ref dbg B p name =
     map_ok (\<lambda>r. Some (command_new (RefSel r))) (map_err (sdk_failure dbg) (package_command_ref B p name))"

text \<open>\<open>to_f64\<close> rounds a length to a JavaScript number.\<close>

definition stat_parts :: "(nat \<Rightarrow> js_number) \<Rightarrow> file_metadata \<Rightarrow> string \<times> js_number" where
  "stat_parts to_f64 m = ((case fm_file_type m of DirectoryFileType \<Rightarrow> ''directory'' | RegularFile \<Rightarrow> ''file''), to_f64 (fm_len m))"

definition js_read_dir ::
    "(string list \<Rightarrow> string) \<Rightarrow> (nat \<Rightarrow> js_number) \<Rightarrow> sdk_error + directory_entry list \<Rightarrow> js_failure + (string \<times> string \<times> js_number) list" where
  "js_read_dir dbg to_f64 entries =
     map_ok (map (\<lambda>e. (de_name e, stat_parts to_f64 (de_metadata e)))) (map_err (sdk_failure dbg) entries)"

definition js_wait_for_port ::
    "(string list \<Rightarrow> string) \<Rightarrow> js_number \<Rightarrow> js_number \<Rightarrow> ((sdk_error + unit) \<times> (net_error + unit)) list \<Rightarrow> js_failure + unit" where
  "js_wait_for_port dbg port timeout rounds =
     bind_res (validate_port port) (\<lambda>p.
     bind_res (validate_duration ''timeoutMs'' timeout) (\<lambda>t.
       map_err (sdk_failure dbg) (ports_wait p t rounds)))"

definition no_http_networking :: js_failure where
  "no_http_networking = custom_error ''CAPABILITY_UNAVAILABLE'' ''the sandbox was not created with browser HTTP networking''"

definition http_handler :: "('b, 'w) js_sandbox \<Rightarrow> js_failure \<Rightarrow> js_failure + nat" where
  "http_handler s missing = (case js_http s of None \<Rightarrow> Inl missing | Some n \<Rightarrow> Inr n)"

definition js_is_listening ::
    "bool \<Rightarrow> ('b, 'w) js_sandbox \<Rightarrow> js_number \<Rightarrow> net_world \<Rightarrow> (js_failure + bool) \<times> net_world" where
  "js_is_listening contended s port w = (case validate_port port of
     Inl e \<Rightarrow> (Inl e, w)
   | Inr p \<Rightarrow> (case http_handler s no_http_networking of
       Inl e \<Rightarrow> (Inl e, w)
     | Inr n \<Rightarrow> map_prod Inr (\<lambda>x. x) (has_listener contended n p w)))"

definition js_listening_ports ::
    "bool \<Rightarrow> ('b, 'w) js_sandbox \<Rightarrow> net_world \<Rightarrow> (js_failure + nat list option) \<times> net_world" where
  "js_listening_ports contended s w = (case http_handler s no_http_networking of
       Inl e \<Rightarrow> (Inl e, w)
     | Inr n \<Rightarrow> map_prod Inr (\<lambda>x. x) (listening_ports contended n w))"

definition js_connect_tcp ::
    "(network_error \<Rightarrow> string) \<Rightarrow> ((sock_addr \<times> nat) list \<Rightarrow> (sock_addr \<times> nat) list) \<Rightarrow> ('b, 'w) js_sandbox \<Rightarrow>
     js_number \<Rightarrow> net_world \<Rightarrow> (js_failure + connection) \<times> net_world" where
  "js_connect_tcp show order s port w = (case validate_port port of
     Inl e \<Rightarrow> (Inl e, w)
   | Inr p \<Rightarrow> (case http_handler s (custom_error ''CAPABILITY_UNAVAILABLE'' ''the sandbox has no browser ingress network'') of
       Inl e \<Rightarrow> (Inl e, w)
     | Inr n \<Rightarrow> map_err_st (\<lambda>e. plain_failure (show e)) (connect_port order n p w)))"

definition js_close ::
    "'w wasi_ops \<Rightarrow> ('b, 'w) js_sandbox \<Rightarrow> net_world \<Rightarrow> ('b, 'w) js_sandbox \<times> net_world" where
  "js_close P s w = (s\<lparr>js_inner := close_sandbox P True (js_inner s)\<rparr>,
     case js_http s of None \<Rightarrow> w | Some n \<Rightarrow> close_network n w)"

section \<open>Forwarded HTTP requests\<close>

text \<open>The http crate: \<open>hb_start\<close> gives the empty header map of a request whose method and target are valid,
  \<open>hb_name\<close> and \<open>hb_value\<close> check a header's parts.\<close>

record 'h http_builder = "'h header_map" +
  hb_start :: "string \<Rightarrow> string \<Rightarrow> 'h option"
  hb_name :: "string \<Rightarrow> string option"
  hb_value :: "string \<Rightarrow> byte list option"
  hb_append :: "string \<Rightarrow> byte list \<Rightarrow> 'h \<Rightarrow> 'h"
  hb_contains :: "string \<Rightarrow> 'h \<Rightarrow> bool"

fun append_headers :: "'h http_builder \<Rightarrow> (string \<times> string) list \<Rightarrow> 'h \<Rightarrow> js_failure + 'h" where
  "append_headers T [] h = Inr h"
| "append_headers T ((name, val) # headers) h = (case hb_name T name of
     None \<Rightarrow> Inl (custom_error ''INVALID_ARGUMENT'' (''invalid HTTP header `'' @ name @ ''`''))
   | Some n \<Rightarrow> (case hb_value T val of
       None \<Rightarrow> Inl (custom_error ''INVALID_ARGUMENT'' (''invalid value for HTTP header `'' @ n @ ''`''))
     | Some v \<Rightarrow> append_headers T headers (hb_append T n v h)))"

definition default_host :: "'h http_builder \<Rightarrow> 'h \<Rightarrow> 'h" where
  "default_host T h = (if hb_contains T ''host'' h then h
     else hm_insert T ''host'' (bytes_of ''localhost'') h)"

definition build_request ::
    "'h http_builder \<Rightarrow> string \<Rightarrow> string \<Rightarrow> (string \<times> string) list \<Rightarrow> byte list \<Rightarrow> (string \<Rightarrow> string option) \<Rightarrow> js_failure + 'h request" where
  "build_request T meth path headers body target = (case hb_start T meth path of
     None \<Rightarrow> Inl (custom_error ''INVALID_ARGUMENT'' ''failed to construct HTTP request'')
   | Some h \<Rightarrow> map_ok (\<lambda>h1. \<lparr>rq_method = meth, rq_path_and_query = target path, rq_headers = default_host T h1, rq_body = body\<rparr>)
       (append_headers T headers h))"

text \<open>The request's port and the request as far as it is sent; the answer is that of its socket.\<close>

definition js_handle_request ::
    "'h http_builder \<Rightarrow> (string \<Rightarrow> string option) \<Rightarrow> (network_error \<Rightarrow> string) \<Rightarrow>
     ((sock_addr \<times> nat) list \<Rightarrow> (sock_addr \<times> nat) list) \<Rightarrow> ('b, 'w) js_sandbox \<Rightarrow> js_number \<Rightarrow> string \<Rightarrow> string \<Rightarrow>
     string + (string \<times> string) list \<Rightarrow> byte list \<Rightarrow> net_world \<Rightarrow> (js_failure + 'h request \<times> connection) \<times> net_world" where
  "js_handle_request T target show order s port meth path headers body w =
     (case bind_res (validate_port port) (\<lambda>p.
           bind_res (http_handler s no_http_networking) (\<lambda>n.
           bind_res (map_err plain_failure headers) (\<lambda>hs.
           map_ok (\<lambda>r. (p, n, r)) (build_request T meth path hs body target)))) of
        Inl e \<Rightarrow> (Inl e, w)
      | Inr (p, n, r) \<Rightarrow> (case handle_request order n p w of
          (Inl e, w1) \<Rightarrow> (Inl (custom_error ''EXECUTION_ERROR'' (''guest HTTP request failed: '' @ show e)), w1)
        | (Inr c, w1) \<Rightarrow> (Inr (r, c), w1)))"

record js_response =
  jr_status :: nat
  jr_status_text :: string
  jr_headers :: "(string \<times> string) list"
  jr_body :: "byte list"

text \<open>\<open>reason\<close> is the canonical phrase of a status, \<open>to_str\<close> the text of a header value that is visible
  ASCII.\<close>

definition js_response_new ::
    "(nat \<Rightarrow> string option) \<Rightarrow> (byte list \<Rightarrow> string option) \<Rightarrow> nat \<Rightarrow> headers \<Rightarrow> byte list \<Rightarrow> js_response" where
  "js_response_new reason to_str status headers body = \<lparr>jr_status = status,
     jr_status_text = (case reason status of None \<Rightarrow> '''' | Some t \<Rightarrow> t),
     jr_headers = List.map_filter (\<lambda>(name, v). map_option (Pair name) (to_str v)) headers, jr_body = body\<rparr>"

lemma append_headers_all:
  "append_headers T headers h = Inr h1 \<longleftrightarrow>
     list_all (\<lambda>(name, val). hb_name T name \<noteq> None \<and> hb_value T val \<noteq> None) headers \<and>
     h1 = fold (\<lambda>(name, val). hb_append T (the (hb_name T name)) (the (hb_value T val))) headers h"
  by (induction headers arbitrary: h) (auto split: option.splits)

lemma handle_request_checks_first:
  assumes "js_handle_request T target show order s port meth path headers body w = (Inl e, w1)"
    and "failure_code e \<noteq> ''EXECUTION_ERROR''"
  shows "w1 = w"
  using assms by (auto simp: js_handle_request_def custom_error_def split: sum.split_asm prod.split_asm)

section \<open>Commands\<close>

definition command_consumed :: js_failure where
  "command_consumed = custom_error ''TARGET_ERROR'' ''command was already consumed''"

definition invalid_stdio_mode :: "string \<Rightarrow> js_failure" where
  "invalid_stdio_mode mode = custom_error ''TARGET_ERROR'' (''unsupported stdio mode `'' @ mode @ ''`'')"

definition on_command :: "('b command \<Rightarrow> 'b command) \<Rightarrow> 'b command option \<Rightarrow> (js_failure + unit) \<times> 'b command option" where
  "on_command f c = (case c of None \<Rightarrow> (Inl command_consumed, None) | Some x \<Rightarrow> (Inr (), Some (f x)))"

definition take_command :: "'b command option \<Rightarrow> (js_failure + 'b command) \<times> 'b command option" where
  "take_command c = (case c of None \<Rightarrow> (Inl command_consumed, None) | Some x \<Rightarrow> (Inr x, None))"

definition jc_args :: "string list \<Rightarrow> 'b command option \<Rightarrow> (js_failure + unit) \<times> 'b command option" where
  "jc_args args = on_command (command_args args)"

definition jc_env :: "string \<Rightarrow> string \<Rightarrow> 'b command option \<Rightarrow> (js_failure + unit) \<times> 'b command option" where
  "jc_env key val = on_command (command_env key val)"

definition jc_current_dir :: "string \<Rightarrow> 'b command option \<Rightarrow> (js_failure + unit) \<times> 'b command option" where
  "jc_current_dir path = on_command (command_current_dir path)"

definition jc_input :: "byte list \<Rightarrow> 'b command option \<Rightarrow> (js_failure + unit) \<times> 'b command option" where
  "jc_input bs = on_command (command_input bs)"

definition jc_output_bytes :: "js_number \<Rightarrow> 'b command option \<Rightarrow> (js_failure + unit) \<times> 'b command option" where
  "jc_output_bytes x c = bind_st (validate_usize ''outputBytes'' x 0, c) (\<lambda>n. on_command (command_output_bytes (of_nat n)))"

definition jc_timeout :: "js_number \<Rightarrow> 'b command option \<Rightarrow> (js_failure + unit) \<times> 'b command option" where
  "jc_timeout x c = bind_st (validate_duration ''timeoutMs'' x, c) (\<lambda>d. on_command (command_timeout d))"

definition jc_terminal :: "js_number \<Rightarrow> js_number \<Rightarrow> 'b command option \<Rightarrow> (js_failure + unit) \<times> 'b command option" where
  "jc_terminal columns rows c =
     bind_st (validate_integer ''terminal.columns'' columns 1 u32_max, c) (\<lambda>cols c1.
     bind_st (validate_integer ''terminal.rows'' rows 1 u32_max, c1) (\<lambda>rws.
       on_command (command_terminal (terminal_options_new (of_nat cols) (of_nat rws)))))"

definition jc_stdin_mode :: "string \<Rightarrow> 'b command option \<Rightarrow> (js_failure + unit) \<times> 'b command option" where
  "jc_stdin_mode mode c =
     (if mode = ''pipe'' then on_command (command_stdin Piped) c
      else if mode = ''closed'' then on_command (command_stdin NullMode) c
      else (Inl (invalid_stdio_mode mode), c))"

definition parse_output_mode :: "string \<Rightarrow> js_failure + stdio" where
  "parse_output_mode mode =
     (if mode = ''pipe'' then Inr Piped else if mode = ''capture'' then Inr CaptureMode
      else if mode = ''discard'' then Inr NullMode else Inl (invalid_stdio_mode mode))"

definition jc_stdout_mode :: "string \<Rightarrow> 'b command option \<Rightarrow> (js_failure + unit) \<times> 'b command option" where
  "jc_stdout_mode mode c = bind_st (parse_output_mode mode, c) (\<lambda>m. on_command (command_stdout m))"

definition jc_stderr_mode :: "string \<Rightarrow> 'b command option \<Rightarrow> (js_failure + unit) \<times> 'b command option" where
  "jc_stderr_mode mode c = bind_st (parse_output_mode mode, c) (\<lambda>m. on_command (command_stderr m))"

text \<open>\<open>run\<close> and \<open>spawn\<close> take the command; \<open>go\<close> is what the command's own operation answers.\<close>

definition jc_run :: "(string list \<Rightarrow> string) \<Rightarrow> ('b command \<Rightarrow> sdk_error + 'a) \<Rightarrow> 'b command option \<Rightarrow> js_failure + 'a" where
  "jc_run dbg go c = bind_res (fst (take_command c)) (\<lambda>x. map_err (sdk_failure dbg) (go x))"

lemma refused_arguments_keep_command:
  assumes "r = jc_output_bytes x c \<or> r = jc_timeout x c \<or> r = jc_terminal x y c \<or> r = jc_stdin_mode m c \<or>
      r = jc_stdout_mode m c \<or> r = jc_stderr_mode m c" "fst r = Inl e"
  shows "snd r = c"
  using assms
  by (elim disjE)
    (auto simp: jc_output_bytes_def jc_timeout_def jc_terminal_def jc_stdin_mode_def jc_stdout_mode_def jc_stderr_mode_def
      on_command_def parse_output_mode_def validate_duration_def bind_st_split split: sum.split_asm option.split_asm if_split_asm)

section \<open>Processes\<close>

text \<open>Reading a stream takes it away at its end. \<open>rd\<close> reads up to a number of bytes from the stream, which
  the object's lock gives to one reader at a time; null is \<open>None\<close>.\<close>

definition js_read_stream ::
    "(io_error \<Rightarrow> string) \<Rightarrow> (nat \<Rightarrow> 's \<Rightarrow> (io_error + byte list) \<times> 's) \<Rightarrow> nat \<Rightarrow> 's option \<Rightarrow>
     (js_failure + byte list option) \<times> 's option" where
  "js_read_stream show rd max_bytes stream = (case stream of
     None \<Rightarrow> (Inr None, None)
   | Some s \<Rightarrow> (case rd (max max_bytes 1) s of
       (Inl e, s1) \<Rightarrow> (Inl (plain_failure (show e)), Some s1)
     | (Inr bs, s1) \<Rightarrow> if bs = [] then (Inr None, None) else (Inr (Some bs), Some s1)))"

definition js_read_output ::
    "(io_error \<Rightarrow> string) \<Rightarrow> (nat \<Rightarrow> 's \<Rightarrow> (io_error + byte list) \<times> 's) \<Rightarrow> js_number \<Rightarrow> 's option \<Rightarrow>
     (js_failure + byte list option) \<times> 's option" where
  "js_read_output show rd max_bytes stream =
     bind_st (validate_usize ''maxBytes'' max_bytes 1, stream) (js_read_stream show rd)"

definition js_write_stdin ::
    "(io_error \<Rightarrow> string) \<Rightarrow> (byte list \<Rightarrow> 's \<Rightarrow> (io_error + unit) \<times> 's) \<Rightarrow> byte list \<Rightarrow> 's option \<Rightarrow>
     (js_failure + unit) \<times> 's option" where
  "js_write_stdin show wr bs stdin = (case stdin of
     None \<Rightarrow> (Inl (custom_error ''TARGET_ERROR'' ''stdin is closed''), None)
   | Some s \<Rightarrow> (case wr bs s of (r, s1) \<Rightarrow> (map_err (\<lambda>e. plain_failure (show e)) r, Some s1)))"

definition js_close_stdin ::
    "(io_error \<Rightarrow> string) \<Rightarrow> ('s \<Rightarrow> io_error + unit) \<Rightarrow> 's option \<Rightarrow> (js_failure + unit) \<times> 's option" where
  "js_close_stdin show shut stdin = (case stdin of
     None \<Rightarrow> (Inr (), None)
   | Some s \<Rightarrow> (map_err (\<lambda>e. plain_failure (show e)) (shut s), None))"

definition js_resize_terminal ::
    "(string list \<Rightarrow> string) \<Rightarrow> js_number \<Rightarrow> js_number \<Rightarrow> (nat \<Rightarrow> nat \<Rightarrow> sdk_error + unit) \<Rightarrow> js_failure + unit" where
  "js_resize_terminal dbg columns rows resize =
     bind_res (validate_integer ''terminal.columns'' columns 1 u32_max) (\<lambda>cols.
     bind_res (validate_integer ''terminal.rows'' rows 1 u32_max) (\<lambda>rws.
       map_err (sdk_failure dbg) (resize cols rws)))"

fun read_times ::
    "(io_error \<Rightarrow> string) \<Rightarrow> (nat \<Rightarrow> 's \<Rightarrow> (io_error + byte list) \<times> 's) \<Rightarrow> js_number list \<Rightarrow> 's option \<Rightarrow>
     (js_failure + byte list option) list \<times> 's option" where
  "read_times show rd [] stream = ([], stream)"
| "read_times show rd (m # ms) stream = (case js_read_output show rd m stream of
     (r, s1) \<Rightarrow> (case read_times show rd ms s1 of (rs, s2) \<Rightarrow> (r # rs, s2)))"

text \<open>After the end of a stream every read answers null (or refuses its argument), and a read never
  answers more than was asked for when the stream does not.\<close>

lemma read_times_none: "r \<in> set (fst (read_times show rd ms None)) \<Longrightarrow> r = Inr None \<or> (\<exists>e. r = Inl e)"
  by (induction ms) (auto simp: js_read_output_def js_read_stream_def bind_st_split split: prod.split_asm sum.split_asm)

lemma read_after_end:
  assumes "js_read_output show rd m stream = (Inr None, rest)"
  shows "rest = None \<and> (\<forall>r \<in> set (fst (read_times show rd ms rest)). r = Inr None \<or> (\<exists>e. r = Inl e))"
proof -
  have "rest = None"
    using assms by (auto simp: js_read_output_def js_read_stream_def bind_st_split
        split: option.split_asm sum.split_asm prod.split_asm if_split_asm)
  then show ?thesis using read_times_none by blast
qed

lemma read_bounded:
  assumes "\<And>n s bs s1. rd n s = (Inr bs, s1) \<Longrightarrow> length bs \<le> n"
    and "js_read_output show rd m stream = (Inr (Some bs), rest)"
  shows "\<exists>n. m = JN_Finite (int n) False \<and> length bs \<le> n \<and> bs \<noteq> []"
proof -
  obtain n s s1 where "validate_usize ''maxBytes'' m 1 = Inr n" "rd (max n 1) s = (Inr bs, s1)" "bs \<noteq> []"
    using assms(2) by (auto simp: js_read_output_def js_read_stream_def bind_st_split
        split: option.split_asm sum.split_asm prod.split_asm if_split_asm)
  then show ?thesis using assms(1) by (force simp: validate_usize_Inr max_def split: if_splits)
qed

section \<open>Raw connections\<close>

text \<open>The halves of a socket pair are third-party code; the reader is locked while it is polled.\<close>

record 's tcp_pair =
  tp_read :: "nat \<Rightarrow> 's \<Rightarrow> (io_error + byte list) \<times> 's"
  tp_send :: "byte list \<Rightarrow> 's \<Rightarrow> (string + unit) \<times> 's"
  tp_close_writer :: "'s \<Rightarrow> (string + unit) \<times> 's"
  tp_close_reader :: "'s \<Rightarrow> (string + unit) \<times> 's"

definition tcp_chunk :: nat where
  "tcp_chunk = 64 * 1024"

definition tcp_read :: "(io_error \<Rightarrow> string) \<Rightarrow> 's tcp_pair \<Rightarrow> 's \<Rightarrow> (js_failure + byte list) \<times> 's" where
  "tcp_read show T s = map_err_st (\<lambda>e. plain_failure (show e)) (tp_read T tcp_chunk s)"

definition tcp_write :: "'s tcp_pair \<Rightarrow> byte list \<Rightarrow> 's \<Rightarrow> (js_failure + unit) \<times> 's" where
  "tcp_write T bs s =
     (if length bs > tcp_chunk then (Inl (custom_error ''INVALID_ARGUMENT'' ''TCP chunks must not exceed 64 KiB''), s)
      else map_err_st plain_failure (tp_send T bs s))"

definition tcp_shutdown_write :: "'s tcp_pair \<Rightarrow> 's \<Rightarrow> (js_failure + unit) \<times> 's" where
  "tcp_shutdown_write T s = map_err_st plain_failure (tp_close_writer T s)"

definition tcp_close :: "'s tcp_pair \<Rightarrow> 's \<Rightarrow> (js_failure + unit) \<times> 's" where
  "tcp_close T s = bind_st (tcp_shutdown_write T s) (\<lambda>u s1. map_err_st plain_failure (tp_close_reader T s1))"

end
