(* ===== verification/Shared_Streams.thy ===== *)
theory Shared_Streams
  imports Errors
begin

text \<open>
  A process's streams behind locks, as both facades hold them (rust/uniffi/src/lib.rs and
  js/bindgen/src/lib.rs): any number of calls read the same output or write to the same stdin. A lock
  serves its callers in the order in which they ask. \<open>fail\<close> is the facade's error for a failed
  stream, \<open>gone\<close> its error for a stdin that was closed. In the native facade a caller may give
  a call up (\<open>gives_up\<close>) while its task runs on; in JavaScript a call always runs to its end.
\<close>

section \<open>Reading a stream from several calls\<close>

text \<open>
  A read locks the stream, waits for bytes with \<open>rd\<close> (\<open>Pending\<close> while there are none) and drops the
  stream at its end. The lock serves its callers in the order in which they ask. A caller that gives
  its read up does not end the task. \<open>rs_written\<close> is what the guest has written.
\<close>

definition read_body ::
    "(usize \<Rightarrow> 's \<Rightarrow> ((io_error + byte list) \<times> 's) poll) \<Rightarrow> usize \<Rightarrow> 's option \<Rightarrow>
     ((io_error + byte list option) \<times> 's option) poll" where
  "read_body rd max_bytes stream = (case stream of
     None \<Rightarrow> Ready (Inr None, None)
   | Some s \<Rightarrow> (case rd max_bytes s of
       Pending \<Rightarrow> Pending
     | Ready (Inl e, s1) \<Rightarrow> Ready (Inl e, Some s1)
     | Ready (Inr bs, s1) \<Rightarrow> Ready (if bs = [] then (Inr None, None) else (Inr (Some bs), Some s1))))"

record ('s, 'e) read_system =
  rs_stream :: "'s option"
  rs_queue :: "nat list"
  rs_asked :: "nat \<Rightarrow> usize option"
  rs_abandoned :: "nat set"
  rs_answers :: "(nat \<times> ('e + byte list option)) list"
  rs_written :: "byte list"

definition read_system_new :: "'s \<Rightarrow> ('s, 'e) read_system" where
  "read_system_new s = \<lparr>rs_stream = Some s, rs_queue = [], rs_asked = Map.empty, rs_abandoned = {}, rs_answers = [],
     rs_written = []\<rparr>"

definition answered :: "(nat \<times> 'x) list \<Rightarrow> nat set" where
  "answered as = fst ` set as"

definition finish_read ::
    "(io_error \<Rightarrow> 'e) \<Rightarrow> nat \<Rightarrow> io_error + byte list option \<Rightarrow> 's option \<Rightarrow> ('s, 'e) read_system \<Rightarrow> ('s, 'e) read_system" where
  "finish_read fail t r stream S = S\<lparr>rs_stream := stream, rs_queue := tl (rs_queue S),
     rs_answers := rs_answers S @ [(t, map_err fail r)]\<rparr>"

inductive read_step ::
    "(io_error \<Rightarrow> 'e) \<Rightarrow> bool \<Rightarrow> (usize \<Rightarrow> 's \<Rightarrow> ((io_error + byte list) \<times> 's) poll) \<Rightarrow> (byte list \<Rightarrow> 's \<Rightarrow> 's) \<Rightarrow>
     ('s, 'e) read_system \<Rightarrow> ('s, 'e) read_system \<Rightarrow> bool"
  for fail gives_up rd emit where
  read_call: "rs_asked S t = None \<Longrightarrow> 0 < n \<Longrightarrow>
    read_step fail gives_up rd emit S (S\<lparr>rs_asked := (rs_asked S)(t \<mapsto> n)\<rparr>)"
| read_lock: "rs_asked S t = Some n \<Longrightarrow> t \<notin> set (rs_queue S) \<Longrightarrow> t \<notin> answered (rs_answers S) \<Longrightarrow>
    read_step fail gives_up rd emit S (S\<lparr>rs_queue := rs_queue S @ [t]\<rparr>)"
| read_ends: "rs_queue S = t # q \<Longrightarrow> rs_asked S t = Some n \<Longrightarrow> read_body rd n (rs_stream S) = Ready (r, stream) \<Longrightarrow>
    read_step fail gives_up rd emit S (finish_read fail t r stream S)"
| read_abandoned: "gives_up \<Longrightarrow> rs_asked S t = Some n \<Longrightarrow> t \<notin> answered (rs_answers S) \<Longrightarrow>
    read_step fail gives_up rd emit S (S\<lparr>rs_abandoned := insert t (rs_abandoned S)\<rparr>)"
| guest_writes: "rs_stream S = Some s \<Longrightarrow>
    read_step fail gives_up rd emit S (S\<lparr>rs_stream := Some (emit bs s), rs_written := rs_written S @ bs\<rparr>)"

text \<open>What the stream promises: a read takes its bytes from the front of what was written and not read yet,
  at most as many as asked for; it ends only when nothing is left; an error takes nothing.\<close>

definition stream_contract ::
    "(usize \<Rightarrow> 's \<Rightarrow> ((io_error + byte list) \<times> 's) poll) \<Rightarrow> (byte list \<Rightarrow> 's \<Rightarrow> 's) \<Rightarrow> ('s \<Rightarrow> byte list) \<Rightarrow> bool" where
  "stream_contract rd emit content \<longleftrightarrow>
     (\<forall>n s bs s1. 0 < n \<and> rd n s = Ready (Inr bs, s1) \<longrightarrow>
        content s = bs @ content s1 \<and> length bs \<le> n \<and> (bs = [] \<longrightarrow> content s = [])) \<and>
     (\<forall>n s e s1. rd n s = Ready (Inl e, s1) \<longrightarrow> content s1 = content s) \<and>
     (\<forall>bs s. content (emit bs s) = content s @ bs)"

fun bytes_read :: "'e + byte list option \<Rightarrow> byte list" where
  "bytes_read (Inr (Some bs)) = bs"
| "bytes_read r = []"

definition rest_of :: "('s \<Rightarrow> byte list) \<Rightarrow> ('s, 'e) read_system \<Rightarrow> byte list" where
  "rest_of content S = (case rs_stream S of None \<Rightarrow> [] | Some s \<Rightarrow> content s)"

definition delivered :: "('s, 'e) read_system \<Rightarrow> byte list" where
  "delivered S = concat (map (\<lambda>(t, r). bytes_read r) (filter (\<lambda>(t, r). t \<notin> rs_abandoned S) (rs_answers S)))"

definition ends_last :: "(nat \<times> ('e + byte list option)) list \<Rightarrow> bool" where
  "ends_last as \<longleftrightarrow> (\<forall>xs t ys. as = xs @ (t, Inr None) # ys \<longrightarrow> (\<forall>a \<in> set ys. snd a = Inr None))"

definition read_inv :: "('s \<Rightarrow> byte list) \<Rightarrow> ('s, 'e) read_system \<Rightarrow> bool" where
  "read_inv content S \<longleftrightarrow>
     rs_written S = concat (map (\<lambda>(t, r). bytes_read r) (rs_answers S)) @ rest_of content S \<and>
     (\<forall>t n. rs_asked S t = Some n \<longrightarrow> 0 < n) \<and>
     (\<forall>t bs. (t, Inr (Some bs)) \<in> set (rs_answers S) \<longrightarrow>
        bs \<noteq> [] \<and> (\<exists>n. rs_asked S t = Some n \<and> length bs \<le> n)) \<and>
     (\<forall>t. (t, Inr None) \<in> set (rs_answers S) \<longrightarrow> rs_stream S = None) \<and> ends_last (rs_answers S) \<and>
     distinct (map fst (rs_answers S)) \<and> distinct (rs_queue S) \<and> set (rs_queue S) \<inter> answered (rs_answers S) = {} \<and>
     answered (rs_answers S) \<subseteq> dom (rs_asked S)"

lemma ends_last_snoc:
  assumes "ends_last as" "\<forall>t. (t, Inr None) \<in> set as \<longrightarrow> snd a = Inr None"
  shows "ends_last (as @ [a])"
  unfolding ends_last_def
proof (intro allI impI)
  fix xs t ys assume eq: "as @ [a] = xs @ (t, Inr None) # ys"
  show "\<forall>b \<in> set ys. snd b = Inr None"
  proof (cases ys rule: rev_cases)
    case (snoc ys' y)
    then have "as = xs @ (t, Inr None) # ys'" "y = a" using eq by auto
    then show ?thesis using assms snoc by (auto simp: ends_last_def)
  qed simp
qed

lemma read_inv_start: "content s0 = [] \<Longrightarrow> read_inv content (read_system_new s0)"
  by (simp add: read_inv_def read_system_new_def rest_of_def ends_last_def answered_def)

lemma read_body_Ready:
  assumes "stream_contract rd emit content" "0 < n" "read_body rd n stream = Ready (r, stream1)"
  shows "(\<forall>bs. r = Inr (Some bs) \<longrightarrow> (\<exists>s s1. stream = Some s \<and> stream1 = Some s1 \<and> content s = bs @ content s1 \<and>
        bs \<noteq> [] \<and> length bs \<le> n)) \<and>
    (r = Inr None \<longrightarrow> stream1 = None \<and> (\<forall>s. stream = Some s \<longrightarrow> content s = [])) \<and>
    (\<forall>e. r = Inl e \<longrightarrow> (\<exists>s s1. stream = Some s \<and> stream1 = Some s1 \<and> content s1 = content s)) \<and>
    (stream = None \<longrightarrow> r = Inr None)"
proof (cases stream)
  case None
  then show ?thesis using assms(3) by (auto simp: read_body_def)
next
  case (Some s)
  obtain res s1 where rd: "rd n s = Ready (res, s1)"
    using assms(3) Some by (cases "rd n s") (auto simp: read_body_def split: prod.split_asm)
  show ?thesis
  proof (cases res)
    case (Inl e)
    then show ?thesis using assms rd Some by (auto simp: read_body_def stream_contract_def)
  next
    case (Inr bs)
    then have "content s = bs @ content s1 \<and> length bs \<le> n \<and> (bs = [] \<longrightarrow> content s = [])"
      using assms(1,2) rd unfolding stream_contract_def by blast
    then show ?thesis using assms(3) rd Some Inr by (auto simp: read_body_def split: if_split_asm)
  qed
qed

lemma read_inv_finish:
  assumes contract: "stream_contract rd emit content" and inv: "read_inv content S" and head: "rs_queue S = t # q"
    and asked: "rs_asked S t = Some n" and turn: "read_body rd n (rs_stream S) = Ready (r, stream)"
  shows "read_inv content (finish_read fail t r stream S)"
proof -
  let ?r = "map_err fail r"
  have n: "0 < n" using inv asked by (auto simp: read_inv_def)
  note body = read_body_Ready [OF contract n turn]
  have shape: "Inr x = ?r \<longleftrightarrow> r = Inr x" for x by (cases r) auto
  have taken: "rest_of content S = bytes_read ?r @ rest_of content (finish_read fail t r stream S)"
  proof (cases r)
    case (Inl e)
    then show ?thesis using body by (auto simp: rest_of_def finish_read_def split: option.split)
  next
    case (Inr x)
    then show ?thesis using body by (cases x) (auto simp: rest_of_def finish_read_def split: option.split)
  qed
  have "rs_stream S = None \<longrightarrow> ?r = Inr None" using body by simp
  then have last: "ends_last (rs_answers S @ [(t, ?r)])"
    using inv by (intro ends_last_snoc) (auto simp: read_inv_def)
  have fresh: "t \<notin> answered (rs_answers S)" "t \<notin> set q" "distinct q" "set q \<inter> answered (rs_answers S) = {}"
    using inv head by (auto simp: read_inv_def)
  have ended: "\<exists>u. (u, Inr None) \<in> set (rs_answers S) \<Longrightarrow> stream = None"
    using inv body turn by (auto simp: read_inv_def read_body_def)
  show ?thesis
    unfolding read_inv_def
  proof (intro conjI)
    show "rs_written (finish_read fail t r stream S) =
        concat (map (\<lambda>(t, r). bytes_read r) (rs_answers (finish_read fail t r stream S))) @
        rest_of content (finish_read fail t r stream S)"
      using inv taken by (simp add: read_inv_def finish_read_def)
    show "\<forall>u bs. (u, Inr (Some bs)) \<in> set (rs_answers (finish_read fail t r stream S)) \<longrightarrow>
        bs \<noteq> [] \<and> (\<exists>n. rs_asked (finish_read fail t r stream S) u = Some n \<and> length bs \<le> n)"
      using inv body asked by (auto simp: read_inv_def finish_read_def shape)
    show "\<forall>u. (u, Inr None) \<in> set (rs_answers (finish_read fail t r stream S)) \<longrightarrow>
        rs_stream (finish_read fail t r stream S) = None"
      using ended body by (auto simp: finish_read_def shape)
  qed (use inv last fresh head asked in \<open>auto simp: read_inv_def finish_read_def answered_def\<close>)
qed

lemma read_inv_step:
  assumes "stream_contract rd emit content" "read_inv content S" "read_step fail gives_up rd emit S S'"
  shows "read_inv content S'"
  using assms(3)
proof cases
  case (read_call t n)
  have "answered (rs_answers S) \<subseteq> dom (rs_asked S)" using assms(2) by (simp add: read_inv_def)
  then have "t \<notin> answered (rs_answers S)" using read_call(2) by blast
  then have fresh: "(t, x) \<notin> set (rs_answers S)" for x by (force simp: answered_def)
  have "\<forall>u bs. (u, Inr (Some bs)) \<in> set (rs_answers S') \<longrightarrow>
      bs \<noteq> [] \<and> (\<exists>m. rs_asked S' u = Some m \<and> length bs \<le> m)"
    using assms(2) fresh unfolding read_inv_def read_call(1) by auto
  moreover have "\<forall>u m. rs_asked S' u = Some m \<longrightarrow> 0 < m" "answered (rs_answers S') \<subseteq> dom (rs_asked S')"
    using assms(2) read_call(3) by (auto simp: read_inv_def read_call(1))
  ultimately show ?thesis using assms(2) by (simp add: read_inv_def read_call(1) rest_of_def)
next
  case (guest_writes s bs)
  then show ?thesis using assms(1,2) by (auto simp: read_inv_def rest_of_def stream_contract_def)
next
  case (read_ends t q n r stream)
  then show ?thesis using read_inv_finish [OF assms(1,2)] by blast
qed (use assms(2) in \<open>auto simp: read_inv_def rest_of_def\<close>)

text \<open>Two reads of two bytes each, of which the first is given up before the guest writes.\<close>

definition list_read :: "usize \<Rightarrow> byte list \<Rightarrow> ((io_error + byte list) \<times> byte list) poll" where
  "list_read n s = (if s = [] then Pending else Ready (Inr (take n s), drop n s))"

lemma list_stream: "stream_contract list_read (\<lambda>bs s. s @ bs) (\<lambda>s. s)"
  by (auto simp: stream_contract_def list_read_def)

abbreviation list_step :: "(byte list, string) read_system \<Rightarrow> (byte list, string) read_system \<Rightarrow> bool" where
  "list_step \<equiv> read_step (\<lambda>e. '''') True list_read (\<lambda>bs s. s @ bs)"

definition given_up :: "(byte list, string) read_system" where
  "given_up = \<lparr>rs_stream = Some [], rs_queue = [], rs_asked = [0 \<mapsto> 2, 1 \<mapsto> 2], rs_abandoned = {0},
     rs_answers = [(0, Inr (Some [1, 2])), (1, Inr (Some [3, 4]))], rs_written = [1, 2, 3, 4]\<rparr>"

lemma given_up_reachable: "reachable (\<lambda>S. S = read_system_new []) list_step given_up"
proof -
  let ?reach = "reachable (\<lambda>S. S = read_system_new []) list_step"
  note go = reach_step [where init = "\<lambda>S. S = read_system_new []" and step = list_step]
  let ?S0 = "read_system_new [] :: (byte list, string) read_system"
  have "?reach ?S0" by (rule reach_init) (rule refl)
  then have "?reach (?S0\<lparr>rs_asked := [0 \<mapsto> 2]\<rparr>)"
    by (rule go) (use read_call [where S = ?S0 and t = 0 and n = 2] in \<open>simp add: read_system_new_def\<close>)
  then have "?reach (?S0\<lparr>rs_asked := [0 \<mapsto> 2, 1 \<mapsto> 2]\<rparr>)"
    by (rule go) (use read_call [where S = "?S0\<lparr>rs_asked := [0 \<mapsto> 2]\<rparr>" and t = 1 and n = 2] in \<open>simp add: read_system_new_def\<close>)
  then have "?reach (?S0\<lparr>rs_asked := [0 \<mapsto> 2, 1 \<mapsto> 2], rs_queue := [0]\<rparr>)"
    by (rule go) (use read_lock [where S = "?S0\<lparr>rs_asked := [0 \<mapsto> 2, 1 \<mapsto> 2]\<rparr>" and t = 0 and n = 2]
      in \<open>simp add: read_system_new_def answered_def\<close>)
  then have "?reach (?S0\<lparr>rs_asked := [0 \<mapsto> 2, 1 \<mapsto> 2], rs_queue := [0, 1]\<rparr>)"
    by (rule go) (use read_lock [where S = "?S0\<lparr>rs_asked := [0 \<mapsto> 2, 1 \<mapsto> 2], rs_queue := [0]\<rparr>" and t = 1 and n = 2]
      in \<open>simp add: read_system_new_def answered_def\<close>)
  then have "?reach (?S0\<lparr>rs_asked := [0 \<mapsto> 2, 1 \<mapsto> 2], rs_queue := [0, 1], rs_abandoned := {0}\<rparr>)"
    by (rule go) (use read_abandoned [where S = "?S0\<lparr>rs_asked := [0 \<mapsto> 2, 1 \<mapsto> 2], rs_queue := [0, 1]\<rparr>" and t = 0 and n = 2]
      in \<open>simp add: read_system_new_def answered_def\<close>)
  then have "?reach (given_up\<lparr>rs_stream := Some [1, 2, 3, 4], rs_queue := [0, 1], rs_answers := []\<rparr>)"
    by (rule go) (use guest_writes [where S = "?S0\<lparr>rs_asked := [0 \<mapsto> 2, 1 \<mapsto> 2], rs_queue := [0, 1], rs_abandoned := {0}\<rparr>"
        and s = "[]" and bs = "[1, 2, 3, 4]" and emit = "\<lambda>bs s. s @ bs"] in \<open>simp add: read_system_new_def given_up_def\<close>)
  then have "?reach (given_up\<lparr>rs_stream := Some [3, 4], rs_queue := [1], rs_answers := [(0, Inr (Some [1, 2]))]\<rparr>)"
    by (rule go) (use read_ends [where S = "given_up\<lparr>rs_stream := Some [1, 2, 3, 4], rs_queue := [0, 1], rs_answers := []\<rparr>"
        and t = 0 and q = "[1]" and n = 2 and rd = list_read and r = "Inr (Some [1, 2])" and stream = "Some [3, 4]"]
      in \<open>simp add: given_up_def finish_read_def read_body_def list_read_def\<close>)
  then show "?reach given_up"
    by (rule go) (use read_ends [where S = "given_up\<lparr>rs_stream := Some [3, 4], rs_queue := [1], rs_answers := [(0, Inr (Some [1, 2]))]\<rparr>"
        and t = 1 and q = "[]" and n = 2 and rd = list_read and r = "Inr (Some [3, 4])" and stream = "Some []"]
      in \<open>simp add: given_up_def finish_read_def read_body_def list_read_def\<close>)
qed

lemma nobody_gives_up:
  "reachable init (read_step fail False rd emit) S \<Longrightarrow> (\<And>S0. init S0 \<Longrightarrow> rs_abandoned S0 = {}) \<Longrightarrow> rs_abandoned S = {}"
proof (induction rule: reachable.induct)
  case (reach_step S S')
  then show ?case by (auto elim!: read_step.cases simp: finish_read_def)
qed



section \<open>Writing to stdin from several calls\<close>

text \<open>
  A write holds the lock until its last byte is accepted; closing takes the stdin out under the lock
  and shuts it down after it has let the lock go. \<open>write_all_turn\<close> is one turn of the standard loop
  that writes a whole buffer, with the number of bytes written so far and what the writer answers; an
  answer of the log carries the number of bytes its write got accepted.
\<close>

datatype stdin_job = WriteJob (job_bytes: "byte list") | CloseJob

definition write_all_turn :: "byte list \<Rightarrow> nat \<Rightarrow> io_error + nat \<Rightarrow> (io_error + unit) poll \<times> nat" where
  "write_all_turn bs done_bytes r = (case r of
     Inl e \<Rightarrow> (Ready (Inl e), done_bytes)
   | Inr k \<Rightarrow>
       if k = 0 then (Ready (Inl (Io_Error WriteZero ''failed to write whole buffer'')), done_bytes)
       else if length bs \<le> done_bytes + k then (Ready (Inr ()), done_bytes + k)
       else (Pending, done_bytes + k))"

record 'e write_system =
  ws_open :: bool
  ws_queue :: "nat list"
  ws_jobs :: "nat \<Rightarrow> stdin_job option"
  ws_progress :: nat
  ws_closing :: "nat set"
  ws_abandoned :: "nat set"
  ws_sent :: "byte list"
  ws_answers :: "(nat \<times> nat \<times> ('e + unit)) list"

definition write_system_new :: "'e write_system" where
  "write_system_new = \<lparr>ws_open = True, ws_queue = [], ws_jobs = Map.empty, ws_progress = 0, ws_closing = {},
     ws_abandoned = {}, ws_sent = [], ws_answers = []\<rparr>"

definition finish_job :: "nat \<Rightarrow> nat \<Rightarrow> 'e + unit \<Rightarrow> 'e write_system \<Rightarrow> 'e write_system" where
  "finish_job t n r S = S\<lparr>ws_queue := tl (ws_queue S), ws_progress := 0,
     ws_answers := ws_answers S @ [(t, n, r)]\<rparr>"

text \<open>One turn of the write that holds the lock.\<close>

definition write_turn ::
    "(io_error \<Rightarrow> 'e) \<Rightarrow> 'e \<Rightarrow> nat \<Rightarrow> byte list \<Rightarrow> io_error + nat \<Rightarrow> 'e write_system \<Rightarrow> 'e write_system" where
  "write_turn fail gone t bs r S =
     (if \<not> ws_open S then finish_job t 0 (Inl gone) S
      else if bs = [] then finish_job t 0 (Inr ()) S
      else let (p, n) = write_all_turn bs (ws_progress S) r;
               S1 = S\<lparr>ws_sent := ws_sent S @ take (n - ws_progress S) (drop (ws_progress S) bs), ws_progress := n\<rparr>
           in case p of Pending \<Rightarrow> S1 | Ready res \<Rightarrow> finish_job t n (map_err fail res) S1)"

definition close_turn :: "nat \<Rightarrow> 'e write_system \<Rightarrow> 'e write_system" where
  "close_turn t S =
     (if ws_open S then S\<lparr>ws_open := False, ws_queue := tl (ws_queue S), ws_closing := insert t (ws_closing S)\<rparr>
      else finish_job t 0 (Inr ()) S)"

inductive stdin_step :: "(io_error \<Rightarrow> 'e) \<Rightarrow> 'e \<Rightarrow> bool \<Rightarrow> 'e write_system \<Rightarrow> 'e write_system \<Rightarrow> bool" for fail gone gives_up where
  write_call: "ws_jobs S t = None \<Longrightarrow> stdin_step fail gone gives_up S (S\<lparr>ws_jobs := (ws_jobs S)(t \<mapsto> j)\<rparr>)"
| write_lock: "ws_jobs S t = Some j \<Longrightarrow> t \<notin> set (ws_queue S) \<Longrightarrow> t \<notin> ws_closing S \<Longrightarrow> t \<notin> answered (ws_answers S) \<Longrightarrow>
    stdin_step fail gone gives_up S (S\<lparr>ws_queue := ws_queue S @ [t]\<rparr>)"
| write_polls: "ws_queue S = t # q \<Longrightarrow> ws_jobs S t = Some (WriteJob bs) \<Longrightarrow>
    (\<forall>k. r = Inr k \<longrightarrow> k \<le> length bs - ws_progress S) \<Longrightarrow> stdin_step fail gone gives_up S (write_turn fail gone t bs r S)"
| close_takes: "ws_queue S = t # q \<Longrightarrow> ws_jobs S t = Some CloseJob \<Longrightarrow> stdin_step fail gone gives_up S (close_turn t S)"
| close_ends: "t \<in> ws_closing S \<Longrightarrow> stdin_step fail gone gives_up S
    (S\<lparr>ws_closing := ws_closing S - {t}, ws_answers := ws_answers S @ [(t, 0, map_err fail r)]\<rparr>)"
| write_abandoned: "gives_up \<Longrightarrow> ws_jobs S t = Some j \<Longrightarrow> t \<notin> answered (ws_answers S) \<Longrightarrow>
    stdin_step fail gone gives_up S (S\<lparr>ws_abandoned := insert t (ws_abandoned S)\<rparr>)"

definition bytes_of_job :: "(nat \<Rightarrow> stdin_job option) \<Rightarrow> nat \<Rightarrow> byte list" where
  "bytes_of_job jobs t = (case jobs t of Some (WriteJob bs) \<Rightarrow> bs | _ \<Rightarrow> [])"

definition under_way :: "'e write_system \<Rightarrow> byte list" where
  "under_way S = (case ws_queue S of [] \<Rightarrow> [] | t # q \<Rightarrow> take (ws_progress S) (bytes_of_job (ws_jobs S) t))"

definition accepted_parts :: "'e write_system \<Rightarrow> byte list" where
  "accepted_parts S = concat (map (\<lambda>(t, n, r). take n (bytes_of_job (ws_jobs S) t)) (ws_answers S))"

definition write_inv :: "'e write_system \<Rightarrow> bool" where
  "write_inv S \<longleftrightarrow>
     ws_sent S = accepted_parts S @ under_way S \<and>
     (\<forall>t n. (t, n, Inr ()) \<in> set (ws_answers S) \<longrightarrow> n = length (bytes_of_job (ws_jobs S) t)) \<and>
     (case ws_queue S of [] \<Rightarrow> ws_progress S = 0
      | t # q \<Rightarrow> ws_progress S \<le> length (bytes_of_job (ws_jobs S) t) \<and>
          (bytes_of_job (ws_jobs S) t \<noteq> [] \<longrightarrow> ws_progress S < length (bytes_of_job (ws_jobs S) t))) \<and>
     (\<not> ws_open S \<longrightarrow> ws_progress S = 0) \<and>
     set (ws_queue S) \<union> ws_closing S \<union> answered (ws_answers S) \<subseteq> dom (ws_jobs S) \<and>
     (\<forall>t \<in> ws_closing S. ws_jobs S t = Some CloseJob)"

lemma write_inv_start: "write_inv write_system_new"
  by (simp add: write_inv_def write_system_new_def accepted_parts_def under_way_def answered_def)

text \<open>An answer to the holder of the lock that accounts for everything it got accepted.\<close>

lemma write_inv_finish:
  assumes inv: "write_inv S" and head: "ws_queue S = t # q" and job: "ws_jobs S t = Some j"
    and sent: "ws_sent S1 = accepted_parts S @ take n (bytes_of_job (ws_jobs S) t)"
    and same: "ws_open S1 = ws_open S" "ws_queue S1 = ws_queue S" "ws_jobs S1 = ws_jobs S" "ws_closing S1 = ws_closing S"
      "ws_answers S1 = ws_answers S"
    and whole: "r = Inr () \<Longrightarrow> n = length (bytes_of_job (ws_jobs S) t)"
  shows "write_inv (finish_job t n r S1)"
proof -
  have "\<forall>u m. (u, m, Inr ()) \<in> set (ws_answers (finish_job t n r S1)) \<longrightarrow> m = length (bytes_of_job (ws_jobs S) u)"
    using inv whole by (auto simp: write_inv_def finish_job_def same)
  moreover have "ws_sent (finish_job t n r S1) = accepted_parts (finish_job t n r S1)"
    by (simp add: accepted_parts_def finish_job_def same sent)
  moreover have "under_way (finish_job t n r S1) = []"
    by (simp add: under_way_def finish_job_def split: list.split)
  ultimately show ?thesis
    using inv head job by (auto simp: write_inv_def finish_job_def same answered_def split: list.split)
qed

lemma take_more: "take d bs @ take k (drop d bs) = take (d + k) bs"
  by (simp add: take_add)

lemma write_inv_turn:
  assumes inv: "write_inv S" and head: "ws_queue S = t # q" and job: "ws_jobs S t = Some (WriteJob bs)"
    and fits: "\<forall>k. r = Inr k \<longrightarrow> k \<le> length bs - ws_progress S"
  shows "write_inv (write_turn fail gone t bs r S)"
proof -
  have bytes: "bytes_of_job (ws_jobs S) t = bs" by (simp add: bytes_of_job_def job)
  have sent: "ws_sent S = accepted_parts S @ take (ws_progress S) bs" "ws_progress S \<le> length bs"
    "bs \<noteq> [] \<Longrightarrow> ws_progress S < length bs" "\<not> ws_open S \<Longrightarrow> ws_progress S = 0"
    using inv head by (auto simp: write_inv_def under_way_def bytes)
  note finish = write_inv_finish [OF inv head job, unfolded bytes]
  show ?thesis
  proof (cases "ws_open S \<and> bs \<noteq> []")
    case False
    then show ?thesis unfolding write_turn_def using sent by (auto intro!: finish)
  next
    case True
    obtain p n where turn: "write_all_turn bs (ws_progress S) r = (p, n)" by fastforce
    let ?S1 = "S\<lparr>ws_sent := ws_sent S @ take (n - ws_progress S) (drop (ws_progress S) bs), ws_progress := n\<rparr>"
    have n: "ws_progress S \<le> n" "n \<le> length bs" "p = Ready (Inr ()) \<Longrightarrow> n = length bs" "p = Pending \<Longrightarrow> n < length bs"
      using turn fits sent True by (auto simp: write_all_turn_def split: sum.split_asm if_split_asm)
    then have sent1: "ws_sent ?S1 = accepted_parts S @ take n bs"
      by (simp add: sent take_more)
    show ?thesis
    proof (cases p)
      case (Ready res)
      then have "write_turn fail gone t bs r S = finish_job t n (map_err fail res) ?S1"
        using True turn by (simp add: write_turn_def Let_def)
      then show ?thesis using finish [OF sent1, where r = "map_err fail res"] n(3) Ready by simp
    next
      case Pending
      then have "write_turn fail gone t bs r S = ?S1" using True turn by (simp add: write_turn_def Let_def)
      then show ?thesis
        using inv head True sent1 n Pending by (simp add: write_inv_def under_way_def accepted_parts_def bytes)
    qed
  qed
qed

lemma write_inv_step:
  assumes "write_inv S" "stdin_step fail gone gives_up S S'"
  shows "write_inv S'"
  using assms(2)
proof cases
  case (write_call t j)
  let ?jobs = "(ws_jobs S)(t \<mapsto> j)"
  have known: "set (ws_queue S) \<union> ws_closing S \<union> answered (ws_answers S) \<subseteq> dom (ws_jobs S)"
    using assms(1) by (simp add: write_inv_def)
  have same: "bytes_of_job ?jobs u = bytes_of_job (ws_jobs S) u" if "u \<in> dom (ws_jobs S)" for u
    using that write_call(2) by (auto simp: bytes_of_job_def)
  have old: "u \<in> dom (ws_jobs S)" if "(u, x) \<in> set (ws_answers S)" for u x
    using known that by (force simp: answered_def)
  have "accepted_parts S' = accepted_parts S"
    using same old by (auto simp: accepted_parts_def write_call(1) intro!: arg_cong [where f = concat] map_cong)
  moreover have "under_way S' = under_way S"
    using same known by (auto simp: under_way_def write_call(1) split: list.split)
  moreover have "\<forall>u n. (u, n, Inr ()) \<in> set (ws_answers S) \<longrightarrow> n = length (bytes_of_job ?jobs u)"
    using assms(1) same old by (simp add: write_inv_def)
  moreover have "\<forall>u \<in> ws_closing S. ?jobs u = Some CloseJob"
    using assms(1) write_call(2) by (auto simp: write_inv_def)
  ultimately show ?thesis
    using assms(1) same known by (auto simp: write_inv_def write_call(1) split: list.split_asm)
next
  case (write_polls t q bs r)
  then show ?thesis using write_inv_turn [OF assms(1)] by blast
next
  case (close_takes t q)
  have bytes: "bytes_of_job (ws_jobs S) t = []" by (simp add: bytes_of_job_def close_takes(3))
  have idle: "ws_progress S = 0" "ws_sent S = accepted_parts S"
    using assms(1) close_takes(2) bytes by (simp_all add: write_inv_def under_way_def)
  have refused: "write_inv (finish_job t 0 (Inr ()) S)"
    by (rule write_inv_finish [OF assms(1) close_takes(2,3)]) (simp_all add: idle bytes)
  have "write_inv (S\<lparr>ws_open := False, ws_queue := tl (ws_queue S), ws_closing := insert t (ws_closing S)\<rparr>)"
    using assms(1) close_takes(2,3) idle
    by (auto simp: write_inv_def under_way_def accepted_parts_def split: list.split)
  then show ?thesis using refused by (simp add: close_takes(1) close_turn_def)
next
  case (close_ends t r)
  then have job: "ws_jobs S t = Some CloseJob" using assms(1) by (simp add: write_inv_def)
  then have "bytes_of_job (ws_jobs S) t = []" by (simp add: bytes_of_job_def)
  then have "accepted_parts S' = accepted_parts S" "under_way S' = under_way S"
    by (simp_all add: close_ends(1) accepted_parts_def under_way_def split: list.split)
  moreover have "\<forall>u n. (u, n, Inr ()) \<in> set (ws_answers S') \<longrightarrow> n = length (bytes_of_job (ws_jobs S) u)"
    using assms(1) by (auto simp: close_ends(1) write_inv_def bytes_of_job_def job)
  ultimately show ?thesis
    using assms(1) job by (cases "ws_queue S") (auto simp: close_ends(1) write_inv_def answered_def)
next
  case (write_lock t j)
  then show ?thesis using assms(1)
    by (cases "ws_queue S") (auto simp: write_inv_def under_way_def accepted_parts_def)
next
  case (write_abandoned t j)
  then show ?thesis using assms(1)
    by (cases "ws_queue S") (auto simp: write_inv_def under_way_def accepted_parts_def)
qed

interpretation stdin_writes: inductive_invariant "\<lambda>S. S = write_system_new" "stdin_step fail gone gives_up" write_inv
  by unfold_locales (auto intro: write_inv_start write_inv_step)

text \<open>Once stdin was taken out, nothing more is sent, and writes answer that it is gone.\<close>

lemma closed_step:
  assumes "stdin_step fail gone gives_up S S'" "\<not> ws_open S"
  shows "\<not> ws_open S' \<and> ws_sent S' = ws_sent S"
  using assms
  by cases (auto simp: write_turn_def close_turn_def finish_job_def)

lemma closed_steps: "(stdin_step fail gone gives_up)\<^sup>*\<^sup>* S S' \<Longrightarrow> \<not> ws_open S \<Longrightarrow> \<not> ws_open S' \<and> ws_sent S' = ws_sent S"
  by (induction rule: rtranclp_induct) (auto dest: closed_step)

text \<open>C9: Concurrent writes to a process's stdin do not mix, and giving a call up does not cut its write short.
  In every reachable state the bytes sent are, one call after the other, what each answered call got
  accepted, then what the call under way has sent so far; a write that succeeded sent its whole
  buffer, given up or not, and a failed one a prefix. Once the stdin is closed nothing more is sent.\<close>

theorem shared_writes_whole:
  assumes "reachable (\<lambda>S. S = write_system_new) (stdin_step fail gone gives_up) S"
  shows "ws_sent S = concat (map (\<lambda>(t, n, r). take n (bytes_of_job (ws_jobs S) t)) (ws_answers S)) @
      (case ws_queue S of [] \<Rightarrow> [] | t # q \<Rightarrow> take (ws_progress S) (bytes_of_job (ws_jobs S) t)) \<and>
    (\<forall>t n. (t, n, Inr ()) \<in> set (ws_answers S) \<longrightarrow>
       take n (bytes_of_job (ws_jobs S) t) = bytes_of_job (ws_jobs S) t) \<and>
    (\<forall>S'. \<not> ws_open S \<and> (stdin_step fail gone gives_up)\<^sup>*\<^sup>* S S' \<longrightarrow> ws_sent S' = ws_sent S)"
proof -
  have "write_inv S" using assms by (rule stdin_writes.reachable_inv)
  then show ?thesis
    using closed_steps [of fail gone gives_up S] by (simp add: write_inv_def accepted_parts_def under_way_def)
qed

text \<open>A write of two bytes whose call is given up after the first; then the stdin is closed.\<close>

definition cut_short :: "string write_system" where
  "cut_short = \<lparr>ws_open = True, ws_queue = [], ws_jobs = [0 \<mapsto> WriteJob [7, 8]], ws_progress = 0, ws_closing = {},
     ws_abandoned = {0}, ws_sent = [7, 8], ws_answers = [(0, 2, Inr ())]\<rparr>"

lemma cut_short_reachable: "reachable (\<lambda>S. S = write_system_new) (stdin_step (\<lambda>e. '''') '''' True) cut_short"
proof -
  let ?step = "stdin_step (\<lambda>e. '''') '''' True"
  let ?reach = "reachable (\<lambda>S. S = write_system_new) ?step"
  note go = reach_step [where init = "\<lambda>S. S = write_system_new" and step = ?step]
  let ?S = "write_system_new\<lparr>ws_jobs := [0 \<mapsto> WriteJob [7, 8]]\<rparr>"
  have "?reach write_system_new" by (rule reach_init) (rule refl)
  then have "?reach ?S"
    by (rule go) (use write_call [where S = write_system_new and t = 0 and j = "WriteJob [7, 8]"] in \<open>simp add: write_system_new_def\<close>)
  then have "?reach (?S\<lparr>ws_queue := [0]\<rparr>)"
    by (rule go) (use write_lock [where S = ?S and t = 0 and j = "WriteJob [7, 8]"] in \<open>simp add: write_system_new_def answered_def\<close>)
  then have "?reach (?S\<lparr>ws_queue := [0], ws_sent := [7], ws_progress := 1\<rparr>)"
    by (rule go) (use write_polls [where S = "?S\<lparr>ws_queue := [0]\<rparr>" and t = 0 and q = "[]" and bs = "[7, 8]" and r = "Inr 1"
        and fail = "\<lambda>e. ''''" and gone = "''''"] in \<open>simp add: write_system_new_def write_turn_def write_all_turn_def\<close>)
  then have "?reach (?S\<lparr>ws_queue := [0], ws_sent := [7], ws_progress := 1, ws_abandoned := {0}\<rparr>)"
    by (rule go) (use write_abandoned [where S = "?S\<lparr>ws_queue := [0], ws_sent := [7], ws_progress := 1\<rparr>" and t = 0 and j = "WriteJob [7, 8]"
        and gives_up = True]
      in \<open>simp add: write_system_new_def answered_def\<close>)
  then show "?reach cut_short"
    by (rule go) (use write_polls [where S = "?S\<lparr>ws_queue := [0], ws_sent := [7], ws_progress := 1, ws_abandoned := {0}\<rparr>"
        and t = 0 and q = "[]" and bs = "[7, 8]" and r = "Inr 1" and fail = "\<lambda>e. ''''" and gone = "''''"]
      in \<open>simp add: write_system_new_def write_turn_def write_all_turn_def finish_job_def cut_short_def numeral_2_eq_2\<close>)
qed

theorem shared_writes_whole_witness:
  "ws_sent cut_short = concat (map (\<lambda>(t, n, r). take n (bytes_of_job (ws_jobs cut_short) t)) (ws_answers cut_short)) @
     (case ws_queue cut_short of [] \<Rightarrow> [] | t # q \<Rightarrow> take (ws_progress cut_short) (bytes_of_job (ws_jobs cut_short) t)) \<and>
   take 2 (bytes_of_job (ws_jobs cut_short) 0) = bytes_of_job (ws_jobs cut_short) 0"
proof -
  have "(0, 2, Inr ()) \<in> set (ws_answers cut_short)" by (simp add: cut_short_def)
  then show ?thesis using shared_writes_whole [OF cut_short_reachable] by blast
qed

end
