(* ===== verification/Js_Objects.thy ===== *)
theory Js_Objects
  imports Js_Facade Command_Safety Shared_Streams
begin

text \<open>
  The rest of the JavaScript facade (js/bindgen/src/lib.rs): packages created and loaded, the operations of
  a sandbox on its files and packages, spawned processes and outputs. The futures of these calls are
  never dropped, so they run to their end.
\<close>

section \<open>Packages\<close>

text \<open>The deserialised definition; the maps are sorted already, so their entries are copied in order.\<close>

record js_definition =
  jd_modules :: "(string, byte list) btree"
  jd_commands :: "(string, string) btree"
  jd_entrypoint :: "string option"
  jd_files :: "(string, byte list) btree"

definition js_definition_of :: "js_definition \<Rightarrow> package_definition" where
  "js_definition_of d = \<lparr>pd_modules = bt_extend (jd_modules d) [], pd_commands = bt_extend (jd_commands d) [],
     pd_entrypoint = jd_entrypoint d, pd_files = bt_extend (jd_files d) []\<rparr>"

lemma bt_extend_self:
  assumes "bt_ok m"
  shows "bt_extend m [] = m"
proof (rule bt_unique)
  have "distinct (map fst m)" using bt_ok_distinct [OF assms] by (simp add: bt_keys_def)
  then have "map_of (rev m) = map_of m" by (simp add: map_of_inject_set rev_map [symmetric])
  then show "bt_get (bt_extend m []) k = bt_get m k" for k
    unfolding bt_get_extend by (simp add: bt_get_def split: option.split)
qed (simp_all add: assms bt_ok_extend)

lemma js_definition_copied:
  assumes "bt_ok (jd_modules d)" "bt_ok (jd_commands d)" "bt_ok (jd_files d)"
  shows "js_definition_of d = \<lparr>pd_modules = jd_modules d, pd_commands = jd_commands d,
     pd_entrypoint = jd_entrypoint d, pd_files = jd_files d\<rparr>"
  using assms by (simp add: js_definition_of_def bt_extend_self)

text \<open>\<open>ascii_lower\<close> is the standard library's; \<open>show_hash\<close> the text of a module hash.\<close>

definition ascii_lower :: "string \<Rightarrow> string" where
  "ascii_lower = map (\<lambda>c. if c \<in> set ''ABCDEFGHIJKLMNOPQRSTUVWXYZ'' then char_of (of_char c + 32 :: nat) else c)"

definition hash_browser_module :: "(byte list \<Rightarrow> 'h) \<Rightarrow> ('h \<Rightarrow> string) \<Rightarrow> byte list \<Rightarrow> string" where
  "hash_browser_module sha256 show bs = ascii_lower (show (sha256 bs))"

definition js_create_package ::
    "(string list \<Rightarrow> string) \<Rightarrow> ('b, 'f, 'spec, 'c) acquire_ops \<Rightarrow> string + js_definition \<Rightarrow> 'b client \<Rightarrow>
     (js_failure + 'b package) \<times> 'b client" where
  "js_create_package dbg A deserialized c =
     bind_st (map_err (custom_error ''INVALID_ARGUMENT'') deserialized, c) (\<lambda>d c1.
       map_err_st (sdk_failure dbg) (packages_create A (js_definition_of d) c1))"

text \<open>A load under way is \<open>None\<close>; \<open>Some None\<close> stands for a panic.\<close>

definition js_load_source ::
    "(string list \<Rightarrow> string) \<Rightarrow> 'x f64_ops \<Rightarrow> 'b package_source \<Rightarrow> nat \<Rightarrow> 'b client \<Rightarrow>
     ('x, 'b package list) select_turn list \<Rightarrow> (js_failure + 'b package) option option" where
  "js_load_source dbg F source now c turns =
     map_option (map_option (map_err (sdk_failure dbg))) (load_package F source now c turns)"

definition js_load_package where
  "js_load_package dbg F specifier = js_load_source dbg F (RegistrySource specifier)"

definition js_load_package_bytes where
  "js_load_package_bytes dbg F bs = js_load_source dbg F (BytesSource bs)"

section \<open>Sandboxes\<close>

definition js_install ::
    "(string list \<Rightarrow> string) \<Rightarrow> ('b, 'i) binary_ops \<Rightarrow> (('b, nat, nat, 'w) sandbox \<Rightarrow> ('b, nat, nat, 'w) sandbox) \<Rightarrow>
     ('b package_source \<Rightarrow> sdk_error + 'b package) \<Rightarrow> 'b package_source \<Rightarrow> ('b, 'w) js_sandbox \<Rightarrow>
     (js_failure + 'b package) \<times> ('b, 'w) js_sandbox" where
  "js_install dbg B meanwhile load source s =
     (case install_package B meanwhile (load source) (js_inner s) of
        (r, inner) \<Rightarrow> (map_err (sdk_failure dbg) r, s\<lparr>js_inner := inner\<rparr>))"

definition js_install_package where
  "js_install_package dbg B meanwhile load specifier = js_install dbg B meanwhile load (RegistrySource specifier)"

definition js_install_package_bytes where
  "js_install_package_bytes dbg B meanwhile load bs = js_install dbg B meanwhile load (BytesSource bs)"

definition js_install_package_ref where
  "js_install_package_ref dbg B meanwhile load p = js_install dbg B meanwhile load (ResolvedSource p)"

definition js_write_file ::
    "(string list \<Rightarrow> string) \<Rightarrow> ('f, 'h) vfs_ops \<Rightarrow> string \<Rightarrow> byte list \<Rightarrow> 'f \<Rightarrow> (js_failure + unit) \<times> 'f" where
  "js_write_file dbg X path bs f = map_err_st (sdk_failure dbg) (sfs_write X path bs f)"

definition js_read_file ::
    "(string list \<Rightarrow> string) \<Rightarrow> ('f, 'h) vfs_ops \<Rightarrow> string \<Rightarrow> 'f \<Rightarrow> (js_failure + byte list) \<times> 'f" where
  "js_read_file dbg X path f = map_err_st (sdk_failure dbg) (sfs_read X path f)"

definition js_mkdir ::
    "(string list \<Rightarrow> string) \<Rightarrow> ('f, 'h) vfs_ops \<Rightarrow> string \<Rightarrow> bool \<Rightarrow> 'f \<Rightarrow> (js_failure + unit) \<times> 'f" where
  "js_mkdir dbg X path recursive f =
     map_err_st (sdk_failure dbg) (if recursive then sfs_create_dir_all X path f else sfs_create_dir X path f)"

definition js_stat ::
    "(string list \<Rightarrow> string) \<Rightarrow> (nat \<Rightarrow> js_number) \<Rightarrow> ('f, 'h) vfs_ops \<Rightarrow> string \<Rightarrow> 'f \<Rightarrow> (js_failure + string \<times> js_number) \<times> 'f" where
  "js_stat dbg to_f64 X path f =
     bind_st (map_err_st (sdk_failure dbg) (sfs_stat X path f)) (\<lambda>m f1. (Inr (stat_parts to_f64 m), f1))"

definition js_remove ::
    "(string list \<Rightarrow> string) \<Rightarrow> ('f, 'h) vfs_ops \<Rightarrow> nat \<Rightarrow> string \<Rightarrow> bool \<Rightarrow> 'f \<Rightarrow> ((js_failure + unit) \<times> 'f) option" where
  "js_remove dbg X fuel path recursive f = map_option (map_err_st (sdk_failure dbg)) (sfs_remove X fuel path recursive f)"

definition js_rename ::
    "(string list \<Rightarrow> string) \<Rightarrow> ('f, 'h) vfs_ops \<Rightarrow> string \<Rightarrow> string \<Rightarrow> 'f \<Rightarrow> (js_failure + unit) \<times> 'f" where
  "js_rename dbg X src dst f = map_err_st (sdk_failure dbg) (sfs_rename X src dst f)"

section \<open>Processes and outputs\<close>

record ('w, 'o) js_process =
  jp_id :: nat
  jp_process :: "('w, 'o) process"
  jp_stdin :: "nat option"
  jp_stdout :: "nat option"
  jp_stderr :: "nat option"

definition js_process_of :: "nat \<Rightarrow> ('w, 'o) process \<Rightarrow> ('w, 'o) js_process" where
  "js_process_of pid p =
     (let (stdin, p1) = take_stdin p; (out, p2) = take_stdout p1; (err, p3) = take_stderr p2
      in \<lparr>jp_id = pid, jp_process = p3, jp_stdin = stdin, jp_stdout = out, jp_stderr = err\<rparr>)"

text \<open>\<open>go\<close> spawns the command in its sandbox. The command object is used up.\<close>

definition js_spawn ::
    "(string list \<Rightarrow> string) \<Rightarrow> ('b command \<Rightarrow> 's \<Rightarrow> (sdk_error + ('w, 'o) process) \<times> 's) \<Rightarrow> nat \<Rightarrow> 'b command option \<Rightarrow> 's \<Rightarrow>
     (js_failure + ('w, 'o) js_process) \<times> 's" where
  "js_spawn dbg go pid c s =
     bind_st (fst (take_command c), s) (\<lambda>x s1.
     bind_st (map_err_st (sdk_failure dbg) (go x s1)) (\<lambda>p s2. (Inr (js_process_of pid p), s2)))"

record js_output =
  jo_exit_code :: int
  jo_ok :: bool
  jo_reason :: string
  jo_stdout :: "byte list"
  jo_stderr :: "byte list"
  jo_stdout_truncated :: bool
  jo_stderr_truncated :: bool

definition js_output_of :: "process_output \<Rightarrow> js_output" where
  "js_output_of out = \<lparr>jo_exit_code = out_status out, jo_ok = output_ok out, jo_reason = as_str (out_reason out),
     jo_stdout = co_bytes (out_stdout out), jo_stderr = co_bytes (out_stderr out),
     jo_stdout_truncated = co_truncated (out_stdout out), jo_stderr_truncated = co_truncated (out_stderr out)\<rparr>"

definition js_wait ::
    "(string list \<Rightarrow> string) \<Rightarrow> string + int \<Rightarrow> ('w, 'o) js_process \<Rightarrow> (js_failure + js_output) \<times> ('w, 'o) js_process" where
  "js_wait dbg result jp = (case process_wait result (jp_process jp) of
     (r, p) \<Rightarrow> (map_ok js_output_of (map_err (sdk_failure dbg) r), jp\<lparr>jp_process := p\<rparr>))"

definition js_terminate ::
    "'w wasi_ops \<Rightarrow> ('w control \<Rightarrow> 'w control) \<Rightarrow> bool \<Rightarrow> js_number \<Rightarrow> 'w control \<Rightarrow> (js_failure + unit) \<times> 'w control" where
  "js_terminate P meanwhile elapsed grace_ms c =
     bind_st (validate_duration ''gracePeriodMs'' grace_ms, c) (\<lambda>_ c1. (Inr (), handle_terminate P True meanwhile elapsed c1))"

definition js_kill :: "'w wasi_ops \<Rightarrow> 'w control \<Rightarrow> 'w control" where
  "js_kill P = handle_kill P True"

text \<open>A call that reads in JavaScript is a turn of the shared stream.\<close>

definition of_read :: "(nat \<Rightarrow> 's \<Rightarrow> (io_error + byte list) \<times> 's) \<Rightarrow> usize \<Rightarrow> 's \<Rightarrow> ((io_error + byte list) \<times> 's) poll" where
  "of_read rd n s = Ready (rd n s)"

lemma js_read_turn:
  assumes "js_read_output show rd m stream = (r, stream1)" "validate_usize ''maxBytes'' m 1 = Inr n"
  shows "\<exists>r0. read_body (of_read rd) n stream = Ready (r0, stream1) \<and> r = map_err (\<lambda>e. plain_failure (show e)) r0 \<and> 0 < n"
proof -
  have "js_read_stream show rd n stream = (r, stream1)"
    using assms(1) unfolding js_read_output_def assms(2) by simp
  moreover have "1 \<le> n" using assms(2) unfolding validate_usize_Inr by simp
  ultimately show ?thesis
    by (auto simp: js_read_stream_def read_body_def of_read_def max_def
        split: option.split_asm sum.split_asm prod.split_asm if_split_asm)
qed

end
