(* ===== verification/Js_Packages.thy ===== *)
theory Js_Packages
  imports Js_Objects
begin

text \<open>
  Loading packages from JavaScript (js/bindgen/src/package_progress.rs): the sources are checked and
  copied, the host may compute a module's digest, and the load's progress goes through a channel that
  keeps the latest report to a callback. Promises and the callback are the host's.
\<close>

section \<open>Modules and their digests\<close>

record module_snapshot =
  ms_bytes :: "byte list"
  ms_digest :: bool

text \<open>\<open>has_digest\<close> says that the host has a native digest and its call gave a promise.\<close>

definition snapshot_module :: "bool \<Rightarrow> byte list \<Rightarrow> module_snapshot" where
  "snapshot_module has_digest bs =
     \<lparr>ms_bytes = bs, ms_digest = (4 \<le> length bs \<and> take 4 bs = wasm_magic \<and> has_digest)\<rparr>"

text \<open>What a pending digest comes to: the load's cancellation ends the wait first, the promise is rejected, or
  it resolves to something else than a buffer, or to a buffer.\<close>

datatype digest_wait = WaitCancelled | DigestRejected | DigestNoBuffer | DigestBuffer "byte list"

definition module_source :: "module_snapshot \<Rightarrow> digest_wait \<Rightarrow> 'b package_source" where
  "module_source snap wait =
     (case (if ms_digest snap then wait else DigestRejected) of
        DigestBuffer digest \<Rightarrow>
          if length digest = 32 then source_wasm_module (ms_bytes snap) digest else BytesSource (ms_bytes snap)
      | _ \<Rightarrow> BytesSource (ms_bytes snap))"

text \<open>A native digest only saves hashing: with a host that computes SHA-256 the load starts as it would with the
  bytes alone, whatever becomes of the wait.\<close>

lemma module_digest_agrees:
  assumes "\<And>digest. wait = DigestBuffer digest \<Longrightarrow> digest = ac_sha256 A bs"
  shows "start_load F B A sys (module_source (snapshot_module has_digest bs) wait) c progress =
    start_load F B A sys (BytesSource bs) c progress"
proof -
  have "into_package_with_digests (ac_sha256 A) (ac_parse_module A) (ac_mem_fs A) (from_wasm bs) [(''main'', ac_sha256 A bs)] False
      = into_package (ac_sha256 A) (ac_parse_module A) (ac_mem_fs A) (from_wasm bs)"
    by (rule supplied_digests_agree) (simp_all add: from_wasm_def true_digests_def bt_get_def bt_ok_def bt_keys_def)
  then have "load_module F B A bs [(''main'', ac_sha256 A bs)] False c progress = load_module F B A bs [] False c progress"
    by (simp add: load_module_def into_package_def)
  then show ?thesis
    using assms by (auto simp: module_source_def snapshot_module_def source_wasm_module_def split: digest_wait.split)
qed

section \<open>Sources\<close>

datatype js_source = JsText string | JsBytes "byte list" | JsOther

datatype checked_source = CheckedRegistry string | CheckedBytes "byte list"

fun check_source :: "js_source \<Rightarrow> js_failure + checked_source" where
  "check_source (JsText specifier) = Inr (CheckedRegistry specifier)"
| "check_source (JsBytes bs) = Inr (CheckedBytes bs)"
| "check_source JsOther = Inl (custom_error ''INVALID_PACKAGE_SOURCE'' ''Expected a registry string or Uint8Array'')"

datatype source_snapshot = SnapRegistry string | SnapModule module_snapshot

text \<open>Every module is copied, and its digest started, before any digest is awaited; \<open>digests\<close> says for each
  module whether the host starts one.\<close>

fun snapshot_source :: "(byte list \<Rightarrow> bool) \<Rightarrow> checked_source \<Rightarrow> source_snapshot" where
  "snapshot_source digests (CheckedRegistry specifier) = SnapRegistry specifier"
| "snapshot_source digests (CheckedBytes bs) = SnapModule (snapshot_module (digests bs) bs)"

text \<open>For each source in turn: whether the load was cancelled by then, and what its digest comes to.\<close>

fun await_sources ::
    "(string list \<Rightarrow> string) \<Rightarrow> source_snapshot list \<Rightarrow> (bool \<times> digest_wait) list \<Rightarrow> js_failure + 'b package_source list" where
  "await_sources dbg (s # ss) ((cancelled, wait) # ws) =
     (if cancelled then Inl (sdk_failure dbg Cancelled)
      else map_ok (Cons (case s of SnapRegistry specifier \<Rightarrow> RegistrySource specifier | SnapModule snap \<Rightarrow> module_source snap wait))
             (await_sources dbg ss ws))"
| "await_sources dbg ss ws = Inr []"

section \<open>Delivering progress\<close>

text \<open>
  The channel keeps the latest report and whether it was seen since. The callback is given up when it
  throws, when a count is not an exact JavaScript integer, or when the sender is gone. \<open>throws\<close>
  tells from the calls so far whether the last of them throws.
\<close>

record 'f watch =
  wt_latest :: "'f load_report option"
  wt_unseen :: bool
  wt_callback :: bool
  wt_calls :: "'f load_report list"

definition watch_new :: "bool \<Rightarrow> 'f watch" where
  "watch_new callback = \<lparr>wt_latest = None, wt_unseen = False, wt_callback = callback, wt_calls = []\<rparr>"

definition safe_count :: "'f download_progress \<Rightarrow> bool" where
  "safe_count d \<longleftrightarrow> dp_downloaded d \<le> max_safe_integer \<and>
     (case dp_total d of None \<Rightarrow> True | Some n \<Rightarrow> n \<le> max_safe_integer)"

definition safe_report :: "'f load_report \<Rightarrow> bool" where
  "safe_report r \<longleftrightarrow> safe_count (lr_download r) \<and> list_all (\<lambda>p. safe_count (pp_download p)) (lr_packages r)"

definition deliver :: "('f load_report list \<Rightarrow> bool) \<Rightarrow> 'f load_report \<Rightarrow> 'f watch \<Rightarrow> 'f watch" where
  "deliver throws r W =
     (if \<not> wt_callback W then W
      else if \<not> safe_report r then W\<lparr>wt_callback := False\<rparr>
      else let calls = wt_calls W @ [r] in W\<lparr>wt_calls := calls, wt_callback := \<not> throws calls\<rparr>)"

definition deliver_latest :: "('f load_report list \<Rightarrow> bool) \<Rightarrow> 'f watch \<Rightarrow> 'f watch" where
  "deliver_latest throws W =
     (let W1 = W\<lparr>wt_unseen := False\<rparr> in case wt_latest W of None \<Rightarrow> W1 | Some r \<Rightarrow> deliver throws r W1)"

text \<open>The load sends while it is polled, when there was a callback at the start.\<close>

definition send_reports :: "bool \<Rightarrow> 'f load_report list \<Rightarrow> 'f watch \<Rightarrow> 'f watch" where
  "send_reports observed rs W =
     (if observed \<and> rs \<noteq> [] then W\<lparr>wt_latest := Some (last rs), wt_unseen := True\<rparr> else W)"

text \<open>One turn of the select loop, whose branches are polled in any order: the load ends after sending
  \<open>rs\<close>, or it is still pending after sending \<open>rs\<close> and the channel is asked, or the sender is gone.\<close>

datatype ('f, 'r) load_turn = LoadEnds "'f load_report list" 'r | LoadPending "'f load_report list" | SenderGone

fun deliver_loop ::
    "('f load_report list \<Rightarrow> bool) \<Rightarrow> bool \<Rightarrow> ('f, 'r) load_turn list \<Rightarrow> 'f watch \<Rightarrow> 'f watch \<times> 'r option" where
  "deliver_loop throws observed [] W = (W, None)"
| "deliver_loop throws observed (LoadEnds rs r # ts) W = (deliver_latest throws (send_reports observed rs W), Some r)"
| "deliver_loop throws observed (LoadPending rs # ts) W =
     (let W1 = send_reports observed rs W
      in deliver_loop throws observed ts (if wt_callback W1 \<and> wt_unseen W1 then deliver_latest throws W1 else W1))"
| "deliver_loop throws observed (SenderGone # ts) W = deliver_loop throws observed ts (W\<lparr>wt_callback := False\<rparr>)"

text \<open>The whole call; \<open>early\<close> are the checks' failures.\<close>

definition js_load_packages ::
    "(string list \<Rightarrow> string) \<Rightarrow> (byte list \<Rightarrow> bool) \<Rightarrow> ('f load_report list \<Rightarrow> bool) \<Rightarrow> js_source list \<Rightarrow> bool \<Rightarrow>
     (bool \<times> digest_wait) list \<Rightarrow> ('b package_source list \<Rightarrow> ('f, sdk_error + 'b package list) load_turn list) \<Rightarrow>
     'f load_report list \<times> (js_failure + 'b package list) option" where
  "js_load_packages dbg digests throws sources callback waits load =
     (case bind_res (collect_res (map check_source sources)) (\<lambda>checked.
         await_sources dbg (map (snapshot_source digests) checked) waits) of
        Inl e \<Rightarrow> ([], Some (Inl e))
      | Inr ready \<Rightarrow> (case deliver_loop throws callback (load ready) (watch_new callback) of
          (W, res) \<Rightarrow> (wt_calls W, map_option (map_err (sdk_failure dbg)) res)))"

section \<open>What the callback gets\<close>

fun sent_reports :: "('f, 'r) load_turn list \<Rightarrow> 'f load_report list" where
  "sent_reports [] = []"
| "sent_reports (LoadEnds rs r # ts) = rs"
| "sent_reports (LoadPending rs # ts) = rs @ sent_reports ts"
| "sent_reports (SenderGone # ts) = sent_reports ts"

fun load_result :: "('f, 'r) load_turn list \<Rightarrow> 'r option" where
  "load_result [] = None"
| "load_result (LoadEnds rs r # ts) = Some r"
| "load_result (t # ts) = load_result ts"

lemma deliver_loop_result: "snd (deliver_loop throws observed ts W) = load_result ts"
  by (induction ts arbitrary: W rule: load_result.induct) (auto simp: Let_def)

definition in_order_of :: "'a list \<Rightarrow> 'a list \<Rightarrow> bool" where
  "in_order_of xs ys \<longleftrightarrow> (\<exists>ns. sorted ns \<and> list_all (\<lambda>n. n < length ys) ns \<and> xs = map (nth ys) ns)"

definition last_call_throws :: "('a list \<Rightarrow> bool) \<Rightarrow> 'a list \<Rightarrow> bool \<Rightarrow> bool" where
  "last_call_throws throws calls alive \<longleftrightarrow>
     (\<forall>xs x ys. calls = xs @ x # ys \<and> throws (xs @ [x]) \<longrightarrow> ys = [] \<and> \<not> alive)"

lemma in_order_more: "in_order_of xs ys \<Longrightarrow> in_order_of xs (ys @ zs)"
  unfolding in_order_of_def
  by (erule exE, rule_tac x = ns in exI) (auto simp: list_all_iff nth_append)

lemma in_order_last: "in_order_of xs ys \<Longrightarrow> ys \<noteq> [] \<Longrightarrow> in_order_of (xs @ [last ys]) ys"
  unfolding in_order_of_def
  by (erule exE, rule_tac x = "ns @ [length ys - 1]" in exI) (auto simp: list_all_iff sorted_append last_conv_nth)

lemma last_call_snoc: "last_call_throws throws calls True \<Longrightarrow> last_call_throws throws (calls @ [x]) (\<not> throws (calls @ [x]))"
  unfolding last_call_throws_def
proof (intro allI impI)
  fix xs y ys assume old: "\<forall>xs x ys. calls = xs @ x # ys \<and> throws (xs @ [x]) \<longrightarrow> ys = [] \<and> \<not> True"
    and split: "calls @ [x] = xs @ y # ys \<and> throws (xs @ [y])"
  show "ys = [] \<and> \<not> \<not> throws (calls @ [x])"
  proof (cases ys rule: rev_cases)
    case Nil
    then show ?thesis using split by auto
  next
    case (snoc zs z)
    then have "calls = xs @ y # zs" using split by auto
    then show ?thesis using old split by blast
  qed
qed

definition watch_inv :: "('f load_report list \<Rightarrow> bool) \<Rightarrow> 'f load_report list \<Rightarrow> 'f watch \<Rightarrow> bool" where
  "watch_inv throws prior W \<longleftrightarrow>
     wt_latest W = (if prior = [] then None else Some (last prior)) \<and> (wt_unseen W \<longrightarrow> prior \<noteq> []) \<and>
     in_order_of (wt_calls W) prior \<and> last_call_throws throws (wt_calls W) (wt_callback W) \<and>
     list_all safe_report (wt_calls W) \<and>
     (wt_callback W \<and> \<not> wt_unseen W \<and> prior \<noteq> [] \<longrightarrow> wt_calls W \<noteq> [] \<and> last (wt_calls W) = last prior)"

lemma watch_inv_new: "watch_inv throws [] (watch_new callback)"
  by (simp add: watch_inv_def watch_new_def in_order_of_def last_call_throws_def)

lemma watch_inv_send: "watch_inv throws prior W \<Longrightarrow> watch_inv throws (prior @ rs) (send_reports True rs W)"
  unfolding watch_inv_def send_reports_def using in_order_more [of "wt_calls W" prior rs] by auto

lemma last_call_dead: "last_call_throws throws calls alive \<Longrightarrow> last_call_throws throws calls False"
  unfolding last_call_throws_def by blast

lemma watch_inv_gone: "watch_inv throws prior W \<Longrightarrow> watch_inv throws prior (W\<lparr>wt_callback := False\<rparr>)"
  unfolding watch_inv_def by (auto intro: last_call_dead)

lemma watch_inv_deliver:
  assumes "watch_inv throws prior W"
  shows "watch_inv throws prior (deliver_latest throws W)"
proof (cases "wt_callback W \<and> prior \<noteq> []")
  case True
  then have latest: "wt_latest W = Some (last prior)" and ne: "prior \<noteq> []" and alive: "wt_callback W"
    and order: "in_order_of (wt_calls W) prior" and throw: "last_call_throws throws (wt_calls W) True"
    and safe: "list_all safe_report (wt_calls W)"
    using assms unfolding watch_inv_def by simp_all
  show ?thesis
  proof (cases "safe_report (last prior)")
    case True
    then show ?thesis
      using in_order_last [OF order ne] last_call_snoc [OF throw, of "last prior"] ne safe latest alive
      unfolding watch_inv_def deliver_latest_def deliver_def Let_def by simp
  next
    case False
    then show ?thesis
      using order last_call_dead [OF throw] ne safe latest alive
      unfolding watch_inv_def deliver_latest_def deliver_def Let_def by simp
  qed
next
  case False
  then show ?thesis
    using assms unfolding watch_inv_def deliver_latest_def deliver_def Let_def by auto
qed

lemma watch_inv_loop:
  "watch_inv throws prior W \<Longrightarrow> deliver_loop throws True ts W = (W1, res) \<Longrightarrow> watch_inv throws (prior @ sent_reports ts) W1"
proof (induction ts arbitrary: prior W rule: sent_reports.induct)
  case (2 rs r ts)
  then show ?case by (auto intro: watch_inv_deliver watch_inv_send)
next
  case (3 rs ts)
  note sending = watch_inv_send [OF "3.prems"(1), of rs]
  show ?case
  proof (cases "wt_callback (send_reports True rs W) \<and> wt_unseen (send_reports True rs W)")
    case True
    then show ?thesis
      using "3.IH" [OF watch_inv_deliver [OF sending]] "3.prems"(2) by (simp add: Let_def)
  next
    case False
    show ?thesis using "3.IH" [OF sending] "3.prems"(2) by (simp add: Let_def if_not_P [OF False])
  qed
next
  case (4 ts)
  then show ?case using watch_inv_gone by fastforce
qed auto

text \<open>A callback that never throws and safe counts are never given up.\<close>

lemma deliver_keeps:
  assumes "\<And>calls. \<not> throws calls" "\<And>r. wt_latest W = Some r \<Longrightarrow> safe_report r" "wt_callback W"
  shows "wt_callback (deliver_latest throws W)"
  using assms by (auto simp: deliver_latest_def deliver_def Let_def split: option.split)

lemma deliver_seen: "\<not> wt_unseen (deliver_latest throws W)"
  by (auto simp: deliver_latest_def deliver_def Let_def split: option.split)

lemma latest_safe: "watch_inv throws prior W \<Longrightarrow> list_all safe_report prior \<Longrightarrow> wt_latest W = Some r \<Longrightarrow> safe_report r"
  unfolding watch_inv_def by (auto simp: list_all_iff split: if_split_asm)

lemma loop_keeps:
  "(\<And>calls. \<not> throws calls) \<Longrightarrow> watch_inv throws prior W \<Longrightarrow> list_all safe_report (prior @ sent_reports ts) \<Longrightarrow>
    SenderGone \<notin> set ts \<Longrightarrow> wt_callback W \<Longrightarrow> deliver_loop throws True ts W = (W1, res) \<Longrightarrow>
    wt_callback W1 \<and> (res \<noteq> None \<longrightarrow> \<not> wt_unseen W1)"
proof (induction ts arbitrary: prior W rule: sent_reports.induct)
  case (2 rs r ts)
  have inv: "watch_inv throws (prior @ rs) (send_reports True rs W)" by (rule watch_inv_send [OF 2(2)])
  have alive: "wt_callback (send_reports True rs W)" using 2(5) by (simp add: send_reports_def)
  have "safe_report q" if "wt_latest (send_reports True rs W) = Some q" for q
    using 2(3) by (intro latest_safe [OF inv _ that]) simp
  then have "wt_callback (deliver_latest throws (send_reports True rs W))" by (rule deliver_keeps [OF 2(1) _ alive])
  then show ?case using 2(6) deliver_seen [of throws "send_reports True rs W"] by auto
next
  case (3 rs ts)
  let ?W = "send_reports True rs W"
  have inv: "watch_inv throws (prior @ rs) ?W" by (rule watch_inv_send [OF 3(3)])
  have alive: "wt_callback ?W" using 3(6) by (simp add: send_reports_def)
  have "safe_report q" if "wt_latest ?W = Some q" for q
    using 3(4) by (intro latest_safe [OF inv _ that]) simp
  then have kept: "wt_callback (deliver_latest throws ?W)" by (rule deliver_keeps [OF 3(2) _ alive])
  have rest: "list_all safe_report ((prior @ rs) @ sent_reports ts)" "SenderGone \<notin> set ts" using 3(4,5) by auto
  show ?case
  proof (cases "wt_unseen ?W")
    case True
    then show ?thesis using 3(1) [OF 3(2) watch_inv_deliver [OF inv] rest kept] 3(7) alive by (simp add: Let_def)
  next
    case False
    then show ?thesis using 3(1) [OF 3(2) inv rest alive] 3(7) by (simp add: Let_def)
  qed
qed auto

text \<open>C15: The progress a JavaScript load reports is in order and not stale, and never changes its result. The
  callback gets reports the load sent, in the order of sending (it may miss some, and see one again); after
  a call that throws it is never called again, nor with a count that JavaScript cannot represent; when
  the load ends, a callback that did not throw has last seen the load's last report. The load's result is
  the same with or without a callback.\<close>

theorem js_progress_delivered:
  assumes "deliver_loop throws True ts (watch_new True) = (W, res)"
  shows "in_order_of (wt_calls W) (sent_reports ts) \<and>
    (\<forall>xs x ys. wt_calls W = xs @ x # ys \<and> throws (xs @ [x]) \<longrightarrow> ys = []) \<and>
    list_all safe_report (wt_calls W) \<and>
    (res \<noteq> None \<and> (\<forall>calls. \<not> throws calls) \<and> list_all safe_report (sent_reports ts) \<and> SenderGone \<notin> set ts \<and>
       sent_reports ts \<noteq> [] \<longrightarrow> wt_calls W \<noteq> [] \<and> last (wt_calls W) = last (sent_reports ts)) \<and>
    (\<forall>throws' observed callback. snd (deliver_loop throws' observed ts (watch_new callback)) = res)"
proof -
  have inv: "watch_inv throws (sent_reports ts) W"
    using watch_inv_loop [OF watch_inv_new assms] by simp
  have "wt_callback W \<and> (res \<noteq> None \<longrightarrow> \<not> wt_unseen W)"
    if "\<forall>calls. \<not> throws calls" "list_all safe_report (sent_reports ts)" "SenderGone \<notin> set ts"
    using loop_keeps [where prior = "[]" and W = "watch_new True", OF _ watch_inv_new _ that(3) _ assms] that(1,2)
    by (simp add: watch_new_def)
  then have "res \<noteq> None \<and> (\<forall>calls. \<not> throws calls) \<and> list_all safe_report (sent_reports ts) \<and> SenderGone \<notin> set ts \<and>
      sent_reports ts \<noteq> [] \<longrightarrow> wt_calls W \<noteq> [] \<and> last (wt_calls W) = last (sent_reports ts)"
    using inv by (auto simp: watch_inv_def)
  moreover have "snd (deliver_loop throws' observed ts (watch_new callback)) = res" for throws' observed callback
    using assms deliver_loop_result [of throws True ts "watch_new True"] by (simp add: deliver_loop_result)
  ultimately show ?thesis using inv unfolding watch_inv_def last_call_throws_def by blast
qed

text \<open>A load that reports one, two and three bytes; the second is overwritten before the callback is asked.\<close>

definition sample_report :: "nat \<Rightarrow> string load_report" where
  "sample_report n = \<lparr>lr_phase = Downloading,
     lr_download = \<lparr>dp_downloaded = n, dp_total = None, dp_percent = None\<rparr>, lr_packages = []\<rparr>"

definition sample_turns :: "(string, bool) load_turn list" where
  "sample_turns = [LoadPending [sample_report 1], LoadPending [sample_report 2, sample_report 3], LoadEnds [] True]"

lemma sample_delivery:
  "deliver_loop (\<lambda>calls. False) True sample_turns (watch_new True) =
     (\<lparr>wt_latest = Some (sample_report 3), wt_unseen = False, wt_callback = True,
       wt_calls = [sample_report 1, sample_report 3, sample_report 3]\<rparr>, Some True)"
  by (simp add: sample_turns_def sample_report_def watch_new_def send_reports_def deliver_latest_def deliver_def
      safe_report_def safe_count_def max_safe_integer_def Let_def)

theorem js_progress_delivered_witness:
  "in_order_of [sample_report 1, sample_report 3, sample_report 3] (sent_reports sample_turns) \<and>
    last [sample_report 1, sample_report 3, sample_report 3] = last (sent_reports sample_turns) \<and>
    snd (deliver_loop (\<lambda>calls. True) True sample_turns (watch_new True)) = Some True"
proof -
  have safe: "list_all safe_report (sent_reports sample_turns)" 
    and sent: "sent_reports sample_turns = [sample_report 1, sample_report 2, sample_report 3]"
    and there: "SenderGone \<notin> set sample_turns"
    by (simp_all add: sample_turns_def sample_report_def safe_report_def safe_count_def max_safe_integer_def)
  show ?thesis
    using js_progress_delivered [OF sample_delivery] safe sent there by simp
qed

end
