(* ===== verification/Native_Facade.thy ===== *)
theory Native_Facade
  imports Client Command_Safety Shared_Streams
begin

text \<open>
  The native facade (rust/uniffi/src: lib.rs, error.rs, runtime.rs, package_progress.rs), which other
  languages call: its errors, the runtime its calls run on, the conversions of its options and
  results, the client, package, sandbox, command, process, filesystem and port objects, the locks
  through which concurrent calls share a process's streams, and loading packages with a
  cancellation. A hash map is the list of its entries in the order of iteration; maps of the SDK are
  those of Ordered_Map. A caller may give up a call at any time; its task then runs on.
\<close>

section \<open>Errors and the runtime\<close>

datatype native_error = Failure (failure_code: string) (failure_message: string)

definition invalid_argument :: "string \<Rightarrow> native_error" where
  "invalid_argument message = Failure ''INVALID_ARGUMENT'' message"

definition task_failure :: "string \<Rightarrow> native_error" where
  "task_failure message = Failure ''TASK_ERROR'' message"

definition of_sdk_error :: "(string list \<Rightarrow> string) \<Rightarrow> sdk_error \<Rightarrow> native_error" where
  "of_sdk_error dbg e = Failure (error_code e) (error_text dbg e)"

definition of_io_error :: "(io_error \<Rightarrow> string) \<Rightarrow> io_error \<Rightarrow> native_error" where
  "of_io_error show e = Failure ''IO_ERROR'' (show e)"

definition native_display :: "native_error \<Rightarrow> string" where
  "native_display e = failure_message e"

definition context_new :: "string + unit \<Rightarrow> native_error + unit" where
  "context_new built = map_err (\<lambda>e. task_failure (''unable to create the SDK runtime: '' @ e)) built"

text \<open>Every call runs as a task of the runtime. \<open>broken\<close> is \<open>Some (e, s')\<close> when the task panics or
  is cancelled, with the text of the join error and the state it leaves.\<close>

definition context_sdk ::
    "(string list \<Rightarrow> string) \<Rightarrow> (string \<times> 's) option \<Rightarrow> ('s \<Rightarrow> (sdk_error + 'a) \<times> 's) \<Rightarrow> 's \<Rightarrow> (native_error + 'a) \<times> 's" where
  "context_sdk dbg broken task s = (case broken of
     Some (e, s1) \<Rightarrow> (Inl (task_failure (''SDK task failed: '' @ e)), s1)
   | None \<Rightarrow> map_err_st (of_sdk_error dbg) (task s))"

definition context_io ::
    "(io_error \<Rightarrow> string) \<Rightarrow> (string \<times> 's) option \<Rightarrow> ('s \<Rightarrow> (io_error + 'a) \<times> 's) \<Rightarrow> 's \<Rightarrow> (native_error + 'a) \<times> 's" where
  "context_io show broken task s = (case broken of
     Some (e, s1) \<Rightarrow> (Inl (task_failure (''stream task failed: '' @ e)), s1)
   | None \<Rightarrow> map_err_st (of_io_error show) (task s))"

section \<open>Options and results\<close>

definition checked_usize :: "string \<Rightarrow> nat \<Rightarrow> native_error + usize" where
  "checked_usize name v =
     (if v \<le> usize_max then Inr v
      else Inl (invalid_argument (''`'' @ name @ ''` exceeds this target's addressable size'')))"

definition checked_read_size :: "nat \<Rightarrow> native_error + usize" where
  "checked_read_size v =
     (if v = 0 then Inl (invalid_argument ''`max_bytes` must be greater than zero'')
      else checked_usize ''max_bytes'' v)"

lemma checked_read_size_Inr: "checked_read_size v = Inr n \<longleftrightarrow> n = v \<and> 0 < v \<and> v \<le> usize_max"
  by (auto simp: checked_read_size_def checked_usize_def)

datatype network_mode = NmDisabled | NmHost

fun network_of :: "network_mode \<Rightarrow> network_policy" where
  "network_of NmDisabled = Disabled"
| "network_of NmHost = HostNet"

datatype input_mode = ImClosed | ImPipe

fun input_of :: "input_mode \<Rightarrow> stdio" where
  "input_of ImClosed = NullMode"
| "input_of ImPipe = Piped"

datatype output_mode = OmPipe | OmCapture | OmDiscard

fun output_of :: "output_mode \<Rightarrow> stdio" where
  "output_of OmPipe = Piped"
| "output_of OmCapture = CaptureMode"
| "output_of OmDiscard = NullMode"

datatype process_exit_reason = PeExited | PeTerminated | PeTimeout | PeUnknown

record native_output =
  no_exit_code :: int
  no_reason :: process_exit_reason
  no_stdout :: "byte list"
  no_stderr :: "byte list"
  no_stdout_truncated :: bool
  no_stderr_truncated :: bool

definition native_output_of :: "process_output \<Rightarrow> native_output" where
  "native_output_of out =
     \<lparr>no_exit_code = out_status out,
      no_reason = (case out_reason out of Exited \<Rightarrow> PeExited | Terminated \<Rightarrow> PeTerminated | TimedOut \<Rightarrow> PeTimeout),
      no_stdout = co_bytes (out_stdout out), no_stderr = co_bytes (out_stderr out),
      no_stdout_truncated = co_truncated (out_stdout out), no_stderr_truncated = co_truncated (out_stderr out)\<rparr>"

datatype file_kind = FkFile | FkDirectory

fun file_kind_of :: "file_type \<Rightarrow> file_kind" where
  "file_kind_of RegularFile = FkFile"
| "file_kind_of DirectoryFileType = FkDirectory"

record run_options =
  ro_input :: "byte list option"
  ro_timeout_ms :: "nat option"
  ro_output_bytes :: "nat option"

record spawn_options =
  sp_timeout_ms :: "nat option"
  sp_output_bytes :: "nat option"
  sp_stdin :: input_mode
  sp_stdout :: output_mode
  sp_stderr :: output_mode

text \<open>The in-memory definition of a package: its hash maps are collected into sorted maps.\<close>

record native_definition =
  nd_modules :: "(string \<times> byte list) list"
  nd_commands :: "(string \<times> string) list"
  nd_entrypoint :: "string option"
  nd_files :: "(string \<times> byte list) list"

definition definition_of :: "native_definition \<Rightarrow> package_definition" where
  "definition_of d = \<lparr>pd_modules = bt_extend (nd_modules d) [], pd_commands = bt_extend (nd_commands d) [],
     pd_entrypoint = nd_entrypoint d, pd_files = bt_extend (nd_files d) []\<rparr>"

section \<open>Clients and packages\<close>

record native_client_options =
  cn_cache_root :: "string option"
  cn_output_bytes :: "nat option"

definition default_output_bytes :: nat where
  "default_output_bytes = 16 * 1024 * 1024"

definition native_new ::
    "(string list \<Rightarrow> string) \<Rightarrow> host_ops \<Rightarrow> string + unit \<Rightarrow> native_client_options \<Rightarrow> native_error + 'b client \<times> cache_layout" where
  "native_new dbg H built options =
     bind_res (context_new built) (\<lambda>_.
     bind_res (checked_usize ''output_bytes''
         (case cn_output_bytes options of None \<Rightarrow> default_output_bytes | Some n \<Rightarrow> n)) (\<lambda>n.
       let config = config_default\<lparr>cfg_output_bytes := n\<rparr>;
           config1 = (case cn_cache_root options of None \<Rightarrow> config | Some root \<Rightarrow> config\<lparr>cfg_cache_root := root\<rparr>)
       in map_err (of_sdk_error dbg) (with_config H config1)))"

definition native_create_package ::
    "(string list \<Rightarrow> string) \<Rightarrow> ('b, 'f, 'spec, 'c) acquire_ops \<Rightarrow> (string \<times> 'b client) option \<Rightarrow> native_definition \<Rightarrow>
     'b client \<Rightarrow> (native_error + 'b package) \<times> 'b client" where
  "native_create_package dbg A broken d = context_sdk dbg broken (packages_create A (definition_of d))"

text \<open>A load under way is \<open>None\<close>; a panic of the load, whose text is \<open>panic\<close>, ends its task.\<close>

definition native_load ::
    "(string list \<Rightarrow> string) \<Rightarrow> 'x f64_ops \<Rightarrow> string \<Rightarrow> 'b package_source \<Rightarrow> nat \<Rightarrow> 'b client \<Rightarrow>
     ('x, 'b package list) select_turn list \<Rightarrow> (native_error + 'b package) option" where
  "native_load dbg F panic source now c turns =
     map_option (\<lambda>ended. case ended of
         None \<Rightarrow> Inl (task_failure (''SDK task failed: '' @ panic))
       | Some r \<Rightarrow> map_err (of_sdk_error dbg) r) (load_package F source now c turns)"

definition native_load_registry where
  "native_load_registry dbg F panic specifier = native_load dbg F panic (RegistrySource specifier)"

definition native_load_path where
  "native_load_path dbg F panic path = native_load dbg F panic (PathSource path)"

definition native_load_bytes where
  "native_load_bytes dbg F panic bs = native_load dbg F panic (BytesSource bs)"

definition native_builder ::
    "'b package list \<Rightarrow> (string \<times> byte list) list \<Rightarrow> (string \<times> string) list \<Rightarrow> network_mode \<Rightarrow> ('b, 'v, 'n) sandbox_builder" where
  "native_builder packages files env network =
     fold (\<lambda>(key, val). builder_env key val) env
       (fold (\<lambda>(path, contents). builder_file path contents) files
         (fold (\<lambda>p. builder_package (ResolvedSource p)) packages
           (builder_network (network_of network) builder_new)))"

definition native_create_sandbox ::
    "(string list \<Rightarrow> string) \<Rightarrow> ('b, 'i) binary_ops \<Rightarrow> ('f, 'h) vfs_ops \<Rightarrow> (string \<times> 'f) option \<Rightarrow> bool \<Rightarrow>
     sdk_error + 'b package list \<Rightarrow> 'b package list \<Rightarrow> (string \<times> byte list) list \<Rightarrow> (string \<times> string) list \<Rightarrow> network_mode \<Rightarrow>
     'f \<Rightarrow> (native_error + ('b, 'v, 'n, 'w) sandbox) \<times> 'f" where
  "native_create_sandbox dbg B X broken client_closed loaded packages files env network =
     context_sdk dbg broken (create_sandbox B X client_closed loaded (native_builder packages files env network))"

definition native_close_client ::
    "(string list \<Rightarrow> string) \<Rightarrow> (string \<times> 'b client) option \<Rightarrow> 'b client \<Rightarrow> (native_error + unit) \<times> 'b client" where
  "native_close_client dbg broken = context_sdk dbg broken (\<lambda>c. (Inr (), client_shutdown c))"

definition native_command_ref ::
    "(string list \<Rightarrow> string) \<Rightarrow> ('b, 'i) binary_ops \<Rightarrow> 'b package \<Rightarrow> string \<Rightarrow> native_error + 'b command_ref" where
  "native_command_ref dbg B p name = map_err (of_sdk_error dbg) (package_command_ref B p name)"

section \<open>Sandboxes and commands\<close>

definition configure_command ::
    "'b command \<Rightarrow> string list \<Rightarrow> string option \<Rightarrow> (string \<times> string) list \<Rightarrow> 'b command" where
  "configure_command c args cwd env =
     fold (\<lambda>(key, val). command_env key val) env
       (case cwd of None \<Rightarrow> command_args args c | Some path \<Rightarrow> command_current_dir path (command_args args c))"

definition native_command_name :: "string \<Rightarrow> string list \<Rightarrow> string option \<Rightarrow> (string \<times> string) list \<Rightarrow> 'b command" where
  "native_command_name name = configure_command (command_new (NameSel name))"

definition native_command_package :: "'b package \<Rightarrow> string list \<Rightarrow> string option \<Rightarrow> (string \<times> string) list \<Rightarrow> 'b command" where
  "native_command_package p = configure_command (command_new (PackageSel p))"

definition native_command_of_ref :: "'b command_ref \<Rightarrow> string list \<Rightarrow> string option \<Rightarrow> (string \<times> string) list \<Rightarrow> 'b command" where
  "native_command_of_ref r = configure_command (command_new (RefSel r))"

text \<open>\<open>load\<close> is the client's loading of the package; the sandbox may change \<open>meanwhile\<close>.\<close>

definition native_install ::
    "(string list \<Rightarrow> string) \<Rightarrow> ('b, 'i) binary_ops \<Rightarrow> (string \<times> ('b, 'v, 'n, 'w) sandbox) option \<Rightarrow>
     (('b, 'v, 'n, 'w) sandbox \<Rightarrow> ('b, 'v, 'n, 'w) sandbox) \<Rightarrow> ('b package_source \<Rightarrow> sdk_error + 'b package) \<Rightarrow>
     'b package_source \<Rightarrow> ('b, 'v, 'n, 'w) sandbox \<Rightarrow> (native_error + 'b package) \<times> ('b, 'v, 'n, 'w) sandbox" where
  "native_install dbg B broken meanwhile load source =
     context_sdk dbg broken (install_package B meanwhile (load source))"

definition native_install_registry where
  "native_install_registry dbg B broken meanwhile load specifier =
     native_install dbg B broken meanwhile load (RegistrySource specifier)"

definition native_install_path where
  "native_install_path dbg B broken meanwhile load path = native_install dbg B broken meanwhile load (PathSource path)"

definition native_install_bytes where
  "native_install_bytes dbg B broken meanwhile load bs = native_install dbg B broken meanwhile load (BytesSource bs)"

definition native_install_ref where
  "native_install_ref dbg B broken meanwhile load p = native_install dbg B broken meanwhile load (ResolvedSource p)"

definition native_close_sandbox ::
    "(string list \<Rightarrow> string) \<Rightarrow> 'w wasi_ops \<Rightarrow> (string \<times> ('b, 'v, 'n, 'w) sandbox) option \<Rightarrow>
     ('b, 'v, 'n, 'w) sandbox \<Rightarrow> (native_error + unit) \<times> ('b, 'v, 'n, 'w) sandbox" where
  "native_close_sandbox dbg P broken = context_sdk dbg broken (\<lambda>s. (Inr (), close_sandbox P False s))"

definition apply_common_options :: "nat option \<Rightarrow> nat option \<Rightarrow> 'b command \<Rightarrow> native_error + 'b command" where
  "apply_common_options timeout_ms output_bytes c =
     (let c1 = (case timeout_ms of None \<Rightarrow> c | Some ms \<Rightarrow> command_timeout ms c)
      in case output_bytes of
           None \<Rightarrow> Inr c1
         | Some n \<Rightarrow> map_ok (\<lambda>limit. command_output_bytes limit c1) (checked_usize ''output_bytes'' n))"

text \<open>\<open>go\<close> is the run of the configured command in its sandbox.\<close>

definition run_configured :: "run_options \<Rightarrow> 'b command \<Rightarrow> native_error + 'b command" where
  "run_configured options c = map_ok (\<lambda>c1. case ro_input options of None \<Rightarrow> c1 | Some bs \<Rightarrow> command_input bs c1)
     (apply_common_options (ro_timeout_ms options) (ro_output_bytes options) c)"

definition native_run ::
    "(string list \<Rightarrow> string) \<Rightarrow> (string \<times> 's) option \<Rightarrow> ('b command \<Rightarrow> 's \<Rightarrow> (sdk_error + process_output) \<times> 's) \<Rightarrow>
     run_options \<Rightarrow> 'b command \<Rightarrow> 's \<Rightarrow> (native_error + native_output) \<times> 's" where
  "native_run dbg broken go options c s =
     bind_st (run_configured options c, s) (\<lambda>c1 s1.
     bind_st (context_sdk dbg broken (go c1) s1) (\<lambda>out s2. (Inr (native_output_of out), s2)))"

section \<open>Processes\<close>

text \<open>The streams are taken out of the process, which a lock of its own protects.\<close>

record ('w, 'o) native_process =
  np_id :: nat
  np_process :: "('w, 'o) process"
  np_stdin :: "nat option"
  np_stdout :: "nat option"
  np_stderr :: "nat option"
  np_has_stdin :: bool
  np_has_stdout :: bool
  np_has_stderr :: bool

definition native_process_of :: "nat \<Rightarrow> spawn_options \<Rightarrow> ('w, 'o) process \<Rightarrow> ('w, 'o) native_process" where
  "native_process_of pid options p =
     (let (stdin, p1) = take_stdin p; (out, p2) = take_stdout p1; (err, p3) = take_stderr p2
      in \<lparr>np_id = pid, np_process = p3, np_stdin = stdin, np_stdout = out, np_stderr = err,
          np_has_stdin = (sp_stdin options = ImPipe), np_has_stdout = (sp_stdout options = OmPipe),
          np_has_stderr = (sp_stderr options = OmPipe)\<rparr>)"

definition spawn_configured :: "spawn_options \<Rightarrow> 'b command \<Rightarrow> native_error + 'b command" where
  "spawn_configured options c =
     map_ok (\<lambda>c1. command_stderr (output_of (sp_stderr options)) (command_stdout (output_of (sp_stdout options))
         (command_stdin (input_of (sp_stdin options)) c1)))
       (apply_common_options (sp_timeout_ms options) (sp_output_bytes options) c)"

definition native_spawn ::
    "(string list \<Rightarrow> string) \<Rightarrow> (string \<times> 's) option \<Rightarrow> ('b command \<Rightarrow> 's \<Rightarrow> (sdk_error + ('w, 'o) process) \<times> 's) \<Rightarrow> nat \<Rightarrow>
     spawn_options \<Rightarrow> 'b command \<Rightarrow> 's \<Rightarrow> (native_error + ('w, 'o) native_process) \<times> 's" where
  "native_spawn dbg broken go pid options c s =
     bind_st (spawn_configured options c, s) (\<lambda>c1 s1.
     bind_st (context_sdk dbg broken (go c1) s1) (\<lambda>p s2. (Inr (native_process_of pid options p), s2)))"

definition native_wait ::
    "(string list \<Rightarrow> string) \<Rightarrow> (string \<times> ('w, 'o) process) option \<Rightarrow> string + int \<Rightarrow> ('w, 'o) process \<Rightarrow>
     (native_error + native_output) \<times> ('w, 'o) process" where
  "native_wait dbg broken result p =
     bind_st (context_sdk dbg broken (process_wait result) p) (\<lambda>out p1. (Inr (native_output_of out), p1))"

definition native_terminate ::
    "(string list \<Rightarrow> string) \<Rightarrow> 'w wasi_ops \<Rightarrow> (string \<times> 'w control) option \<Rightarrow> ('w control \<Rightarrow> 'w control) \<Rightarrow> bool \<Rightarrow>
     'w control \<Rightarrow> (native_error + unit) \<times> 'w control" where
  "native_terminate dbg P broken meanwhile elapsed =
     context_sdk dbg broken (\<lambda>c. (Inr (), handle_terminate P False meanwhile elapsed c))"

definition native_kill :: "'w wasi_ops \<Rightarrow> 'w control \<Rightarrow> 'w control" where
  "native_kill P = handle_kill P False"

section \<open>Files and ports\<close>

record file_stat =
  fs_kind :: file_kind
  fs_size :: nat

definition native_fs_write ::
    "(string list \<Rightarrow> string) \<Rightarrow> ('f, 'h) vfs_ops \<Rightarrow> (string \<times> 'f) option \<Rightarrow> string \<Rightarrow> byte list \<Rightarrow> 'f \<Rightarrow> (native_error + unit) \<times> 'f" where
  "native_fs_write dbg X broken path bs = context_sdk dbg broken (sfs_write X path bs)"

definition native_fs_read ::
    "(string list \<Rightarrow> string) \<Rightarrow> ('f, 'h) vfs_ops \<Rightarrow> (string \<times> 'f) option \<Rightarrow> string \<Rightarrow> 'f \<Rightarrow> (native_error + byte list) \<times> 'f" where
  "native_fs_read dbg X broken path = context_sdk dbg broken (sfs_read X path)"

definition native_fs_mkdir ::
    "(string list \<Rightarrow> string) \<Rightarrow> ('f, 'h) vfs_ops \<Rightarrow> (string \<times> 'f) option \<Rightarrow> string \<Rightarrow> bool \<Rightarrow> 'f \<Rightarrow> (native_error + unit) \<times> 'f" where
  "native_fs_mkdir dbg X broken path recursive =
     context_sdk dbg broken (if recursive then sfs_create_dir_all X path else sfs_create_dir X path)"

definition native_stat_of :: "file_metadata \<Rightarrow> file_stat" where
  "native_stat_of m = \<lparr>fs_kind = file_kind_of (fm_file_type m), fs_size = fm_len m\<rparr>"

definition native_fs_read_dir ::
    "(string list \<Rightarrow> string) \<Rightarrow> ('f, 'h) vfs_ops \<Rightarrow> (string \<times> 'f) option \<Rightarrow> string \<Rightarrow> 'f \<Rightarrow>
     (native_error + (string \<times> file_stat) list) \<times> 'f" where
  "native_fs_read_dir dbg X broken path f =
     bind_st (context_sdk dbg broken (sfs_read_dir X path) f) (\<lambda>entries f1.
       (Inr (map (\<lambda>e. (de_name e, native_stat_of (de_metadata e))) entries), f1))"

definition native_fs_stat ::
    "(string list \<Rightarrow> string) \<Rightarrow> ('f, 'h) vfs_ops \<Rightarrow> (string \<times> 'f) option \<Rightarrow> string \<Rightarrow> 'f \<Rightarrow> (native_error + file_stat) \<times> 'f" where
  "native_fs_stat dbg X broken path f =
     bind_st (context_sdk dbg broken (sfs_stat X path) f) (\<lambda>m f1. (Inr (native_stat_of m), f1))"

text \<open>With too little fuel for the tree there is no answer.\<close>

definition native_fs_remove ::
    "(string list \<Rightarrow> string) \<Rightarrow> ('f, 'h) vfs_ops \<Rightarrow> (string \<times> 'f) option \<Rightarrow> nat \<Rightarrow> string \<Rightarrow> bool \<Rightarrow> 'f \<Rightarrow>
     ((native_error + unit) \<times> 'f) option" where
  "native_fs_remove dbg X broken fuel path recursive f =
     map_option (\<lambda>answer. context_sdk dbg broken (\<lambda>_. answer) f) (sfs_remove X fuel path recursive f)"

definition native_fs_rename ::
    "(string list \<Rightarrow> string) \<Rightarrow> ('f, 'h) vfs_ops \<Rightarrow> (string \<times> 'f) option \<Rightarrow> string \<Rightarrow> string \<Rightarrow> 'f \<Rightarrow> (native_error + unit) \<times> 'f" where
  "native_fs_rename dbg X broken src dst = context_sdk dbg broken (sfs_rename X src dst)"

definition native_wait_for_port ::
    "(string list \<Rightarrow> string) \<Rightarrow> (string \<times> unit) option \<Rightarrow> nat \<Rightarrow> nat \<Rightarrow> ((sdk_error + unit) \<times> (net_error + unit)) list \<Rightarrow>
     native_error + unit" where
  "native_wait_for_port dbg broken port timeout_ms rounds =
     (if port = 0 then Inl (invalid_argument ''`port` must be between 1 and 65535'')
      else fst (context_sdk dbg broken (\<lambda>u. (ports_wait port timeout_ms rounds, u)) ()))"

section \<open>What the order of a hash map can change\<close>

lemma bt_extend_any_order:
  assumes "distinct (map fst kvs)" "distinct (map fst kvs')" "set kvs = set kvs'" "bt_ok m"
  shows "bt_extend kvs m = bt_extend kvs' m"
proof (rule bt_unique)
  have "map_of (rev kvs) = map_of (rev kvs')"
    using assms(1-3) by (simp add: map_of_inject_set rev_map [symmetric])
  then show "bt_get (bt_extend kvs m) k = bt_get (bt_extend kvs' m) k" for k
    by (simp add: bt_get_extend)
qed (rule bt_ok_extend [OF assms(4)])+

lemma fold_command_env:
  "fold (\<lambda>(key, val). command_env key val) env c = c\<lparr>cmd_env := bt_extend env (cmd_env c)\<rparr>"
  by (induction env arbitrary: c) (auto simp: command_env_def bt_extend_def)

lemma fold_builder_env:
  "fold (\<lambda>(key, val). builder_env key val) env b = b\<lparr>bd_env := bt_extend env (bd_env b)\<rparr>"
  by (induction env arbitrary: b) (auto simp: builder_env_def bt_extend_def)

lemma fold_builder_file:
  "fold (\<lambda>(path, contents). builder_file path contents) files b = b\<lparr>bd_files := bd_files b @ files\<rparr>"
  by (induction files arbitrary: b) (auto simp: builder_file_def)

lemma fold_builder_package:
  "fold (\<lambda>p. builder_package (ResolvedSource p)) ps b = b\<lparr>bd_packages := bd_packages b @ map ResolvedSource ps\<rparr>"
  by (induction ps arbitrary: b) (auto simp: builder_package_def)

lemmas folded_builder = fold_builder_env fold_builder_file fold_builder_package

lemma configured_command:
  "configure_command (command_new sel) args cwd env = (command_new sel)\<lparr>cmd_args := args, cmd_env := bt_extend env [],
     cmd_current_dir := (case cwd of None \<Rightarrow> ''/workspace'' | Some path \<Rightarrow> path)\<rparr>"
  by (simp add: configure_command_def fold_command_env command_args_def command_current_dir_def command_new_def
      split: option.split)

text \<open>A native call means the same in whatever order its hash maps iterate, as far as they become sorted maps:
  the environment of a command or a sandbox and the maps of a package's definition. The files of a
  new sandbox keep the order of iteration.\<close>

lemma hash_order_irrelevant:
  assumes "distinct (map fst env)" "distinct (map fst env')" "set env = set env'"
  shows "configure_command (command_new sel) args cwd env = configure_command (command_new sel) args cwd env'"
    and "native_builder ps files env network = native_builder ps files env' network"
    and "definition_of (d\<lparr>nd_commands := env\<rparr>) = definition_of (d\<lparr>nd_commands := env'\<rparr>)"
  using bt_extend_any_order [OF assms bt_ok_Nil]
  by (simp_all add: configured_command native_builder_def folded_builder definition_of_def builder_network_def builder_new_def)

lemma native_builder_files: "bd_files (native_builder ps files env network) = files"
  by (simp add: native_builder_def folded_builder builder_network_def builder_new_def)

section \<open>The streams of a native process\<close>

lemma apply_common_options_Inr:
  "apply_common_options timeout_ms output_bytes c = Inr c1 \<Longrightarrow> cmd_terminal c1 = cmd_terminal c \<and> cmd_input c1 = cmd_input c"
  by (auto simp: apply_common_options_def map_ok_Inr_iff command_timeout_def command_output_bytes_def Let_def
      split: option.split_asm)

lemma context_sdk_Inr: "context_sdk dbg broken task s = (Inr a, s1) \<longleftrightarrow> broken = None \<and> task s = (Inr a, s1)"
  by (cases "task s"; cases "fst (task s)"; cases broken) (auto simp: context_sdk_def split: prod.split)

lemma spawned_stdin:
  assumes "spawn_command B S M browser limit base defaults pid meanwhile c s = (Inr p, s1)" "cmd_terminal c = None"
  shows "pr_stdin p \<noteq> None \<longleftrightarrow> cmd_stdin c = Piped" and "pr_terminal p = None"
proof -
  obtain launch env w stdin s2 where started: "start_guest B S M browser limit c s = Inr (launch, env, w, stdin)"
    and p: "p = spawned_process limit base defaults c launch w stdin"
    using assms(1)
    by (cases "start_guest B S M browser limit c s") (auto simp: spawn_command_def Let_def split: option.split_asm sum.split_asm)
  obtain cwd selected mounted exec_name where
    "attach_terminal c (la_stdio launch) = Inr stdin"
    "launch = make_launch B limit c s cwd selected mounted exec_name"
    using started by (rule start_guest_Inr) blast
  then have "stdin \<longleftrightarrow> cmd_stdin c = Piped"
    using assms(2) by (auto simp: attach_terminal_def make_launch_def wire_stdio_def effective_mode_def Let_def
        split: prod.split_asm if_split_asm)
  then show "pr_stdin p \<noteq> None \<longleftrightarrow> cmd_stdin c = Piped" "pr_terminal p = None"
    using assms(2) by (simp_all add: p spawned_process_def process_new_def)
qed

lemma spawn_configured_Inr:
  assumes "spawn_configured options c = Inr c1" "cmd_terminal c = None"
  shows "cmd_terminal c1 = None" "cmd_stdin c1 = input_of (sp_stdin options)"
    "cmd_stdout c1 = output_of (sp_stdout options)" "cmd_stderr c1 = output_of (sp_stderr options)"
  using assms by (auto simp: spawn_configured_def map_ok_Inr_iff command_stdin_def command_stdout_def command_stderr_def
      dest!: apply_common_options_Inr)

lemma mode_of_eqs [simp]:
  "input_of i = Piped \<longleftrightarrow> i = ImPipe" "output_of j = Piped \<longleftrightarrow> j = OmPipe" "output_of j = CaptureMode \<longleftrightarrow> j = OmCapture"
  by (cases i; simp) (cases j; simp)+

lemma piped_outputs:
  "cmd_terminal c = None \<Longrightarrow> io_stdout (wire_stdio limit c) \<longleftrightarrow> cmd_stdout c = Piped"
  "cmd_terminal c = None \<Longrightarrow> io_stderr (wire_stdio limit c) \<longleftrightarrow> cmd_stderr c = Piped"
  by (auto simp: wire_stdio_def effective_mode_def guest_output_file_def Let_def split: stdio.split)

lemma captured_run:
  assumes "cmd_terminal c = None"
  shows "\<not> io_stdout (wire_stdio n (output_command c))" "\<not> io_stderr (wire_stdio n (output_command c))"
    "io_guest_stdout (wire_stdio n (output_command c)) = CapturedFile (capture_file_new (capture_new n))"
  using assms by (simp_all add: wire_stdio_def output_command_def effective_mode_def guest_output_file_def Let_def)

text \<open>The streams of a native process are what its options say. However a command was configured, a
  spawned process has a stream exactly where its flags say so, which is where a pipe was asked for; the
  streams are no longer the process's own, and it has no terminal. A command that is run to completion
  leaves no live stream behind that nobody reads: its outputs are captured, whatever options it was given.\<close>

theorem native_streams_as_asked:
  assumes "c = configure_command (command_new sel) args cwd env"
    and "native_spawn dbg broken (spawn_command B S M False limit base defaults pid meanwhile) pid options c s = (Inr np, s1)"
    and "run_configured ropts c = Inr c1"
  shows "(np_has_stdin np \<longleftrightarrow> np_stdin np \<noteq> None) \<and> (np_has_stdin np \<longleftrightarrow> sp_stdin options = ImPipe) \<and>
    (np_has_stdout np \<longleftrightarrow> np_stdout np \<noteq> None) \<and> (np_has_stdout np \<longleftrightarrow> sp_stdout options = OmPipe) \<and>
    (np_has_stderr np \<longleftrightarrow> np_stderr np \<noteq> None) \<and> (np_has_stderr np \<longleftrightarrow> sp_stderr options = OmPipe) \<and>
    pr_stdin (np_process np) = None \<and> pr_stdout (np_process np) = None \<and> pr_stderr (np_process np) = None \<and>
    pr_terminal (np_process np) = None \<and> pid \<in> set (sb_processes s1) \<and> sb_live s1 pid = Some (pr_control (np_process np)) \<and>
    \<not> io_stdout (wire_stdio n (output_command c1)) \<and> \<not> io_stderr (wire_stdio n (output_command c1)) \<and>
    io_guest_stdout (wire_stdio n (output_command c1)) = CapturedFile (capture_file_new (capture_new n))"
proof -
  have plain: "cmd_terminal c = None" unfolding assms(1) configured_command by (simp add: command_new_def)
  obtain c2 p where c2: "spawn_configured options c = Inr c2"
    and p: "spawn_command B S M False limit base defaults pid meanwhile c2 s = (Inr p, s1)" "np = native_process_of pid options p"
    using assms(2) by (auto simp: native_spawn_def bind_st_Inr context_sdk_Inr)
  note modes = spawn_configured_Inr [OF c2 plain]
  have "cmd_terminal c1 = None"
    using assms(3) plain by (auto simp: run_configured_def map_ok_Inr_iff command_input_def
        dest!: apply_common_options_Inr split: option.splits)
  then have captured: "\<not> io_stdout (wire_stdio n (output_command c1))" "\<not> io_stderr (wire_stdio n (output_command c1))"
      "io_guest_stdout (wire_stdio n (output_command c1)) = CapturedFile (capture_file_new (capture_new n))"
    by (rule captured_run)+
  have np: "np_has_stdin np \<longleftrightarrow> sp_stdin options = ImPipe" "np_has_stdout np \<longleftrightarrow> sp_stdout options = OmPipe"
      "np_has_stderr np \<longleftrightarrow> sp_stderr options = OmPipe" "np_stdin np = pr_stdin p" "np_stdout np = pr_stdout p"
      "np_stderr np = pr_stderr p" "pr_stdin (np_process np) = None" "pr_stdout (np_process np) = None"
      "pr_stderr (np_process np) = None" "pr_terminal (np_process np) = pr_terminal p"
      "pr_control (np_process np) = pr_control p"
    by (simp_all add: p(2) native_process_of_def take_stdin_def take_stdout_def take_stderr_def)
  have reg: "sb_live s1 pid = Some (pr_control p)" "pid \<in> set (sb_processes s1)"
      "pr_stdout p \<noteq> None \<longleftrightarrow> cmd_stdout c2 = Piped" "pr_stderr p \<noteq> None \<longleftrightarrow> cmd_stderr c2 = Piped"
    using spawn_registers [OF refl p(1)] piped_outputs [OF modes(1)] by simp_all
  show ?thesis
    unfolding np reg(1) using spawned_stdin [OF p(1) modes(1)] reg(2-4) captured unfolding modes by simp
qed

definition demo_spawn_options :: spawn_options where
  "demo_spawn_options = \<lparr>sp_timeout_ms = None, sp_output_bytes = None, sp_stdin = ImClosed, sp_stdout = OmPipe, sp_stderr = OmPipe\<rparr>"

lemma demo_configured: "configure_command (command_new (NameSel ''a'')) [] None [(''LANG'', ''D'')] = demo_command"
  unfolding configured_command by (simp add: demo_command_def command_env_def command_new_def bt_extend_def)

lemma demo_spawn_configured: "spawn_configured demo_spawn_options demo_command = Inr demo_command"
  by (simp add: spawn_configured_def demo_spawn_options_def apply_common_options_def command_stdin_def command_stdout_def
      command_stderr_def demo_command_def command_env_def command_new_def)

theorem native_streams_as_asked_witness:
  "\<exists>np s1. native_spawn concat None (spawn_command listed_binary demo_spawn demo_mount_ops False 100 () \<lparr>set_cols = 80, set_rows = 24,
        set_echo = True, set_line_buffering = True, set_line_feeds = True\<rparr> 9 (\<lambda>s. s)) 9 demo_spawn_options demo_command demo_open = (Inr np, s1)
     \<and> np_stdout np \<noteq> None \<and> np_stdin np = None \<and> sb_live s1 9 = Some (pr_control (np_process np))"
proof -
  define d where "d = \<lparr>set_cols = 80, set_rows = 24, set_echo = True, set_line_buffering = True, set_line_feeds = True\<rparr>"
  obtain p s1 where "spawn_command listed_binary demo_spawn demo_mount_ops False 100 () d 9 (\<lambda>s. s) demo_command demo_open = (Inr p, s1)"
    using demo_no_timeout by (simp add: spawn_command_def demo_started Let_def)
  then have run: "native_spawn concat None (spawn_command listed_binary demo_spawn demo_mount_ops False 100 () d 9 (\<lambda>s. s)) 9
      demo_spawn_options demo_command demo_open = (Inr (native_process_of 9 demo_spawn_options p), s1)"
    by (simp add: native_spawn_def demo_spawn_configured context_sdk_def)
  have ropts: "run_configured \<lparr>ro_input = None, ro_timeout_ms = None, ro_output_bytes = None\<rparr> demo_command = Inr demo_command"
    by (simp add: run_configured_def apply_common_options_def)
  have modes: "sp_stdin demo_spawn_options = ImClosed" "sp_stdout demo_spawn_options = OmPipe"
    by (simp_all add: demo_spawn_options_def)
  note all = native_streams_as_asked [OF demo_configured [symmetric] run ropts, where n = 0, unfolded modes]
  show ?thesis
    by (rule exI, rule exI, rule conjI [OF run [unfolded d_def]]) (use all in auto)
qed

section \<open>Reading and writing a process's streams\<close>

text \<open>One call's part in the shared streams: a read checks its size and then reads under the lock; a write to
  a stdin that was taken out fails as a broken pipe. \<open>broken\<close> is the join error of a task that panicked.\<close>

definition native_read ::
    "(io_error \<Rightarrow> string) \<Rightarrow> (string \<times> 's option) option \<Rightarrow> (usize \<Rightarrow> 's \<Rightarrow> ((io_error + byte list) \<times> 's) poll) \<Rightarrow> nat \<Rightarrow>
     's option \<Rightarrow> ((native_error + byte list option) \<times> 's option) poll" where
  "native_read show broken rd max_bytes stream = (case checked_read_size max_bytes of
     Inl e \<Rightarrow> Ready (Inl e, stream)
   | Inr n \<Rightarrow> (case read_body rd n stream of
       Pending \<Rightarrow> Pending
     | Ready answer \<Rightarrow> Ready (context_io show broken (\<lambda>_. answer) stream)))"

definition stdin_gone :: io_error where
  "stdin_gone = Io_Error BrokenPipe ''broken pipe''"

definition native_write_stdin ::
    "(io_error \<Rightarrow> string) \<Rightarrow> (string \<times> 's option) option \<Rightarrow> (byte list \<Rightarrow> 's \<Rightarrow> (io_error + unit) \<times> 's) \<Rightarrow> byte list \<Rightarrow>
     's option \<Rightarrow> (native_error + unit) \<times> 's option" where
  "native_write_stdin show broken write_all bs = context_io show broken (\<lambda>stdin. case stdin of
     None \<Rightarrow> (Inl stdin_gone, None)
   | Some s \<Rightarrow> (case write_all bs s of (r, s1) \<Rightarrow> (r, Some s1)))"

definition native_close_stdin ::
    "(io_error \<Rightarrow> string) \<Rightarrow> (string \<times> 's option) option \<Rightarrow> ('s \<Rightarrow> io_error + unit) \<Rightarrow> 's option \<Rightarrow>
     (native_error + unit) \<times> 's option" where
  "native_close_stdin show broken shut = context_io show broken (\<lambda>stdin. case stdin of
     None \<Rightarrow> (Inr (), None) | Some s \<Rightarrow> (shut s, None))"

text \<open>A call that reads is a turn of the shared stream, with the facade's own error.\<close>

lemma native_read_turn:
  assumes "native_read show None rd max_bytes stream = Ready (r, stream1)" "checked_read_size max_bytes = Inr n"
  shows "\<exists>r0. read_body rd n stream = Ready (r0, stream1) \<and> r = map_err (of_io_error show) r0 \<and> 0 < n"
  using assms by (cases "read_body rd n stream")
    (auto simp: native_read_def context_io_def map_err_st_def checked_read_size_Inr)

lemma native_read_refused: "native_read show broken rd 0 stream = Ready (Inl (invalid_argument ''`max_bytes` must be greater than zero''), stream)"
  by (simp add: native_read_def checked_read_size_def)

section \<open>Progress\<close>

text \<open>The facade's own copies of the progress types.\<close>

datatype native_phase = NpResolving | NpDownloading | NpLoading | NpReady

fun native_phase_of :: "load_phase \<Rightarrow> native_phase" where
  "native_phase_of Resolving = NpResolving"
| "native_phase_of Downloading = NpDownloading"
| "native_phase_of Loading = NpLoading"
| "native_phase_of LoadReady = NpReady"

record 'f native_download =
  ndl_downloaded_bytes :: nat
  ndl_total_bytes :: "nat option"
  ndl_percent :: "'f option"

definition native_download_of :: "'f download_progress \<Rightarrow> 'f native_download" where
  "native_download_of d = \<lparr>ndl_downloaded_bytes = dp_downloaded d, ndl_total_bytes = dp_total d, ndl_percent = dp_percent d\<rparr>"

record 'f native_package_progress =
  npp_id :: string
  npp_phase :: native_phase
  npp_cached :: bool
  npp_download :: "'f native_download"

record 'f native_report =
  nr_phase :: native_phase
  nr_download :: "'f native_download"
  nr_packages :: "'f native_package_progress list"

definition native_report_of :: "'f load_report \<Rightarrow> 'f native_report" where
  "native_report_of r =
     \<lparr>nr_phase = native_phase_of (lr_phase r), nr_download = native_download_of (lr_download r),
      nr_packages = map (\<lambda>p. \<lparr>npp_id = pp_id p, npp_phase = native_phase_of (pp_phase p), npp_cached = pp_cached p,
        npp_download = native_download_of (pp_download p)\<rparr>) (lr_packages r)\<rparr>"

section \<open>Loading packages with a cancellation\<close>

datatype 'b native_source = NsRegistry string | NsPath string | NsBytes "byte list" | NsPackage "'b package"

fun source_of :: "'b native_source \<Rightarrow> 'b package_source" where
  "source_of (NsRegistry specifier) = RegistrySource specifier"
| "source_of (NsPath path) = PathSource path"
| "source_of (NsBytes bs) = BytesSource bs"
| "source_of (NsPackage p) = ResolvedSource p"

text \<open>The caller's cancellation is cancelled whenever the call is dropped, which is
  also when it returns: \<open>load_dropped\<close> is the token that is left.\<close>

definition native_load_options :: "bool \<Rightarrow> cancellation \<Rightarrow> load_options" where
  "native_load_options observed token =
     (let opts = with_cancellation token load_options_default in if observed then on_progress opts else opts)"

definition load_dropped :: "cancellation \<Rightarrow> cancellation" where
  "load_dropped token = cancel token"

text \<open>The reports, the answer once there is one, and the token afterwards.\<close>

definition native_load_packages ::
    "(string list \<Rightarrow> string) \<Rightarrow> 'x f64_ops \<Rightarrow> string option \<Rightarrow> 'b native_source list \<Rightarrow> bool \<Rightarrow> cancellation option \<Rightarrow> nat \<Rightarrow>
     'b client \<Rightarrow> ('x, 'b package list) select_turn list \<Rightarrow>
     (nat \<times> 'x native_report) list \<times> (native_error + 'b package list) option \<times> cancellation" where
  "native_load_packages dbg F broken sources observed cancellation now c turns =
     (let token = (case cancellation of None \<Rightarrow> cancellation_new | Some t \<Rightarrow> t);
          (sent, res) = load_many_with_options F (native_load_options observed token) (map source_of sources) now c turns;
          reports = map (\<lambda>(at, r). (at, native_report_of r)) sent
      in case broken of
           Some e \<Rightarrow> (reports, Some (Inl (task_failure (''SDK task failed: '' @ e))), load_dropped token)
         | None \<Rightarrow> (reports, map_option (map_err (of_sdk_error dbg)) res,
             case res of None \<Rightarrow> token | Some r \<Rightarrow> load_dropped token))"

section \<open>A cancellation is used up\<close>

lemma load_dropped_cancelled [simp]: "is_cancelled (load_dropped token)"
  by (simp add: load_dropped_def is_cancelled_def cancel_def)

text \<open>A call that returns leaves the caller's cancellation cancelled, also when it loaded everything, so a second call
  with the same cancellation loads nothing, reports nothing and answers that it was cancelled.\<close>

lemma cancellation_used_up:
  assumes "native_load_packages dbg F broken sources observed (Some token) now c turns = (reports, Some r, token1)"
  shows "is_cancelled token1 \<and>
    (\<forall>G. \<not> ct_closed c1 \<longrightarrow> native_load_packages dbg G None sources1 observed1 (Some token1) now1 c1 turns1 =
       ([], Some (Inl (of_sdk_error dbg Cancelled)), load_dropped token1))"
proof -
  have used: "is_cancelled token1"
    using assms by (auto simp: native_load_packages_def Let_def split: prod.split_asm option.split_asm)
  moreover have "native_load_packages dbg G None sources1 observed1 (Some token1) now1 c1 turns1 =
      ([], Some (Inl (of_sdk_error dbg Cancelled)), load_dropped token1)" if "\<not> ct_closed c1" for G
    using used that
    by (simp add: native_load_packages_def load_many_with_options_def client_ensure_open_def native_load_options_def
        with_cancellation_def on_progress_def observe_def Let_def)
  ultimately show ?thesis by blast
qed

end
