(* ===== verification/Worker_Tasks.thy ===== *)
theory Worker_Tasks
  imports Thread_Pool
begin

text \<open>
  What a pool worker runs on: the errors that cross to JavaScript, the global scope and its delays
  (js/bindgen/src/worker_utils.rs), the start of the pool (tasks/thread_pool.rs), the grace period
  before a worker is terminated (tasks/scheduler.rs), and the start of a WASIX thread
  (tasks/task_wasm.rs). JavaScript's values, anyhow's errors and the WebAssembly engine are parameters.
\<close>

section \<open>Errors\<close>

text \<open>What can be asked of a JavaScript value: the message of an \<open>Error\<close>, the text of an object, the
  text of a string, and Rust's debug text of any value.\<close>

record 'j js_inspect =
  ji_error :: "'j \<Rightarrow> string option"
  ji_object :: "'j \<Rightarrow> string option"
  ji_string :: "'j \<Rightarrow> string option"
  ji_debug :: "'j \<Rightarrow> string"

text \<open>An error with causes: its text, its text with causes, its debug text, and the texts of its causes.\<close>

record 'e anyhow_ops =
  ah_msg :: "string \<Rightarrow> 'e"
  ah_text :: "'e \<Rightarrow> string"
  ah_alternate :: "'e \<Rightarrow> string"
  ah_debug :: "'e \<Rightarrow> string"
  ah_causes :: "'e \<Rightarrow> string list"

definition js_value_text :: "'j js_inspect \<Rightarrow> 'j \<Rightarrow> string option" where
  "js_value_text I v = (case ji_error I v of
     Some m \<Rightarrow> Some m
   | None \<Rightarrow> (case ji_object I v of Some s \<Rightarrow> Some s | None \<Rightarrow> ji_string I v))"

definition error_of_js :: "'j js_inspect \<Rightarrow> 'e anyhow_ops \<Rightarrow> 'j \<Rightarrow> 'e" where
  "error_of_js I A v = ah_msg A (case js_value_text I v of
     Some m \<Rightarrow> m | None \<Rightarrow> ''An unknown error occurred: '' @ ji_debug I v)"

datatype ('e, 'j) worker_error = RustError 'e | JavaScriptError 'j

fun into_anyhow :: "'j js_inspect \<Rightarrow> 'e anyhow_ops \<Rightarrow> ('e, 'j) worker_error \<Rightarrow> 'e" where
  "into_anyhow I A (RustError e) = e"
| "into_anyhow I A (JavaScriptError v) = error_of_js I A v"

record js_error_object =
  je_message :: string
  je_detailed :: string
  je_causes :: "string list"

text \<open>The value that is thrown: a JavaScript value as it came, or a new \<open>Error\<close>.\<close>

fun worker_error_into_js :: "'e anyhow_ops \<Rightarrow> ('e, 'j) worker_error \<Rightarrow> 'j + js_error_object" where
  "worker_error_into_js A (JavaScriptError v) = Inl v"
| "worker_error_into_js A (RustError e) =
     Inr \<lparr>je_message = ah_alternate A e, je_detailed = ah_debug A e, je_causes = ah_causes A e\<rparr>"

fun worker_error_text :: "'j js_inspect \<Rightarrow> 'e anyhow_ops \<Rightarrow> ('e, 'j) worker_error \<Rightarrow> string" where
  "worker_error_text I A (RustError e) = ah_text A e"
| "worker_error_text I A (JavaScriptError v) =
     (case js_value_text I v of Some m \<Rightarrow> m | None \<Rightarrow> ''A JavaScript error occurred'')"

text \<open>An error reads the same before and after its conversion, unless JavaScript threw something that is no
  error, no object and no string.\<close>

lemma converted_error_text:
  assumes "\<And>m. ah_text A (ah_msg A m) = m" "\<And>v. x = JavaScriptError v \<Longrightarrow> js_value_text I v \<noteq> None"
  shows "ah_text A (into_anyhow I A x) = worker_error_text I A x"
  using assms by (cases x) (auto simp: error_of_js_def)

section \<open>The global scope and the start of the pool\<close>

text \<open>What \<open>globalThis\<close> is an instance of, whether it is cross-origin isolated, and the two functions a delay uses.\<close>

record js_global =
  jg_window :: bool
  jg_worker :: bool
  jg_isolated :: "bool option"
  jg_set_timeout :: bool
  jg_clear_timeout :: bool

datatype global_scope = WindowScope | WorkerScope | OtherScope

definition current_scope :: "js_global \<Rightarrow> global_scope" where
  "current_scope g = (if jg_window g then WindowScope else if jg_worker g then WorkerScope else OtherScope)"

text \<open>The pool is open from the start; a page that is known not to be isolated gets a warning.\<close>

definition pool_new :: "js_global \<Rightarrow> nat option \<Rightarrow> ('t, 'v, 'p) thread_pool \<times> bool" where
  "pool_new g parallelism =
     (\<lparr>tp_parallelism = parallelism, tp_open = True, tp_channel = []\<rparr>,
      case jg_isolated g of None \<Rightarrow> False | Some isolated \<Rightarrow> \<not> isolated)"

text \<open>The grace period: the global's number when it is finite and not negative (\<open>negative\<close> is its sign,
  which truncation may lose), at most the largest 32-bit integer.\<close>

definition default_grace_ms :: int where
  "default_grace_ms = 500"

definition terminate_grace_ms :: "(f64_value \<times> bool) option \<Rightarrow> int" where
  "terminate_grace_ms setting = (case setting of
     Some (F_Finite ms, negative) \<Rightarrow> if negative then default_grace_ms else f64_as_i32 (F_Finite (min ms (int i32_max)))
   | _ \<Rightarrow> default_grace_ms)"

lemma terminate_grace_bounds:
  assumes "\<And>ms. setting = Some (F_Finite ms, False) \<Longrightarrow> 0 \<le> ms"
  shows "0 \<le> terminate_grace_ms setting" "terminate_grace_ms setting \<le> int i32_max"
  using assms
  by (auto simp: terminate_grace_ms_def default_grace_ms_def f64_as_i32_def f64_cast_def i32_max_def
      split: option.split f64_value.split)

section \<open>Delays\<close>

text \<open>
  A delay owns the callback it gives to the host's timer; dropping the delay clears the timer and then
  frees the callback. \<open>dl_freed_call\<close> records that the host called a freed callback.
\<close>

record delay =
  dl_armed :: bool
  dl_alive :: bool
  dl_sender :: bool
  dl_sent :: bool
  dl_clear :: bool
  dl_freed_call :: bool

definition delay_new :: "js_global \<Rightarrow> delay" where
  "delay_new g = \<lparr>dl_armed = jg_set_timeout g, dl_alive = True, dl_sender = True, dl_sent = False,
     dl_clear = jg_clear_timeout g, dl_freed_call = False\<rparr>"

definition delay_callback :: "delay \<Rightarrow> delay" where
  "delay_callback d = (if dl_sender d then d\<lparr>dl_sender := False, dl_sent := True\<rparr> else d)"

definition delay_poll :: "delay \<Rightarrow> unit poll" where
  "delay_poll d = (if dl_sent d then Ready () else Pending)"

definition delay_drop :: "delay \<Rightarrow> delay" where
  "delay_drop d = (let cleared = (if dl_clear d then d\<lparr>dl_armed := False\<rparr> else d) in cleared\<lparr>dl_alive := False\<rparr>)"

text \<open>The host's timer fires once, when it was not cleared.\<close>

inductive delay_step :: "delay \<Rightarrow> delay \<Rightarrow> bool" where
  timer_fires: "dl_armed d \<Longrightarrow> dl_alive d \<Longrightarrow> delay_step d ((delay_callback d)\<lparr>dl_armed := False\<rparr>)"
| timer_fires_late: "dl_armed d \<Longrightarrow> \<not> dl_alive d \<Longrightarrow> delay_step d (d\<lparr>dl_armed := False, dl_freed_call := True\<rparr>)"
| delay_dropped: "dl_alive d \<Longrightarrow> delay_step d (delay_drop d)"

definition delay_inv :: "js_global \<Rightarrow> delay \<Rightarrow> bool" where
  "delay_inv g d \<longleftrightarrow> dl_clear d = jg_clear_timeout g \<and> dl_sent d = (\<not> dl_sender d) \<and>
     (jg_clear_timeout g \<longrightarrow> \<not> dl_freed_call d \<and> (\<not> dl_alive d \<longrightarrow> \<not> dl_armed d)) \<and>
     (dl_sent d \<longrightarrow> \<not> dl_armed d) \<and> (dl_alive d \<and> jg_set_timeout g \<longrightarrow> dl_armed d \<or> dl_sent d) \<and>
     (\<not> jg_set_timeout g \<longrightarrow> \<not> dl_armed d \<and> \<not> dl_sent d)"

interpretation delays: inductive_invariant "\<lambda>d. d = delay_new g" delay_step "delay_inv g"
proof
  show "delay_inv g d" if "d = delay_new g" for d
    using that by (simp add: delay_inv_def delay_new_def)
  show "delay_inv g d'" if "delay_inv g d" "delay_step d d'" for d d'
    using that(2,1) by cases (auto simp: delay_inv_def delay_callback_def delay_drop_def Let_def)
qed

text \<open>With \<open>clearTimeout\<close> the host never calls a freed callback and a dropped delay leaves no timer behind;
  with \<open>setTimeout\<close> a delay that is waited for is complete once its timer fires. Without
  \<open>setTimeout\<close> it is never complete.\<close>

lemma delay_outcome:
  assumes "reachable (\<lambda>d. d = delay_new g) delay_step d"
  shows "(jg_clear_timeout g \<longrightarrow> \<not> dl_freed_call d \<and> (\<not> dl_alive d \<longrightarrow> \<not> dl_armed d)) \<and>
    (jg_set_timeout g \<and> dl_alive d \<and> delay_poll d = Pending \<longrightarrow>
       (\<exists>d'. delay_step d d' \<and> dl_alive d' \<and> delay_poll d' = Ready ())) \<and>
    (\<not> jg_set_timeout g \<longrightarrow> delay_poll d = Pending)"
proof -
  have inv: "delay_inv g d" using assms by (rule delays.reachable_inv)
  have "\<exists>d'. delay_step d d' \<and> dl_alive d' \<and> delay_poll d' = Ready ()"
    if "jg_set_timeout g" "dl_alive d" "delay_poll d = Pending"
  proof (intro exI conjI)
    show "delay_step d ((delay_callback d)\<lparr>dl_armed := False\<rparr>)"
      using that inv by (intro timer_fires) (auto simp: delay_inv_def delay_poll_def split: if_split_asm)
  qed (use that inv in \<open>auto simp: delay_inv_def delay_callback_def delay_poll_def split: if_split_asm\<close>)
  then show ?thesis using inv by (auto simp: delay_inv_def delay_poll_def)
qed

section \<open>Starting a WASIX thread\<close>

text \<open>
  A task that has been transported: how its memory is made, what the engine needs, its callbacks (the
  trigger's result is the value it gives when it is awaited), and what is recycled.
\<close>

datatype ('y, 'a, 'd) spawn_type =
  CreateMemory | CreateMemoryOfType 'y | AttachMemory 'a | NewLinkerInstanceGroup 'd

datatype ('y, 's, 'm) memory_or_store = NewMemory | MemoryOfType 'y | StoreAndMemory 's 'm

record ('y, 'a, 'd, 'md, 'en, 'gl, 'cs, 'rc) wasm_task =
  wa_spawn :: "('y, 'a, 'd) spawn_type"
  wa_module :: 'md
  wa_env :: 'en
  wa_globals :: 'gl
  wa_update_layout :: bool
  wa_call_initialize :: bool
  wa_trigger :: "(nat + byte list) option"
  wa_pre_run :: "('cs \<Rightarrow> 'cs) option"
  wa_recycle :: 'rc

record ('y, 'a, 'd, 'md, 'en, 'gl, 's, 'm, 'c) wasm_engine =
  we_new_store :: "'en \<Rightarrow> 's"
  we_attach :: "'a \<Rightarrow> 's \<Rightarrow> 'm \<times> 's"
  we_context :: "'md \<Rightarrow> 'en \<Rightarrow> 'gl \<Rightarrow> ('y, 's, 'm) memory_or_store \<Rightarrow> bool \<Rightarrow> bool \<Rightarrow> 'd option \<Rightarrow> string + 'c \<times> 's"

text \<open>\<open>begin\<close> takes the trigger out and awaits it; its result stays with the task.\<close>

definition spawn_begin ::
    "('y, 'a, 'd, 'md, 'en, 'gl, 'cs, 'rc) wasm_task \<Rightarrow>
     ('y, 'a, 'd, 'md, 'en, 'gl, 'cs, 'rc) wasm_task \<times> (nat + byte list) option" where
  "spawn_begin t = (t\<lparr>wa_trigger := None\<rparr>, wa_trigger t)"

definition spawn_memory ::
    "('y, 'a, 'd, 'md, 'en, 'gl, 's, 'm, 'c) wasm_engine \<Rightarrow> 'en \<Rightarrow> ('y, 'a, 'd) spawn_type \<Rightarrow>
     ('y, 's, 'm) memory_or_store \<times> 'd option" where
  "spawn_memory E env spawn = (case spawn of
     CreateMemory \<Rightarrow> (NewMemory, None)
   | CreateMemoryOfType ty \<Rightarrow> (MemoryOfType ty, None)
   | AttachMemory memory \<Rightarrow> (case we_attach E memory (we_new_store E env) of (m, s) \<Rightarrow> (StoreAndMemory s m, None))
   | NewLinkerInstanceGroup data \<Rightarrow> (NewMemory, Some data))"

text \<open>What the task's \<open>run\<close> callback is called with.\<close>

record ('cs, 'rc) run_properties =
  rp_context :: 'cs
  rp_trigger :: "(nat + byte list) option"
  rp_recycle :: 'rc

definition spawn_execute ::
    "('y, 'a, 'd, 'md, 'en, 'gl, 's, 'm, 'c) wasm_engine \<Rightarrow>
     ('y, 'a, 'd, 'md, 'en, 'gl, 'c \<times> 's, 'rc) wasm_task \<times> (nat + byte list) option \<Rightarrow>
     (string \<times> string) + ('c \<times> 's, 'rc) run_properties" where
  "spawn_execute E ready = (case ready of (t, trigger) \<Rightarrow>
     (case spawn_memory E (wa_env t) (wa_spawn t) of (memory, linked) \<Rightarrow>
        bind_res (map_err (\<lambda>e. (''Failed to create WASI context'', e))
          (we_context E (wa_module t) (wa_env t) (wa_globals t) memory (wa_update_layout t) (wa_call_initialize t) linked))
        (\<lambda>cs. Inr \<lparr>rp_context = (case wa_pre_run t of None \<Rightarrow> cs | Some f \<Rightarrow> f cs), rp_trigger = trigger,
                     rp_recycle = wa_recycle t\<rparr>)))"

text \<open>A thread that gets a context runs, with the result of its trigger whatever that is; a thread that shares a
  memory gets exactly that memory, attached to a store of its own, and only a new instance group hands
  its data on.\<close>

lemma spawned_thread_runs:
  assumes "spawn_execute E (spawn_begin t) = Inr props"
  shows "rp_trigger props = wa_trigger t \<and> rp_recycle props = wa_recycle t \<and>
    (\<exists>memory linked cs. we_context E (wa_module t) (wa_env t) (wa_globals t) memory (wa_update_layout t)
         (wa_call_initialize t) linked = Inr cs \<and>
       rp_context props = (case wa_pre_run t of None \<Rightarrow> cs | Some f \<Rightarrow> f cs) \<and>
       (\<forall>a. wa_spawn t = AttachMemory a \<longrightarrow>
          memory = StoreAndMemory (snd (we_attach E a (we_new_store E (wa_env t)))) (fst (we_attach E a (we_new_store E (wa_env t))))) \<and>
       (linked \<noteq> None \<longleftrightarrow> (\<exists>d. wa_spawn t = NewLinkerInstanceGroup d \<and> linked = Some d)))"
proof -
  obtain memory linked where mem: "spawn_memory E (wa_env t) (wa_spawn t) = (memory, linked)" by fastforce
  obtain cs where cs: "we_context E (wa_module t) (wa_env t) (wa_globals t) memory (wa_update_layout t)
      (wa_call_initialize t) linked = Inr cs"
    and props: "props = \<lparr>rp_context = (case wa_pre_run t of None \<Rightarrow> cs | Some f \<Rightarrow> f cs), rp_trigger = wa_trigger t,
      rp_recycle = wa_recycle t\<rparr>"
    using assms by (auto simp: spawn_execute_def spawn_begin_def mem bind_res_Inr_iff map_err_Inr_iff)
  have shape: "(\<forall>a. wa_spawn t = AttachMemory a \<longrightarrow>
      memory = StoreAndMemory (snd (we_attach E a (we_new_store E (wa_env t)))) (fst (we_attach E a (we_new_store E (wa_env t))))) \<and>
    (linked \<noteq> None \<longleftrightarrow> (\<exists>d. wa_spawn t = NewLinkerInstanceGroup d \<and> linked = Some d))"
    using mem by (cases "wa_spawn t") (auto simp: spawn_memory_def split: prod.splits)
  have "rp_context props = (case wa_pre_run t of None \<Rightarrow> cs | Some f \<Rightarrow> f cs)" "rp_trigger props = wa_trigger t"
    "rp_recycle props = wa_recycle t"
    using props by simp_all
  with cs shape show ?thesis by blast
qed

end
